(* ===== verification/Portal_Prelude.thy ===== *)
theory Portal_Prelude
  imports Main
    "HOL-Library.Char_ord"
    "HOL-Library.List_Lexorder"
    "HOL-Library.Option_ord"
    "HOL-Library.Product_Lexorder"
begin

text \<open>
  What every component shares: Rust's fixed-width integers with their checked and wrapping
  arithmetic, panics as values, byte strings (trimming, splitting, decimal digits) and the
  list facts the table operations need.

  A Rust \<open>String\<close> is its UTF-8 bytes, a \<^typ>\<open>string\<close>; the order on strings is the byte-wise
  lexicographic order of \<open>HOL-Library.List_Lexorder\<close>, which is both Rust's \<open>Ord for str\<close> and
  SQLite's BINARY collation.
\<close>

section \<open>Automation collections\<close>

named_theorems width_defs \<open>the ranges of the fixed-width integers\<close>
named_theorems digit_simps \<open>decimal digits and their values\<close>

section \<open>Panics as values\<close>

text \<open>A Rust function that may panic returns a \<open>run\<close>: \<open>Panic\<close>, or \<open>Done\<close> with its value.\<close>

datatype 'a run = Panic | Done 'a

definition run_bind :: "'a run \<Rightarrow> ('a \<Rightarrow> 'b run) \<Rightarrow> 'b run" where
  "run_bind r f = (case r of Panic \<Rightarrow> Panic | Done x \<Rightarrow> f x)"

lemma run_bind_simps [simp]:
  "run_bind Panic f = Panic"
  "run_bind (Done x) f = f x"
  by (simp_all add: run_bind_def)

section \<open>Results\<close>

text \<open>Rust's \<open>Result\<close> is a sum, \<^const>\<open>Inl\<close> the error; \<open>res_bind\<close> is the \<open>?\<close> operator.\<close>

definition res_bind :: "'e + 'a \<Rightarrow> ('a \<Rightarrow> 'e + 'b) \<Rightarrow> 'e + 'b" where
  "res_bind r f = (case r of Inl e \<Rightarrow> Inl e | Inr x \<Rightarrow> f x)"

lemma res_bind_simps [simp]:
  "res_bind (Inl e) f = Inl e"
  "res_bind (Inr x) f = f x"
  by (simp_all add: res_bind_def)

lemma res_bind_Inr_iff: "res_bind r f = Inr y \<longleftrightarrow> (\<exists>x. r = Inr x \<and> f x = Inr y)"
  by (cases r) simp_all

lemma res_bind_Inl_iff:
  "res_bind r f = Inl e \<longleftrightarrow> r = Inl e \<or> (\<exists>x. r = Inr x \<and> f x = Inl e)"
  by (cases r) simp_all

section \<open>Fixed-width integers\<close>

text \<open>
  The machine integers are \<^typ>\<open>int\<close> values within the range of their width; every operation
  that can leave the range says what the code does there: \<open>checked_\<dots>\<close> returns \<^const>\<open>None\<close>,
  \<open>wrap_\<dots>\<close> reduces modulo the width (release builds), and a fallible conversion tests the range.
\<close>

type_synonym i32 = int
type_synonym i64 = int
type_synonym i128 = int
type_synonym u64 = int

definition in_i64 :: "int \<Rightarrow> bool" where
  [width_defs]: "in_i64 x \<longleftrightarrow> - (2 ^ 63) \<le> x \<and> x < 2 ^ 63"

definition in_u64 :: "int \<Rightarrow> bool" where
  [width_defs]: "in_u64 x \<longleftrightarrow> 0 \<le> x \<and> x < 2 ^ 64"

definition in_i128 :: "int \<Rightarrow> bool" where
  [width_defs]: "in_i128 x \<longleftrightarrow> - (2 ^ 127) \<le> x \<and> x < 2 ^ 127"

definition wrap_i64 :: "int \<Rightarrow> i64" where
  "wrap_i64 x = (x + 2 ^ 63) mod 2 ^ 64 - 2 ^ 63"

definition wrap_i128 :: "int \<Rightarrow> i128" where
  "wrap_i128 x = (x + 2 ^ 127) mod 2 ^ 128 - 2 ^ 127"

definition checked_add_i64 :: "i64 \<Rightarrow> i64 \<Rightarrow> i64 option" where
  "checked_add_i64 x y = (if in_i64 (x + y) then Some (x + y) else None)"

definition checked_add_i128 :: "i128 \<Rightarrow> i128 \<Rightarrow> i128 option" where
  "checked_add_i128 x y = (if in_i128 (x + y) then Some (x + y) else None)"

definition checked_mul_i64 :: "i64 \<Rightarrow> i64 \<Rightarrow> i64 option" where
  "checked_mul_i64 x y = (if in_i64 (x * y) then Some (x * y) else None)"

definition checked_mul_i128 :: "i128 \<Rightarrow> i128 \<Rightarrow> i128 option" where
  "checked_mul_i128 x y = (if in_i128 (x * y) then Some (x * y) else None)"

definition saturating_mul_i64 :: "i64 \<Rightarrow> i64 \<Rightarrow> i64" where
  "saturating_mul_i64 x y = max (- (2 ^ 63)) (min (2 ^ 63 - 1) (x * y))"

text \<open>Rust's integer division truncates towards zero.\<close>

definition rust_div :: "int \<Rightarrow> int \<Rightarrow> int" where
  "rust_div x y = sgn x * sgn y * (\<bar>x\<bar> div \<bar>y\<bar>)"

lemma rust_div_nonneg [simp]: "0 \<le> x \<Longrightarrow> 0 < y \<Longrightarrow> rust_div x y = x div y"
  by (cases "x = 0") (simp_all add: rust_div_def)

lemma wrap_i128_id: "in_i128 x \<Longrightarrow> wrap_i128 x = x"
  by (simp add: wrap_i128_def width_defs)

lemma wrap_i128_over: "2 ^ 127 \<le> x \<Longrightarrow> x < 2 ^ 128 \<Longrightarrow> wrap_i128 x = x - 2 ^ 128"
  unfolding wrap_i128_def
  by (subst int_mod_pos_eq [of _ _ 1 "x + 2 ^ 127 - 2 ^ 128"]) simp_all

lemma wrap_i128_add_left: "wrap_i128 (wrap_i128 x + y) = wrap_i128 (x + y)"
  by (simp add: wrap_i128_def algebra_simps mod_simps)

lemma wrap_i64_id: "in_i64 x \<Longrightarrow> wrap_i64 x = x"
  by (simp add: wrap_i64_def width_defs)

section \<open>Byte strings\<close>

subsection \<open>Splitting and trimming\<close>

definition split_once :: "char \<Rightarrow> string \<Rightarrow> (string \<times> string) option" where
  "split_once c s =
     (case dropWhile (\<lambda>b. b \<noteq> c) s of
        [] \<Rightarrow> None
      | _ # rest \<Rightarrow> Some (takeWhile (\<lambda>b. b \<noteq> c) s, rest))"

lemma split_once_notin:
  assumes "c \<notin> set w"
  shows "split_once c (w @ c # f) = Some (w, f)" "split_once c w = None"
proof -
  have "dropWhile (\<lambda>b. b \<noteq> c) (w @ c # f) = c # f" "takeWhile (\<lambda>b. b \<noteq> c) (w @ c # f) = w"
    "dropWhile (\<lambda>b. b \<noteq> c) w = []"
    using assms by (induction w) auto
  then show "split_once c (w @ c # f) = Some (w, f)" "split_once c w = None"
    by (simp_all only: split_once_def list.case)
qed

lemma split_once_SomeD:
  assumes "split_once c s = Some (w, f)"
  shows "s = w @ c # f"
proof -
  obtain d where d: "dropWhile (\<lambda>b. b \<noteq> c) s = d # f" and w: "w = takeWhile (\<lambda>b. b \<noteq> c) s"
    using assms by (auto simp: split_once_def split: list.splits)
  have "d = c" using hd_dropWhile [of "\<lambda>b. b \<noteq> c" s] d by simp
  with d w show ?thesis by (metis takeWhile_dropWhile_id)
qed

text \<open>
  The UTF-8 encodings of the characters with the Unicode property \<open>White_Space\<close>, which is what
  \<open>str::trim\<close> removes.
\<close>

definition white_space :: "string list" where
  "white_space =
     map (\<lambda>n. [char_of n]) [9, 10, 11, 12, 13, 32 :: nat]
     @ map (map char_of)
       [[0xC2, 0x85], [0xC2, 0xA0], [0xE1, 0x9A, 0x80],
        [0xE2, 0x80, 0x80], [0xE2, 0x80, 0x81], [0xE2, 0x80, 0x82], [0xE2, 0x80, 0x83],
        [0xE2, 0x80, 0x84], [0xE2, 0x80, 0x85], [0xE2, 0x80, 0x86], [0xE2, 0x80, 0x87],
        [0xE2, 0x80, 0x88], [0xE2, 0x80, 0x89], [0xE2, 0x80, 0x8A], [0xE2, 0x80, 0xA8],
        [0xE2, 0x80, 0xA9], [0xE2, 0x80, 0xAF], [0xE2, 0x81, 0x9F], [0xE3, 0x80, 0x80 :: nat]]"

definition strip_one :: "string list \<Rightarrow> string \<Rightarrow> string option" where
  "strip_one ws s =
     map_option (\<lambda>w. drop (length w) s) (List.find (\<lambda>w. w \<noteq> [] \<and> take (length w) s = w) ws)"

lemma strip_one_shorter: "strip_one ws s = Some t \<Longrightarrow> length t < length s"
proof -
  assume "strip_one ws s = Some t"
  then obtain w where w: "w \<noteq> []" "take (length w) s = w" and t: "t = drop (length w) s"
    by (auto simp: strip_one_def find_Some_iff)
  from w have "s \<noteq> []" by auto
  with w t show ?thesis by (cases w) (auto simp: t)
qed

function trim_start_of :: "string list \<Rightarrow> string \<Rightarrow> string" where
  "trim_start_of ws s = (case strip_one ws s of None \<Rightarrow> s | Some t \<Rightarrow> trim_start_of ws t)"
  by pat_completeness auto
termination
  by (relation "measure (\<lambda>(ws, s). length s)") (auto dest: strip_one_shorter)

declare trim_start_of.simps [simp del]

definition trim :: "string \<Rightarrow> string" where
  "trim s = rev (trim_start_of (map rev white_space) (rev (trim_start_of white_space s)))"

lemma strip_one_Nil [simp]: "strip_one ws [] = None"
  by (auto simp: strip_one_def find_None_iff)

lemma trim_Nil [simp]: "trim [] = []"
  by (simp add: trim_def trim_start_of.simps [of _ "[]"])

text \<open>Text that begins and ends with a visible ASCII character is trimmed already.\<close>

definition visible :: "char \<Rightarrow> bool" where
  "visible c \<longleftrightarrow> (let n = (of_char c :: nat) in 32 < n \<and> n < 128)"

lemma white_space_ends:
  "w \<in> set white_space \<Longrightarrow> w \<noteq> [] \<and> \<not> visible (hd w) \<and> \<not> visible (last w)"
  by (auto simp: white_space_def visible_def)

lemma strip_one_visible:
  assumes "\<And>w. w \<in> set ws \<Longrightarrow> w \<noteq> [] \<and> \<not> visible (hd w)" "visible (hd s)"
  shows "strip_one ws s = None"
proof -
  have "take (length w) s \<noteq> w" if "w \<in> set ws" for w
  proof
    assume t: "take (length w) s = w"
    with assms(1) [OF that] have "hd w = hd s" by (metis hd_take length_greater_0_conv)
    with assms(1) [OF that] assms(2) show False by simp
  qed
  then show ?thesis by (auto simp: strip_one_def find_None_iff)
qed

lemma trim_visible:
  assumes "s \<noteq> []" "visible (hd s)" "visible (last s)"
  shows "trim s = s"
proof -
  have "strip_one white_space s = None"
    by (rule strip_one_visible) (use white_space_ends assms(2) in auto)
  moreover have "strip_one (map rev white_space) (rev s) = None"
    by (rule strip_one_visible) (use white_space_ends assms(1,3) in \<open>auto simp: hd_rev\<close>)
  ultimately show ?thesis
    by (simp add: trim_def trim_start_of.simps [of white_space s]
        trim_start_of.simps [of "map rev white_space" "rev s"])
qed

text \<open>Trimming leaves nothing to trim.\<close>

lemma strip_one_None_iff: "strip_one ws s = None \<longleftrightarrow> (\<forall>w \<in> set ws. w \<noteq> [] \<longrightarrow> take (length w) s \<noteq> w)"
  by (auto simp: strip_one_def find_None_iff)

lemma strip_one_take:
  assumes "strip_one ws s = None" shows "strip_one ws (take n s) = None"
proof -
  have "take (length w) s = w" if "take (length w) (take n s) = w" for w
  proof -
    have "length w \<le> n \<or> length s \<le> n"
      using arg_cong [OF that, of length] by auto
    with that show ?thesis by (auto simp: min_def split: if_splits)
  qed
  with assms show ?thesis by (auto simp: strip_one_None_iff)
qed

lemma trim_start_stripped: "strip_one ws (trim_start_of ws s) = None"
proof (induction ws s rule: trim_start_of.induct)
  case (1 ws s)
  then show ?case by (cases "strip_one ws s") (simp_all add: trim_start_of.simps [of ws s])
qed

lemma trim_start_fixed: "strip_one ws s = None \<Longrightarrow> trim_start_of ws s = s"
  by (simp add: trim_start_of.simps [of ws s])

lemma trim_start_drop: "\<exists>n. trim_start_of ws s = drop n s"
proof (induction ws s rule: trim_start_of.induct)
  case (1 ws s)
  show ?case
  proof (cases "strip_one ws s")
    case None
    then have "trim_start_of ws s = drop 0 s" by (simp add: trim_start_fixed)
    then show ?thesis ..
  next
    case (Some t)
    with 1 obtain n where "trim_start_of ws t = drop n t" by blast
    moreover obtain m where "t = drop m s" using Some by (auto simp: strip_one_def)
    ultimately have "trim_start_of ws s = drop (n + m) s"
      using Some by (simp add: trim_start_of.simps [of ws s])
    then show ?thesis ..
  qed
qed

lemma trim_trim [simp]: "trim (trim s) = trim s"
proof -
  let ?a = "trim_start_of white_space s" and ?ws = "map rev white_space"
  obtain n where n: "trim_start_of ?ws (rev ?a) = drop n (rev ?a)"
    using trim_start_drop by blast
  have "strip_one white_space (trim s) = None"
    using strip_one_take [OF trim_start_stripped [of white_space s], of "length ?a - n"]
    by (simp add: trim_def n rev_drop)
  moreover have "strip_one ?ws (rev (trim s)) = None"
    by (simp add: trim_def trim_start_stripped)
  ultimately show ?thesis
    by (simp add: trim_def [of "trim s"] trim_start_fixed)
qed

subsection \<open>UTF-8 boundaries\<close>

definition is_continuation :: "char \<Rightarrow> bool" where
  "is_continuation c \<longleftrightarrow> (let n = (of_char c :: nat) in 128 \<le> n \<and> n < 192)"

text \<open>\<open>s.chars().take(n).collect()\<close>.\<close>

fun take_chars :: "nat \<Rightarrow> string \<Rightarrow> string" where
  "take_chars n [] = []"
| "take_chars n (c # cs) =
     (if is_continuation c then c # take_chars n cs
      else case n of 0 \<Rightarrow> [] | Suc m \<Rightarrow> c # take_chars m cs)"

text \<open>\<open>s.get(..n)\<close>: the prefix, unless \<open>n\<close> is past the end or inside a character.\<close>

definition get_prefix :: "nat \<Rightarrow> string \<Rightarrow> string option" where
  "get_prefix n s =
     (if n \<le> length s \<and> (n = length s \<or> \<not> is_continuation (s ! n)) then Some (take n s) else None)"

subsection \<open>Decimal digits\<close>

definition is_ascii_digit :: "char \<Rightarrow> bool" where
  "is_ascii_digit c \<longleftrightarrow> (let n = (of_char c :: nat) in 48 \<le> n \<and> n \<le> 57)"

definition digit_val :: "char \<Rightarrow> nat" where
  "digit_val c = of_char c - 48"

definition digit_char :: "nat \<Rightarrow> char" where
  "digit_char n = char_of (48 + n)"

fun dec :: "nat \<Rightarrow> string" where
  "dec n = (if n < 10 then [digit_char n] else dec (n div 10) @ [digit_char (n mod 10)])"

declare dec.simps [simp del]

definition dec_value :: "string \<Rightarrow> nat" where
  "dec_value s = foldl (\<lambda>v c. 10 * v + digit_val c) 0 s"

definition all_digits :: "string \<Rightarrow> bool" where
  "all_digits s \<longleftrightarrow> list_all is_ascii_digit s"

text \<open>\<open>format!("{s:0>w$}")\<close>.\<close>

definition pad0 :: "nat \<Rightarrow> string \<Rightarrow> string" where
  "pad0 w s = replicate (w - length s) (CHR ''0'') @ s"

lemma digit_char_digit [digit_simps]: "n < 10 \<Longrightarrow> is_ascii_digit (digit_char n)"
  by (simp add: is_ascii_digit_def digit_char_def)

lemma digit_val_char [digit_simps]: "n < 10 \<Longrightarrow> digit_val (digit_char n) = n"
  by (simp add: digit_val_def digit_char_def)

lemma digit_val_less [digit_simps]: "is_ascii_digit c \<Longrightarrow> digit_val c < 10"
  by (auto simp: is_ascii_digit_def digit_val_def Let_def)

lemma digit_char_val [digit_simps]: "is_ascii_digit c \<Longrightarrow> digit_char (digit_val c) = c"
  by (simp add: is_ascii_digit_def digit_val_def digit_char_def Let_def)

lemma digit_zero [digit_simps, simp]: "is_ascii_digit (CHR ''0'')" "digit_val (CHR ''0'') = 0"
  by (simp_all add: is_ascii_digit_def digit_val_def)

lemma not_digit_separators [digit_simps, simp]:
  "\<not> is_ascii_digit (CHR ''.'')" "\<not> is_ascii_digit (CHR ''-'')"
  by (simp_all add: is_ascii_digit_def)

lemma all_digits_simps [simp]:
  "all_digits []"
  "all_digits (c # s) \<longleftrightarrow> is_ascii_digit c \<and> all_digits s"
  "all_digits (s @ t) \<longleftrightarrow> all_digits s \<and> all_digits t"
  "all_digits (replicate n c) \<longleftrightarrow> n = 0 \<or> is_ascii_digit c"
  by (auto simp: all_digits_def list_all_iff)

lemma all_digits_take [intro, simp]: "all_digits s \<Longrightarrow> all_digits (take n s)"
  by (auto simp: all_digits_def list_all_iff dest: in_set_takeD)

lemma all_digits_drop [intro, simp]: "all_digits s \<Longrightarrow> all_digits (drop n s)"
  by (auto simp: all_digits_def list_all_iff dest: in_set_dropD)

lemma all_digits_notin: "all_digits s \<Longrightarrow> \<not> is_ascii_digit c \<Longrightarrow> c \<notin> set s"
  by (auto simp: all_digits_def list_all_iff)

lemma foldl_dec_value:
  "foldl (\<lambda>v c. 10 * v + digit_val c) v s = v * 10 ^ length s + dec_value s"
proof (induction s arbitrary: v)
  case (Cons c s)
  show ?case
    using Cons [of "10 * v + digit_val c"] Cons [of "digit_val c"]
    by (simp add: dec_value_def algebra_simps)
qed (simp add: dec_value_def)

lemma dec_value_Nil [simp]: "dec_value [] = 0"
  by (simp add: dec_value_def)

lemma dec_value_Cons [simp]: "dec_value (c # s) = digit_val c * 10 ^ length s + dec_value s"
  using foldl_dec_value [of "digit_val c" s] by (simp add: dec_value_def)

lemma dec_value_append [simp]:
  "dec_value (s @ t) = dec_value s * 10 ^ length t + dec_value t"
  by (induction s) (simp_all add: power_add distrib_right)

lemma dec_value_replicate0 [simp]: "dec_value (replicate n (CHR ''0'')) = 0"
  by (induction n) simp_all

lemma dec_value_less: "all_digits s \<Longrightarrow> dec_value s < 10 ^ length s"
proof (induction s)
  case (Cons c s)
  then have "digit_val c \<le> 9" "dec_value s < 10 ^ length s"
    using digit_val_less by force+
  then have "digit_val c * 10 ^ length s + dec_value s < 9 * 10 ^ length s + 10 ^ length s"
    by (meson add_le_less_mono mult_le_mono1)
  then show ?case by simp
qed simp

lemma dec_nonempty [simp]: "dec n \<noteq> []"
  by (subst dec.simps) simp

lemma dec_digits [simp]: "all_digits (dec n)"
proof (induction n rule: dec.induct)
  case (1 n)
  then show ?case by (subst dec.simps) (simp add: digit_simps)
qed

lemma dec_value_dec [simp]: "dec_value (dec n) = n"
proof (induction n rule: dec.induct)
  case (1 n)
  then show ?case by (subst dec.simps) (simp add: digit_simps)
qed

lemma length_dec_le: "n < 10 ^ k \<Longrightarrow> 0 < k \<Longrightarrow> length (dec n) \<le> k"
proof (induction n arbitrary: k rule: dec.induct)
  case (1 n)
  show ?case
  proof (cases "n < 10")
    case True
    then show ?thesis using 1 by (subst dec.simps) simp
  next
    case False
    with 1 obtain j where k: "k = Suc j" "0 < j"
      by (cases k; cases "k - 1") auto
    with 1 False have "length (dec (n div 10)) \<le> j"
      by (intro "1.IH") auto
    with False k show ?thesis by (subst dec.simps) simp
  qed
qed

lemma pad0_digits [simp]: "all_digits (pad0 w s) \<longleftrightarrow> all_digits s"
  by (simp add: pad0_def)

lemma dec_value_pad0 [simp]: "dec_value (pad0 w s) = dec_value s"
  by (simp add: pad0_def)

lemma length_pad0: "length s \<le> w \<Longrightarrow> length (pad0 w s) = w"
  by (simp add: pad0_def)

lemma length_pad0_dec: "n < 10 ^ w \<Longrightarrow> 0 < w \<Longrightarrow> length (pad0 w (dec n)) = w"
  by (simp add: length_pad0 length_dec_le)

subsection \<open>Byte order of equal-width digit strings\<close>

lemma digit_less_iff: "is_ascii_digit c \<Longrightarrow> is_ascii_digit d \<Longrightarrow> c < d \<longleftrightarrow> digit_val c < digit_val d"
  by (auto simp: is_ascii_digit_def digit_val_def Let_def less_char_def)

lemma digit_eq_iff: "is_ascii_digit c \<Longrightarrow> is_ascii_digit d \<Longrightarrow> c = d \<longleftrightarrow> digit_val c = digit_val d"
  by (metis digit_char_val)

lemma digits_less_iff:
  "length s = length t \<Longrightarrow> all_digits s \<Longrightarrow> all_digits t \<Longrightarrow> s < t \<longleftrightarrow> dec_value s < dec_value t"
proof (induction s t rule: list_induct2)
  case (Cons c s d t)
  let ?p = "10 ^ length t :: nat"
  from Cons have b: "dec_value s < ?p" "dec_value t < ?p"
    using dec_value_less by force+
  have step: "a * ?p + x < b * ?p + y" if "a < b" "x < ?p" for a b x y :: nat
  proof -
    from \<open>a < b\<close> have "Suc a * ?p \<le> b * ?p" by (intro mult_le_mono1) simp
    with \<open>x < ?p\<close> show ?thesis by simp
  qed
  show ?case
    using Cons b step [of "digit_val c" "digit_val d"] step [of "digit_val d" "digit_val c"]
    by (cases "digit_val c" "digit_val d" rule: linorder_cases)
       (auto simp: digit_less_iff digit_eq_iff dest: less_asym)
qed simp

lemma digits_eq_iff:
  "length s = length t \<Longrightarrow> all_digits s \<Longrightarrow> all_digits t \<Longrightarrow> s = t \<longleftrightarrow> dec_value s = dec_value t"
  using digits_less_iff [of s t] digits_less_iff [of t s] linorder_less_linear [of s t] by fastforce

lemma append_less_iff:
  "length s = length t \<Longrightarrow>
   ((s @ u :: 'a :: order list) < t @ v) \<longleftrightarrow> s < t \<or> (s = t \<and> u < v)"
  by (induction s t rule: list_induct2) auto

lemma pad0_dec_less_iff:
  "m < 10 ^ w \<Longrightarrow> n < 10 ^ w \<Longrightarrow> 0 < w \<Longrightarrow> pad0 w (dec m) < pad0 w (dec n) \<longleftrightarrow> m < n"
  by (subst digits_less_iff) (simp_all add: length_pad0_dec)

lemma pad0_dec_eq_iff:
  "m < 10 ^ w \<Longrightarrow> n < 10 ^ w \<Longrightarrow> 0 < w \<Longrightarrow> pad0 w (dec m) = pad0 w (dec n) \<longleftrightarrow> m = n"
  by (subst digits_eq_iff) (simp_all add: length_pad0_dec)

section \<open>Lists as tables\<close>

text \<open>The first element with a property.\<close>

lemma find_SomeD: "find P xs = Some x \<Longrightarrow> x \<in> set xs \<and> P x"
  by (induction xs) (auto split: if_splits)

lemma find_append: "find P (xs @ ys) = (case find P xs of None \<Rightarrow> find P ys | Some x \<Rightarrow> Some x)"
  by (induction xs) auto

lemma find_map_row: "find P (map f xs) = map_option f (find (P \<circ> f) xs)"
  by (induction xs) auto

lemma find_hd_filter: "find P xs = (case filter P xs of [] \<Rightarrow> None | x # _ \<Rightarrow> Some x)"
  by (induction xs) auto

text \<open>\<open>iter().find_map(f)\<close>.\<close>

fun find_map :: "('a \<Rightarrow> 'b option) \<Rightarrow> 'a list \<Rightarrow> 'b option" where
  "find_map f [] = None"
| "find_map f (x # xs) = (case f x of None \<Rightarrow> find_map f xs | Some y \<Rightarrow> Some y)"

lemma find_map_None_iff: "find_map f xs = None \<longleftrightarrow> (\<forall>x \<in> set xs. f x = None)"
  by (induction xs) (auto split: option.splits)

lemma find_map_SomeD: "find_map f xs = Some y \<Longrightarrow> \<exists>x \<in> set xs. f x = Some y"
  by (induction xs) (auto split: option.splits)

lemma sum_list_filter_partition:
  fixes g :: "'a \<Rightarrow> 'b :: comm_monoid_add"
  shows "sum_list (map g xs) =
    sum_list (map g (filter P xs)) + sum_list (map g (filter (\<lambda>x. \<not> P x) xs))"
  by (induction xs) (auto simp: algebra_simps)

lemma length_filter_partition:
  "length xs = length (filter P xs) + length (filter (\<lambda>x. \<not> P x) xs)"
  by (induction xs) auto

lemma sum_list_group:
  fixes g :: "'a \<Rightarrow> 'b :: comm_monoid_add"
  assumes "distinct ks" and "\<forall>x \<in> set xs. key x \<in> set ks"
  shows "(\<Sum>k \<leftarrow> ks. sum_list (map g (filter (\<lambda>x. key x = k) xs))) = sum_list (map g xs)"
  using assms(2)
proof (induction xs)
  case (Cons x xs)
  have "(\<Sum>k \<leftarrow> ks. sum_list (map g (filter (\<lambda>y. key y = k) (x # xs))))
      = (\<Sum>k \<leftarrow> ks. (if key x = k then g x else 0) + sum_list (map g (filter (\<lambda>y. key y = k) xs)))"
    by (intro arg_cong [where f = sum_list] map_cong) auto
  also have "\<dots> = (\<Sum>k \<leftarrow> ks. if key x = k then g x else 0)
      + (\<Sum>k \<leftarrow> ks. sum_list (map g (filter (\<lambda>y. key y = k) xs)))"
    by (rule sum_list_addf)
  also have "(\<Sum>k \<leftarrow> ks. if key x = k then g x else 0) = g x"
    using assms(1) Cons.prems by (simp add: sum_list_distinct_conv_sum_set)
  finally show ?case using Cons by simp
qed simp

end
