(* ===== verification/Pricing.thy ===== *)
theory Pricing
  imports Portal_Prelude
begin

text \<open>
  \<^verbatim>\<open>src/src/billing/pricing.rs\<close>: money as whole micro-dollars, the decimal price parser and
  printer, and the arithmetic that prices one statement line. The lemmas show that the parser
  computes the exactly rounded value of the decimal it is given, that printing and parsing
  round-trip, and that a component cost is the exactly rounded product or a refusal.
\<close>

section \<open>Types\<close>

datatype micro_usd = MicroUsd (micro_as_i64: i64)

datatype price_per_million = PricePerMillion (price_as_i64: i64)

instantiation micro_usd :: linorder
begin
definition less_eq_micro_usd :: "micro_usd \<Rightarrow> micro_usd \<Rightarrow> bool" where
  "less_eq_micro_usd a b \<longleftrightarrow> micro_as_i64 a \<le> micro_as_i64 b"
definition less_micro_usd :: "micro_usd \<Rightarrow> micro_usd \<Rightarrow> bool" where
  "less_micro_usd a b \<longleftrightarrow> micro_as_i64 a < micro_as_i64 b"
instance
  by standard (auto simp: less_eq_micro_usd_def less_micro_usd_def micro_usd.expand)
end

instantiation price_per_million :: linorder
begin
definition less_eq_price_per_million :: "price_per_million \<Rightarrow> price_per_million \<Rightarrow> bool" where
  "less_eq_price_per_million a b \<longleftrightarrow> price_as_i64 a \<le> price_as_i64 b"
definition less_price_per_million :: "price_per_million \<Rightarrow> price_per_million \<Rightarrow> bool" where
  "less_price_per_million a b \<longleftrightarrow> price_as_i64 a < price_as_i64 b"
instance
  by standard
    (auto simp: less_eq_price_per_million_def less_price_per_million_def price_per_million.expand)
end

datatype price_error =
    NoPriceSnapshot string
  | IncompleteUsage
  | CachedExceedsInput u64 u64
  | Overflow string
  | NotANumber string
  | OutOfRange string

definition TOKENS_PER_PRICE_UNIT :: i128 where
  [simp]: "TOKENS_PER_PRICE_UNIT = 1000000"

definition PRICE_DECIMAL_PLACES :: nat where
  [simp]: "PRICE_DECIMAL_PLACES = 6"

section \<open>Amounts\<close>

definition micro_checked_add :: "micro_usd \<Rightarrow> micro_usd \<Rightarrow> micro_usd option" where
  "micro_checked_add a b = map_option MicroUsd (checked_add_i64 (micro_as_i64 a) (micro_as_i64 b))"

definition micro_is_zero :: "micro_usd \<Rightarrow> bool" where
  "micro_is_zero a \<longleftrightarrow> micro_as_i64 a = 0"

definition price_is_zero :: "price_per_million \<Rightarrow> bool" where
  "price_is_zero p \<longleftrightarrow> price_as_i64 p = 0"

section \<open>Printing\<close>

definition format_micros :: "i64 \<Rightarrow> string" where
  "format_micros micros =
     (let negative = micros < 0;
          magnitude = nat \<bar>micros\<bar>;
          whole = magnitude div 10 ^ PRICE_DECIMAL_PLACES;
          fraction = magnitude mod 10 ^ PRICE_DECIMAL_PLACES
      in (if negative \<and> (0 < whole \<or> 0 < fraction) then ''-'' else [])
         @ dec whole @ ''.'' @ pad0 PRICE_DECIMAL_PLACES (dec fraction))"

definition micro_display :: "micro_usd \<Rightarrow> string" where
  "micro_display a =
     (case format_micros (micro_as_i64 a) of
        CHR ''-'' # digits \<Rightarrow> ''-$'' @ digits
      | body \<Rightarrow> ''$'' @ body)"

definition price_display :: "price_per_million \<Rightarrow> string" where
  "price_display p = format_micros (price_as_i64 p)"

text \<open>\<open>trim_end_matches\<close> and \<open>strip_suffix\<close> on one character.\<close>

definition trim_end_matches :: "char \<Rightarrow> string \<Rightarrow> string" where
  "trim_end_matches c s = rev (dropWhile (\<lambda>b. b = c) (rev s))"

definition strip_suffix_char :: "char \<Rightarrow> string \<Rightarrow> string option" where
  "strip_suffix_char c s = (if s \<noteq> [] \<and> last s = c then Some (butlast s) else None)"

definition to_decimal_string :: "price_per_million \<Rightarrow> string" where
  "to_decimal_string p =
     (let rendered = format_micros (price_as_i64 p);
          trimmed = trim_end_matches (CHR ''0'') rendered
      in case strip_suffix_char (CHR ''.'') trimmed of Some t \<Rightarrow> t | None \<Rightarrow> trimmed)"

section \<open>Parsing\<close>

text \<open>The accumulation of the whole part, both steps checked in \<open>i128\<close>.\<close>

fun parse_whole :: "i128 \<Rightarrow> string \<Rightarrow> i128 option" where
  "parse_whole v [] = Some v"
| "parse_whole v (b # bs) =
     (case checked_mul_i128 v 10 of
        None \<Rightarrow> None
      | Some v10 \<Rightarrow>
          (case checked_add_i128 v10 (int (digit_val b)) of
             None \<Rightarrow> None
           | Some v' \<Rightarrow> parse_whole v' bs))"

text \<open>
  The fraction loop. Its additions are the only unchecked ones of the function: they wrap in a
  release build, which is what the model follows.
\<close>

fun parse_fraction :: "nat \<Rightarrow> i128 \<Rightarrow> string \<Rightarrow> i128" where
  "parse_fraction seen micros [] = micros"
| "parse_fraction seen micros (b # bs) =
     (if seen < PRICE_DECIMAL_PLACES then
        parse_fraction (Suc seen)
          (wrap_i128 (micros + int (digit_val b) * 10 ^ (PRICE_DECIMAL_PLACES - seen - 1))) bs
      else if CHR ''5'' \<le> b then wrap_i128 (micros + 1)
      else micros)"

definition price_parse :: "string \<Rightarrow> price_error + price_per_million" where
  "price_parse text =
     (let (whole, fraction) =
            (case split_once (CHR ''.'') text of
               Some (whole, fraction) \<Rightarrow> (whole, Some fraction)
             | None \<Rightarrow> (text, None));
          whole_digits = all_digits whole;
          fraction_digits =
            (case fraction of
               Some [] \<Rightarrow> False
             | Some (b # bs) \<Rightarrow> all_digits (b # bs)
             | None \<Rightarrow> True)
      in if \<not> whole_digits \<or> \<not> fraction_digits \<or> (whole = [] \<and> fraction = None)
         then Inl (NotANumber text)
         else
           (case parse_whole 0 whole of
              None \<Rightarrow> Inl (OutOfRange text)
            | Some whole_value \<Rightarrow>
                (case checked_mul_i128 whole_value (10 ^ PRICE_DECIMAL_PLACES) of
                   None \<Rightarrow> Inl (OutOfRange text)
                 | Some micros \<Rightarrow>
                     (let micros' =
                            parse_fraction 0 micros (case fraction of None \<Rightarrow> [] | Some f \<Rightarrow> f)
                      in if in_i64 micros' then Inr (PricePerMillion micros')
                         else Inl (OutOfRange text)))))"

section \<open>Price snapshots\<close>

record pricing_snapshot =
  ps_input :: price_per_million
  ps_cached_input :: price_per_million
  ps_output :: price_per_million

definition as_tuple :: "pricing_snapshot \<Rightarrow> i64 \<times> i64 \<times> i64" where
  "as_tuple s =
     (price_as_i64 (ps_input s), price_as_i64 (ps_cached_input s), price_as_i64 (ps_output s))"

definition require :: "i64 option \<Rightarrow> string \<Rightarrow> price_error + i64" where
  "require value column = (case value of Some v \<Rightarrow> Inr v | None \<Rightarrow> Inl (NoPriceSnapshot column))"

definition from_columns ::
  "i64 option \<Rightarrow> i64 option \<Rightarrow> i64 option \<Rightarrow> price_error + pricing_snapshot" where
  "from_columns input cached_input output =
     (case require input ''input_price_snapshot'' of
        Inl e \<Rightarrow> Inl e
      | Inr i \<Rightarrow>
          (case require cached_input ''cached_input_price_snapshot'' of
             Inl e \<Rightarrow> Inl e
           | Inr c \<Rightarrow>
               (case require output ''output_price_snapshot'' of
                  Inl e \<Rightarrow> Inl e
                | Inr out \<Rightarrow>
                    Inr \<lparr>ps_input = PricePerMillion i, ps_cached_input = PricePerMillion c,
                         ps_output = PricePerMillion out\<rparr>)))"

section \<open>Pricing a line\<close>

definition component_cost :: "u64 \<Rightarrow> price_per_million \<Rightarrow> price_error + micro_usd" where
  "component_cost tokens price =
     (let overflow = Overflow ''pricing a token count'' in
      case checked_mul_i128 tokens (price_as_i64 price) of
        None \<Rightarrow> Inl overflow
      | Some product \<Rightarrow>
          (case Option.bind (checked_mul_i128 product 2)
                  (\<lambda>p. checked_add_i128 p TOKENS_PER_PRICE_UNIT) of
             None \<Rightarrow> Inl overflow
           | Some p \<Rightarrow>
               (let rounded = rust_div p (TOKENS_PER_PRICE_UNIT * 2)
                in if in_i64 rounded then Inr (MicroUsd rounded) else Inl overflow)))"

definition components ::
  "u64 \<Rightarrow> u64 \<Rightarrow> u64 \<Rightarrow> pricing_snapshot \<Rightarrow> price_error + (micro_usd \<times> micro_usd \<times> micro_usd)" where
  "components input_tokens cached_input_tokens output_tokens prices =
     (if input_tokens < cached_input_tokens
      then Inl (CachedExceedsInput input_tokens cached_input_tokens)
      else
        let uncached = input_tokens - cached_input_tokens in
        case component_cost uncached (ps_input prices) of
          Inl e \<Rightarrow> Inl e
        | Inr i \<Rightarrow>
            (case component_cost cached_input_tokens (ps_cached_input prices) of
               Inl e \<Rightarrow> Inl e
             | Inr c \<Rightarrow>
                 (case component_cost output_tokens (ps_output prices) of
                    Inl e \<Rightarrow> Inl e
                  | Inr out \<Rightarrow> Inr (i, c, out))))"

record line_cost =
  uncached_input_tokens :: u64
  input_cost :: micro_usd
  cached_input_cost :: micro_usd
  output_cost :: micro_usd
  line_total :: micro_usd

definition line_cost_total ::
  "micro_usd \<Rightarrow> micro_usd \<Rightarrow> micro_usd \<Rightarrow> u64 \<Rightarrow> price_error + line_cost" where
  "line_cost_total ic cc oc uncached =
     (case Option.bind (micro_checked_add ic cc) (\<lambda>v. micro_checked_add v oc) of
        None \<Rightarrow> Inl (Overflow ''adding up a line's component costs'')
      | Some tot \<Rightarrow>
          Inr \<lparr>uncached_input_tokens = uncached, input_cost = ic, cached_input_cost = cc,
               output_cost = oc, line_total = tot\<rparr>)"

definition price_line ::
  "u64 \<Rightarrow> u64 \<Rightarrow> u64 \<Rightarrow> pricing_snapshot \<Rightarrow> price_error + line_cost" where
  "price_line input_tokens cached_input_tokens output_tokens prices =
     (case components input_tokens cached_input_tokens output_tokens prices of
        Inl e \<Rightarrow> Inl e
      | Inr (ic, cc, oc) \<Rightarrow> line_cost_total ic cc oc (input_tokens - cached_input_tokens))"

definition billable ::
  "u64 option \<Rightarrow> u64 option \<Rightarrow> u64 option \<Rightarrow> price_error + (u64 \<times> u64 \<times> u64)" where
  "billable input_tokens output_tokens cached_input_tokens =
     (case input_tokens of
        None \<Rightarrow> Inl IncompleteUsage
      | Some i \<Rightarrow>
          (case output_tokens of
             None \<Rightarrow> Inl IncompleteUsage
           | Some out \<Rightarrow>
               Inr (i, out, case cached_input_tokens of None \<Rightarrow> 0 | Some c \<Rightarrow> c)))"

definition needs_cached_count :: "pricing_snapshot \<Rightarrow> bool" where
  "needs_cached_count prices \<longleftrightarrow> ps_cached_input prices \<noteq> ps_input prices"

section \<open>The exactly rounded value of a decimal\<close>

text \<open>
  The reference for the parser: the value of \<open>w.f\<close> in micro-dollars, rounded half up in exact
  integer arithmetic over the whole fraction, however long it is.
\<close>

definition rounded_micros :: "string \<Rightarrow> string \<Rightarrow> int" where
  "rounded_micros w f =
     (2 * int (dec_value (w @ f)) * 10 ^ 6 + 10 ^ length f) div (2 * 10 ^ length f)"

text \<open>What the first six digits and the seventh contribute.\<close>

definition fraction_micros :: "nat \<Rightarrow> string \<Rightarrow> int" where
  "fraction_micros room f =
     (if length f \<le> room then int (dec_value f) * 10 ^ (room - length f)
      else int (dec_value (take room f)) + (if 5 \<le> digit_val (f ! room) then 1 else 0))"

lemma fraction_micros_Nil [simp]: "fraction_micros room [] = 0"
  by (simp add: fraction_micros_def)

lemma fraction_micros_Cons:
  "fraction_micros (Suc room) (b # bs) = int (digit_val b) * 10 ^ room + fraction_micros room bs"
  by (auto simp: fraction_micros_def min_def algebra_simps power_add [symmetric])

lemma ge_five_iff: "is_ascii_digit b \<Longrightarrow> CHR ''5'' \<le> b \<longleftrightarrow> 5 \<le> digit_val b"
  by (auto simp: is_ascii_digit_def digit_val_def Let_def less_eq_char_def)

lemma parse_fraction_eq:
  assumes "all_digits f" "in_i128 m" "seen \<le> 6"
  shows "parse_fraction seen m f = wrap_i128 (m + fraction_micros (6 - seen) f)"
  using assms
proof (induction f arbitrary: seen m)
  case Nil
  then show ?case by (simp add: wrap_i128_id)
next
  case (Cons b bs)
  show ?case
  proof (cases "seen < 6")
    case True
    let ?m = "m + int (digit_val b) * 10 ^ (6 - seen - 1)"
    have r: "in_i128 (wrap_i128 ?m)" by (simp add: wrap_i128_def width_defs)
    have s: "6 - seen = Suc (6 - Suc seen)" using True by simp
    have "parse_fraction seen m (b # bs) = parse_fraction (Suc seen) (wrap_i128 ?m) bs"
      using True by simp
    also have "\<dots> = wrap_i128 (wrap_i128 ?m + fraction_micros (6 - Suc seen) bs)"
      using Cons True r by (intro Cons.IH) auto
    also have "\<dots> = wrap_i128 (m + fraction_micros (6 - seen) (b # bs))"
      unfolding wrap_i128_add_left s fraction_micros_Cons by (simp add: algebra_simps)
    finally show ?thesis .
  next
    case False
    then have "seen = 6" using Cons.prems by simp
    with Cons.prems show ?thesis
      by (simp add: fraction_micros_def ge_five_iff wrap_i128_id)
  qed
qed

lemma rounded_micros_short:
  assumes "length f \<le> 6"
  shows "rounded_micros w f = int (dec_value w) * 10 ^ 6 + fraction_micros 6 f"
proof -
  let ?k = "length f" and ?W = "int (dec_value w)" and ?F = "int (dec_value f)"
  let ?q = "?W * 10 ^ 6 + ?F * 10 ^ (6 - ?k)"
  have p: "10 ^ ?k * 10 ^ (6 - ?k) = (1000000 :: int)"
    using assms by (simp add: power_add [symmetric])
  have "2 * int (dec_value (w @ f)) * 10 ^ 6 + 10 ^ ?k = 10 ^ ?k + (2 * 10 ^ ?k) * ?q"
    by (simp add: algebra_simps) (simp add: p algebra_simps)
  then have "rounded_micros w f = (10 ^ ?k + (2 * 10 ^ ?k) * ?q) div (2 * 10 ^ ?k)"
    by (simp add: rounded_micros_def)
  also have "\<dots> = ?q + 10 ^ ?k div (2 * 10 ^ ?k)"
    by (subst div_mult_self2) auto
  also have "(10::int) ^ ?k div (2 * 10 ^ ?k) = 0" by simp
  finally show ?thesis using assms by (simp add: fraction_micros_def)
qed

lemma half_up_digit:
  assumes "all_digits (b # bs)"
  shows "(2 * int (dec_value (b # bs)) + 10 ^ Suc (length bs)) div (2 * 10 ^ Suc (length bs))
    = (if 5 \<le> digit_val b then 1 else 0)"
proof -
  let ?p = "10 ^ length bs :: int" and ?d = "int (digit_val b)" and ?r = "int (dec_value bs)"
  have d: "?d \<le> 9" "0 \<le> ?d"
    using assms digit_val_less [of b] by auto
  have r: "0 \<le> ?r" "?r < ?p"
    using assms dec_value_less [of bs] by (auto simp flip: of_nat_less_iff)
  define t where "t = ?d * ?p"
  have v: "2 * int (dec_value (b # bs)) + 10 ^ Suc (length bs) = 2 * t + 2 * ?r + 10 * ?p"
    by (simp add: t_def)
  have c: "2 * 10 ^ Suc (length bs) = 20 * ?p" by simp
  show ?thesis
  proof (cases "5 \<le> digit_val b")
    case True
    have "5 * ?p \<le> t" "t \<le> 9 * ?p"
      unfolding t_def using True d by (auto intro!: mult_right_mono)
    with r have "(2 * t + 2 * ?r + 10 * ?p) div (20 * ?p) = 1"
      by (intro int_div_pos_eq [of _ _ _ "2 * t + 2 * ?r + 10 * ?p - 20 * ?p"]) linarith+
    with True show ?thesis unfolding v c by simp
  next
    case False
    have "0 \<le> t" "t \<le> 4 * ?p"
      unfolding t_def using False d by (auto intro!: mult_right_mono)
    with r have "(2 * t + 2 * ?r + 10 * ?p) div (20 * ?p) = 0"
      by (intro div_pos_pos_trivial) linarith+
    with False show ?thesis unfolding v c by simp
  qed
qed

lemma rounded_micros_long:
  assumes "all_digits f" "6 < length f"
  shows "rounded_micros w f = int (dec_value w) * 10 ^ 6 + fraction_micros 6 f"
proof -
  obtain b bs where t: "drop 6 f = b # bs" using assms by (cases "drop 6 f") auto
  let ?a = "take 6 f" and ?W = "int (dec_value w)"
  let ?j = "Suc (length bs)"
  have f: "f = ?a @ b # bs" by (metis append_take_drop_id t)
  have la: "length ?a = 6" using assms by simp
  have lf: "length f = 6 + ?j" using f la by (metis length_append length_Cons)
  have b: "f ! 6 = b" using t assms by (metis nth_via_drop)
  have db: "all_digits (b # bs)" using assms t by (metis all_digits_drop)
  let ?q = "?W * 10 ^ 6 + int (dec_value ?a)" and ?B = "int (dec_value (b # bs))"
  have v: "int (dec_value (w @ f)) = ?q * 10 ^ ?j + ?B"
  proof -
    have "dec_value (w @ f) = dec_value ((w @ ?a) @ b # bs)" using f by simp
    also have "\<dots> = dec_value (w @ ?a) * 10 ^ ?j + dec_value (b # bs)"
      by (simp only: dec_value_append list.size add_0_right add_Suc_right)
    finally show ?thesis using la by (simp add: algebra_simps)
  qed
  have "rounded_micros w f
      = 10 ^ 6 * (2 * (?q * 10 ^ ?j + ?B) + 10 ^ ?j) div (10 ^ 6 * (2 * 10 ^ ?j))"
    unfolding rounded_micros_def v lf power_add by (simp only: algebra_simps)
  also have "\<dots> = (2 * (?q * 10 ^ ?j + ?B) + 10 ^ ?j) div (2 * 10 ^ ?j)"
    by (rule div_mult_mult1) simp
  also have "\<dots> = ((2 * ?B + 10 ^ ?j) + ?q * (2 * 10 ^ ?j)) div (2 * 10 ^ ?j)"
    by (simp only: algebra_simps)
  also have "\<dots> = ?q + (2 * ?B + 10 ^ ?j) div (2 * 10 ^ ?j)"
    by (rule div_mult_self1) simp
  also have "(2 * ?B + 10 ^ ?j) div (2 * 10 ^ ?j) = (if 5 \<le> digit_val b then 1 else 0)"
    using db by (rule half_up_digit)
  finally show ?thesis using assms b by (simp add: fraction_micros_def)
qed

lemma rounded_micros_eq:
  "all_digits f \<Longrightarrow> rounded_micros w f = int (dec_value w) * 10 ^ 6 + fraction_micros 6 f"
  by (cases "length f \<le> 6") (simp_all add: rounded_micros_short rounded_micros_long)

lemma fraction_micros_bounds:
  assumes "all_digits f"
  shows "0 \<le> fraction_micros 6 f" "fraction_micros 6 f \<le> 10 ^ 6"
proof -
  show "0 \<le> fraction_micros 6 f" by (simp add: fraction_micros_def)
  show "fraction_micros 6 f \<le> 10 ^ 6"
  proof (cases "length f \<le> 6")
    case True
    have "int (dec_value f) \<le> 10 ^ length f"
      using dec_value_less [OF assms] by (simp flip: of_nat_less_iff)
    then have "int (dec_value f) * 10 ^ (6 - length f) \<le> 10 ^ length f * 10 ^ (6 - length f)"
      by (intro mult_right_mono) auto
    with True show ?thesis by (simp add: fraction_micros_def power_add [symmetric])
  next
    case False
    have "dec_value (take 6 f) < 10 ^ 6"
      using dec_value_less [of "take 6 f"] assms False by simp
    with False show ?thesis by (simp add: fraction_micros_def)
  qed
qed

section \<open>The parser\<close>

lemma parse_whole_eq:
  "0 \<le> v \<Longrightarrow> parse_whole v s =
    (if v * 10 ^ length s + int (dec_value s) < 2 ^ 127 \<or> s = []
     then Some (v * 10 ^ length s + int (dec_value s)) else None)"
proof (induction s arbitrary: v)
  case (Cons b bs)
  let ?d = "int (digit_val b)" and ?p = "10 ^ length bs :: int"
  let ?t = "v * 10 ^ length (b # bs) + int (dec_value (b # bs))"
  have t: "?t = (v * 10 + ?d) * ?p + int (dec_value bs)"
    by (simp add: algebra_simps)
  have "(v * 10 + ?d) * 1 \<le> (v * 10 + ?d) * ?p"
    using Cons.prems by (intro mult_left_mono) auto
  then have le: "v * 10 + ?d \<le> ?t" unfolding t by simp
  have nn: "0 \<le> v * 10" "0 \<le> ?d" using Cons.prems by simp_all
  show ?case
  proof (cases "v * 10 + ?d < 2 ^ 127")
    case True
    then have "checked_mul_i128 v 10 = Some (v * 10)"
      "checked_add_i128 (v * 10) ?d = Some (v * 10 + ?d)"
      using nn by (auto simp: checked_mul_i128_def checked_add_i128_def in_i128_def)
    then have "parse_whole v (b # bs) = parse_whole (v * 10 + ?d) bs" by simp
    also have "\<dots> = (if ?t < 2 ^ 127 then Some ?t else None)"
      unfolding t using Cons.IH [of "v * 10 + ?d"] nn True by (cases "bs = []") auto
    finally show ?thesis by simp
  next
    case False
    then have "parse_whole v (b # bs) = None"
      using nn by (auto simp: checked_mul_i128_def checked_add_i128_def in_i128_def
          split: option.splits)
    moreover have "\<not> ?t < 2 ^ 127" using le False by linarith
    ultimately show ?thesis by (simp only: list.distinct simp_thms if_False)
  qed
qed simp

definition price_text :: "string \<Rightarrow> string \<Rightarrow> string" where
  "price_text w f = w @ (if f = [] then [] else CHR ''.'' # f)"

definition price_shape :: "string \<Rightarrow> string \<Rightarrow> bool" where
  "price_shape w f \<longleftrightarrow> all_digits w \<and> all_digits f \<and> (w \<noteq> [] \<or> f \<noteq> [])"

lemma price_parse_split:
  assumes "price_shape w f"
  shows "price_parse (price_text w f) =
    (case parse_whole 0 w of
       None \<Rightarrow> Inl (OutOfRange (price_text w f))
     | Some v \<Rightarrow>
         (case checked_mul_i128 v (10 ^ 6) of
            None \<Rightarrow> Inl (OutOfRange (price_text w f))
          | Some m \<Rightarrow>
              (if in_i64 (parse_fraction 0 m f) then Inr (PricePerMillion (parse_fraction 0 m f))
               else Inl (OutOfRange (price_text w f)))))"
proof -
  have "CHR ''.'' \<notin> set w" using assms all_digits_notin [of w "CHR ''.''"] by (simp add: price_shape_def)
  note s = split_once_notin [OF this]
  show ?thesis
    using assms s
    by (cases f) (auto simp: price_parse_def price_text_def price_shape_def Let_def
        split: option.split)
qed

text \<open>
  The arithmetic core: whatever the width checks and the unchecked additions do, the outcome is
  the exactly rounded value when it fits the storage type, and a refusal otherwise.
\<close>

lemma price_parse_rounds:
  assumes "price_shape w f"
  shows "price_parse (price_text w f) =
    (if in_i64 (rounded_micros w f) then Inr (PricePerMillion (rounded_micros w f))
     else Inl (OutOfRange (price_text w f)))"
proof -
  let ?W = "int (dec_value w)" and ?x = "fraction_micros 6 f"
  have d: "all_digits w" "all_digits f" using assms by (simp_all add: price_shape_def)
  note x = fraction_micros_bounds [OF d(2)]
  note r = rounded_micros_eq [OF d(2), of w]
  show ?thesis
  proof (cases "?W * 10 ^ 6 < 2 ^ 127")
    case True
    have "parse_whole 0 w = Some ?W"
      using True parse_whole_eq [of 0 w] by simp
    moreover have "checked_mul_i128 ?W (10 ^ 6) = Some (?W * 10 ^ 6)"
      using True by (simp add: checked_mul_i128_def in_i128_def)
    moreover have "parse_fraction 0 (?W * 10 ^ 6) f = wrap_i128 (rounded_micros w f)"
      using True d(2) r by (simp add: parse_fraction_eq in_i128_def)
    moreover have "in_i64 (wrap_i128 (rounded_micros w f)) \<longleftrightarrow> in_i64 (rounded_micros w f)"
      "in_i64 (rounded_micros w f) \<Longrightarrow> wrap_i128 (rounded_micros w f) = rounded_micros w f"
    proof -
      let ?y = "rounded_micros w f"
      have y: "0 \<le> ?y" "?y < 2 ^ 127 + 2 ^ 20" using True x unfolding r by simp_all
      have "wrap_i128 ?y = ?y - 2 ^ 128" if "\<not> ?y < 2 ^ 127"
        using y that by (intro wrap_i128_over) simp_all
      moreover have "wrap_i128 ?y = ?y" if "?y < 2 ^ 127"
        using y that by (intro wrap_i128_id) (simp add: in_i128_def)
      ultimately show "in_i64 (wrap_i128 ?y) \<longleftrightarrow> in_i64 ?y"
        and "in_i64 ?y \<Longrightarrow> wrap_i128 ?y = ?y"
        using y by (cases "?y < 2 ^ 127"; simp add: in_i64_def)+
    qed
    ultimately show ?thesis
      using assms by (simp add: price_parse_split)
  next
    case False
    then have "\<not> in_i64 (rounded_micros w f)" using x unfolding r by (simp add: in_i64_def)
    moreover have "checked_mul_i128 ?W (10 ^ 6) = None"
      using False by (simp add: checked_mul_i128_def in_i128_def)
    moreover have "parse_whole 0 w = Some ?W \<or> parse_whole 0 w = None"
      using parse_whole_eq [of 0 w] by (simp split: if_splits)
    ultimately show ?thesis
      using assms by (auto simp: price_parse_split)
  qed
qed

lemma price_parse_refuses:
  assumes "\<And>w f. price_shape w f \<Longrightarrow> t \<noteq> price_text w f"
  shows "price_parse t = Inl (NotANumber t)"
proof (cases "split_once (CHR ''.'') t")
  case None
  then show ?thesis
    using assms [of t "[]"]
    by (auto simp: price_parse_def price_shape_def price_text_def)
next
  case (Some wf)
  then obtain w f where s: "split_once (CHR ''.'') t = Some (w, f)" by (cases wf) auto
  then have "t = w @ CHR ''.'' # f" by (rule split_once_SomeD)
  with s show ?thesis
    using assms [of w f]
    by (cases f) (auto simp: price_parse_def price_shape_def price_text_def)
qed

section \<open>Round trip\<close>

lemma trim_end_matches_append:
  "d \<noteq> c \<Longrightarrow> trim_end_matches c (u @ d # v) = u @ d # trim_end_matches c v"
  by (simp add: trim_end_matches_def dropWhile_append3)

lemma trim_end_matches_replicate:
  obtains n where "s = trim_end_matches c s @ replicate n c"
proof
  let ?t = "takeWhile (\<lambda>b. b = c) (rev s)"
  have "?t = replicate (length ?t) c"
    by (metis (mono_tags, lifting) replicate_length_same set_takeWhileD)
  then have "rev ?t = replicate (length ?t) c" by (metis rev_replicate)
  then show "s = trim_end_matches c s @ replicate (length ?t) c"
    by (metis rev_append rev_rev_ident takeWhile_dropWhile_id trim_end_matches_def)
qed

lemma price_text_decimal:
  assumes "all_digits w" "all_digits f"
  shows "(case strip_suffix_char (CHR ''.'') (trim_end_matches (CHR ''0'') (w @ CHR ''.'' # f)) of
      Some t \<Rightarrow> t | None \<Rightarrow> trim_end_matches (CHR ''0'') (w @ CHR ''.'' # f))
    = price_text w (trim_end_matches (CHR ''0'') f)"
proof -
  let ?g = "trim_end_matches (CHR ''0'') f"
  have "all_digits ?g"
    using assms(2) trim_end_matches_replicate [of f "CHR ''0''"] by (metis all_digits_simps(3))
  then have "?g \<noteq> [] \<Longrightarrow> last ?g \<noteq> CHR ''.''"
    using all_digits_notin [of ?g "CHR ''.''"] last_in_set [of ?g] by force
  then show ?thesis
    by (cases "?g = []")
       (simp_all add: trim_end_matches_append strip_suffix_char_def price_text_def butlast_append)
qed

lemma to_decimal_string_text:
  assumes "0 \<le> v"
  defines "w \<equiv> dec (nat v div 10 ^ 6)"
    and "f \<equiv> trim_end_matches (CHR ''0'') (pad0 6 (dec (nat v mod 10 ^ 6)))"
  shows "to_decimal_string (PricePerMillion v) = price_text w f"
    and "price_shape w f"
    and "rounded_micros w f = v"
proof -
  let ?p = "pad0 6 (dec (nat v mod 10 ^ 6))"
  show "to_decimal_string (PricePerMillion v) = price_text w f"
    unfolding f_def using assms(1) price_text_decimal [of w ?p]
    by (simp add: to_decimal_string_def format_micros_def Let_def w_def cong: option.case_cong)
  obtain n where n: "?p = f @ replicate n (CHR ''0'')"
    unfolding f_def by (rule trim_end_matches_replicate)
  have "all_digits ?p" by simp
  then have f: "all_digits f" unfolding n by simp
  show "price_shape w f" using f by (simp add: price_shape_def w_def)
  have "length ?p = 6" by (intro length_pad0_dec) auto
  then have l: "length f + n = 6" unfolding n by simp
  have "dec_value ?p = nat v mod 10 ^ 6" by simp
  then have "dec_value f * 10 ^ n = nat v mod 10 ^ 6" unfolding n by simp
  then have "int (dec_value f * 10 ^ n) = int (nat v mod 10 ^ 6)" by (rule arg_cong)
  moreover have "6 - length f = n" "length f \<le> 6" using l by simp_all
  ultimately have "fraction_micros 6 f = int (nat v mod 10 ^ 6)"
    by (simp add: fraction_micros_def)
  then show "rounded_micros w f = v"
    using assms(1) by (simp add: rounded_micros_eq [OF f] w_def of_nat_div of_nat_mod)
qed

section \<open>Component costs\<close>

text \<open>The exactly rounded cost: half up, which for the non-negative values here is half away from zero.\<close>

definition rounded_cost :: "u64 \<Rightarrow> i64 \<Rightarrow> int" where
  "rounded_cost tokens price = (2 * tokens * price + 10 ^ 6) div (2 * 10 ^ 6)"

lemma rounded_cost_nonneg [simp]: "0 \<le> t \<Longrightarrow> 0 \<le> p \<Longrightarrow> 0 \<le> rounded_cost t p"
  by (simp add: rounded_cost_def pos_imp_zdiv_nonneg_iff)

lemma component_cost_eq:
  assumes "in_u64 tokens" "in_i64 p" "0 \<le> p"
  shows "component_cost tokens (PricePerMillion p) =
    (if in_i64 (rounded_cost tokens p) then Inr (MicroUsd (rounded_cost tokens p))
     else Inl (Overflow ''pricing a token count''))"
proof -
  define x where "x = tokens * p"
  have t: "0 \<le> tokens" "tokens \<le> 2 ^ 64 - 1" "p \<le> 2 ^ 63 - 1"
    using assms by (simp_all add: width_defs)
  have "x \<le> (2 ^ 64 - 1) * (2 ^ 63 - 1)"
    unfolding x_def using t assms(3) by (intro mult_mono) simp_all
  then have x: "0 \<le> x" "x < 2 ^ 127" using t assms(3) by (simp_all add: x_def)
  then have m: "checked_mul_i128 tokens p = Some x"
    by (simp add: checked_mul_i128_def in_i128_def x_def)
  have r: "rounded_cost tokens p = (x * 2 + 10 ^ 6) div (2 * 10 ^ 6)"
    by (simp add: rounded_cost_def x_def ac_simps)
  show ?thesis
  proof (cases "x * 2 + 10 ^ 6 < 2 ^ 127")
    case True
    then have "Option.bind (checked_mul_i128 x 2) (\<lambda>q. checked_add_i128 q TOKENS_PER_PRICE_UNIT)
        = Some (x * 2 + 10 ^ 6)"
      using x by (simp add: checked_mul_i128_def checked_add_i128_def in_i128_def)
    moreover have "rust_div (x * 2 + 10 ^ 6) (TOKENS_PER_PRICE_UNIT * 2) = rounded_cost tokens p"
      using x by (simp add: r)
    ultimately show ?thesis
      using m by (simp add: component_cost_def)
  next
    case False
    then have "Option.bind (checked_mul_i128 x 2) (\<lambda>q. checked_add_i128 q TOKENS_PER_PRICE_UNIT)
        = None"
      using x by (simp add: checked_mul_i128_def checked_add_i128_def in_i128_def)
    moreover have "(2 ^ 127) div (2 * 10 ^ 6) \<le> rounded_cost tokens p"
      unfolding r using False by (intro zdiv_mono1) simp_all
    then have "\<not> in_i64 (rounded_cost tokens p)" by (simp add: in_i64_def)
    ultimately show ?thesis
      using m by (simp add: component_cost_def)
  qed
qed

section \<open>Lines\<close>

definition wf_prices :: "pricing_snapshot \<Rightarrow> bool" where
  "wf_prices s \<longleftrightarrow>
     (\<forall>p \<in> {ps_input s, ps_cached_input s, ps_output s}. in_i64 (price_as_i64 p) \<and> 0 \<le> price_as_i64 p)"

lemma component_cost_Inr_iff:
  assumes "in_u64 tokens" "in_i64 (price_as_i64 p)" "0 \<le> price_as_i64 p"
  shows "component_cost tokens p = Inr c \<longleftrightarrow>
    in_i64 (rounded_cost tokens (price_as_i64 p)) \<and> c = MicroUsd (rounded_cost tokens (price_as_i64 p))"
  using component_cost_eq [OF assms] by auto

lemma component_cost_error: "component_cost tokens p = Inl e \<Longrightarrow> e = Overflow ''pricing a token count''"
  by (auto simp: component_cost_def Let_def split: option.splits if_splits)

lemma price_line_Inr:
  assumes "price_line i c out prices = Inr l"
  shows "c \<le> i"
    and "component_cost (i - c) (ps_input prices) = Inr (input_cost l)"
    and "component_cost c (ps_cached_input prices) = Inr (cached_input_cost l)"
    and "component_cost out (ps_output prices) = Inr (output_cost l)"
    and "uncached_input_tokens l = i - c"
    and "micro_as_i64 (line_total l) =
      micro_as_i64 (input_cost l) + micro_as_i64 (cached_input_cost l) + micro_as_i64 (output_cost l)"
    and "in_i64 (micro_as_i64 (line_total l))"
  using assms
  by (auto simp: price_line_def components_def line_cost_total_def micro_checked_add_def
      checked_add_i64_def Let_def bind_eq_Some_conv split: sum.splits option.splits if_splits)

lemma price_line_error:
  assumes "price_line i c out prices = Inl e"
  shows "(i < c \<and> e = CachedExceedsInput i c) \<or> (c \<le> i \<and> (\<exists>ctxt. e = Overflow ctxt))"
  using assms
  by (auto simp: price_line_def components_def line_cost_total_def Let_def
      dest: component_cost_error split: sum.splits option.splits if_splits)

text \<open>The exactly rounded total of a line: each component rounded once, then added.\<close>

definition exact_line_total :: "u64 \<Rightarrow> u64 \<Rightarrow> u64 \<Rightarrow> pricing_snapshot \<Rightarrow> int" where
  "exact_line_total i c out prices =
     rounded_cost (i - c) (price_as_i64 (ps_input prices))
     + rounded_cost c (price_as_i64 (ps_cached_input prices))
     + rounded_cost out (price_as_i64 (ps_output prices))"

definition exact_line_cost :: "u64 \<Rightarrow> u64 \<Rightarrow> u64 \<Rightarrow> pricing_snapshot \<Rightarrow> line_cost" where
  "exact_line_cost i c out prices =
     \<lparr>uncached_input_tokens = i - c,
      input_cost = MicroUsd (rounded_cost (i - c) (price_as_i64 (ps_input prices))),
      cached_input_cost = MicroUsd (rounded_cost c (price_as_i64 (ps_cached_input prices))),
      output_cost = MicroUsd (rounded_cost out (price_as_i64 (ps_output prices))),
      line_total = MicroUsd (exact_line_total i c out prices)\<rparr>"

lemma price_line_fits:
  assumes "0 \<le> c" "c \<le> i" "in_u64 i" "in_u64 out" "wf_prices prices"
    and fits: "in_i64 (exact_line_total i c out prices)"
  shows "price_line i c out prices = Inr (exact_line_cost i c out prices)"
proof -
  let ?x = "rounded_cost (i - c) (price_as_i64 (ps_input prices))"
  let ?y = "rounded_cost c (price_as_i64 (ps_cached_input prices))"
  let ?z = "rounded_cost out (price_as_i64 (ps_output prices))"
  have u: "in_u64 (i - c)" "in_u64 c" "0 \<le> i - c" "0 \<le> out"
    using assms by (auto simp: in_u64_def)
  have p: "in_i64 (price_as_i64 p) \<and> 0 \<le> price_as_i64 p"
    if "p \<in> {ps_input prices, ps_cached_input prices, ps_output prices}" for p
    using assms(5) that by (auto simp: wf_prices_def)
  have nn: "0 \<le> ?x" "0 \<le> ?y" "0 \<le> ?z" using u p assms(1) by simp_all
  have r: "in_i64 ?x" "in_i64 ?y" "in_i64 ?z" "in_i64 (?x + ?y)" "in_i64 (?x + ?y + ?z)"
    using fits nn by (auto simp: in_i64_def exact_line_total_def)
  have c: "component_cost (i - c) (ps_input prices) = Inr (MicroUsd ?x)"
    "component_cost c (ps_cached_input prices) = Inr (MicroUsd ?y)"
    "component_cost out (ps_output prices) = Inr (MicroUsd ?z)"
    using u assms(4) p r by (simp_all add: component_cost_Inr_iff)
  have "components i c out prices = Inr (MicroUsd ?x, MicroUsd ?y, MicroUsd ?z)"
    using assms(2) c by (simp add: components_def Let_def)
  moreover have "Option.bind (micro_checked_add (MicroUsd ?x) (MicroUsd ?y))
      (\<lambda>v. micro_checked_add v (MicroUsd ?z)) = Some (MicroUsd (?x + ?y + ?z))"
    using r by (simp add: micro_checked_add_def checked_add_i64_def)
  ultimately show ?thesis
    by (simp add: price_line_def line_cost_total_def exact_line_cost_def exact_line_total_def)
qed

lemma price_line_overflows:
  assumes "0 \<le> c" "c \<le> i" "in_u64 i" "in_u64 out" "wf_prices prices"
    and over: "\<not> in_i64 (exact_line_total i c out prices)"
  shows "\<exists>what. price_line i c out prices = Inl (Overflow what)"
proof (cases "price_line i c out prices")
  case (Inl e)
  then show ?thesis using price_line_error [OF Inl] assms(2) by auto
next
  case (Inr l)
  have u: "in_u64 (i - c)" "in_u64 c" using assms by (auto simp: in_u64_def)
  have p: "in_i64 (price_as_i64 p) \<and> 0 \<le> price_as_i64 p"
    if "p \<in> {ps_input prices, ps_cached_input prices, ps_output prices}" for p
    using assms(5) that by (auto simp: wf_prices_def)
  note l = price_line_Inr [OF Inr]
  have "micro_as_i64 (line_total l) = exact_line_total i c out prices"
    using l(2-4,6) u assms(4) p by (simp add: component_cost_Inr_iff exact_line_total_def)
  with l(7) over show ?thesis by simp
qed

section \<open>Properties\<close>

text \<open>
  C40: the price parser is exact. A text of digits with an optional fraction is read as its value
  in micro-dollars rounded half up over the whole fraction, however long, or refused as out of
  range when that value does not fit; every other text, a sign or an exponent included, is refused
  as not a number.
\<close>

theorem price_parse_exact:
  "(price_shape w f \<longrightarrow>
      price_parse (price_text w f) =
        (if in_i64 (rounded_micros w f) then Inr (PricePerMillion (rounded_micros w f))
         else Inl (OutOfRange (price_text w f))))
   \<and> ((\<forall>w f. price_shape w f \<longrightarrow> t \<noteq> price_text w f) \<longrightarrow> price_parse t = Inl (NotANumber t))"
  using price_parse_rounds [of w f] price_parse_refuses [of t] by blast

theorem price_parse_exact_witness:
  "price_parse ''1.0000005'' = Inr (PricePerMillion 1000001)
   \<and> price_parse ''-1'' = Inl (NotANumber ''-1'')"
proof
  have s: "price_shape ''1'' ''0000005''"
    by (simp add: price_shape_def is_ascii_digit_def)
  have r: "rounded_micros ''1'' ''0000005'' = 1000001"
    by (simp add: rounded_micros_def digit_val_def)
  show "price_parse ''1.0000005'' = Inr (PricePerMillion 1000001)"
    using price_parse_exact [of "''1''" "''0000005''"] s
    by (simp add: r price_text_def in_i64_def)
  have "''-1'' \<noteq> price_text w f" if "price_shape w f" for w f
  proof
    assume t: "''-1'' = price_text w f"
    have "all_digits w" "all_digits f" using that by (simp_all add: price_shape_def)
    with t show False by (cases w) (auto simp: price_text_def split: if_splits)
  qed
  then show "price_parse ''-1'' = Inl (NotANumber ''-1'')"
    using price_parse_exact [where t = "''-1''"] by blast
qed

text \<open>
  a price survives its text. Every representable price, printed as the decimal the admin API
  returns and parsed again, is the same price.
\<close>

theorem price_round_trip:
  assumes "0 \<le> v" "in_i64 v"
  shows "price_parse (to_decimal_string (PricePerMillion v)) = Inr (PricePerMillion v)"
  using price_parse_rounds [OF to_decimal_string_text(2) [OF assms(1)]]
    to_decimal_string_text(1,3) [OF assms(1)] assms(2)
  by simp

theorem price_round_trip_witness:
  "price_parse (to_decimal_string (PricePerMillion 2500000)) = Inr (PricePerMillion 2500000)"
  by (rule price_round_trip) (simp_all add: in_i64_def)

text \<open>
  C23: pricing a line is exact or refused. For counts in range the line holds the uncached part
  \<open>input - cached\<close> priced at the input price, the cached part at its own price and the output
  part, each rounded once, and their sum; it refuses exactly when the cached count exceeds the
  input count or the sum leaves 64 bits, and never wraps.
\<close>

theorem price_line_exact:
  assumes "in_u64 i" "in_u64 c" "in_u64 out" "wf_prices prices"
  shows "(c \<le> i \<and> in_i64 (exact_line_total i c out prices) \<longrightarrow>
            price_line i c out prices = Inr (exact_line_cost i c out prices))
    \<and> (c \<le> i \<and> \<not> in_i64 (exact_line_total i c out prices) \<longrightarrow>
            (\<exists>what. price_line i c out prices = Inl (Overflow what)))
    \<and> (i < c \<longrightarrow> price_line i c out prices = Inl (CachedExceedsInput i c))"
proof (intro conjI impI)
  have c: "0 \<le> c" using assms(2) by (simp add: in_u64_def)
  show "price_line i c out prices = Inr (exact_line_cost i c out prices)"
    if "c \<le> i \<and> in_i64 (exact_line_total i c out prices)"
    using price_line_fits [OF c] that assms by blast
  show "\<exists>what. price_line i c out prices = Inl (Overflow what)"
    if "c \<le> i \<and> \<not> in_i64 (exact_line_total i c out prices)"
    using price_line_overflows [OF c] that assms by blast
qed (simp add: price_line_def components_def)

theorem price_line_exact_witness:
  "let prices = \<lparr>ps_input = PricePerMillion 2500000, ps_cached_input = PricePerMillion 1250000,
                 ps_output = PricePerMillion 10000000\<rparr>
   in map_sum id (micro_as_i64 \<circ> line_total) (price_line 1000 400 301 prices) = Inr 5010"
proof -
  define prices where "prices = \<lparr>ps_input = PricePerMillion 2500000,
    ps_cached_input = PricePerMillion 1250000, ps_output = PricePerMillion 10000000\<rparr>"
  have "wf_prices prices" by (simp add: wf_prices_def prices_def in_i64_def)
  then have "price_line 1000 400 301 prices = Inr (exact_line_cost 1000 400 301 prices)"
    using price_line_exact [of 1000 400 301 prices]
    by (simp add: in_u64_def in_i64_def exact_line_total_def rounded_cost_def prices_def)
  then show ?thesis
    by (simp add: exact_line_cost_def exact_line_total_def rounded_cost_def prices_def)
qed

end
