(* ===== verification/Timefmt.thy ===== *)
theory Timefmt
  imports Portal_Prelude
begin

text \<open>
  \<^verbatim>\<open>src/src/ledger/timefmt.rs\<close>: the fixed-width timestamp text every table stores.

  The calendar and the parsers belong to the \<^verbatim>\<open>time\<close> crate, which is not part of the
  repository: they are the parameter \<open>time_crate\<close> of every definition that uses them, and the
  locale \<open>time_laws\<close> states what the code relies on (the documented behaviour of the crate).
  An instant is the number of nanoseconds since the Unix epoch, a date the number of days;
  \<open>tc_weekday\<close> is \<open>number_days_from_monday\<close> of a date.
  The format descriptions themselves are the code's, so the rendering is defined here, and the
  order-preservation of the text is proved from the calendar laws.
\<close>

section \<open>The time crate\<close>

type_synonym instant = int

record time_crate =
  tc_civil :: "int \<Rightarrow> int \<times> nat \<times> nat"
  tc_weekday :: "int \<Rightarrow> nat"
  tc_parse_ts :: "string \<Rightarrow> instant option"
  tc_parse_iso :: "string \<Rightarrow> instant option"
  tc_parse_date :: "string \<Rightarrow> int option"
  tc_min :: instant
  tc_max :: instant

definition NANOS_PER_DAY :: int where
  "NANOS_PER_DAY = 86400000000000"

text \<open>The days from \<open>0000-01-01\<close> to \<open>9999-12-31\<close>, whose year is four digits wide.\<close>

definition four_digit_day :: "int \<Rightarrow> bool" where
  "four_digit_day d \<longleftrightarrow> -719528 \<le> d \<and> d \<le> 2932896"

definition four_digit_instant :: "instant \<Rightarrow> bool" where
  "four_digit_instant t \<longleftrightarrow> four_digit_day (t div NANOS_PER_DAY)"

text \<open>\<open>time::Duration::minutes\<close> panics when the seconds leave \<open>i64\<close>.\<close>

definition duration_minutes :: "i64 \<Rightarrow> int run" where
  "duration_minutes m = (if in_i64 (m * 60) then Done (m * 60 * 1000000000) else Panic)"

definition instant_checked_add :: "time_crate \<Rightarrow> instant \<Rightarrow> int \<Rightarrow> instant option" where
  "instant_checked_add T t d =
     (if tc_min T \<le> t + d \<and> t + d \<le> tc_max T then Some (t + d) else None)"

definition instant_add :: "time_crate \<Rightarrow> instant \<Rightarrow> int \<Rightarrow> instant run" where
  "instant_add T t d = (case instant_checked_add T t d of Some u \<Rightarrow> Done u | None \<Rightarrow> Panic)"

section \<open>Rendering\<close>

definition render_year :: "int \<Rightarrow> string" where
  "render_year y = (if y < 0 then ''-'' else []) @ pad0 4 (dec (nat \<bar>y\<bar>))"

definition render_date :: "time_crate \<Rightarrow> int \<Rightarrow> string" where
  "render_date T d =
     (case tc_civil T d of
        (y, m, dd) \<Rightarrow> render_year y @ ''-'' @ pad0 2 (dec m) @ ''-'' @ pad0 2 (dec dd))"

definition nanos_of_day :: "instant \<Rightarrow> nat" where
  "nanos_of_day t = nat (t mod NANOS_PER_DAY)"

definition clock_hour :: "instant \<Rightarrow> nat" where
  "clock_hour t = nanos_of_day t div 3600000000000"

definition clock_minute :: "instant \<Rightarrow> nat" where
  "clock_minute t = nanos_of_day t mod 3600000000000 div 60000000000"

definition clock_second :: "instant \<Rightarrow> nat" where
  "clock_second t = nanos_of_day t mod 3600000000000 mod 60000000000 div 1000000000"

definition clock_nanos :: "instant \<Rightarrow> nat" where
  "clock_nanos t = nanos_of_day t mod 3600000000000 mod 60000000000 mod 1000000000"

text \<open>\<open>[year]-[month]-[day]T[hour]\<close>.\<close>

definition format_hour :: "time_crate \<Rightarrow> instant \<Rightarrow> string" where
  "format_hour T t =
     render_date T (t div NANOS_PER_DAY) @ ''T'' @ pad0 2 (dec (clock_hour t))"

text \<open>\<open>[year]-[month]-[day]T[hour]:[minute]:[second].[subsecond digits:9]Z\<close>.\<close>

definition format_ts :: "time_crate \<Rightarrow> instant \<Rightarrow> string" where
  "format_ts T t =
     render_date T (t div NANOS_PER_DAY) @ ''T'' @ pad0 2 (dec (clock_hour t))
     @ '':'' @ pad0 2 (dec (clock_minute t)) @ '':'' @ pad0 2 (dec (clock_second t))
     @ ''.'' @ pad0 9 (dec (clock_nanos t)) @ ''Z''"

definition parse_ts :: "time_crate \<Rightarrow> string \<Rightarrow> instant option" where
  "parse_ts T s = (case tc_parse_ts T s of Some t \<Rightarrow> Some t | None \<Rightarrow> tc_parse_iso T s)"

definition format_hour_str :: "time_crate \<Rightarrow> string \<Rightarrow> string" where
  "format_hour_str T stored =
     (let canonical = 20 \<le> length stored \<and> stored ! 4 = CHR ''-'' \<and> stored ! 7 = CHR ''-''
                      \<and> stored ! 10 = CHR ''T'';
          fallback = (case parse_ts T stored of
                        Some t \<Rightarrow> format_hour T t
                      | None \<Rightarrow> take_chars 13 stored)
      in if canonical then (case get_prefix 13 stored of Some hour \<Rightarrow> hour | None \<Rightarrow> fallback)
         else fallback)"

text \<open>\<open>now()\<close>: the clock's reading, truncated to whole microseconds.\<close>

definition truncate_now :: "instant \<Rightarrow> instant" where
  "truncate_now clock = rust_div clock 1000 * 1000"

section \<open>What the code relies on\<close>

locale time_laws =
  fixes T :: time_crate
  assumes civil_mono:
      "four_digit_day d \<Longrightarrow> four_digit_day e \<Longrightarrow> d < e \<Longrightarrow> tc_civil T d < tc_civil T e"
    and civil_range:
      "four_digit_day d \<Longrightarrow> tc_civil T d = (y, m, dd) \<Longrightarrow>
       0 \<le> y \<and> y \<le> 9999 \<and> 1 \<le> m \<and> m \<le> 12 \<and> 1 \<le> dd \<and> dd \<le> 31"
    and parse_ts_format: "four_digit_instant t \<Longrightarrow> tc_parse_ts T (format_ts T t) = Some t"
    and parse_date_render: "four_digit_day d \<Longrightarrow> tc_parse_date T (render_date T d) = Some d"
    and instant_min: "four_digit_instant t \<Longrightarrow> tc_min T \<le> t"
    and instant_max: "t \<le> tc_max T \<longleftrightarrow> t div NANOS_PER_DAY \<le> 2932896"

lemma less_div_mod: "(x :: nat) < y \<Longrightarrow> x div k < y div k \<or> (x div k = y div k \<and> x mod k < y mod k)"
proof -
  assume l: "x < y"
  then have "x div k \<le> y div k" by (intro div_le_mono) simp
  moreover have "x mod k < y mod k" if "x div k = y div k"
    using l that by (metis add_less_cancel_left div_mult_mod_eq)
  ultimately show ?thesis by linarith
qed

lemma clock_bounds [simp]:
  "clock_hour t < 100" "clock_minute t < 100" "clock_second t < 100" "clock_nanos t < 1000000000"
proof -
  have "nanos_of_day t < 86400000000000"
    by (simp add: nanos_of_day_def NANOS_PER_DAY_def nat_less_iff)
  then show "clock_hour t < 100"
    by (simp add: clock_hour_def div_less_iff_less_mult)
  have "nanos_of_day t mod 3600000000000 < 3600000000000" by simp
  then show "clock_minute t < 100"
    unfolding clock_minute_def by (simp add: div_less_iff_less_mult)
  have "nanos_of_day t mod 3600000000000 mod 60000000000 < 60000000000" by simp
  then show "clock_second t < 100"
    unfolding clock_second_def by (simp add: div_less_iff_less_mult)
  show "clock_nanos t < 1000000000" by (simp add: clock_nanos_def)
qed

lemma mixed_radix_less:
  fixes x y :: nat
  assumes "x < y"
  shows "(x div a, x mod a div b, x mod a mod b div c, x mod a mod b mod c)
       < (y div a, y mod a div b, y mod a mod b div c, y mod a mod b mod c)"
  using less_div_mod [OF assms, of a] less_div_mod [of "x mod a" "y mod a" b]
    less_div_mod [of "x mod a mod b" "y mod a mod b" c]
  by auto

lemma clock_less:
  assumes "nanos_of_day s < nanos_of_day t"
  shows "(clock_hour s, clock_minute s, clock_second s, clock_nanos s)
       < (clock_hour t, clock_minute t, clock_second t, clock_nanos t)"
  unfolding clock_hour_def clock_minute_def clock_second_def clock_nanos_def
  using assms by (rule mixed_radix_less)

lemma nanos_of_day_less:
  "s < t \<Longrightarrow> s div NANOS_PER_DAY < t div NANOS_PER_DAY
     \<or> (s div NANOS_PER_DAY = t div NANOS_PER_DAY \<and> nanos_of_day s < nanos_of_day t)"
proof -
  assume l: "s < t"
  then have "s div NANOS_PER_DAY \<le> t div NANOS_PER_DAY"
    by (intro zdiv_mono1) (simp_all add: NANOS_PER_DAY_def)
  moreover have "s mod NANOS_PER_DAY < t mod NANOS_PER_DAY"
    if "s div NANOS_PER_DAY = t div NANOS_PER_DAY"
    using l that by (metis add_less_cancel_left div_mult_mod_eq)
  ultimately show ?thesis
    by (auto simp: nanos_of_day_def NANOS_PER_DAY_def nat_less_eq_zless)
qed

context time_laws
begin

lemma render_date_length: "four_digit_day d \<Longrightarrow> length (render_date T d) = 10"
  using civil_range [of d]
  by (auto simp: render_date_def render_year_def length_pad0_dec split: prod.split)

lemma render_date_mono:
  assumes "four_digit_day d" "four_digit_day e" "d < e"
  shows "render_date T d < render_date T e"
proof -
  obtain y m a where c: "tc_civil T d = (y, m, a)" by (cases "tc_civil T d") auto
  obtain z n b where k: "tc_civil T e = (z, n, b)" by (cases "tc_civil T e") auto
  have "(y, m, a) < (z, n, b)" using civil_mono [OF assms] c k by simp
  moreover have "0 \<le> y" "y \<le> 9999" "m \<le> 12" "a \<le> 31" "0 \<le> z" "z \<le> 9999" "n \<le> 12" "b \<le> 31"
    using civil_range [OF assms(1) c] civil_range [OF assms(2) k] by auto
  ultimately show ?thesis
    by (auto simp: render_date_def c k render_year_def append_less_iff length_pad0_dec
        pad0_dec_less_iff pad0_dec_eq_iff nat_less_eq_zless)
qed

lemma format_ts_length: "four_digit_instant t \<Longrightarrow> length (format_ts T t) = 30"
  by (simp add: format_ts_def four_digit_instant_def render_date_length length_pad0_dec)

lemma format_hour_length: "four_digit_instant t \<Longrightarrow> length (format_hour T t) = 13"
  by (simp add: format_hour_def four_digit_instant_def render_date_length length_pad0_dec)

lemma format_ts_mono:
  assumes "four_digit_instant s" "four_digit_instant t" "s < t"
  shows "format_ts T s < format_ts T t"
proof -
  let ?d = "s div NANOS_PER_DAY" and ?e = "t div NANOS_PER_DAY"
  have f: "four_digit_day ?d" "four_digit_day ?e"
    using assms by (simp_all add: four_digit_instant_def)
  have l: "length (render_date T ?d) = length (render_date T ?e)"
    using f by (simp add: render_date_length)
  show ?thesis
  proof (cases "?d < ?e")
    case True
    then show ?thesis
      using render_date_mono [OF f True] l by (simp add: format_ts_def append_less_iff)
  next
    case False
    then have "?d = ?e" and "nanos_of_day s < nanos_of_day t"
      using nanos_of_day_less [OF assms(3)] by auto
    with clock_less [of s t] show ?thesis
      by (auto simp: format_ts_def append_less_iff length_pad0_dec pad0_dec_less_iff
          pad0_dec_eq_iff)
  qed
qed

lemma format_ts_less_iff:
  assumes "four_digit_instant s" "four_digit_instant t"
  shows "format_ts T s < format_ts T t \<longleftrightarrow> s < t"
  using format_ts_mono [OF assms] format_ts_mono [OF assms(2,1)] by (metis less_asym linorder_cases)

lemma format_ts_le_iff:
  assumes "four_digit_instant s" "four_digit_instant t"
  shows "format_ts T s \<le> format_ts T t \<longleftrightarrow> s \<le> t"
  using format_ts_less_iff [OF assms(2,1)] by (metis linorder_not_less)

lemma parse_ts_format_ts: "four_digit_instant t \<Longrightarrow> parse_ts T (format_ts T t) = Some t"
  by (simp add: parse_ts_def parse_ts_format)

lemma render_date_le_iff:
  assumes "four_digit_day d" "four_digit_day e"
  shows "render_date T d \<le> render_date T e \<longleftrightarrow> d \<le> e"
  using render_date_mono [OF assms] render_date_mono [OF assms(2,1)]
  by (metis less_asym linorder_cases linorder_not_less order_le_less)

lemma format_hour_prefix: "take 13 (format_ts T t) = format_hour T t" if "four_digit_instant t"
proof -
  obtain r where "format_ts T t = format_hour T t @ r"
    by (simp add: format_ts_def format_hour_def)
  then show ?thesis using format_hour_length [OF that] by simp
qed

lemma format_hour_str_format_ts:
  assumes "four_digit_instant t"
  shows "format_hour_str T (format_ts T t) = format_hour T t"
proof -
  have "hour = format_hour T t" if "get_prefix 13 (format_ts T t) = Some hour" for hour
    using that format_hour_prefix [OF assms] by (simp add: get_prefix_def split: if_splits)
  then show ?thesis
    by (auto simp: format_hour_str_def Let_def parse_ts_format_ts [OF assms] split: option.split)
qed

end

end
