(* ===== verification/Status.thy ===== *)
theory Status
  imports Pricing Timefmt
begin

text \<open>
  \<^verbatim>\<open>src/src/billing/status.rs\<close>: whether a partner may be served, as a function of its billing
  mode, the instant, and the overdue rows. The stored deadlines are text; parsing them is the
  \<^verbatim>\<open>time\<close> crate's.
\<close>

record overdue_statement =
  od_id :: i64
  od_billing_date :: string
  od_due_at :: instant
  od_amount :: micro_usd

datatype suspension_reason = InvoiceOverdue overdue_statement

datatype service_status = Active | Suspended suspension_reason

definition status_is_active :: "service_status \<Rightarrow> bool" where
  "status_is_active st \<longleftrightarrow> st = Active"

definition status_is_suspended :: "service_status \<Rightarrow> bool" where
  "status_is_suspended st \<longleftrightarrow> \<not> status_is_active st"

fun suspension_reason_of :: "service_status \<Rightarrow> suspension_reason option" where
  "suspension_reason_of Active = None"
| "suspension_reason_of (Suspended reason) = Some reason"

fun suspension_message :: "service_status \<Rightarrow> string option" where
  "suspension_message Active = None"
| "suspension_message (Suspended _) = Some ''Service is suspended because an invoice is overdue''"

definition dec_int :: "int \<Rightarrow> string" where
  "dec_int i = (if i < 0 then ''-'' else []) @ dec (nat \<bar>i\<bar>)"

fun status_display :: "time_crate \<Rightarrow> service_status \<Rightarrow> string" where
  "status_display T Active = ''active''"
| "status_display T (Suspended (InvoiceOverdue s)) =
     ''suspended: statement '' @ dec_int (od_id s) @ '' for '' @ od_billing_date s @ '' of ''
     @ micro_display (od_amount s) @ '' was due '' @ format_ts T (od_due_at s)"

record overdue_row =
  or_billing_mode :: string
  or_id :: i64
  or_billing_date :: string
  or_due_at :: string
  or_total :: i64
  or_incomplete :: i64

definition overdue_verdict :: "time_crate \<Rightarrow> instant \<Rightarrow> overdue_row \<Rightarrow> service_status option" where
  "overdue_verdict T cutoff row =
     (case parse_ts T (or_due_at row) of
        None \<Rightarrow> None
      | Some due_at \<Rightarrow>
          if cutoff < due_at then None
          else Some (Suspended (InvoiceOverdue
                 \<lparr>od_id = or_id row, od_billing_date = or_billing_date row, od_due_at = due_at,
                  od_amount = MicroUsd (or_total row)\<rparr>)))"

definition status_for :: "time_crate \<Rightarrow> string \<Rightarrow> instant \<Rightarrow> overdue_row list \<Rightarrow> service_status" where
  "status_for T billing_mode now overdue =
     (if billing_mode \<noteq> ''invoice'' then Active
      else case find_map (overdue_verdict T now)
                  (filter (\<lambda>row. or_incomplete row = 0 \<and> 0 < or_total row) overdue) of
             None \<Rightarrow> Active
           | Some st \<Rightarrow> st)"

section \<open>Facts\<close>

text \<open>A row that suspends: complete, with something owed, and with a deadline that has passed.\<close>

definition row_suspends :: "time_crate \<Rightarrow> instant \<Rightarrow> overdue_row \<Rightarrow> bool" where
  "row_suspends T now row \<longleftrightarrow>
     or_incomplete row = 0 \<and> 0 < or_total row
     \<and> (case parse_ts T (or_due_at row) of None \<Rightarrow> False | Some d \<Rightarrow> d \<le> now)"

lemma overdue_verdict_None:
  "or_incomplete row = 0 \<Longrightarrow> 0 < or_total row \<Longrightarrow>
   overdue_verdict T now row = None \<longleftrightarrow> \<not> row_suspends T now row"
  by (auto simp: overdue_verdict_def row_suspends_def split: option.splits)

lemma overdue_verdict_suspends: "overdue_verdict T now row = Some st \<Longrightarrow> status_is_suspended st"
  by (auto simp: overdue_verdict_def status_is_suspended_def status_is_active_def
      split: option.splits if_splits)

lemma status_for_reconciliation: "mode \<noteq> ''invoice'' \<Longrightarrow> status_for T mode now rows = Active"
  by (simp add: status_for_def)

lemma status_for_invoice_Cons:
  "status_for T ''invoice'' now (row # rows) =
     (if row_suspends T now row
      then the (overdue_verdict T now row) else status_for T ''invoice'' now rows)"
  by (auto simp: status_for_def row_suspends_def overdue_verdict_def split: option.splits)

lemma status_for_invoice_Nil [simp]: "status_for T mode now [] = Active"
  by (simp add: status_for_def)

lemma status_for_first:
  "status_for T ''invoice'' now rows =
     (case find (row_suspends T now) rows of
        None \<Rightarrow> Active
      | Some row \<Rightarrow> the (overdue_verdict T now row))"
  by (induction rows) (simp_all add: status_for_invoice_Cons)

lemma row_suspends_verdict:
  "row_suspends T now row \<Longrightarrow>
   \<exists>due. parse_ts T (or_due_at row) = Some due \<and> due \<le> now
     \<and> overdue_verdict T now row = Some (Suspended (InvoiceOverdue
          \<lparr>od_id = or_id row, od_billing_date = or_billing_date row, od_due_at = due,
           od_amount = MicroUsd (or_total row)\<rparr>))"
  by (auto simp: row_suspends_def overdue_verdict_def split: option.splits)

end
