(* ===== verification/Partner.thy ===== *)
theory Partner
  imports Status
begin

text \<open>
  \<^verbatim>\<open>src/src/billing/partner.rs\<close>: what a partner is. A \<open>BTreeMap\<close> is its entries in key order.
\<close>

section \<open>Billing mode\<close>

datatype billing_mode = Invoice | Reconciliation

fun mode_rank :: "billing_mode \<Rightarrow> nat" where
  "mode_rank Invoice = 0"
| "mode_rank Reconciliation = 1"

instantiation billing_mode :: linorder
begin

definition less_eq_billing_mode :: "billing_mode \<Rightarrow> billing_mode \<Rightarrow> bool" where
  "less_eq_billing_mode a b \<longleftrightarrow> mode_rank a \<le> mode_rank b"

definition less_billing_mode :: "billing_mode \<Rightarrow> billing_mode \<Rightarrow> bool" where
  "less_billing_mode a b \<longleftrightarrow> mode_rank a < mode_rank b"

instance
proof
  show "a = b" if "a \<le> b" "b \<le> a" for a b :: billing_mode
    using that by (cases a; cases b) (simp_all add: less_eq_billing_mode_def)
qed (auto simp: less_eq_billing_mode_def less_billing_mode_def)

end

fun mode_as_str :: "billing_mode \<Rightarrow> string" where
  "mode_as_str Invoice = ''invoice''"
| "mode_as_str Reconciliation = ''reconciliation''"

definition mode_parse :: "string \<Rightarrow> billing_mode option" where
  "mode_parse s =
     (if s = ''invoice'' then Some Invoice
      else if s = ''reconciliation'' then Some Reconciliation
      else None)"

definition owes_payment :: "billing_mode \<Rightarrow> bool" where
  "owes_payment m \<longleftrightarrow> m = Invoice"

lemma mode_parse_as_str [simp]: "mode_parse (mode_as_str m) = Some m"
  by (cases m) (simp_all add: mode_parse_def)

lemma mode_parse_SomeD: "mode_parse s = Some m \<Longrightarrow> s = mode_as_str m"
  by (auto simp: mode_parse_def split: if_splits)

lemma mode_as_str_iff [simp]:
  "mode_as_str m = ''invoice'' \<longleftrightarrow> m = Invoice"
  "mode_as_str m = ''reconciliation'' \<longleftrightarrow> m = Reconciliation"
  by (cases m; simp)+

lemma owes_payment_simps [simp]: "owes_payment Invoice" "\<not> owes_payment Reconciliation"
  by (simp_all add: owes_payment_def)

section \<open>The durable partner\<close>

record partner =
  p_consumer_id :: string
  p_name :: string
  p_billing_email :: string
  p_billing_mode :: billing_mode
  p_payment_terms :: i64
  p_created_at :: string
  p_updated_at :: string

text \<open>
  \<open>Duration::minutes\<close> panics when the terms leave the range of seconds it can hold, and
  \<open>checked_add\<close> is \<^const>\<open>None\<close> when the deadline leaves the range of instants.
\<close>

definition due_at_for :: "time_crate \<Rightarrow> partner \<Rightarrow> instant \<Rightarrow> instant option run" where
  "due_at_for T p period_end =
     (if \<not> owes_payment (p_billing_mode p) then Done None
      else run_bind (duration_minutes (p_payment_terms p))
             (\<lambda>d. Done (instant_checked_add T period_end d)))"

record model_price =
  mp_model :: string
  mp_prices :: pricing_snapshot

section \<open>The partner the request path sees\<close>

record runtime_config =
  rc_consumer_id :: string
  rc_key_name :: string
  rc_billing_mode :: billing_mode
  rc_billing_email :: string
  rc_service_status :: service_status
  rc_models :: "(string \<times> pricing_snapshot) list"

definition config_new ::
  "string \<Rightarrow> string \<Rightarrow> billing_mode \<Rightarrow> string \<Rightarrow> service_status \<Rightarrow>
   (string \<times> pricing_snapshot) list \<Rightarrow> runtime_config" where
  "config_new consumer_id key_name mode email status models =
     \<lparr>rc_consumer_id = consumer_id, rc_key_name = key_name, rc_billing_mode = mode,
      rc_billing_email = email, rc_service_status = status, rc_models = models\<rparr>"

definition config_empty ::
  "string \<Rightarrow> string \<Rightarrow> billing_mode \<Rightarrow> service_status \<Rightarrow> runtime_config" where
  "config_empty consumer_id key_name mode status =
     config_new consumer_id key_name mode [] status []"

definition config_allows :: "runtime_config \<Rightarrow> string \<Rightarrow> bool" where
  "config_allows c model \<longleftrightarrow> model \<in> set (map fst (rc_models c))"

definition config_pricing_for :: "runtime_config \<Rightarrow> string \<Rightarrow> pricing_snapshot option" where
  "config_pricing_for c model = map_of (rc_models c) model"

definition config_allowed_models :: "runtime_config \<Rightarrow> string list" where
  "config_allowed_models c = map fst (rc_models c)"

definition config_is_suspended :: "runtime_config \<Rightarrow> bool" where
  "config_is_suspended c \<longleftrightarrow> status_is_suspended (rc_service_status c)"

definition emails_statements :: "runtime_config \<Rightarrow> bool" where
  "emails_statements c \<longleftrightarrow> owes_payment (rc_billing_mode c) \<and> rc_billing_email c \<noteq> []"

text \<open>The snapshot: a hash map from key hashes; of two rows with one hash the later one stays.\<close>

type_synonym partner_snapshot = "(string \<times> runtime_config) list"

definition snapshot_from_rows :: "(string \<times> runtime_config) list \<Rightarrow> string \<Rightarrow> runtime_config option" where
  "snapshot_from_rows rows = map_of (rev rows)"

section \<open>Facts\<close>

lemma allows_iff_priced: "config_allows c model \<longleftrightarrow> config_pricing_for c model \<noteq> None"
  by (simp add: config_allows_def config_pricing_for_def map_of_eq_None_iff)

lemma due_at_for_reconciliation [simp]:
  "p_billing_mode p = Reconciliation \<Longrightarrow> due_at_for T p t = Done None"
  by (simp add: due_at_for_def)

lemma in_i64_seconds: "0 \<le> m \<Longrightarrow> in_i64 (m * 60) \<longleftrightarrow> m \<le> 153722867280912930"
  by (auto simp: in_i64_def)

lemma due_at_for_invoice:
  assumes "p_billing_mode p = Invoice" "0 \<le> p_payment_terms p"
  shows "due_at_for T p t =
    (if p_payment_terms p \<le> 153722867280912930
     then Done (instant_checked_add T t (p_payment_terms p * 60000000000))
     else Panic)"
  using assms in_i64_seconds [of "p_payment_terms p"]
  by (simp add: due_at_for_def duration_minutes_def mult.commute)

end
