(* ===== verification/Scope.thy ===== *)
theory Scope
  imports Partner
begin

text \<open>
  \<^verbatim>\<open>src/src/auth/context.rs\<close> and \<^verbatim>\<open>src/src/auth/scope.rs\<close>: the identity of an authenticated
  credential and the consumers a query may read on its behalf.
\<close>

section \<open>Credentials\<close>

datatype manager_role = Consumer | Manager

record consumer_identity =
  ci_consumer_id :: string
  ci_key_name :: string
  ci_scope :: manager_role
  ci_allowed_models :: "string list"

record consumer_context =
  cc_identity :: consumer_identity
  cc_partner :: "runtime_config option"

definition context_new :: "runtime_config \<Rightarrow> consumer_context" where
  "context_new p =
     \<lparr>cc_identity = \<lparr>ci_consumer_id = rc_consumer_id p, ci_key_name = rc_key_name p,
                     ci_scope = Consumer, ci_allowed_models = config_allowed_models p\<rparr>,
      cc_partner = Some p\<rparr>"

definition context_manager :: consumer_context where
  "context_manager =
     \<lparr>cc_identity = \<lparr>ci_consumer_id = [], ci_key_name = ''manager'', ci_scope = Manager,
                     ci_allowed_models = []\<rparr>,
      cc_partner = None\<rparr>"

definition context_consumer_id :: "consumer_context \<Rightarrow> string" where
  "context_consumer_id c = ci_consumer_id (cc_identity c)"

definition is_manager :: "consumer_context \<Rightarrow> bool" where
  "is_manager c \<longleftrightarrow> ci_scope (cc_identity c) = Manager"

definition context_allowed_models :: "consumer_context \<Rightarrow> string list" where
  "context_allowed_models c =
     (case cc_partner c of Some p \<Rightarrow> config_allowed_models p | None \<Rightarrow> [])"

definition context_allows_model :: "consumer_context \<Rightarrow> string \<Rightarrow> bool" where
  "context_allows_model c model \<longleftrightarrow>
     (case cc_partner c of Some p \<Rightarrow> config_allows p model | None \<Rightarrow> False)"

definition context_pricing_for :: "consumer_context \<Rightarrow> string \<Rightarrow> pricing_snapshot option" where
  "context_pricing_for c model =
     (case cc_partner c of Some p \<Rightarrow> config_pricing_for p model | None \<Rightarrow> None)"

definition context_service_status :: "consumer_context \<Rightarrow> service_status" where
  "context_service_status c =
     (case cc_partner c of Some p \<Rightarrow> rc_service_status p | None \<Rightarrow> Active)"

section \<open>Scopes\<close>

datatype scope = One string | ListOf "string list" | AllConsumers

text \<open>\<open>str::split\<close>: the pieces between the separators, empty ones included.\<close>

fun split_on :: "char \<Rightarrow> string \<Rightarrow> string list" where
  "split_on c [] = [[]]"
| "split_on c (x # xs) =
     (if x = c then [] # split_on c xs
      else case split_on c xs of [] \<Rightarrow> [[x]] | piece # pieces \<Rightarrow> (x # piece) # pieces)"

definition resolve_scope :: "consumer_context \<Rightarrow> string \<Rightarrow> scope" where
  "resolve_scope c consumers =
     (if \<not> is_manager c then One (context_consumer_id c)
      else let requested = filter (\<lambda>s. s \<noteq> []) (map trim (split_on CHR '','' consumers))
           in if requested = [] then AllConsumers else ListOf requested)"

fun join_with :: "string \<Rightarrow> string list \<Rightarrow> string" where
  "join_with sep [] = []"
| "join_with sep [x] = x"
| "join_with sep (x # y # ys) = x @ sep @ join_with sep (y # ys)"

fun scope_clause :: "scope \<Rightarrow> string \<times> string list" where
  "scope_clause (One i) = (''consumer_id = ?'', [i])"
| "scope_clause (ListOf xs) =
     (''consumer_id IN ('' @ join_with '','' (map (\<lambda>_. ''?'') xs) @ '')'', xs)"
| "scope_clause AllConsumers = (''1 = 1'', [])"

text \<open>What the rendered clause means for a row's \<open>consumer_id\<close>.\<close>

fun scope_admits :: "scope \<Rightarrow> string \<Rightarrow> bool" where
  "scope_admits (One i) c \<longleftrightarrow> c = i"
| "scope_admits (ListOf xs) c \<longleftrightarrow> c \<in> set xs"
| "scope_admits AllConsumers c \<longleftrightarrow> True"

section \<open>Facts\<close>

lemma key_context_scope: "resolve_scope (context_new p) consumers = One (rc_consumer_id p)"
  by (simp add: resolve_scope_def is_manager_def context_new_def context_consumer_id_def)

lemma manager_scope:
  "scope_admits (resolve_scope context_manager consumers) c \<longleftrightarrow>
     (let requested = filter (\<lambda>s. s \<noteq> []) (map trim (split_on CHR '','' consumers))
      in requested = [] \<or> c \<in> set requested)"
  by (simp add: resolve_scope_def is_manager_def context_manager_def Let_def)

lemma context_gate_priced:
  "context_allows_model c model \<longleftrightarrow> context_pricing_for c model \<noteq> None"
  by (simp add: context_allows_model_def context_pricing_for_def allows_iff_priced split: option.split)

end
