(* ===== verification/Schema.thy ===== *)
theory Schema
  imports Pricing
begin

text \<open>
  \<^verbatim>\<open>src/src/ledger/schema.sql\<close>: the ledger and billing tables with their \<open>CHECK\<close>,
  \<open>UNIQUE\<close> and \<open>FOREIGN KEY\<close> constraints, and \<^verbatim>\<open>src/src/ledger/pool.rs\<close>: how an
  operation reaches them. A table is the list of its rows in insertion order; \<open>usage_hourly\<close> is
  a map from its UNIQUE key. Indexes are not modelled: they change no result. Integer columns are
  unbounded here; the operations that can leave 64 bits say so where they do.
\<close>

section \<open>Database errors\<close>

datatype rusqlite_error =
    SqliteFailure (extended_code: int)
  | ToSqlConversionFailure
  | FromSqlConversionFailure
  | InvalidColumnType
  | QueryReturnedNoRows

definition SQLITE_CONSTRAINT_UNIQUE :: i32 where
  [simp]: "SQLITE_CONSTRAINT_UNIQUE = 2067"

definition SQLITE_CONSTRAINT_PRIMARYKEY :: i32 where
  [simp]: "SQLITE_CONSTRAINT_PRIMARYKEY = 1555"

definition SQLITE_CONSTRAINT_FOREIGNKEY :: i32 where
  [simp]: "SQLITE_CONSTRAINT_FOREIGNKEY = 787"

definition SQLITE_CONSTRAINT_CHECK :: i32 where
  [simp]: "SQLITE_CONSTRAINT_CHECK = 275"

definition is_uniqueness_violation :: "rusqlite_error \<Rightarrow> bool" where
  "is_uniqueness_violation e =
     (case e of
        SqliteFailure c \<Rightarrow> c = SQLITE_CONSTRAINT_UNIQUE \<or> c = SQLITE_CONSTRAINT_PRIMARYKEY
      | _ \<Rightarrow> False)"

text \<open>
  The primary result code is the low byte of the extended one: 5 is \<open>SQLITE_BUSY\<close>, 6 is
  \<open>SQLITE_LOCKED\<close>.
\<close>

definition is_busy :: "rusqlite_error \<Rightarrow> bool" where
  "is_busy e =
     (case e of SqliteFailure c \<Rightarrow> c mod 256 = 5 \<or> c mod 256 = 6 | _ \<Rightarrow> False)"

section \<open>Tables\<close>

record usage_row =
  ur_id :: int
  ur_request_id :: string
  ur_created_at :: string
  ur_consumer_id :: string
  ur_model :: string
  ur_endpoint :: string
  ur_streaming :: int
  ur_http_status :: "int option"
  ur_request_status :: string
  ur_instance_id :: "string option"
  ur_input_tokens :: "i64 option"
  ur_output_tokens :: "i64 option"
  ur_cached_tokens :: "i64 option"
  ur_ttft_ms :: "i64 option"
  ur_duration_ms :: i64
  ur_usage_status :: string
  ur_error_message :: "string option"
  ur_error_body :: "string option"
  ur_input_price :: "i64 option"
  ur_cached_price :: "i64 option"
  ur_output_price :: "i64 option"

definition absent_or_nonneg :: "int option \<Rightarrow> bool" where
  "absent_or_nonneg v = (case v of None \<Rightarrow> True | Some x \<Rightarrow> 0 \<le> x)"

definition usage_row_check :: "usage_row \<Rightarrow> bool" where
  "usage_row_check r \<longleftrightarrow>
     ur_request_status r \<in> {''in_flight'', ''completed'', ''failed'', ''interrupted''}
     \<and> ur_usage_status r \<in> {''available'', ''unavailable'', ''partial''}
     \<and> ur_endpoint r \<in> {''chat_completions'', ''responses'', ''models''}
     \<and> absent_or_nonneg (ur_input_tokens r) \<and> absent_or_nonneg (ur_output_tokens r)
     \<and> absent_or_nonneg (ur_cached_tokens r)
     \<and> absent_or_nonneg (ur_input_price r) \<and> absent_or_nonneg (ur_cached_price r)
     \<and> absent_or_nonneg (ur_output_price r)"

record partner_row =
  pr_consumer_id :: string
  pr_name :: string
  pr_billing_email :: string
  pr_billing_mode :: string
  pr_payment_terms :: i64
  pr_created_at :: string
  pr_updated_at :: string

definition partner_row_check :: "partner_row \<Rightarrow> bool" where
  "partner_row_check r \<longleftrightarrow>
     pr_billing_mode r \<in> {''invoice'', ''reconciliation''} \<and> 0 \<le> pr_payment_terms r"

record model_row =
  mr_consumer_id :: string
  mr_model :: string
  mr_input :: i64
  mr_cached_input :: i64
  mr_output :: i64
  mr_created_at :: string
  mr_updated_at :: string

text \<open>SQL's \<open>TRIM\<close> removes spaces only.\<close>

definition sql_trim :: "string \<Rightarrow> string" where
  "sql_trim s =
     rev (dropWhile (\<lambda>c. c = CHR '' '') (rev (dropWhile (\<lambda>c. c = CHR '' '') s)))"

definition model_row_check :: "model_row \<Rightarrow> bool" where
  "model_row_check r \<longleftrightarrow>
     0 \<le> mr_input r \<and> 0 \<le> mr_cached_input r \<and> 0 \<le> mr_output r \<and> sql_trim (mr_model r) \<noteq> []"

text \<open>
  The columns of \<open>daily_statements\<close>: the fields of the code's \<open>Statement\<close>, in the order of
  \<open>STATEMENT_COLUMNS\<close>, and the two lease columns the code never reads back.
\<close>

record statement =
  st_id :: i64
  st_consumer_id :: string
  st_billing_date :: string
  st_billing_mode :: string
  st_currency :: string
  st_period_start :: string
  st_period_end :: string
  st_billing_cutoff_at :: string
  st_total :: i64
  st_incomplete :: i64
  st_due_at :: "string option"
  st_paid_at :: "string option"
  st_paid_by :: "string option"
  st_payment_reference :: "string option"
  st_payment_note :: "string option"
  st_email_sent_at :: "string option"
  st_email_attempts :: i64
  st_email_last_error :: "string option"
  st_email_next_retry_at :: "string option"
  st_created_at :: string
  st_updated_at :: string

record statement_row = statement +
  st_claim_instance :: "string option"
  st_claimed_until :: "string option"

definition statement_check :: "('a statement_scheme) \<Rightarrow> bool" where
  "statement_check s \<longleftrightarrow>
     st_billing_mode s \<in> {''invoice'', ''reconciliation''}
     \<and> 0 \<le> st_total s \<and> 0 \<le> st_incomplete s \<and> 0 \<le> st_email_attempts s
     \<and> (st_billing_mode s = ''invoice'' \<or> (st_due_at s = None \<and> st_paid_at s = None))
     \<and> ((st_paid_at s = None) = (st_paid_by s = None))"

record statement_line =
  sl_id :: i64
  sl_statement_id :: i64
  sl_model :: string
  sl_prices :: pricing_snapshot
  sl_request_count :: i64
  sl_input_tokens :: i64
  sl_cached_input_tokens :: i64
  sl_uncached_input_tokens :: i64
  sl_output_tokens :: i64
  sl_input_cost :: i64
  sl_cached_input_cost :: i64
  sl_output_cost :: i64
  sl_total_cost :: i64

definition statement_line_check :: "statement_line \<Rightarrow> bool" where
  "statement_line_check l \<longleftrightarrow>
     0 \<le> sl_request_count l \<and> 0 \<le> sl_input_tokens l \<and> 0 \<le> sl_cached_input_tokens l
     \<and> 0 \<le> sl_output_tokens l
     \<and> sl_uncached_input_tokens l = sl_input_tokens l - sl_cached_input_tokens l
     \<and> 0 \<le> sl_uncached_input_tokens l
     \<and> 0 \<le> sl_input_cost l \<and> 0 \<le> sl_cached_input_cost l \<and> 0 \<le> sl_output_cost l
     \<and> 0 \<le> sl_total_cost l
     \<and> (case as_tuple (sl_prices l) of (i, c, out) \<Rightarrow> 0 \<le> i \<and> 0 \<le> c \<and> 0 \<le> out)"

text \<open>The key of \<open>usage_hourly\<close> and its aggregates.\<close>

record bucket_key =
  bk_hour :: string
  bk_consumer_id :: string
  bk_model :: string
  bk_endpoint :: string
  bk_streaming :: i32

datatype metrics = Metrics
  (m_input_tokens: i64) (m_output_tokens: i64) (m_cached_tokens: i64) (m_duration_ms: i64)
  (m_ttft_ms: i64) (m_ttft_count: i32) (m_success_count: i32) (m_failure_count: i32)

datatype hourly_row = HourlyRow (hr_request_count: int) (hr_totals: metrics)

type_synonym hourly_table = "bucket_key \<Rightarrow> hourly_row option"

record db =
  usage_records :: "usage_row list"
  usage_hourly :: hourly_table
  partners :: "partner_row list"
  partner_models :: "model_row list"
  daily_statements :: "statement_row list"
  statement_lines :: "statement_line list"

definition empty_db :: db where
  "empty_db =
     \<lparr>usage_records = [], usage_hourly = (\<lambda>_. None), partners = [], partner_models = [],
      daily_statements = [], statement_lines = []\<rparr>"

text \<open>
  A rowid for a new row: larger than every one in the table. (\<open>AUTOINCREMENT\<close> also skips
  the ids of deleted rows; no operation here deletes rows of these tables.)
\<close>

definition fresh_id :: "int list \<Rightarrow> int" where
  "fresh_id ids = 1 + fold max ids 0"

section \<open>Reaching the tables\<close>

text \<open>
  A write runs under the one writer lock and in one transaction; a read opens its own
  connection. Either can fail for a reason outside the program (the file is locked, the disk is
  full): \<open>fault\<close> is that failure, a parameter of every operation. A failed write leaves the
  tables as they were.
\<close>

type_synonym fault = "rusqlite_error option"

definition pool_write ::
  "fault \<Rightarrow> (db \<Rightarrow> rusqlite_error + ('a \<times> db)) \<Rightarrow> db \<Rightarrow> (rusqlite_error + 'a) \<times> db" where
  "pool_write fault f s =
     (case fault of
        Some e \<Rightarrow> (Inl e, s)
      | None \<Rightarrow> (case f s of Inl e \<Rightarrow> (Inl e, s) | Inr (x, s') \<Rightarrow> (Inr x, s')))"

definition pool_read ::
  "fault \<Rightarrow> (db \<Rightarrow> rusqlite_error + 'a) \<Rightarrow> db \<Rightarrow> rusqlite_error + 'a" where
  "pool_read fault f s = (case fault of Some e \<Rightarrow> Inl e | None \<Rightarrow> f s)"

lemma pool_write_simps [simp]:
  "pool_write (Some e) f s = (Inl e, s)"
  "f s = Inl e \<Longrightarrow> pool_write None f s = (Inl e, s)"
  "f s = Inr (x, s') \<Longrightarrow> pool_write None f s = (Inr x, s')"
  by (simp_all add: pool_write_def)

lemma pool_read_simps [simp]:
  "pool_read (Some e) f s = Inl e"
  "pool_read None f s = f s"
  by (simp_all add: pool_read_def)

lemma pool_write_Inr: "pool_write flt f s = (Inr x, s') \<longleftrightarrow> flt = None \<and> f s = Inr (x, s')"
  by (auto simp: pool_write_def split: option.splits sum.splits)

lemma pool_write_Inl: "pool_write flt f s = (Inl e, s') \<Longrightarrow> s' = s"
  by (auto simp: pool_write_def split: option.splits sum.splits)

lemma fresh_id_greater: "i \<in> set ids \<Longrightarrow> i < fresh_id ids"
proof -
  have "a \<le> fold max ids a \<and> (i \<in> set ids \<longrightarrow> i \<le> fold max ids a)" for a
  proof (induction ids arbitrary: a)
    case (Cons x xs)
    show ?case using Cons [of "max x a"] by auto
  qed simp
  from this [of 0] show "i < fresh_id ids" if "i \<in> set ids"
    using that by (simp add: fresh_id_def)
qed

lemma fresh_id_notin: "fresh_id ids \<notin> set ids"
  using fresh_id_greater by blast

end
