(* ===== verification/Period.thy ===== *)
theory Period
  imports Timefmt
begin

text \<open>
  \<^verbatim>\<open>src/src/billing/period.rs\<close>: billing days, the configured calendar and the half-open UTC
  window a billing day covers. A date is its day number (the representable range of
  \<^verbatim>\<open>time::Date\<close>, years -9999 to 9999, is not enforced on it); an instant is in nanoseconds.
\<close>

section \<open>The configured calendar\<close>

datatype billing_timezone = BillingTimezone (offset_minutes: i32)

datatype timezone_error = TimezoneOutOfRange (tze_offset: i32) (tze_min: i32) (tze_max: i32)

definition MIN_OFFSET_MINUTES :: i32 where
  "MIN_OFFSET_MINUTES = -12 * 60"

definition MAX_OFFSET_MINUTES :: i32 where
  "MAX_OFFSET_MINUTES = 14 * 60"

definition from_offset_minutes :: "i32 \<Rightarrow> timezone_error + billing_timezone" where
  "from_offset_minutes m =
     (if \<not> (MIN_OFFSET_MINUTES \<le> m \<and> m \<le> MAX_OFFSET_MINUTES)
      then Inl (TimezoneOutOfRange m MIN_OFFSET_MINUTES MAX_OFFSET_MINUTES)
      else Inr (BillingTimezone m))"

definition tz_default :: billing_timezone where
  "tz_default = BillingTimezone 0"

text \<open>
  \<^verbatim>\<open>UtcOffset::from_whole_seconds\<close> accepts \<open>\<plusminus>25:59:59\<close>; the code falls back to UTC outside it.
  The offset is in seconds.
\<close>

definition utc_offset :: "billing_timezone \<Rightarrow> int" where
  "utc_offset tz =
     (let s = offset_minutes tz * 60 in if -93599 \<le> s \<and> s \<le> 93599 then s else 0)"

definition tz_display :: "billing_timezone \<Rightarrow> string" where
  "tz_display tz =
     (let sgn = (if offset_minutes tz < 0 then CHR ''-'' else CHR ''+'');
          hours = nat (\<bar>offset_minutes tz\<bar> div 60);
          minutes = nat (\<bar>offset_minutes tz\<bar> mod 60)
      in if minutes = 0 then ''UTC'' @ [sgn] @ pad0 2 (dec hours)
         else ''UTC'' @ [sgn] @ pad0 2 (dec hours) @ '':'' @ pad0 2 (dec minutes))"

text \<open>Values a configuration can hold: the constructor is private to the module.\<close>

definition wf_tz :: "billing_timezone \<Rightarrow> bool" where
  "wf_tz tz \<longleftrightarrow> from_offset_minutes (offset_minutes tz) = Inr tz"

section \<open>Billing days\<close>

datatype billing_day = BillingDay (day_date: int)

instantiation billing_day :: linorder
begin

definition less_eq_billing_day :: "billing_day \<Rightarrow> billing_day \<Rightarrow> bool" where
  "less_eq_billing_day a b \<longleftrightarrow> day_date a \<le> day_date b"

definition less_billing_day :: "billing_day \<Rightarrow> billing_day \<Rightarrow> bool" where
  "less_billing_day a b \<longleftrightarrow> day_date a < day_date b"

instance
  by standard
    (auto simp: less_eq_billing_day_def less_billing_day_def intro: billing_day.expand)

end

definition day_parse :: "time_crate \<Rightarrow> string \<Rightarrow> billing_day option" where
  "day_parse T s = map_option BillingDay (tc_parse_date T s)"

definition day_of :: "instant \<Rightarrow> billing_timezone \<Rightarrow> billing_day" where
  "day_of t tz = BillingDay ((t + utc_offset tz * 1000000000) div NANOS_PER_DAY)"

definition day_previous :: "billing_day \<Rightarrow> billing_day" where
  "day_previous d = BillingDay (day_date d - 1)"

definition day_next :: "billing_day \<Rightarrow> billing_day" where
  "day_next d = BillingDay (day_date d + 1)"

definition start_utc :: "billing_day \<Rightarrow> billing_timezone \<Rightarrow> instant" where
  "start_utc d tz = day_date d * NANOS_PER_DAY - utc_offset tz * 1000000000"

definition end_exclusive_utc :: "billing_day \<Rightarrow> billing_timezone \<Rightarrow> instant" where
  "end_exclusive_utc d tz = start_utc (day_next d) tz"

definition day_display :: "time_crate \<Rightarrow> billing_day \<Rightarrow> string" where
  "day_display T d = render_date T (day_date d)"

section \<open>Billing periods\<close>

record billing_period =
  period_start :: instant
  period_end :: instant

definition period_for_day :: "billing_day \<Rightarrow> billing_timezone \<Rightarrow> billing_period" where
  "period_for_day d tz =
     \<lparr>period_start = start_utc d tz, period_end = end_exclusive_utc d tz\<rparr>"

definition period_contains :: "billing_period \<Rightarrow> instant \<Rightarrow> bool" where
  "period_contains p t \<longleftrightarrow> period_start p \<le> t \<and> t < period_end p"

definition to_bounds :: "time_crate \<Rightarrow> billing_period \<Rightarrow> string \<times> string" where
  "to_bounds T p = (format_ts T (period_start p), format_ts T (period_end p))"

section \<open>Facts the statements share\<close>

lemma NANOS_PER_DAY_pos [simp]: "0 < NANOS_PER_DAY"
  by (simp add: NANOS_PER_DAY_def)

lemma NANOS_PER_DAY_nonzero [simp]: "NANOS_PER_DAY \<noteq> 0"
  by (simp add: NANOS_PER_DAY_def)

lemma day_of_start [simp]: "day_of (start_utc d tz) tz = d"
  by (simp add: day_of_def start_utc_def)

lemma day_next_previous [simp]:
  "day_previous (day_next d) = d" "day_next (day_previous d) = d"
  by (simp_all add: day_previous_def day_next_def)

lemma day_date_shift [simp]:
  "day_date (day_next d) = day_date d + 1" "day_date (day_previous d) = day_date d - 1"
  by (simp_all add: day_previous_def day_next_def)

lemma end_is_start_plus_day: "end_exclusive_utc d tz = start_utc d tz + NANOS_PER_DAY"
  by (simp add: end_exclusive_utc_def start_utc_def algebra_simps)

lemma div_eq_iff_window:
  fixes n x k :: int
  assumes "0 < n"
  shows "x div n = k \<longleftrightarrow> k * n \<le> x \<and> x < k * n + n"
proof
  assume "x div n = k"
  then show "k * n \<le> x \<and> x < k * n + n"
    using assms by (metis div_mult_mod_eq pos_mod_bound pos_mod_sign add_le_cancel_left
        add_0_right add_less_cancel_left)
next
  assume a: "k * n \<le> x \<and> x < k * n + n"
  then have "x = k * n + (x - k * n)" "0 \<le> x - k * n" "x - k * n < n" by auto
  then show "x div n = k" by (metis int_div_pos_eq mult.commute)
qed

lemma contains_iff_day_of: "period_contains (period_for_day d tz) t \<longleftrightarrow> day_of t tz = d"
proof -
  have "day_of t tz = d \<longleftrightarrow> (t + utc_offset tz * 1000000000) div NANOS_PER_DAY = day_date d"
    by (auto simp: day_of_def)
  also have "\<dots> \<longleftrightarrow> period_contains (period_for_day d tz) t"
    unfolding div_eq_iff_window [OF NANOS_PER_DAY_pos]
    by (auto simp: period_contains_def period_for_day_def end_is_start_plus_day start_utc_def)
  finally show ?thesis by simp
qed

lemma day_of_mono: "s \<le> t \<Longrightarrow> day_of s tz \<le> day_of t tz"
  by (simp add: day_of_def less_eq_billing_day_def zdiv_mono1)

lemma day_le_iff_start: "d \<le> day_of t tz \<longleftrightarrow> start_utc d tz \<le> t"
proof
  assume "d \<le> day_of t tz"
  then have "day_date d * NANOS_PER_DAY \<le> day_date (day_of t tz) * NANOS_PER_DAY"
    by (simp add: less_eq_billing_day_def)
  moreover have "start_utc (day_of t tz) tz \<le> t"
    using contains_iff_day_of [of "day_of t tz" tz t]
    by (simp add: period_contains_def period_for_day_def)
  ultimately show "start_utc d tz \<le> t" unfolding start_utc_def by linarith
next
  assume "start_utc d tz \<le> t"
  then have "day_of (start_utc d tz) tz \<le> day_of t tz" by (rule day_of_mono)
  then show "d \<le> day_of t tz" by simp
qed

lemma day_less_iff_end: "d < day_of t tz \<longleftrightarrow> end_exclusive_utc d tz \<le> t"
  using day_le_iff_start [of "day_next d" t tz]
  unfolding end_exclusive_utc_def less_eq_billing_day_def less_billing_day_def day_date_shift
  by linarith

lemma start_utc_less_iff [simp]: "start_utc d tz < start_utc e tz \<longleftrightarrow> d < e"
  by (simp add: start_utc_def less_billing_day_def)

lemma start_utc_le_iff [simp]: "start_utc d tz \<le> start_utc e tz \<longleftrightarrow> d \<le> e"
  by (simp add: start_utc_def less_eq_billing_day_def)

lemma from_offset_minutes_wf: "from_offset_minutes m = Inr tz \<Longrightarrow> wf_tz tz \<and> offset_minutes tz = m"
  by (auto simp: from_offset_minutes_def wf_tz_def split: if_splits)

lemma wf_tz_iff: "wf_tz tz \<longleftrightarrow> -720 \<le> offset_minutes tz \<and> offset_minutes tz \<le> 840"
  by (cases tz)
    (simp add: wf_tz_def from_offset_minutes_def MIN_OFFSET_MINUTES_def MAX_OFFSET_MINUTES_def)

lemma utc_offset_wf: "wf_tz tz \<Longrightarrow> utc_offset tz = offset_minutes tz * 60"
  by (simp add: wf_tz_iff utc_offset_def)

lemma wf_tz_default [simp]: "wf_tz tz_default"
  by (simp add: wf_tz_iff tz_default_def)

text \<open>The window as SQL compares it: on the fixed-width text.\<close>

definition in_text_window :: "string \<times> string \<Rightarrow> string \<Rightarrow> bool" where
  "in_text_window b s \<longleftrightarrow> fst b \<le> s \<and> s < snd b"

context time_laws
begin

lemma in_text_window_iff:
  assumes "four_digit_instant t" "four_digit_instant (period_start p)"
    "four_digit_instant (period_end p)"
  shows "in_text_window (to_bounds T p) (format_ts T t) \<longleftrightarrow> period_contains p t"
  using assms
  by (simp add: in_text_window_def to_bounds_def period_contains_def format_ts_le_iff
      format_ts_less_iff)

lemma day_parse_display: "four_digit_day (day_date d) \<Longrightarrow> day_parse T (day_display T d) = Some d"
  by (simp add: day_parse_def day_display_def parse_date_render)

lemma day_display_le_iff:
  "four_digit_day (day_date d) \<Longrightarrow> four_digit_day (day_date e) \<Longrightarrow>
   day_display T d \<le> day_display T e \<longleftrightarrow> d \<le> e"
  by (simp add: day_display_def render_date_le_iff less_eq_billing_day_def)

lemma day_display_inject:
  "four_digit_day (day_date d) \<Longrightarrow> four_digit_day (day_date e) \<Longrightarrow>
   day_display T d = day_display T e \<longleftrightarrow> d = e"
  using day_display_le_iff [of d e] day_display_le_iff [of e d] by (metis antisym order_refl)

end

section \<open>Properties\<close>

text \<open>
  C35: billing days partition time. In every configured calendar, an instant is inside the window
  of a billing day exactly when that day is the one the instant falls in, so no request is billed
  on two days or on none; consecutive windows meet without a gap.
\<close>

theorem billing_periods_partition_time:
  "(period_contains (period_for_day d tz) t \<longleftrightarrow> day_of t tz = d)
   \<and> period_end (period_for_day d tz) = period_start (period_for_day (day_next d) tz)"
  by (simp add: contains_iff_day_of) (simp add: period_for_day_def end_exclusive_utc_def)

text \<open>
  the accepted offsets are exactly UTC-12:00 to UTC+14:00; for each of them the offset used is
  the configured one, never the UTC fallback, and every other value is refused with the bounds.
\<close>

theorem timezone_range:
  "from_offset_minutes m =
     (if -720 \<le> m \<and> m \<le> 840 then Inr (BillingTimezone m)
      else Inl (TimezoneOutOfRange m (-720) 840))
   \<and> (from_offset_minutes m = Inr tz \<longrightarrow> utc_offset tz = 60 * m)"
  using from_offset_minutes_wf [of m tz] utc_offset_wf [of tz]
  by (auto simp: from_offset_minutes_def MIN_OFFSET_MINUTES_def MAX_OFFSET_MINUTES_def)

theorem timezone_range_witness:
  "utc_offset (BillingTimezone 330) = 19800"
  using timezone_range [of 330 "BillingTimezone 330"] by simp

end
