(* ===== verification/Store.thy ===== *)
theory Store
  imports Scope Schema Period
begin

text \<open>
  \<^verbatim>\<open>src/src/billing/store.rs\<close>: the repository of the billing tables. Every operation takes the
  instant \<open>now\<close> it reads from the clock and the faults of the pool calls it makes, and returns its
  result with the tables. Messages of refused input are kept unrendered.
\<close>

section \<open>Types\<close>

datatype statement_rejected = InconsistentLine string | MissingDueDate | UnexpectedDueDate

datatype invalid_reason =
    Message string
  | ListedTwice string
  | Rejected statement_rejected

datatype billing_error =
    Database rusqlite_error
  | PartnerNotFound string
  | PartnerExists string
  | StatementNotPayable i64 string
  | Invalid invalid_reason

definition db_result :: "rusqlite_error + 'a \<Rightarrow> billing_error + 'a" where
  "db_result r = (case r of Inl e \<Rightarrow> Inl (Database e) | Inr x \<Rightarrow> Inr x)"

definition is_some_and :: "('a \<Rightarrow> bool) \<Rightarrow> 'a option \<Rightarrow> bool" where
  "is_some_and P v = (case v of None \<Rightarrow> False | Some x \<Rightarrow> P x)"

lemma is_some_and_simps [simp]: "\<not> is_some_and P None" "is_some_and P (Some x) = P x"
  by (simp_all add: is_some_and_def)

record new_partner =
  np_consumer_id :: string
  np_name :: string
  np_billing_email :: string
  np_billing_mode :: billing_mode
  np_payment_terms :: i64

record partner_patch =
  pp_name :: "string option"
  pp_billing_email :: "string option"
  pp_billing_mode :: "billing_mode option"
  pp_payment_terms :: "i64 option"

definition patch_default :: partner_patch where
  "patch_default =
     \<lparr>pp_name = None, pp_billing_email = None, pp_billing_mode = None, pp_payment_terms = None\<rparr>"

record line_draft =
  ld_model :: string
  ld_prices :: pricing_snapshot
  ld_request_count :: i64
  ld_input_tokens :: i64
  ld_cached_input_tokens :: i64
  ld_output_tokens :: i64
  ld_cost :: line_cost

record statement_draft =
  sd_consumer_id :: string
  sd_billing_date :: billing_day
  sd_billing_mode :: billing_mode
  sd_period_start :: string
  sd_period_end :: string
  sd_billing_cutoff_at :: string
  sd_due_at :: "instant option"
  sd_incomplete :: i64
  sd_lines :: "line_draft list"

fun add_line_totals :: "micro_usd \<Rightarrow> line_draft list \<Rightarrow> billing_error + micro_usd" where
  "add_line_totals acc [] = Inr acc"
| "add_line_totals acc (l # ls) =
     (case micro_checked_add acc (line_total (ld_cost l)) of
        None \<Rightarrow> Inl (Invalid (Message ''a statement total overflowed micro-dollars''))
      | Some acc' \<Rightarrow> add_line_totals acc' ls)"

definition draft_total :: "statement_draft \<Rightarrow> billing_error + micro_usd" where
  "draft_total d = add_line_totals (MicroUsd 0) (sd_lines d)"

datatype statement_outcome = Created statement | Existed statement

fun outcome_statement :: "statement_outcome \<Rightarrow> statement" where
  "outcome_statement (Created s) = s"
| "outcome_statement (Existed s) = s"

fun was_created :: "statement_outcome \<Rightarrow> bool" where
  "was_created (Created s) = True"
| "was_created (Existed s) = False"

section \<open>Questions about a statement\<close>

definition billing_mode_value :: "('a statement_scheme) \<Rightarrow> billing_mode option" where
  "billing_mode_value s = mode_parse (st_billing_mode s)"

definition is_paid :: "('a statement_scheme) \<Rightarrow> bool" where
  "is_paid s \<longleftrightarrow> st_paid_at s \<noteq> None"

definition is_outstanding :: "('a statement_scheme) \<Rightarrow> bool" where
  "is_outstanding s \<longleftrightarrow> is_some_and owes_payment (billing_mode_value s) \<and> \<not> is_paid s"

definition has_incomplete_usage :: "('a statement_scheme) \<Rightarrow> bool" where
  "has_incomplete_usage s \<longleftrightarrow> 0 < st_incomplete s"

definition to_overdue_row :: "('a statement_scheme) \<Rightarrow> overdue_row" where
  "to_overdue_row s =
     \<lparr>or_billing_mode = st_billing_mode s, or_id = st_id s, or_billing_date = st_billing_date s,
      or_due_at = (case st_due_at s of None \<Rightarrow> [] | Some d \<Rightarrow> d), or_total = st_total s,
      or_incomplete = st_incomplete s\<rparr>"

definition can_suspend :: "('a statement_scheme) \<Rightarrow> bool" where
  "can_suspend s \<longleftrightarrow>
     is_outstanding s \<and> \<not> has_incomplete_usage s \<and> 0 < st_total s \<and> st_due_at s \<noteq> None"

section \<open>Partners\<close>

definition validated :: "new_partner \<Rightarrow> billing_error + new_partner" where
  "validated n =
     (let n' = n\<lparr>np_consumer_id := trim (np_consumer_id n), np_name := trim (np_name n),
                 np_billing_email := trim (np_billing_email n)\<rparr>
      in if np_consumer_id n' = [] then Inl (Invalid (Message ''consumer_id must not be blank''))
         else if np_name n' = [] then Inl (Invalid (Message ''name must not be blank''))
         else if np_payment_terms n' < 0
              then Inl (Invalid (Message ''payment_terms_minutes must not be negative''))
         else Inr n')"

definition row_to_partner :: "partner_row \<Rightarrow> partner" where
  "row_to_partner r =
     \<lparr>p_consumer_id = pr_consumer_id r, p_name = pr_name r, p_billing_email = pr_billing_email r,
      p_billing_mode = (case mode_parse (pr_billing_mode r) of None \<Rightarrow> Invoice | Some m \<Rightarrow> m),
      p_payment_terms = pr_payment_terms r, p_created_at = pr_created_at r,
      p_updated_at = pr_updated_at r\<rparr>"

definition find_partner :: "string \<Rightarrow> db \<Rightarrow> partner_row option" where
  "find_partner i s = find (\<lambda>r. pr_consumer_id r = i) (partners s)"

definition insert_partner :: "partner_row \<Rightarrow> db \<Rightarrow> rusqlite_error + (unit \<times> db)" where
  "insert_partner r s =
     (if \<not> partner_row_check r then Inl (SqliteFailure SQLITE_CONSTRAINT_CHECK)
      else if find_partner (pr_consumer_id r) s \<noteq> None
           then Inl (SqliteFailure SQLITE_CONSTRAINT_PRIMARYKEY)
      else Inr ((), s\<lparr>partners := partners s @ [r]\<rparr>))"

definition get_partner :: "fault \<Rightarrow> string \<Rightarrow> db \<Rightarrow> billing_error + partner option" where
  "get_partner rflt i s =
     db_result (pool_read rflt (\<lambda>s. Inr (map_option row_to_partner (find_partner i s))) s)"

definition require_partner :: "fault \<Rightarrow> string \<Rightarrow> db \<Rightarrow> billing_error + partner" where
  "require_partner rflt i s =
     res_bind (get_partner rflt i s)
       (\<lambda>p. case p of None \<Rightarrow> Inl (PartnerNotFound i) | Some p \<Rightarrow> Inr p)"

definition create_partner ::
  "time_crate \<Rightarrow> instant \<Rightarrow> fault \<Rightarrow> fault \<Rightarrow> new_partner \<Rightarrow> db \<Rightarrow> (billing_error + partner) \<times> db" where
  "create_partner T now wflt rflt n s =
     (case validated n of
        Inl e \<Rightarrow> (Inl e, s)
      | Inr n \<Rightarrow>
          (case pool_write wflt (insert_partner
                  \<lparr>pr_consumer_id = np_consumer_id n, pr_name = np_name n,
                   pr_billing_email = np_billing_email n,
                   pr_billing_mode = mode_as_str (np_billing_mode n),
                   pr_payment_terms = np_payment_terms n,
                   pr_created_at = format_ts T now, pr_updated_at = format_ts T now\<rparr>) s of
             (Inr _, s') \<Rightarrow> (require_partner rflt (np_consumer_id n) s', s')
           | (Inl e, s') \<Rightarrow>
               if is_uniqueness_violation e then (Inl (PartnerExists (np_consumer_id n)), s')
               else (Inl (Database e), s')))"

definition list_partners :: "fault \<Rightarrow> db \<Rightarrow> billing_error + partner list" where
  "list_partners rflt s =
     db_result (pool_read rflt (\<lambda>s. Inr (map row_to_partner (sort_key pr_consumer_id (partners s)))) s)"

definition patch_row :: "time_crate \<Rightarrow> instant \<Rightarrow> partner_patch \<Rightarrow> partner_row \<Rightarrow> partner_row" where
  "patch_row T now patch r =
     r\<lparr>pr_name := case_option (pr_name r) id (pp_name patch),
       pr_billing_email := case_option (pr_billing_email r) id (pp_billing_email patch),
       pr_billing_mode := case_option (pr_billing_mode r) mode_as_str (pp_billing_mode patch),
       pr_payment_terms := case_option (pr_payment_terms r) id (pp_payment_terms patch),
       pr_updated_at := format_ts T now\<rparr>"

definition update_partners ::
  "(partner_row \<Rightarrow> bool) \<Rightarrow> (partner_row \<Rightarrow> partner_row) \<Rightarrow> db \<Rightarrow> rusqlite_error + (nat \<times> db)" where
  "update_partners P f s =
     (if \<not> list_all (\<lambda>r. P r \<longrightarrow> partner_row_check (f r)) (partners s)
      then Inl (SqliteFailure SQLITE_CONSTRAINT_CHECK)
      else Inr (length (filter P (partners s)),
                s\<lparr>partners := map (\<lambda>r. if P r then f r else r) (partners s)\<rparr>))"

definition update_partner ::
  "time_crate \<Rightarrow> instant \<Rightarrow> fault \<Rightarrow> fault \<Rightarrow> string \<Rightarrow> partner_patch \<Rightarrow> db \<Rightarrow>
   (billing_error + partner) \<times> db" where
  "update_partner T now wflt rflt i patch s =
     (if is_some_and (\<lambda>t. t < 0) (pp_payment_terms patch)
      then (Inl (Invalid (Message ''payment_terms_minutes must not be negative'')), s)
      else if is_some_and (\<lambda>n. trim n = []) (pp_name patch)
      then (Inl (Invalid (Message ''name must not be blank'')), s)
      else if patch = patch_default then (require_partner rflt i s, s)
      else
        (case pool_write wflt (update_partners (\<lambda>r. pr_consumer_id r = i) (patch_row T now patch)) s of
           (Inl e, s') \<Rightarrow> (Inl (Database e), s')
         | (Inr updated, s') \<Rightarrow>
             if updated = 0 then (Inl (PartnerNotFound i), s') else (require_partner rflt i s', s')))"

definition delete_partner_rows :: "string \<Rightarrow> db \<Rightarrow> rusqlite_error + (nat \<times> db)" where
  "delete_partner_rows i s =
     (let deleted = length (filter (\<lambda>r. pr_consumer_id r = i) (partners s))
      in if deleted \<noteq> 0 \<and> list_ex (\<lambda>st. st_consumer_id st = i) (daily_statements s)
         then Inl (SqliteFailure SQLITE_CONSTRAINT_FOREIGNKEY)
         else Inr (deleted,
                s\<lparr>partners := filter (\<lambda>r. pr_consumer_id r \<noteq> i) (partners s),
                  partner_models :=
                    (if deleted = 0 then partner_models s
                     else filter (\<lambda>m. mr_consumer_id m \<noteq> i) (partner_models s))\<rparr>))"

definition delete_partner :: "fault \<Rightarrow> string \<Rightarrow> db \<Rightarrow> (billing_error + unit) \<times> db" where
  "delete_partner wflt i s =
     (case pool_write wflt (delete_partner_rows i) s of
        (Inl e, s') \<Rightarrow> (Inl (Database e), s')
      | (Inr deleted, s') \<Rightarrow>
          if deleted = 0 then (Inl (PartnerNotFound i), s') else (Inr (), s'))"

section \<open>Models and prices\<close>

definition row_to_model :: "model_row \<Rightarrow> model_price" where
  "row_to_model r =
     \<lparr>mp_model = mr_model r,
      mp_prices = \<lparr>ps_input = PricePerMillion (mr_input r),
                   ps_cached_input = PricePerMillion (mr_cached_input r),
                   ps_output = PricePerMillion (mr_output r)\<rparr>\<rparr>"

definition store_models :: "fault \<Rightarrow> string \<Rightarrow> db \<Rightarrow> billing_error + model_price list" where
  "store_models rflt i s =
     db_result (pool_read rflt (\<lambda>s. Inr (map row_to_model
       (sort_key mr_model (filter (\<lambda>r. mr_consumer_id r = i) (partner_models s))))) s)"

fun validate_models :: "string list \<Rightarrow> model_price list \<Rightarrow> billing_error + unit" where
  "validate_models seen [] = Inr ()"
| "validate_models seen (entry # rest) =
     (let model = trim (mp_model entry)
      in if model = [] then Inl (Invalid (Message ''a model name must not be blank''))
         else if model \<in> set seen then Inl (Invalid (ListedTwice model))
         else validate_models (model # seen) rest)"

definition model_to_row :: "time_crate \<Rightarrow> instant \<Rightarrow> string \<Rightarrow> model_price \<Rightarrow> model_row" where
  "model_to_row T now i m =
     (case as_tuple (mp_prices m) of (input, cached, output) \<Rightarrow>
        \<lparr>mr_consumer_id = i, mr_model = mp_model m, mr_input = input, mr_cached_input = cached,
         mr_output = output, mr_created_at = format_ts T now, mr_updated_at = format_ts T now\<rparr>)"

definition insert_model :: "model_row \<Rightarrow> db \<Rightarrow> rusqlite_error + db" where
  "insert_model r s =
     (if \<not> model_row_check r then Inl (SqliteFailure SQLITE_CONSTRAINT_CHECK)
      else if list_ex (\<lambda>q. mr_consumer_id q = mr_consumer_id r \<and> mr_model q = mr_model r)
                (partner_models s)
           then Inl (SqliteFailure SQLITE_CONSTRAINT_UNIQUE)
      else if find_partner (mr_consumer_id r) s = None
           then Inl (SqliteFailure SQLITE_CONSTRAINT_FOREIGNKEY)
      else Inr (s\<lparr>partner_models := partner_models s @ [r]\<rparr>))"

fun insert_models :: "model_row list \<Rightarrow> db \<Rightarrow> rusqlite_error + db" where
  "insert_models [] s = Inr s"
| "insert_models (r # rs) s = res_bind (insert_model r s) (insert_models rs)"

definition replace_models_tx ::
  "time_crate \<Rightarrow> instant \<Rightarrow> string \<Rightarrow> model_price list \<Rightarrow> db \<Rightarrow> rusqlite_error + (unit \<times> db)" where
  "replace_models_tx T now i models s =
     res_bind
       (insert_models (map (model_to_row T now i) models)
          (s\<lparr>partner_models := filter (\<lambda>m. mr_consumer_id m \<noteq> i) (partner_models s)\<rparr>))
       (\<lambda>s'. Inr ((), s'\<lparr>partners :=
          map (\<lambda>r. if pr_consumer_id r = i then r\<lparr>pr_updated_at := format_ts T now\<rparr>
                   else r) (partners s')\<rparr>))"

definition replace_models ::
  "time_crate \<Rightarrow> instant \<Rightarrow> fault \<Rightarrow> string \<Rightarrow> model_price list \<Rightarrow> db \<Rightarrow>
   (billing_error + unit) \<times> db" where
  "replace_models T now wflt i models s =
     (case validate_models [] models of
        Inl e \<Rightarrow> (Inl e, s)
      | Inr _ \<Rightarrow>
          (case pool_write wflt (replace_models_tx T now i models) s of
             (Inr _, s') \<Rightarrow> (Inr (), s')
           | (Inl e, s') \<Rightarrow>
               if e = SqliteFailure SQLITE_CONSTRAINT_FOREIGNKEY then (Inl (PartnerNotFound i), s')
               else (Inl (Database e), s')))"

end
