(* ===== verification/Statement_Store.thy ===== *)
theory Statement_Store
  imports Store
begin

text \<open>
  \<^verbatim>\<open>src/src/billing/store.rs\<close>, the statement half: writing a statement once, reading it within a
  scope, payments, overdue statements and the email leases.
\<close>

section \<open>SQL helpers\<close>

definition sql_limit :: "int \<Rightarrow> int \<Rightarrow> 'a list \<Rightarrow> 'a list" where
  "sql_limit limit offset xs =
     (let ys = drop (nat offset) xs in if limit < 0 then ys else take (nat limit) ys)"

text \<open>
  \<open>SUM\<close> over integers: NULL on no rows, and SQLite's \<open>integer overflow\<close> error (code 1) when a
  running sum leaves 64 bits.
\<close>

fun sum_from :: "int \<Rightarrow> int list \<Rightarrow> rusqlite_error + int" where
  "sum_from acc [] = Inr acc"
| "sum_from acc (x # xs) =
     (if in_i64 (acc + x) then sum_from (acc + x) xs else Inl (SqliteFailure 1))"

definition sql_sum :: "int list \<Rightarrow> rusqlite_error + int option" where
  "sql_sum xs = (if xs = [] then Inr None else res_bind (sum_from 0 xs) (\<lambda>n. Inr (Some n)))"

definition update_statements ::
  "(statement_row \<Rightarrow> bool) \<Rightarrow> (statement_row \<Rightarrow> statement_row) \<Rightarrow> db \<Rightarrow>
   rusqlite_error + (statement_row list \<times> db)" where
  "update_statements P f s =
     (let updated = map f (filter P (daily_statements s))
      in if \<not> list_all statement_check updated then Inl (SqliteFailure SQLITE_CONSTRAINT_CHECK)
         else Inr (updated,
                s\<lparr>daily_statements := map (\<lambda>r. if P r then f r else r) (daily_statements s)\<rparr>))"

definition row_to_statement :: "statement_row \<Rightarrow> statement" where
  "row_to_statement r = statement.truncate r"

section \<open>Writing a statement\<close>

fun validate_lines :: "line_draft list \<Rightarrow> statement_rejected + unit" where
  "validate_lines [] = Inr ()"
| "validate_lines (l # ls) =
     (if wrap_i64 (uncached_input_tokens (ld_cost l))
           \<noteq> ld_input_tokens l - ld_cached_input_tokens l
      then Inl (InconsistentLine (ld_model l))
      else if ld_input_tokens l < ld_cached_input_tokens l then Inl (InconsistentLine (ld_model l))
      else validate_lines ls)"

definition validate_draft :: "statement_draft \<Rightarrow> statement_rejected + unit" where
  "validate_draft d =
     (case (owes_payment (sd_billing_mode d), sd_due_at d) of
        (True, None) \<Rightarrow> Inl MissingDueDate
      | (False, Some _) \<Rightarrow> Inl UnexpectedDueDate
      | _ \<Rightarrow> validate_lines (sd_lines d))"

definition CURRENCY :: string where
  "CURRENCY = ''USD''"

definition draft_row ::
  "time_crate \<Rightarrow> instant \<Rightarrow> statement_draft \<Rightarrow> micro_usd \<Rightarrow> int \<Rightarrow> statement_row" where
  "draft_row T now d tot i =
     \<lparr>st_id = i, st_consumer_id = sd_consumer_id d,
      st_billing_date = day_display T (sd_billing_date d),
      st_billing_mode = mode_as_str (sd_billing_mode d), st_currency = CURRENCY,
      st_period_start = sd_period_start d, st_period_end = sd_period_end d,
      st_billing_cutoff_at = sd_billing_cutoff_at d, st_total = micro_as_i64 tot,
      st_incomplete = sd_incomplete d, st_due_at = map_option (format_ts T) (sd_due_at d),
      st_paid_at = None, st_paid_by = None, st_payment_reference = None, st_payment_note = None,
      st_email_sent_at = None, st_email_attempts = 0, st_email_last_error = None,
      st_email_next_retry_at = None, st_created_at = format_ts T now,
      st_updated_at = format_ts T now, st_claim_instance = None, st_claimed_until = None\<rparr>"

definition draft_line :: "int \<Rightarrow> line_draft \<Rightarrow> int \<Rightarrow> statement_line" where
  "draft_line sid l i =
     \<lparr>sl_id = i, sl_statement_id = sid, sl_model = ld_model l, sl_prices = ld_prices l,
      sl_request_count = ld_request_count l, sl_input_tokens = ld_input_tokens l,
      sl_cached_input_tokens = ld_cached_input_tokens l,
      sl_uncached_input_tokens = wrap_i64 (uncached_input_tokens (ld_cost l)),
      sl_output_tokens = ld_output_tokens l, sl_input_cost = micro_as_i64 (input_cost (ld_cost l)),
      sl_cached_input_cost = micro_as_i64 (cached_input_cost (ld_cost l)),
      sl_output_cost = micro_as_i64 (output_cost (ld_cost l)),
      sl_total_cost = micro_as_i64 (line_total (ld_cost l))\<rparr>"

definition insert_line :: "int \<Rightarrow> line_draft \<Rightarrow> db \<Rightarrow> rusqlite_error + db" where
  "insert_line sid l s =
     (let row = draft_line sid l (fresh_id (map sl_id (statement_lines s)))
      in if \<not> statement_line_check row then Inl (SqliteFailure SQLITE_CONSTRAINT_CHECK)
         else if list_ex (\<lambda>q. sl_statement_id q = sid \<and> sl_model q = sl_model row
                    \<and> sl_prices q = sl_prices row) (statement_lines s)
              then Inl (SqliteFailure SQLITE_CONSTRAINT_UNIQUE)
         else Inr (s\<lparr>statement_lines := statement_lines s @ [row]\<rparr>))"

fun insert_lines :: "int \<Rightarrow> line_draft list \<Rightarrow> db \<Rightarrow> rusqlite_error + db" where
  "insert_lines sid [] s = Inr s"
| "insert_lines sid (l # ls) s = res_bind (insert_line sid l s) (insert_lines sid ls)"

definition find_statement :: "string \<Rightarrow> string \<Rightarrow> db \<Rightarrow> statement_row option" where
  "find_statement c date s =
     find (\<lambda>r. st_consumer_id r = c \<and> st_billing_date r = date) (daily_statements s)"

text \<open>
  The transaction: \<open>INSERT \<dots> ON CONFLICT DO NOTHING\<close> decides; the lines are written only when it
  inserted. The \<open>CHECK\<close> comes before the conflict, the foreign key after it.
\<close>

definition write_statement_tx ::
  "time_crate \<Rightarrow> instant \<Rightarrow> statement_draft \<Rightarrow> micro_usd \<Rightarrow> db \<Rightarrow> rusqlite_error + (bool \<times> db)" where
  "write_statement_tx T now d tot s =
     (let row = draft_row T now d tot (fresh_id (map st_id (daily_statements s)))
      in if \<not> statement_check row then Inl (SqliteFailure SQLITE_CONSTRAINT_CHECK)
         else if find_statement (st_consumer_id row) (st_billing_date row) s \<noteq> None
              then Inr (False, s)
         else if find_partner (st_consumer_id row) s = None
              then Inl (SqliteFailure SQLITE_CONSTRAINT_FOREIGNKEY)
         else res_bind
                (insert_lines (st_id row) (sd_lines d)
                   (s\<lparr>daily_statements := daily_statements s @ [row]\<rparr>))
                (\<lambda>s'. Inr (True, s')))"

definition get_statement ::
  "fault \<Rightarrow> string \<Rightarrow> string \<Rightarrow> db \<Rightarrow> billing_error + statement option" where
  "get_statement rflt c date s =
     db_result (pool_read rflt (\<lambda>s. Inr (map_option row_to_statement (find_statement c date s))) s)"

definition write_statement ::
  "time_crate \<Rightarrow> instant \<Rightarrow> fault \<Rightarrow> fault \<Rightarrow> statement_draft \<Rightarrow> db \<Rightarrow>
   (billing_error + statement_outcome) \<times> db" where
  "write_statement T now wflt rflt d s =
     (case validate_draft d of
        Inl e \<Rightarrow> (Inl (Invalid (Rejected e)), s)
      | Inr _ \<Rightarrow>
          (case draft_total d of
             Inl e \<Rightarrow> (Inl e, s)
           | Inr tot \<Rightarrow>
               (case pool_write wflt (write_statement_tx T now d tot) s of
                  (Inl e, s') \<Rightarrow> (Inl (Database e), s')
                | (Inr inserted, s') \<Rightarrow>
                    (res_bind (get_statement rflt (sd_consumer_id d) (day_display T (sd_billing_date d)) s')
                       (\<lambda>st. case st of
                          None \<Rightarrow> Inl (PartnerNotFound (sd_consumer_id d))
                        | Some st \<Rightarrow> Inr (if inserted then Created st else Existed st)),
                     s'))))"

section \<open>Reading within a scope\<close>

definition statements_where :: "(statement_row \<Rightarrow> bool) \<Rightarrow> db \<Rightarrow> statement_row list" where
  "statements_where P s = filter P (daily_statements s)"

definition get_statement_by_id ::
  "fault \<Rightarrow> i64 \<Rightarrow> scope \<Rightarrow> db \<Rightarrow> billing_error + statement option" where
  "get_statement_by_id rflt i sc s =
     db_result (pool_read rflt (\<lambda>s. Inr (map_option row_to_statement
       (find (\<lambda>r. st_id r = i \<and> scope_admits sc (st_consumer_id r)) (daily_statements s)))) s)"

definition statement_by_id :: "fault \<Rightarrow> i64 \<Rightarrow> db \<Rightarrow> billing_error + statement option" where
  "statement_by_id rflt i s =
     db_result (pool_read rflt (\<lambda>s. Inr (map_option row_to_statement
       (find (\<lambda>r. st_id r = i) (daily_statements s)))) s)"

definition unpaid_invoice :: "('a statement_scheme) \<Rightarrow> bool" where
  "unpaid_invoice r \<longleftrightarrow> st_billing_mode r = ''invoice'' \<and> st_paid_at r = None"

definition list_statements ::
  "fault \<Rightarrow> scope \<Rightarrow> i64 \<Rightarrow> i64 \<Rightarrow> bool \<Rightarrow> db \<Rightarrow> billing_error + statement list" where
  "list_statements rflt sc limit offset only_unpaid s =
     db_result (pool_read rflt (\<lambda>s. Inr (map row_to_statement (sql_limit limit offset
       (if only_unpaid
        then sort_key (\<lambda>r. (st_due_at r, st_consumer_id r, st_id r))
               (statements_where (\<lambda>r. scope_admits sc (st_consumer_id r) \<and> unpaid_invoice r) s)
        else rev (sort_key (\<lambda>r. (st_billing_date r, st_id r))
               (statements_where (\<lambda>r. scope_admits sc (st_consumer_id r)) s)))))) s)"

definition outstanding_totals ::
  "fault \<Rightarrow> scope \<Rightarrow> db \<Rightarrow> billing_error + (i64 \<times> micro_usd)" where
  "outstanding_totals rflt sc s =
     db_result (pool_read rflt (\<lambda>s.
       let rows = statements_where (\<lambda>r. scope_admits sc (st_consumer_id r) \<and> unpaid_invoice r) s
       in res_bind (sql_sum (map st_total rows))
            (\<lambda>v. Inr (int (length rows), MicroUsd (case v of None \<Rightarrow> 0 | Some n \<Rightarrow> n)))) s)"

definition count_statements :: "fault \<Rightarrow> scope \<Rightarrow> db \<Rightarrow> billing_error + i64" where
  "count_statements rflt sc s =
     db_result (pool_read rflt (\<lambda>s.
       Inr (int (length (statements_where (\<lambda>r. scope_admits sc (st_consumer_id r)) s)))) s)"

definition lines_of :: "i64 \<Rightarrow> db \<Rightarrow> statement_line list" where
  "lines_of sid s = filter (\<lambda>l. sl_statement_id l = sid) (statement_lines s)"

definition line_order :: "statement_line \<Rightarrow> string \<times> (i64 \<times> i64 \<times> i64) \<times> i64" where
  "line_order l = (sl_model l, as_tuple (sl_prices l), sl_id l)"

definition scoped_lines ::
  "fault \<Rightarrow> i64 \<Rightarrow> scope \<Rightarrow> db \<Rightarrow> billing_error + statement_line list" where
  "scoped_lines rflt sid sc s =
     db_result (pool_read rflt (\<lambda>s. Inr (sort_key line_order (concat (map
       (\<lambda>l. map (\<lambda>_. l) (filter (\<lambda>r. st_id r = sl_statement_id l \<and> scope_admits sc (st_consumer_id r))
              (daily_statements s)))
       (lines_of sid s))))) s)"

section \<open>Payments and deadlines\<close>

definition pay_row ::
  "string \<Rightarrow> string \<Rightarrow> string option \<Rightarrow> string option \<Rightarrow> statement_row \<Rightarrow> statement_row" where
  "pay_row now paid_by reference note r =
     r\<lparr>st_paid_at := Some now, st_paid_by := Some paid_by, st_payment_reference := reference,
       st_payment_note := note, st_updated_at := now\<rparr>"

definition mark_paid ::
  "time_crate \<Rightarrow> instant \<Rightarrow> fault \<Rightarrow> fault \<Rightarrow> i64 \<Rightarrow> string \<Rightarrow> string option \<Rightarrow> string option \<Rightarrow> db \<Rightarrow>
   (billing_error + statement) \<times> db" where
  "mark_paid T now wflt rflt i paid_by reference note s =
     (if trim paid_by = [] then (Inl (Invalid (Message ''a payment must name who recorded it'')), s)
      else
        (case pool_write wflt (update_statements
                (\<lambda>r. st_id r = i \<and> st_billing_mode r = ''invoice'' \<and> st_paid_at r = None)
                (pay_row (format_ts T now) paid_by reference note)) s of
           (Inl e, s') \<Rightarrow> (Inl (Database e), s')
         | (Inr _, s') \<Rightarrow>
             (res_bind (statement_by_id rflt i s')
                (\<lambda>st. case st of
                   None \<Rightarrow> Inl (PartnerNotFound (''statement '' @ dec_int i))
                 | Some st \<Rightarrow>
                     if \<not> is_paid st then Inl (StatementNotPayable i (st_billing_mode st))
                     else Inr st),
              s')))"

definition overdue_where :: "string \<Rightarrow> string option \<Rightarrow> statement_row \<Rightarrow> bool" where
  "overdue_where now c r \<longleftrightarrow>
     unpaid_invoice r
     \<and> (case st_due_at r of None \<Rightarrow> False | Some due \<Rightarrow> due \<le> now)
     \<and> (case c of None \<Rightarrow> True | Some c \<Rightarrow> st_consumer_id r = c)"

definition overdue_statements ::
  "time_crate \<Rightarrow> instant \<Rightarrow> fault \<Rightarrow> string option \<Rightarrow> db \<Rightarrow> billing_error + statement list" where
  "overdue_statements T now rflt c s =
     db_result (pool_read rflt (\<lambda>s. Inr (map row_to_statement
       (sort_key (\<lambda>r. (st_due_at r, st_id r))
          (statements_where (overdue_where (format_ts T now) c) s)))) s)"

definition total_billed :: "fault \<Rightarrow> string \<Rightarrow> db \<Rightarrow> billing_error + micro_usd" where
  "total_billed rflt c s =
     db_result (pool_read rflt (\<lambda>s.
       res_bind (sql_sum (map st_total (statements_where (\<lambda>r. st_consumer_id r = c) s)))
         (\<lambda>v. Inr (MicroUsd (case v of None \<Rightarrow> 0 | Some n \<Rightarrow> n)))) s)"

definition sql_max :: "string list \<Rightarrow> string option" where
  "sql_max xs = (case xs of [] \<Rightarrow> None | x # rest \<Rightarrow> Some (fold max rest x))"

definition last_statement_date_for :: "fault \<Rightarrow> string \<Rightarrow> db \<Rightarrow> billing_error + string option" where
  "last_statement_date_for rflt c s =
     db_result (pool_read rflt (\<lambda>s.
       Inr (sql_max (map st_billing_date (statements_where (\<lambda>r. st_consumer_id r = c) s)))) s)"

section \<open>Email bookkeeping\<close>

datatype email_outcome = EmailSent | EmailFailed string instant

definition attempt_row ::
  "time_crate \<Rightarrow> string \<Rightarrow> email_outcome \<Rightarrow> statement_row \<Rightarrow> statement_row" where
  "attempt_row T now out r =
     (case out of
        EmailSent \<Rightarrow>
          r\<lparr>st_email_sent_at := (case st_email_sent_at r of None \<Rightarrow> Some now | Some t \<Rightarrow> Some t),
            st_email_attempts := st_email_attempts r + 1, st_email_last_error := None,
            st_email_next_retry_at := None, st_claim_instance := None, st_claimed_until := None,
            st_updated_at := now\<rparr>
      | EmailFailed err retry_at \<Rightarrow>
          r\<lparr>st_email_attempts := st_email_attempts r + 1, st_email_last_error := Some err,
            st_email_next_retry_at := Some (format_ts T retry_at), st_claim_instance := None,
            st_claimed_until := None, st_updated_at := now\<rparr>)"

definition record_email_attempt ::
  "time_crate \<Rightarrow> instant \<Rightarrow> fault \<Rightarrow> i64 \<Rightarrow> email_outcome \<Rightarrow> db \<Rightarrow> (billing_error + unit) \<times> db" where
  "record_email_attempt T now wflt i out s =
     (case pool_write wflt (update_statements (\<lambda>r. st_id r = i)
             (attempt_row T (format_ts T now) out)) s of
        (Inl e, s') \<Rightarrow> (Inl (Database e), s')
      | (Inr _, s') \<Rightarrow> (Inr (), s'))"

definition claimable :: "string \<Rightarrow> db \<Rightarrow> statement_row \<Rightarrow> bool" where
  "claimable now s r \<longleftrightarrow>
     st_email_sent_at r = None \<and> st_billing_mode r = ''invoice'' \<and> st_paid_at r = None
     \<and> (0 < st_total r \<or> 0 < st_incomplete r)
     \<and> list_ex (\<lambda>p. pr_consumer_id p = st_consumer_id r \<and> sql_trim (pr_billing_email p) \<noteq> [])
         (partners s)
     \<and> (case st_email_next_retry_at r of None \<Rightarrow> True | Some t \<Rightarrow> t \<le> now)
     \<and> (case st_claimed_until r of None \<Rightarrow> True | Some t \<Rightarrow> t \<le> now)"

definition claimed_ids :: "string \<Rightarrow> i64 \<Rightarrow> db \<Rightarrow> i64 list" where
  "claimed_ids now limit s =
     map st_id (sql_limit limit 0
       (sort_key (\<lambda>r. (st_due_at r, st_id r)) (filter (claimable now s) (daily_statements s))))"

text \<open>
  The lease ends \<open>claim_ttl_minutes\<close> after \<open>now\<close>; both the duration and the addition panic out of
  range. \<open>RETURNING\<close> yields the rows as updated, here in table order (SQLite leaves it open).
\<close>

definition claim_emails ::
  "time_crate \<Rightarrow> fault \<Rightarrow> instant \<Rightarrow> string \<Rightarrow> i64 \<Rightarrow> i64 \<Rightarrow> db \<Rightarrow>
   ((billing_error + statement list) \<times> db) run" where
  "claim_emails T wflt now instance_id limit ttl s =
     run_bind (duration_minutes ttl) (\<lambda>d. run_bind (instant_add T now d) (\<lambda>until.
       case pool_write wflt (\<lambda>s. update_statements
              (\<lambda>r. st_id r \<in> set (claimed_ids (format_ts T now) limit s))
              (\<lambda>r. r\<lparr>st_claim_instance := Some instance_id,
                     st_claimed_until := Some (format_ts T until)\<rparr>) s) s of
         (Inl e, s') \<Rightarrow> Done (Inl (Database e), s')
       | (Inr rows, s') \<Rightarrow> Done (Inr (map row_to_statement rows), s')))"

definition statement_recipient :: "fault \<Rightarrow> string \<Rightarrow> db \<Rightarrow> billing_error + string option" where
  "statement_recipient rflt c s =
     db_result (pool_read rflt (\<lambda>s. Inr (map_option pr_billing_email (find_partner c s))) s)"

end
