(* ===== verification/Billing_Invariants.thy ===== *)
theory Billing_Invariants
  imports Statement_Store
begin

text \<open>
  What every operation of the billing store keeps: the integrity of the tables
  (\<open>billing_invariant\<close>, where a statement's total is the sum of its lines) and the immutability of
  what was issued (\<open>db_evolves\<close>); both over every sequence of operations (\<open>billing_step\<close>). The
  locale \<open>issue_once\<close> is the contract of the write that the statement worker relies on.
\<close>

section \<open>Integrity of the tables\<close>

definition statement_key :: "('a statement_scheme) \<Rightarrow> string \<times> string" where
  "statement_key r = (st_consumer_id r, st_billing_date r)"

definition statement_total_ok :: "db \<Rightarrow> statement_row \<Rightarrow> bool" where
  "statement_total_ok s r \<longleftrightarrow> st_total r = (\<Sum>l\<leftarrow>lines_of (st_id r) s. sl_total_cost l)"

definition has_partner :: "string \<Rightarrow> db \<Rightarrow> bool" where
  "has_partner i s \<longleftrightarrow> i \<in> set (map pr_consumer_id (partners s))"

lemma find_partner_None [simp]: "find_partner i s = None \<longleftrightarrow> \<not> has_partner i s"
  by (auto simp: find_partner_def has_partner_def find_None_iff)

lemma has_partner_frame [simp]:
  "has_partner i (s\<lparr>daily_statements := ds\<rparr>) = has_partner i s"
  "has_partner i (s\<lparr>statement_lines := ls\<rparr>) = has_partner i s"
  "has_partner i (s\<lparr>partner_models := ms\<rparr>) = has_partner i s"
  by (simp_all add: has_partner_def)

definition billing_invariant :: "db \<Rightarrow> bool" where
  "billing_invariant s \<longleftrightarrow>
     distinct (map st_id (daily_statements s)) \<and> distinct (map statement_key (daily_statements s))
     \<and> list_all statement_check (daily_statements s)
     \<and> list_all (statement_total_ok s) (daily_statements s)
     \<and> list_all (\<lambda>r. has_partner (st_consumer_id r) s) (daily_statements s)
     \<and> list_all (\<lambda>l. statement_line_check l \<and> sl_statement_id l \<in> set (map st_id (daily_statements s)))
         (statement_lines s)
     \<and> distinct (map pr_consumer_id (partners s))
     \<and> list_all (\<lambda>m. has_partner (mr_consumer_id m) s) (partner_models s)"

text \<open>
  The rest of \<^verbatim>\<open>schema.sql\<close>'s constraints on the billing tables: the \<open>CHECK\<close>s of partners and prices,
  one price per partner and model, and the keys of the statement lines.
\<close>

definition model_key :: "model_row \<Rightarrow> string \<times> string" where
  "model_key m = (mr_consumer_id m, mr_model m)"

definition line_key :: "statement_line \<Rightarrow> i64 \<times> string \<times> pricing_snapshot" where
  "line_key l = (sl_statement_id l, sl_model l, sl_prices l)"

definition row_constraints :: "db \<Rightarrow> bool" where
  "row_constraints s \<longleftrightarrow>
     list_all partner_row_check (partners s) \<and> list_all model_row_check (partner_models s)
     \<and> distinct (map model_key (partner_models s))
     \<and> distinct (map line_key (statement_lines s)) \<and> distinct (map sl_id (statement_lines s))"

lemma row_constraints_statements [simp]:
  "row_constraints (s\<lparr>daily_statements := ds\<rparr>) = row_constraints s"
  by (simp add: row_constraints_def)

lemma empty_db_constraints [simp]: "row_constraints empty_db"
  by (simp add: row_constraints_def empty_db_def)

lemma empty_db_invariant [simp]: "billing_invariant empty_db"
  by (simp add: billing_invariant_def empty_db_def)

section \<open>What an issued statement keeps\<close>

definition same_terms :: "statement_row \<Rightarrow> statement_row \<Rightarrow> bool" where
  "same_terms r q \<longleftrightarrow>
     st_id q = st_id r \<and> st_consumer_id q = st_consumer_id r
     \<and> st_billing_date q = st_billing_date r \<and> st_billing_mode q = st_billing_mode r
     \<and> st_currency q = st_currency r \<and> st_period_start q = st_period_start r
     \<and> st_period_end q = st_period_end r \<and> st_billing_cutoff_at q = st_billing_cutoff_at r
     \<and> st_total q = st_total r \<and> st_incomplete q = st_incomplete r
     \<and> st_due_at q = st_due_at r \<and> st_created_at q = st_created_at r"

definition same_payment :: "statement_row \<Rightarrow> statement_row \<Rightarrow> bool" where
  "same_payment r q \<longleftrightarrow>
     st_paid_at q = st_paid_at r \<and> st_paid_by q = st_paid_by r
     \<and> st_payment_reference q = st_payment_reference r \<and> st_payment_note q = st_payment_note r"

definition row_evolves :: "statement_row \<Rightarrow> statement_row \<Rightarrow> bool" where
  "row_evolves r q \<longleftrightarrow>
     same_terms r q \<and> (st_paid_at r \<noteq> None \<longrightarrow> same_payment r q)
     \<and> (st_email_sent_at r \<noteq> None \<longrightarrow> st_email_sent_at q = st_email_sent_at r)
     \<and> st_email_attempts r \<le> st_email_attempts q"

definition db_evolves :: "db \<Rightarrow> db \<Rightarrow> bool" where
  "db_evolves s t \<longleftrightarrow>
     (\<forall>r \<in> set (daily_statements s). \<exists>q \<in> set (daily_statements t).
        row_evolves r q \<and> lines_of (st_id r) t = lines_of (st_id r) s)"

lemma row_evolves_refl [simp]: "row_evolves r r"
  by (simp add: row_evolves_def same_terms_def same_payment_def)

lemma row_evolves_trans: "row_evolves r q \<Longrightarrow> row_evolves q p \<Longrightarrow> row_evolves r p"
  by (auto simp: row_evolves_def same_terms_def same_payment_def)

lemma row_evolves_id: "row_evolves r q \<Longrightarrow> st_id q = st_id r"
  by (simp add: row_evolves_def same_terms_def)

lemma db_evolves_refl [simp]: "db_evolves s s"
  by (auto simp: db_evolves_def intro: row_evolves_refl)

lemma db_evolves_trans:
  assumes "db_evolves s t" "db_evolves t u"
  shows "db_evolves s u"
  unfolding db_evolves_def
proof
  fix r assume "r \<in> set (daily_statements s)"
  then obtain q where q: "q \<in> set (daily_statements t)" "row_evolves r q"
      "lines_of (st_id r) t = lines_of (st_id r) s"
    using assms(1) unfolding db_evolves_def by blast
  then obtain p where p: "p \<in> set (daily_statements u)" "row_evolves q p"
      "lines_of (st_id q) u = lines_of (st_id q) t"
    using assms(2) unfolding db_evolves_def by blast
  have "lines_of (st_id r) u = lines_of (st_id r) s"
    using p(3) q(3) row_evolves_id [OF q(2)] by simp
  then show "\<exists>q \<in> set (daily_statements u).
      row_evolves r q \<and> lines_of (st_id r) u = lines_of (st_id r) s"
    using p row_evolves_trans [OF q(2) p(2)] by blast
qed

definition keeps :: "db \<Rightarrow> db \<Rightarrow> bool" where
  "keeps s t \<longleftrightarrow>
     (billing_invariant s \<longrightarrow> billing_invariant t \<and> db_evolves s t)
     \<and> (row_constraints s \<longrightarrow> row_constraints t)"

lemma keeps_refl [simp]: "keeps s s"
  by (simp add: keeps_def)

lemma keeps_trans: "keeps s t \<Longrightarrow> keeps t u \<Longrightarrow> keeps s u"
  by (auto simp: keeps_def intro: db_evolves_trans)

lemma keeps_write:
  assumes "pool_write flt f s = (res, s')" "\<And>x t. f s = Inr (x, t) \<Longrightarrow> keeps s t"
  shows "keeps s s'"
  using assms by (auto simp: pool_write_def split: option.splits sum.splits)

section \<open>Updates of statements\<close>

lemma map_statements_keeps:
  assumes ev: "\<And>r. r \<in> set (daily_statements s) \<Longrightarrow> row_evolves r (u r) \<and> statement_check (u r)"
    and s': "s' = s\<lparr>daily_statements := map u (daily_statements s)\<rparr>"
  shows "keeps s s'"
  unfolding keeps_def
proof (intro conjI impI)
  assume inv: "billing_invariant s"
  have terms: "st_id (u r) = st_id r" "statement_key (u r) = statement_key r"
      "st_consumer_id (u r) = st_consumer_id r" "st_total (u r) = st_total r"
    if "r \<in> set (daily_statements s)" for r
    using ev [OF that] by (auto simp: row_evolves_def same_terms_def statement_key_def)
  have ids: "map (\<lambda>r. st_id (u r)) (daily_statements s) = map st_id (daily_statements s)"
    "map (\<lambda>r. statement_key (u r)) (daily_statements s) = map statement_key (daily_statements s)"
    using terms by simp_all
  then have idset: "(\<lambda>r. st_id (u r)) ` set (daily_statements s) = st_id ` set (daily_statements s)"
    by (metis list.set_map)
  have dist: "distinct (map (\<lambda>r. st_id (u r)) (daily_statements s))"
    "distinct (map (\<lambda>r. statement_key (u r)) (daily_statements s))"
    unfolding ids using inv by (simp_all add: billing_invariant_def)
  have lines: "lines_of i s' = lines_of i s" for i by (simp add: lines_of_def s')
  have fp: "has_partner i s' = has_partner i s" for i by (simp add: s')
  have "statement_total_ok s' (u r) = statement_total_ok s r" if "r \<in> set (daily_statements s)" for r
    using terms [OF that] lines by (simp add: statement_total_ok_def)
  then have "billing_invariant s'"
    using inv ev terms(3) dist idset
    by (simp add: billing_invariant_def fp list_all_iff) (simp add: s' o_def image_image)
  moreover have "db_evolves s s'"
    unfolding db_evolves_def
  proof
    fix r assume r: "r \<in> set (daily_statements s)"
    then have "u r \<in> set (daily_statements s')" by (simp add: s')
    then show "\<exists>q \<in> set (daily_statements s').
        row_evolves r q \<and> lines_of (st_id r) s' = lines_of (st_id r) s"
      using ev [OF r] lines by blast
  qed
  ultimately show "billing_invariant s'" "db_evolves s s'" by blast+
qed (simp add: s')

lemma update_statements_keeps:
  assumes "update_statements P f s = Inr (rows, s')"
    and "\<And>r. r \<in> set (daily_statements s) \<Longrightarrow> P r \<Longrightarrow> row_evolves r (f r)"
  shows "keeps s s'"
proof -
  let ?u = "\<lambda>r. if P r then f r else r"
  have u: "s' = s\<lparr>daily_statements := map ?u (daily_statements s)\<rparr>"
    and "list_all statement_check (map f (filter P (daily_statements s)))"
    using assms(1) by (auto simp: update_statements_def Let_def split: if_splits)
  then have "row_evolves r (?u r) \<and> statement_check (?u r)"
    if "billing_invariant s" "r \<in> set (daily_statements s)" for r
    using that assms(2) by (auto simp: billing_invariant_def list_all_iff)
  then show ?thesis using map_statements_keeps [OF _ u] u by (auto simp: keeps_def)
qed

section \<open>Partner operations\<close>

text \<open>Whatever keeps the statements, their lines and the referenced partners keeps the invariant.\<close>

lemma partner_change_keeps:
  assumes "daily_statements s' = daily_statements s" "statement_lines s' = statement_lines s"
    and "distinct (map pr_consumer_id (partners s)) \<Longrightarrow> distinct (map pr_consumer_id (partners s'))"
    and "\<And>r. r \<in> set (daily_statements s) \<Longrightarrow> has_partner (st_consumer_id r) s \<Longrightarrow>
           has_partner (st_consumer_id r) s'"
    and "list_all (\<lambda>m. has_partner (mr_consumer_id m) s) (partner_models s) \<Longrightarrow>
         list_all (\<lambda>m. has_partner (mr_consumer_id m) s') (partner_models s')"
    and "row_constraints s \<Longrightarrow> row_constraints s'"
  shows "keeps s s'"
proof -
  have l: "lines_of i s' = lines_of i s" for i using assms(2) by (simp add: lines_of_def)
  then have "statement_total_ok s' = statement_total_ok s"
    by (simp add: statement_total_ok_def fun_eq_iff)
  then show ?thesis
    using assms l
    by (auto simp: keeps_def billing_invariant_def db_evolves_def list_all_iff intro: row_evolves_refl)
qed

lemma insert_partner_keeps: "insert_partner r s = Inr (x, s') \<Longrightarrow> keeps s s'"
  by (rule partner_change_keeps)
    (auto simp: insert_partner_def has_partner_def list_all_iff row_constraints_def split: if_splits)

lemma update_partners_keeps:
  assumes "update_partners P f s = Inr (x, s')" "\<And>r. pr_consumer_id (f r) = pr_consumer_id r"
  shows "keeps s s'"
proof -
  have s': "s' = s\<lparr>partners := map (\<lambda>r. if P r then f r else r) (partners s)\<rparr>"
    using assms(1) by (auto simp: update_partners_def split: if_splits)
  have ids: "map pr_consumer_id (partners s') = map pr_consumer_id (partners s)"
    using assms(2) by (simp add: s')
  then have "has_partner i s' = has_partner i s" for i by (simp only: has_partner_def)
  moreover have "distinct (map pr_consumer_id (partners s)) \<Longrightarrow> distinct (map pr_consumer_id (partners s'))"
    by (simp only: ids)
  moreover have "row_constraints s \<Longrightarrow> row_constraints s'"
    using assms(1) by (auto simp: s' row_constraints_def list_all_iff update_partners_def split: if_splits)
  ultimately show ?thesis by (intro partner_change_keeps) (simp_all add: s' del: map_map)
qed

lemma delete_partner_keeps:
  assumes "delete_partner_rows i s = Inr (x, s')"
  shows "keeps s s'"
proof (cases "filter (\<lambda>r. pr_consumer_id r = i) (partners s) = []")
  case True
  then have "filter (\<lambda>r. pr_consumer_id r \<noteq> i) (partners s) = partners s"
    by (simp add: filter_empty_conv filter_id_conv)
  with True have "s' = s" using assms by (auto simp: delete_partner_rows_def Let_def split: if_splits)
  then show ?thesis by simp
next
  case False
  then have no: "st_consumer_id r \<noteq> i" if "r \<in> set (daily_statements s)" for r
    using assms that by (auto simp: delete_partner_rows_def Let_def list_ex_iff split: if_splits)
  have s': "s' = s\<lparr>partners := filter (\<lambda>r. pr_consumer_id r \<noteq> i) (partners s),
      partner_models := filter (\<lambda>m. mr_consumer_id m \<noteq> i) (partner_models s)\<rparr>"
    using assms False by (auto simp: delete_partner_rows_def Let_def split: if_splits)
  have "has_partner j s' \<longleftrightarrow> j \<noteq> i \<and> has_partner j s" for j by (auto simp: s' has_partner_def)
  then show ?thesis
    using no by (intro partner_change_keeps)
      (simp_all add: s' list_all_iff distinct_map_filter row_constraints_def)
qed

lemma insert_model_constraints:
  assumes "insert_model r s = Inr t" "row_constraints s"
  shows "row_constraints t"
proof -
  have t: "t = s\<lparr>partner_models := partner_models s @ [r]\<rparr>" "model_row_check r"
    and new: "\<not> list_ex (\<lambda>q. mr_consumer_id q = mr_consumer_id r \<and> mr_model q = mr_model r)
        (partner_models s)"
    using assms(1) by (auto simp: insert_model_def split: if_splits)
  have "model_key r \<notin> set (map model_key (partner_models s))"
    using new by (force simp: list_ex_iff model_key_def)
  with t assms(2) show ?thesis by (simp add: row_constraints_def)
qed

lemma insert_line_constraints:
  assumes "insert_line sid l s = Inr t" "row_constraints s"
  shows "row_constraints t"
proof -
  let ?row = "draft_line sid l (fresh_id (map sl_id (statement_lines s)))"
  have t: "t = s\<lparr>statement_lines := statement_lines s @ [?row]\<rparr>"
    and new: "\<not> list_ex (\<lambda>q. sl_statement_id q = sid \<and> sl_model q = sl_model ?row
        \<and> sl_prices q = sl_prices ?row) (statement_lines s)"
    using assms(1) by (simp_all add: insert_line_def Let_def split: if_splits)
  have "sl_statement_id ?row = sid" "sl_id ?row = fresh_id (map sl_id (statement_lines s))"
    by (simp_all add: draft_line_def)
  moreover from this(1) new have "line_key ?row \<notin> set (map line_key (statement_lines s))"
    by (force simp: list_ex_iff line_key_def)
  ultimately show ?thesis
    using assms(2) fresh_id_notin [of "map sl_id (statement_lines s)"]
    by (simp add: t row_constraints_def)
qed

lemma insert_models_frame:
  assumes "insert_models rs s = Inr s'"
  shows "\<exists>ms. s' = s\<lparr>partner_models := ms\<rparr>
    \<and> (list_all (\<lambda>m. has_partner (mr_consumer_id m) s) (partner_models s) \<longrightarrow>
       list_all (\<lambda>m. has_partner (mr_consumer_id m) s) ms)
    \<and> (row_constraints s \<longrightarrow> row_constraints s')"
  using assms
proof (induction rs arbitrary: s)
  case Nil
  then show ?case by (intro exI [of _ "partner_models s"]) simp
next
  case (Cons r rs)
  then obtain t where t: "insert_model r s = Inr t" "insert_models rs t = Inr s'"
    by (auto simp: res_bind_Inr_iff)
  then have t': "t = s\<lparr>partner_models := partner_models s @ [r]\<rparr>" "has_partner (mr_consumer_id r) s"
    by (auto simp: insert_model_def split: if_splits)
  have "row_constraints t" if "row_constraints s"
    using insert_model_constraints [OF t(1) that] .
  moreover have "has_partner i t = has_partner i s" for i by (simp add: t')
  ultimately show ?case using Cons.IH [OF t(2)] t' by auto
qed

lemma replace_models_tx_keeps:
  assumes "replace_models_tx T now i models s = Inr (x, v)"
  shows "keeps s v"
proof -
  let ?s = "s\<lparr>partner_models := filter (\<lambda>m. mr_consumer_id m \<noteq> i) (partner_models s)\<rparr>"
  let ?f = "\<lambda>r. if pr_consumer_id r = i then r\<lparr>pr_updated_at := format_ts T now\<rparr> else r"
  obtain t where t: "insert_models (map (model_to_row T now i) models) ?s = Inr t"
      "v = t\<lparr>partners := map ?f (partners t)\<rparr>"
    using assms by (auto simp: replace_models_tx_def res_bind_Inr_iff)
  obtain ms where ms: "t = ?s\<lparr>partner_models := ms\<rparr>"
      "list_all (\<lambda>m. has_partner (mr_consumer_id m) ?s) (partner_models ?s) \<longrightarrow>
       list_all (\<lambda>m. has_partner (mr_consumer_id m) ?s) ms"
      "row_constraints ?s \<longrightarrow> row_constraints t"
    using insert_models_frame [OF t(1)] by blast
  have v: "v = s\<lparr>partner_models := ms, partners := map ?f (partners s)\<rparr>" by (simp add: t(2) ms(1))
  have ids: "map pr_consumer_id (partners v) = map pr_consumer_id (partners s)" by (simp add: v)
  then have "has_partner j v = has_partner j s" for j by (simp only: has_partner_def)
  moreover have "has_partner j ?s = has_partner j s" for j by simp
  moreover have "distinct (map pr_consumer_id (partners s)) \<Longrightarrow> distinct (map pr_consumer_id (partners v))"
    by (simp only: ids)
  moreover have "row_constraints s \<Longrightarrow> row_constraints ?s"
    by (auto simp: row_constraints_def list_all_iff distinct_map_filter)
  then have "row_constraints s \<Longrightarrow> row_constraints v"
    using ms(3) by (auto simp: t(2) row_constraints_def list_all_iff partner_row_check_def)
  ultimately show ?thesis
    using ms(2) by (intro partner_change_keeps) (simp_all add: v list_all_iff del: map_map)
qed

lemma replace_models_keeps:
  assumes "replace_models T now wflt i models s = (res, s')"
  shows "keeps s s'"
proof (cases "validate_models [] models")
  case (Inr u)
  obtain r t where t: "pool_write wflt (replace_models_tx T now i models) s = (r, t)" by fastforce
  then have "s' = t"
    using assms Inr by (auto simp: replace_models_def split: sum.splits if_splits)
  then show ?thesis using keeps_write [OF t] replace_models_tx_keeps by blast
qed (use assms in \<open>simp add: replace_models_def\<close>)

section \<open>Writing a statement\<close>

text \<open>What the lines of a draft become, and what writing them changes.\<close>

lemma insert_lines_frame:
  assumes "insert_lines sid ls s = Inr s'"
  shows "\<exists>new. s' = s\<lparr>statement_lines := statement_lines s @ new\<rparr>
    \<and> list_all (\<lambda>l. statement_line_check l \<and> sl_statement_id l = sid) new
    \<and> length new = length ls
    \<and> (\<forall>k < length ls. \<exists>i. new ! k = draft_line sid (ls ! k) i)
    \<and> (row_constraints s \<longrightarrow> row_constraints s')"
  using assms
proof (induction ls arbitrary: s)
  case Nil
  then show ?case by (intro exI [of _ "[]"]) simp
next
  case (Cons l ls)
  then obtain t where t: "insert_line sid l s = Inr t" "insert_lines sid ls t = Inr s'"
    by (auto simp: res_bind_Inr_iff)
  then obtain i where i: "t = s\<lparr>statement_lines := statement_lines s @ [draft_line sid l i]\<rparr>"
      "statement_line_check (draft_line sid l i)"
    by (auto simp: insert_line_def Let_def split: if_splits)
  have c: "row_constraints t" if "row_constraints s"
    using insert_line_constraints [OF t(1) that] .
  from Cons.IH [OF t(2)] obtain new where new:
      "s' = t\<lparr>statement_lines := statement_lines t @ new\<rparr>"
      "list_all (\<lambda>l. statement_line_check l \<and> sl_statement_id l = sid) new"
      "length new = length ls" "\<forall>k < length ls. \<exists>i. new ! k = draft_line sid (ls ! k) i"
      "row_constraints t \<longrightarrow> row_constraints s'"
    by blast
  have "\<exists>j. (draft_line sid l i # new) ! k = draft_line sid ((l # ls) ! k) j" if "k < length (l # ls)" for k
    using that new(4) by (cases k) auto
  then show ?case
    using new(1-3,5) i c by (intro exI [of _ "draft_line sid l i # new"]) (auto simp: draft_line_def)
qed

lemma add_line_totals_sum:
  "add_line_totals acc ls = Inr tot \<Longrightarrow>
   micro_as_i64 tot = micro_as_i64 acc + (\<Sum>l\<leftarrow>ls. micro_as_i64 (line_total (ld_cost l)))"
  by (induction ls arbitrary: acc)
    (auto simp: micro_checked_add_def checked_add_i64_def split: option.splits if_splits)

lemma draft_total_sum:
  "draft_total d = Inr tot \<Longrightarrow>
   micro_as_i64 tot = (\<Sum>l\<leftarrow>sd_lines d. micro_as_i64 (line_total (ld_cost l)))"
  using add_line_totals_sum [of "MicroUsd 0" "sd_lines d" tot] by (simp add: draft_total_def)

lemma draft_lines_total:
  assumes "length new = length ls" "\<forall>k < length ls. \<exists>i. new ! k = draft_line sid (ls ! k) i"
  shows "(\<Sum>l\<leftarrow>new. sl_total_cost l) = (\<Sum>l\<leftarrow>ls. micro_as_i64 (line_total (ld_cost l)))"
proof -
  have "map sl_total_cost new = map (\<lambda>l. micro_as_i64 (line_total (ld_cost l))) ls"
  proof (rule nth_equalityI)
    fix k assume "k < length (map sl_total_cost new)"
    then have "k < length ls" using assms(1) by simp
    moreover from this obtain i where "new ! k = draft_line sid (ls ! k) i" using assms(2) by blast
    ultimately show "map sl_total_cost new ! k = map (\<lambda>l. micro_as_i64 (line_total (ld_cost l))) ls ! k"
      using assms(1) by (simp add: draft_line_def)
  qed (use assms(1) in simp)
  then show ?thesis by simp
qed

text \<open>The transaction, in one place: nothing, or one new row with its lines.\<close>

lemma write_statement_tx_cases:
  assumes "write_statement_tx T now d tot s = Inr (inserted, s')"
  obtains (existed) "\<not> inserted" "s' = s"
      "find_statement (sd_consumer_id d) (day_display T (sd_billing_date d)) s \<noteq> None"
  | (created) row new where "inserted" "row = draft_row T now d tot (fresh_id (map st_id (daily_statements s)))"
      "statement_check row" "has_partner (sd_consumer_id d) s"
      "find_statement (sd_consumer_id d) (day_display T (sd_billing_date d)) s = None"
      "s' = s\<lparr>daily_statements := daily_statements s @ [row],
             statement_lines := statement_lines s @ new\<rparr>"
      "list_all (\<lambda>l. statement_line_check l \<and> sl_statement_id l = st_id row) new"
      "length new = length (sd_lines d)"
      "\<forall>k < length (sd_lines d). \<exists>i. new ! k = draft_line (st_id row) (sd_lines d ! k) i"
      "row_constraints s \<longrightarrow> row_constraints s'"
proof -
  let ?row = "draft_row T now d tot (fresh_id (map st_id (daily_statements s)))"
  let ?find = "find_statement (sd_consumer_id d) (day_display T (sd_billing_date d)) s"
  have r: "st_consumer_id ?row = sd_consumer_id d" "st_billing_date ?row = day_display T (sd_billing_date d)"
    by (simp_all add: draft_row_def)
  show thesis
  proof (cases "?find")
    case (Some q)
    then show thesis
      using assms r by (intro existed) (auto simp: write_statement_tx_def Let_def split: if_splits)
  next
    case None
    then obtain t where t: "insert_lines (st_id ?row) (sd_lines d)
        (s\<lparr>daily_statements := daily_statements s @ [?row]\<rparr>) = Inr t"
      and "inserted" "s' = t" "statement_check ?row" "has_partner (sd_consumer_id d) s"
      using assms r by (auto simp: write_statement_tx_def Let_def res_bind_Inr_iff split: if_splits)
    with insert_lines_frame [OF t] show thesis by (elim exE conjE) (rule created [OF _ refl], auto simp: None)
  qed
qed

lemma find_statement_None:
  "find_statement c d s = None \<longleftrightarrow> (c, d) \<notin> set (map statement_key (daily_statements s))"
  by (auto simp: find_statement_def find_None_iff statement_key_def)

lemma write_statement_tx_keeps:
  assumes "write_statement_tx T now d tot s = Inr (inserted, s')" "draft_total d = Inr tot"
  shows "keeps s s'"
  using assms(1)
proof (cases rule: write_statement_tx_cases)
  case (created row new)
  have lines: "lines_of i s' = lines_of i s @ filter (\<lambda>l. sl_statement_id l = i) new" for i
    by (simp add: lines_of_def created(6))
  have new: "filter (\<lambda>l. sl_statement_id l = i) new = (if i = st_id row then new else [])" for i
    using created(7) by (auto simp: list_all_iff filter_id_conv filter_empty_conv)
  show ?thesis
    unfolding keeps_def
  proof (intro conjI impI)
    assume inv: "billing_invariant s"
    have fresh: "st_id row \<notin> set (map st_id (daily_statements s))"
    proof -
      have "st_id row = fresh_id (map st_id (daily_statements s))"
        unfolding created(2) by (simp add: draft_row_def)
      then show ?thesis using fresh_id_notin by metis
    qed
    have old: "lines_of (st_id r) s' = lines_of (st_id r) s" if "r \<in> set (daily_statements s)" for r
    proof -
      have "st_id r \<noteq> st_id row" using that fresh by (metis image_eqI list.set_map)
      then show ?thesis by (simp add: lines new)
    qed
    have "sl_statement_id l \<noteq> st_id row" if "l \<in> set (statement_lines s)" for l
      using inv that fresh unfolding billing_invariant_def list_all_iff by metis
    then have "lines_of (st_id row) s = []" by (simp add: lines_of_def filter_empty_conv)
    then have "statement_total_ok s' row"
      using draft_lines_total [OF created(8,9)] draft_total_sum [OF assms(2)]
      by (simp add: statement_total_ok_def lines new) (simp add: created(2) draft_row_def)
    moreover have "statement_total_ok s' r = statement_total_ok s r" if "r \<in> set (daily_statements s)" for r
      using old [OF that] by (simp add: statement_total_ok_def)
    moreover have "st_consumer_id row = sd_consumer_id d"
        "statement_key row = (sd_consumer_id d, day_display T (sd_billing_date d))"
      by (simp_all add: created(2) draft_row_def statement_key_def)
    ultimately have "billing_invariant s'"
      using inv created(3-5,7) fresh
      by (auto simp: billing_invariant_def created(6) list_all_iff find_statement_None)
    moreover have "db_evolves s s'"
      using old by (auto simp: db_evolves_def created(6) intro: row_evolves_refl)
    ultimately show "billing_invariant s'" "db_evolves s s'" by blast+
  qed (use created(10) in blast)
qed simp

lemma write_statement_keeps:
  assumes "write_statement T now wflt rflt d s = (res, s')"
  shows "keeps s s'"
proof (cases "validate_draft d")
  case (Inr u)
  show ?thesis
  proof (cases "draft_total d")
    case (Inr tot)
    obtain r t where t: "pool_write wflt (write_statement_tx T now d tot) s = (r, t)" by fastforce
    then have "s' = t"
      using assms Inr \<open>validate_draft d = Inr u\<close>
      by (auto simp: write_statement_def split: sum.splits)
    then show ?thesis using keeps_write [OF t] write_statement_tx_keeps [OF _ Inr] by fastforce
  qed (use assms Inr in \<open>simp add: write_statement_def\<close>)
qed (use assms in \<open>simp add: write_statement_def\<close>)

section \<open>Every sequence of operations\<close>

lemma mark_paid_keeps:
  assumes "mark_paid T now wflt rflt i by ref note s = (res, s')"
  shows "keeps s s'"
proof (cases "trim by = []")
  case False
  let ?P = "\<lambda>r. st_id r = i \<and> st_billing_mode r = ''invoice'' \<and> st_paid_at r = None"
  let ?f = "pay_row (format_ts T now) by ref note"
  obtain r t where t: "pool_write wflt (update_statements ?P ?f) s = (r, t)" by fastforce
  have "keeps s v" if "update_statements ?P ?f s = Inr (x, v)" for x v
    by (rule update_statements_keeps [OF that])
      (simp add: row_evolves_def same_terms_def pay_row_def)
  with keeps_write [OF t] have "keeps s t" by blast
  moreover have "s' = t"
    using assms False t by (auto simp: mark_paid_def split: sum.splits)
  ultimately show ?thesis by simp
qed (use assms in \<open>simp add: mark_paid_def\<close>)

lemma attempt_row_evolves: "row_evolves r (attempt_row T now out r)"
  by (auto simp: row_evolves_def same_terms_def same_payment_def attempt_row_def
      split: email_outcome.split option.split)

lemma record_email_attempt_keeps:
  assumes "record_email_attempt T now wflt i out s = (res, s')"
  shows "keeps s s'"
proof -
  obtain r t where t: "pool_write wflt (update_statements (\<lambda>r. st_id r = i)
      (attempt_row T (format_ts T now) out)) s = (r, t)" by fastforce
  have "keeps s v" if "update_statements (\<lambda>r. st_id r = i) (attempt_row T (format_ts T now) out) s = Inr (x, v)" for x v
    by (rule update_statements_keeps [OF that attempt_row_evolves])
  with keeps_write [OF t] have "keeps s t" by blast
  moreover have "s' = t" using assms t by (auto simp: record_email_attempt_def split: sum.splits)
  ultimately show ?thesis by simp
qed

definition lease_row :: "string \<Rightarrow> string \<Rightarrow> statement_row \<Rightarrow> statement_row" where
  "lease_row who until r = r\<lparr>st_claim_instance := Some who, st_claimed_until := Some until\<rparr>"

lemma lease_row_evolves: "row_evolves r (lease_row who until r)"
  by (simp add: row_evolves_def same_terms_def same_payment_def lease_row_def)

text \<open>A claim that does not panic, with its write made explicit.\<close>

lemma claim_emails_Done:
  assumes "claim_emails T wflt now who limit ttl s = Done (res, s')"
  obtains d until r where "duration_minutes ttl = Done d" "instant_add T now d = Done until"
    "pool_write wflt (\<lambda>s. update_statements
       (\<lambda>r. st_id r \<in> set (claimed_ids (format_ts T now) limit s))
       (lease_row who (format_ts T until)) s) s = (r, s')"
    "res = (case r of Inl e \<Rightarrow> Inl (Database e) | Inr rows \<Rightarrow> Inr (map row_to_statement rows))"
proof -
  from assms obtain d until where d: "duration_minutes ttl = Done d" "instant_add T now d = Done until"
    by (auto simp: claim_emails_def run_bind_def split: run.splits)
  have l: "(\<lambda>r. r\<lparr>st_claim_instance := Some who, st_claimed_until := Some (format_ts T until)\<rparr>)
      = lease_row who (format_ts T until)"
    by (simp add: lease_row_def fun_eq_iff)
  obtain r t where t: "pool_write wflt (\<lambda>s. update_statements
       (\<lambda>r. st_id r \<in> set (claimed_ids (format_ts T now) limit s))
       (lease_row who (format_ts T until)) s) s = (r, t)" by fastforce
  have "t = s' \<and> res = (case r of Inl e \<Rightarrow> Inl (Database e) | Inr rows \<Rightarrow> Inr (map row_to_statement rows))"
    using assms unfolding claim_emails_def d run_bind_simps l t by (cases r) auto
  with d t show thesis using that by blast
qed

lemma claim_emails_keeps:
  assumes "claim_emails T wflt now who limit ttl s = Done (res, s')"
  shows "keeps s s'"
  using assms
proof (rule claim_emails_Done)
  fix d until r
  let ?P = "\<lambda>s r. st_id r \<in> set (claimed_ids (format_ts T now) limit s)"
  assume t: "pool_write wflt (\<lambda>s. update_statements (?P s) (lease_row who (format_ts T until)) s) s
      = (r, s')"
  have "keeps s v" if "update_statements (?P s) (lease_row who (format_ts T until)) s = Inr (x, v)" for x v
    by (rule update_statements_keeps [OF that lease_row_evolves])
  with keeps_write [OF t] show "keeps s s'" by blast
qed

text \<open>One step: any operation of the store, with any arguments, at any instant, with any fault.\<close>

inductive billing_step :: "time_crate \<Rightarrow> db \<Rightarrow> db \<Rightarrow> bool" for T where
  step_create: "create_partner T now wflt rflt n s = (p, s') \<Longrightarrow> billing_step T s s'"
| step_update: "update_partner T now wflt rflt i patch s = (p, s') \<Longrightarrow> billing_step T s s'"
| step_delete: "delete_partner wflt i s = (u, s') \<Longrightarrow> billing_step T s s'"
| step_models: "replace_models T now wflt i models s = (u, s') \<Longrightarrow> billing_step T s s'"
| step_write: "write_statement T now wflt rflt d s = (out, s') \<Longrightarrow> billing_step T s s'"
| step_pay: "mark_paid T now wflt rflt sid by ref note s = (st, s') \<Longrightarrow> billing_step T s s'"
| step_attempt: "record_email_attempt T now wflt sid out s = (u, s') \<Longrightarrow> billing_step T s s'"
| step_claim: "claim_emails T wflt now who limit ttl s = Done (sts, s') \<Longrightarrow> billing_step T s s'"

lemma create_partner_keeps:
  assumes "create_partner T now wflt rflt n s = (res, s')"
  shows "keeps s s'"
proof (cases "validated n")
  case (Inr m)
  let ?row = "\<lparr>pr_consumer_id = np_consumer_id m, pr_name = np_name m,
                   pr_billing_email = np_billing_email m,
                   pr_billing_mode = mode_as_str (np_billing_mode m),
                   pr_payment_terms = np_payment_terms m,
                   pr_created_at = format_ts T now, pr_updated_at = format_ts T now\<rparr>"
  obtain r t where t: "pool_write wflt (insert_partner ?row) s = (r, t)" by fastforce
  then have "keeps s t" using keeps_write [OF t] insert_partner_keeps by blast
  moreover have "s' = t" using assms Inr t by (auto simp: create_partner_def split: sum.splits if_splits)
  ultimately show ?thesis by simp
qed (use assms in \<open>simp add: create_partner_def\<close>)

lemma update_partner_keeps:
  assumes "update_partner T now wflt rflt i patch s = (res, s')"
  shows "keeps s s'"
proof -
  obtain r t where t: "pool_write wflt
      (update_partners (\<lambda>r. pr_consumer_id r = i) (patch_row T now patch)) s = (r, t)" by fastforce
  have "pr_consumer_id (patch_row T now patch q) = pr_consumer_id q" for q by (simp add: patch_row_def)
  then have "keeps s t" using keeps_write [OF t] update_partners_keeps by blast
  moreover have "s' = s \<or> s' = t"
    using assms t by (auto simp: update_partner_def split: sum.splits if_splits)
  ultimately show ?thesis by auto
qed

lemma delete_partner_op_keeps:
  assumes "delete_partner wflt i s = (res, s')"
  shows "keeps s s'"
proof -
  obtain r t where t: "pool_write wflt (delete_partner_rows i) s = (r, t)" by fastforce
  then have "keeps s t" using keeps_write [OF t] delete_partner_keeps by blast
  moreover have "s' = t" using assms t by (auto simp: delete_partner_def split: sum.splits if_splits)
  ultimately show ?thesis by simp
qed

lemmas billing_ops_keep =
  create_partner_keeps update_partner_keeps delete_partner_op_keeps replace_models_keeps
  write_statement_keeps mark_paid_keeps record_email_attempt_keeps claim_emails_keeps

lemma billing_step_keeps: "billing_step T s s' \<Longrightarrow> keeps s s'"
  by (induction rule: billing_step.induct) (blast dest: billing_ops_keep)+

lemma billing_steps_keep: "(billing_step T)\<^sup>*\<^sup>* s s' \<Longrightarrow> keeps s s'"
  by (induction rule: rtranclp_induct) (auto dest: billing_step_keeps intro: keeps_trans)

end
