(* ===== verification/Issue_Once.thy ===== *)
theory Issue_Once
  imports Billing_Invariants
begin

text \<open>
  The contract of the statement write: a key is issued at most once, and what was issued stays. The
  locale proves once what any client can rely on (running the same work again changes nothing); it
  is interpreted on \<open>write_statement\<close>, and the properties of the write, of payments and of leases
  follow.
\<close>

section \<open>The contract\<close>

locale issue_once =
  fixes issue :: "'d \<Rightarrow> 's \<Rightarrow> 's"
    and key :: "'d \<Rightarrow> 'k"
    and lookup :: "'k \<Rightarrow> 's \<Rightarrow> 'v option"
  assumes issue_keeps: "lookup k s = Some v \<Longrightarrow> lookup k (issue d s) = Some v"
    and issue_existing: "lookup (key d) s = Some v \<Longrightarrow> issue d s = s"
    and issue_new: "issue d s \<noteq> s \<Longrightarrow> lookup (key d) (issue d s) \<noteq> None"
    and issue_other: "k \<noteq> key d \<Longrightarrow> lookup k (issue d s) = lookup k s"
begin

lemma issue_twice: "issue d (issue d s) = issue d s"
proof (cases "issue d s = s")
  case False
  then obtain v where "lookup (key d) (issue d s) = Some v" using issue_new by blast
  then show ?thesis by (rule issue_existing)
qed simp

lemma fold_keeps: "lookup k s = Some v \<Longrightarrow> lookup k (fold issue ds s) = Some v"
  by (induction ds arbitrary: s) (simp_all add: issue_keeps)

lemma fold_other: "k \<notin> key ` set ds \<Longrightarrow> lookup k (fold issue ds s) = lookup k s"
  by (induction ds arbitrary: s) (simp_all add: issue_other)

lemma rerun_existing:
  "(\<And>d. d \<in> set ds \<Longrightarrow> lookup (key d) s \<noteq> None) \<Longrightarrow> fold issue ds s = s"
proof (induction ds)
  case (Cons d ds)
  then obtain v where "lookup (key d) s = Some v" by fastforce
  then have "issue d s = s" by (rule issue_existing)
  with Cons show ?case by simp
qed simp

lemma rerun:
  assumes "\<And>d. d \<in> set ds \<Longrightarrow> lookup (key d) (fold issue ds s) \<noteq> None"
    and "key ` set es \<subseteq> key ` set ds"
  shows "fold issue es (fold issue ds s) = fold issue ds s"
proof (rule rerun_existing)
  fix e assume "e \<in> set es"
  then obtain d where "d \<in> set ds" "key e = key d" using assms(2) by blast
  with assms(1) show "lookup (key e) (fold issue ds s) \<noteq> None" by simp
qed

end

section \<open>The store provides it\<close>

text \<open>A write with its clock and its faults, as one value.\<close>

record write_request =
  wr_now :: instant
  wr_write_fault :: fault
  wr_read_fault :: fault
  wr_draft :: statement_draft

definition issue_request :: "time_crate \<Rightarrow> write_request \<Rightarrow> db \<Rightarrow> db" where
  "issue_request T w s =
     snd (write_statement T (wr_now w) (wr_write_fault w) (wr_read_fault w) (wr_draft w) s)"

definition draft_key :: "time_crate \<Rightarrow> statement_draft \<Rightarrow> string \<times> string" where
  "draft_key T d = (sd_consumer_id d, day_display T (sd_billing_date d))"

definition issued :: "string \<times> string \<Rightarrow> db \<Rightarrow> statement_row option" where
  "issued k s = find_statement (fst k) (snd k) s"

lemma issue_request_cases:
  obtains (same) "issue_request T w s = s"
  | (appended) row new where "issued (draft_key T (wr_draft w)) s = None"
      "statement_key row = draft_key T (wr_draft w)"
      "issue_request T w s = s\<lparr>daily_statements := daily_statements s @ [row],
         statement_lines := statement_lines s @ new\<rparr>"
proof -
  let ?d = "wr_draft w"
  show thesis
  proof (cases "validate_draft ?d")
    case (Inl e)
    then show thesis using same by (simp add: issue_request_def write_statement_def)
  next
    case v: (Inr u)
    show thesis
    proof (cases "draft_total ?d")
      case (Inl e)
      then show thesis using same v by (simp add: issue_request_def write_statement_def)
    next
      case (Inr tot)
      obtain r t where t: "pool_write (wr_write_fault w) (write_statement_tx T (wr_now w) ?d tot) s = (r, t)"
        by fastforce
      then have i: "issue_request T w s = t"
        using v Inr by (simp add: issue_request_def write_statement_def split: sum.split)
      show thesis
      proof (cases r)
        case (Inl e)
        then show thesis using t i same pool_write_Inl by metis
      next
        case (Inr inserted)
        then have "write_statement_tx T (wr_now w) ?d tot s = Inr (inserted, t)"
          using t by (simp add: pool_write_Inr)
        then show thesis
        proof (cases rule: write_statement_tx_cases)
          case existed
          then show thesis using i same by simp
        next
          case (created row new)
          then show thesis
            using i by (intro appended [of row new])
              (simp_all add: issued_def draft_key_def statement_key_def draft_row_def)
        qed
      qed
    qed
  qed
qed

lemma issued_append:
  "issued k (s\<lparr>daily_statements := daily_statements s @ [row], statement_lines := ls\<rparr>)
     = (case issued k s of Some q \<Rightarrow> Some q | None \<Rightarrow> if statement_key row = k then Some row else None)"
  by (cases k) (auto simp: issued_def find_statement_def find_append statement_key_def split: option.split)

interpretation statement: issue_once "issue_request T" "\<lambda>w. draft_key T (wr_draft w)" issued
proof
  fix k s v w
  show "issued k (issue_request T w s) = Some v" if "issued k s = Some v"
    using that by (cases rule: issue_request_cases [of T w s]) (auto simp: issued_append)
  show "issue_request T w s = s" if "issued (draft_key T (wr_draft w)) s = Some v"
    using that by (cases rule: issue_request_cases [of T w s]) auto
  show "issued (draft_key T (wr_draft w)) (issue_request T w s) \<noteq> None" if "issue_request T w s \<noteq> s"
    using that by (cases rule: issue_request_cases [of T w s]) (auto simp: issued_append)
  show "issued k (issue_request T w s) = issued k s" if "k \<noteq> draft_key T (wr_draft w)"
    using that by (cases rule: issue_request_cases [of T w s]) (auto simp: issued_append split: option.split)
qed

end
