(* ===== verification/Gregorian.thy ===== *)
theory Gregorian
  imports Timefmt
begin

text \<open>
  A concrete instance of the parameter \<open>time_crate\<close>: the proleptic Gregorian calendar on the
  four-digit years. It shows that the laws of \<open>time_laws\<close> can hold together, and it is the
  instance at which the witnesses of the properties are evaluated. Nothing of it models code
  of the repository.
\<close>

definition leap_year :: "nat \<Rightarrow> bool" where
  "leap_year y \<longleftrightarrow> 4 dvd y \<and> (\<not> 100 dvd y \<or> 400 dvd y)"

text \<open>The days from \<open>0000-01-01\<close> to the first of January of a year.\<close>

definition year_start :: "nat \<Rightarrow> nat" where
  "year_start y = 365 * y + (y + 3) div 4 + (y + 399) div 400 - (y + 99) div 100"

function find_year :: "nat \<Rightarrow> nat \<Rightarrow> nat" where
  "find_year y n = (if year_start (Suc y) \<le> n then find_year (Suc y) n else y)"
  by pat_completeness auto

lemma ceil_div:
  fixes y k :: nat
  assumes "0 < k"
  shows "(y + (k - 1)) div k = y div k + (if k dvd y then 0 else 1)"
proof -
  let ?r = "y mod k"
  have "y + (k - 1) = (?r + (k - 1)) + k * (y div k)" by simp
  then have "(y + (k - 1)) div k = ((?r + (k - 1)) + k * (y div k)) div k" by (rule arg_cong)
  also have "\<dots> = y div k + (?r + (k - 1)) div k"
    using assms by (intro div_mult_self2) simp
  finally have "(y + (k - 1)) div k = y div k + (?r + (k - 1)) div k" .
  moreover have "(r + (k - 1)) div k = (if r = 0 then 0 else 1)" if "r < k" for r
  proof (cases r)
    case (Suc q)
    then have "r + (k - 1) = q + k" using assms by simp
    then show ?thesis using div_add_self2 [of k q] that Suc by simp
  qed (use assms in simp)
  then have "(?r + (k - 1)) div k = (if ?r = 0 then 0 else 1)" using assms by simp
  ultimately show ?thesis by (simp only: dvd_eq_mod_eq_0)
qed

lemma ceil_div_Suc:
  fixes y k :: nat
  assumes "0 < k"
  shows "(Suc y + (k - 1)) div k = (y + (k - 1)) div k + (if k dvd y then 1 else 0)"
proof -
  have "Suc y + (k - 1) = y + k" using assms by simp
  then have "(Suc y + (k - 1)) div k = (y + k) div k" by simp
  also have "\<dots> = y div k + 1" using assms by (intro div_add_self2) simp
  finally have "(Suc y + (k - 1)) div k = y div k + 1" .
  then show ?thesis using ceil_div [OF assms, of y] by simp
qed

lemma year_start_Suc: "year_start (Suc y) = year_start y + (if leap_year y then 366 else 365)"
proof -
  have a: "(Suc y + 3) div 4 = (y + 3) div 4 + (if 4 dvd y then 1 else 0)"
    using ceil_div_Suc [of 4 y] by simp
  have b: "(Suc y + 99) div 100 = (y + 99) div 100 + (if 100 dvd y then 1 else 0)"
    using ceil_div_Suc [of 100 y] by simp
  have c: "(Suc y + 399) div 400 = (y + 399) div 400 + (if 400 dvd y then 1 else 0)"
    using ceil_div_Suc [of 400 y] by simp
  have d: "100 dvd y \<Longrightarrow> 4 dvd y" "400 dvd y \<Longrightarrow> 100 dvd y"
    using dvd_trans [of 4 100 y] dvd_trans [of 100 400 y] by simp_all
  have e: "(y + 99) div 100 \<le> 365 * y"
  proof (cases y)
    case (Suc x)
    then have "(y + 99) div 100 \<le> (100 * y) div 100" by (intro div_le_mono) simp
    then show ?thesis by simp
  qed simp
  have arith: "365 * Suc y + (u + (if P then 1 else 0)) + (w + (if R then 1 else 0))
        - (v + (if Q then 1 else 0))
      = 365 * y + u + w - v + (if P \<and> (\<not> Q \<or> R) then 366 else 365)"
    if "Q \<Longrightarrow> P" "R \<Longrightarrow> Q" "v \<le> 365 * y" for u v w :: nat and P Q R
    using that by (cases P; cases Q; cases R; simp)
  show ?thesis
    unfolding year_start_def a b c leap_year_def by (rule arith [OF d e])
qed

lemma year_start_0 [simp]: "year_start 0 = 0"
  by (simp add: year_start_def)

lemma year_start_ge: "y \<le> year_start y"
  by (induction y) (simp_all add: year_start_Suc)

termination find_year
proof (relation "measure (\<lambda>(y, n). Suc n - y)")
  fix y n
  assume "year_start (Suc y) \<le> n"
  then have "Suc y \<le> n" using year_start_ge [of "Suc y"] by linarith
  then show "((Suc y, n), y, n) \<in> measure (\<lambda>(y, n). Suc n - y)" by simp
qed simp

declare find_year.simps [simp del]

fun month_day :: "nat list \<Rightarrow> nat \<Rightarrow> nat \<Rightarrow> nat \<times> nat" where
  "month_day [] m r = (m, Suc r)"
| "month_day (l # ls) m r = (if r < l then (m, Suc r) else month_day ls (Suc m) (r - l))"

definition month_lengths :: "nat \<Rightarrow> nat list" where
  "month_lengths y = [31, if leap_year y then 29 else 28, 31, 30, 31, 30, 31, 31, 30, 31, 30, 31]"

definition civil_of_day :: "nat \<Rightarrow> int \<times> nat \<times> nat" where
  "civil_of_day n =
     (let y = find_year (n div 366) n in (int y, month_day (month_lengths y) 1 (n - year_start y)))"

lemma year_start_mono: "y \<le> z \<Longrightarrow> year_start y \<le> year_start z"
  by (rule lift_Suc_mono_le) (simp_all add: year_start_Suc)

lemma find_year_bounds:
  "year_start y \<le> n \<Longrightarrow> year_start (find_year y n) \<le> n \<and> n < year_start (Suc (find_year y n))"
proof (induction y n rule: find_year.induct)
  case (1 y n)
  show ?case
    using 1 by (cases "year_start (Suc y) \<le> n") (simp_all add: find_year.simps [of y n])
qed

lemma year_start_le: "year_start y \<le> 366 * y"
  by (induction y) (simp_all add: year_start_Suc)

lemma year_of_day:
  "year_start (find_year (n div 366) n) \<le> n \<and> n < year_start (Suc (find_year (n div 366) n))"
proof (rule find_year_bounds)
  have "year_start (n div 366) \<le> 366 * (n div 366)" by (rule year_start_le)
  then show "year_start (n div 366) \<le> n" by linarith
qed

lemma year_of_day_unique:
  assumes "year_start y \<le> n" "n < year_start (Suc y)"
  shows "find_year (n div 366) n = y"
proof -
  let ?z = "find_year (n div 366) n"
  have "\<not> Suc ?z \<le> y" using year_of_day [of n] assms year_start_mono [of "Suc ?z" y] by linarith
  moreover have "\<not> Suc y \<le> ?z" using year_of_day [of n] assms year_start_mono [of "Suc y" ?z] by linarith
  ultimately show ?thesis by simp
qed

lemma month_day_ge: "m \<le> fst (month_day ls m r)"
  by (induction ls m r rule: month_day.induct) auto

lemma month_day_mono: "r < s \<Longrightarrow> month_day ls m r < month_day ls m s"
proof (induction ls m r arbitrary: s rule: month_day.induct)
  case (2 l ls m r)
  show ?case
  proof (cases "r < l")
    case True
    then show ?thesis
      using month_day_ge [of "Suc m" ls "s - l"] 2 by (cases "month_day ls (Suc m) (s - l)") auto
  next
    case False
    then have "month_day ls (Suc m) (r - l) < month_day ls (Suc m) (s - l)"
      using 2 by (intro "2.IH") auto
    then show ?thesis using False 2 by simp
  qed
qed simp

lemma month_day_range:
  "r < sum_list ls \<Longrightarrow> \<forall>l \<in> set ls. l \<le> 31 \<Longrightarrow> month_day ls m r = (m', dd) \<Longrightarrow>
   m \<le> m' \<and> m' < m + length ls \<and> 1 \<le> dd \<and> dd \<le> 31"
  by (induction ls m r rule: month_day.induct) (fastforce split: if_splits)+

definition gregorian_civil :: "int \<Rightarrow> int \<times> nat \<times> nat" where
  "gregorian_civil d = civil_of_day (nat (d + 719528))"

lemma civil_of_day_mono: "n < k \<Longrightarrow> civil_of_day n < civil_of_day k"
proof -
  assume l: "n < k"
  let ?y = "find_year (n div 366) n" and ?z = "find_year (k div 366) k"
  note y = year_of_day [of n] and z = year_of_day [of k]
  have "?y \<le> ?z"
  proof (rule ccontr)
    assume "\<not> ?y \<le> ?z"
    then have "year_start (Suc ?z) \<le> year_start ?y" by (intro year_start_mono) simp
    with y z l show False by linarith
  qed
  moreover have "month_day (month_lengths ?y) 1 (n - year_start ?y)
      < month_day (month_lengths ?z) 1 (k - year_start ?z)" if "?y = ?z"
    using that l y by (auto intro!: month_day_mono)
  ultimately show ?thesis
    by (cases "?y = ?z") (simp_all add: civil_of_day_def Let_def)
qed

lemma civil_of_day_range:
  assumes "n \<le> 3652424" "civil_of_day n = (y, m, dd)"
  shows "0 \<le> y \<and> y \<le> 9999 \<and> 1 \<le> m \<and> m \<le> 12 \<and> 1 \<le> dd \<and> dd \<le> 31"
proof -
  let ?y = "find_year (n div 366) n"
  note b = year_of_day [of n]
  have "?y \<le> 9999"
  proof (rule ccontr)
    assume "\<not> ?y \<le> 9999"
    then have "year_start 10000 \<le> year_start ?y" by (intro year_start_mono) simp
    with b assms(1) show False by (simp add: year_start_def)
  qed
  moreover have "sum_list (month_lengths ?y) = (if leap_year ?y then 366 else 365)"
    by (simp add: month_lengths_def)
  then have "n - year_start ?y < sum_list (month_lengths ?y)"
    using b unfolding year_start_Suc by linarith
  then have "1 \<le> m \<and> m < 1 + length (month_lengths ?y) \<and> 1 \<le> dd \<and> dd \<le> 31"
  proof (rule month_day_range)
    show "\<forall>l \<in> set (month_lengths ?y). l \<le> 31" by (simp add: month_lengths_def)
    show "month_day (month_lengths ?y) 1 (n - year_start ?y) = (m, dd)"
      using assms(2) by (simp add: civil_of_day_def Let_def)
  qed
  moreover have "y = int ?y" using assms(2) by (simp add: civil_of_day_def Let_def)
  moreover have "length (month_lengths ?y) = 12" by (simp add: month_lengths_def)
  ultimately show ?thesis by simp
qed

section \<open>The instance\<close>

definition day_of_civil :: "nat \<Rightarrow> nat \<Rightarrow> nat \<Rightarrow> int" where
  "day_of_civil y m dd =
     int (year_start y + sum_list (take (m - 1) (month_lengths y)) + (dd - 1)) - 719528"

definition decode_date :: "string \<Rightarrow> int" where
  "decode_date s =
     day_of_civil (dec_value (take 4 s)) (dec_value (take 2 (drop 5 s))) (dec_value (take 2 (drop 8 s)))"

definition decode_clock :: "string \<Rightarrow> int" where
  "decode_clock s =
     int (dec_value (take 2 (drop 11 s))) * 3600000000000
     + int (dec_value (take 2 (drop 14 s))) * 60000000000
     + int (dec_value (take 2 (drop 17 s))) * 1000000000
     + int (dec_value (take 9 (drop 20 s)))"

text \<open>The laws of the calendar part do not depend on the parsers.\<close>

definition calendar_only :: time_crate where
  "calendar_only =
     \<lparr>tc_civil = gregorian_civil, tc_weekday = (\<lambda>d. nat ((d + 3) mod 7)),
      tc_parse_ts = (\<lambda>_. None), tc_parse_iso = (\<lambda>_. None),
      tc_parse_date = (\<lambda>_. None), tc_min = -719528 * NANOS_PER_DAY,
      tc_max = 2932897 * NANOS_PER_DAY - 1\<rparr>"

definition gregorian :: time_crate where
  "gregorian = calendar_only
     \<lparr>tc_parse_ts := (\<lambda>s. let t = decode_date s * NANOS_PER_DAY + decode_clock s
                          in if format_ts calendar_only t = s then Some t else None),
      tc_parse_date := (\<lambda>s. let d = decode_date s
                            in if render_date calendar_only d = s then Some d else None)\<rparr>"

lemma render_gregorian [simp]:
  "render_date gregorian = render_date calendar_only"
  "format_ts gregorian = format_ts calendar_only"
  by (simp_all add: fun_eq_iff render_date_def format_ts_def gregorian_def)

lemma month_day_inverse:
  "r < sum_list ls \<Longrightarrow> month_day ls m r = (m', dd) \<Longrightarrow>
   m \<le> m' \<and> 1 \<le> dd \<and> sum_list (take (m' - m) ls) + (dd - 1) = r"
proof (induction ls m r rule: month_day.induct)
  case (2 l ls m r)
  show ?case
  proof (cases "r < l")
    case False
    with 2 have "Suc m \<le> m' \<and> 1 \<le> dd \<and> sum_list (take (m' - Suc m) ls) + (dd - 1) = r - l"
      by (intro "2.IH") auto
    moreover from this have "m' - m = Suc (m' - Suc m)" by linarith
    ultimately have "m \<le> m'" "1 \<le> dd" "sum_list (take (m' - m) (l # ls)) = l + sum_list (take (m' - Suc m) ls)"
        "sum_list (take (m' - Suc m) ls) + (dd - 1) = r - l" "l \<le> r"
      using False by simp_all
    then show ?thesis by linarith
  qed (use 2 in auto)
qed simp

lemma day_in_year: "n - year_start (find_year (n div 366) n)
    < sum_list (month_lengths (find_year (n div 366) n))"
proof -
  let ?y = "find_year (n div 366) n"
  have "sum_list (month_lengths ?y) = (if leap_year ?y then 366 else 365)"
    by (simp add: month_lengths_def)
  then show ?thesis using year_of_day [of n] unfolding year_start_Suc by linarith
qed

lemma day_of_civil_inverse:
  assumes "four_digit_day d" "gregorian_civil d = (y, m, dd)"
  shows "day_of_civil (nat y) m dd = d"
proof -
  let ?n = "nat (d + 719528)"
  let ?y = "find_year (?n div 366) ?n"
  have "y = int ?y" and md: "month_day (month_lengths ?y) 1 (?n - year_start ?y) = (m, dd)"
    using assms(2) unfolding gregorian_civil_def civil_of_day_def Let_def by simp_all
  then have y: "nat y = ?y" by (simp only: nat_int)
  have "sum_list (take (m - 1) (month_lengths ?y)) + (dd - 1) = ?n - year_start ?y"
    using month_day_inverse [OF day_in_year md] by simp
  moreover have "year_start ?y \<le> ?n" using year_of_day by blast
  ultimately have "year_start ?y + sum_list (take (m - 1) (month_lengths ?y)) + (dd - 1) = ?n"
    by linarith
  then show ?thesis using assms(1) by (simp add: day_of_civil_def y four_digit_day_def)
qed

lemma gregorian_range:
  assumes "four_digit_day d" "gregorian_civil d = (y, m, dd)"
  shows "0 \<le> y \<and> y \<le> 9999 \<and> 1 \<le> m \<and> m \<le> 12 \<and> 1 \<le> dd \<and> dd \<le> 31"
  using assms by (intro civil_of_day_range) (auto simp: gregorian_civil_def four_digit_day_def)

lemma render_date_parts:
  assumes "four_digit_day d" "gregorian_civil d = (y, m, dd)"
  shows "render_date calendar_only d
      = pad0 4 (dec (nat y)) @ ''-'' @ pad0 2 (dec m) @ ''-'' @ pad0 2 (dec dd)"
    and "length (pad0 4 (dec (nat y))) = 4" "length (pad0 2 (dec m)) = 2" "length (pad0 2 (dec dd)) = 2"
  using gregorian_range [OF assms] assms(2)
  by (auto simp: render_date_def render_year_def calendar_only_def length_pad0_dec nat_less_iff)

lemma decode_render_date:
  assumes "four_digit_day d"
  shows "decode_date (render_date calendar_only d @ u) = d"
proof -
  obtain y m dd where c: "gregorian_civil d = (y, m, dd)" by (cases "gregorian_civil d") auto
  note r = render_date_parts [OF assms c]
  show ?thesis
    using r(2-4) day_of_civil_inverse [OF assms c] gregorian_range [OF assms c]
    by (simp add: decode_date_def r(1))
qed

lemma length_render_date: "four_digit_day d \<Longrightarrow> length (render_date calendar_only d) = 10"
  using render_date_parts by (cases "gregorian_civil d") auto


lemma radix_sum:
  fixes x :: nat
  shows "x div a * a + x mod a div b * b + x mod a mod b div c * c + x mod a mod b mod c = x"
  by (metis add.assoc div_mult_mod_eq)

lemma clock_sum:
  "int (clock_hour t) * 3600000000000 + int (clock_minute t) * 60000000000
   + int (clock_second t) * 1000000000 + int (clock_nanos t) = int (nanos_of_day t)"
  using radix_sum [of "nanos_of_day t" 3600000000000 60000000000 1000000000]
  unfolding clock_hour_def clock_minute_def clock_second_def clock_nanos_def by linarith

lemma decode_clock_format:
  assumes "length d = 10" "length h = 2" "length m = 2" "length s = 2" "length n = 9"
  shows "decode_clock (d @ ''T'' @ h @ '':'' @ m @ '':'' @ s @ ''.'' @ n @ ''Z'')
    = int (dec_value h) * 3600000000000 + int (dec_value m) * 60000000000
      + int (dec_value s) * 1000000000 + int (dec_value n)"
  using assms by (simp add: decode_clock_def)

lemma decode_format_ts:
  assumes "four_digit_instant t"
  shows "decode_date (format_ts calendar_only t) * NANOS_PER_DAY
      + decode_clock (format_ts calendar_only t) = t"
proof -
  have f: "four_digit_day (t div NANOS_PER_DAY)"
    using assms by (simp add: four_digit_instant_def)
  have "decode_clock (format_ts calendar_only t) = int (nanos_of_day t)"
    unfolding format_ts_def
    by (subst decode_clock_format)
      (simp_all add: length_render_date [OF f] length_pad0_dec clock_sum)
  moreover have "decode_date (format_ts calendar_only t) = t div NANOS_PER_DAY"
    unfolding format_ts_def by (rule decode_render_date [OF f])
  moreover have "int (nanos_of_day t) = t mod NANOS_PER_DAY"
    by (simp add: nanos_of_day_def NANOS_PER_DAY_def)
  ultimately show ?thesis by simp
qed

lemma gregorian_civil_mono:
  "four_digit_day d \<Longrightarrow> d < e \<Longrightarrow> gregorian_civil d < gregorian_civil e"
  unfolding gregorian_civil_def four_digit_day_def by (rule civil_of_day_mono) simp

lemma parse_gregorian:
  "tc_parse_ts gregorian s =
     (if format_ts calendar_only (decode_date s * NANOS_PER_DAY + decode_clock s) = s
      then Some (decode_date s * NANOS_PER_DAY + decode_clock s) else None)"
  "tc_parse_date gregorian s =
     (if render_date calendar_only (decode_date s) = s then Some (decode_date s) else None)"
  by (simp_all add: gregorian_def Let_def)

interpretation greg: time_laws gregorian
proof
  show "tc_civil gregorian d < tc_civil gregorian e"
    if "four_digit_day d" "four_digit_day e" "d < e" for d e
    using that by (simp add: gregorian_def calendar_only_def gregorian_civil_mono)
  show "0 \<le> y \<and> y \<le> 9999 \<and> 1 \<le> m \<and> m \<le> 12 \<and> 1 \<le> dd \<and> dd \<le> 31"
    if "four_digit_day d" "tc_civil gregorian d = (y, m, dd)" for d y m dd
    using gregorian_range [OF that(1)] that(2) by (simp add: gregorian_def calendar_only_def)
  show "tc_parse_ts gregorian (format_ts gregorian t) = Some t" if "four_digit_instant t" for t
    using decode_format_ts [OF that] unfolding render_gregorian parse_gregorian by simp
  show "tc_parse_date gregorian (render_date gregorian d) = Some d" if "four_digit_day d" for d
    using decode_render_date [OF that, of "[]"] unfolding render_gregorian parse_gregorian by simp
  show "tc_min gregorian \<le> t" if "four_digit_instant t" for t
  proof -
    have "-719528 \<le> t div 86400000000000"
      using that by (simp add: four_digit_instant_def four_digit_day_def NANOS_PER_DAY_def)
    then have "-719528 * 86400000000000 \<le> t" by linarith
    then show ?thesis by (simp add: gregorian_def calendar_only_def NANOS_PER_DAY_def)
  qed
  show "t \<le> tc_max gregorian \<longleftrightarrow> t div NANOS_PER_DAY \<le> 2932896" for t
    by (simp add: gregorian_def calendar_only_def NANOS_PER_DAY_def) linarith
qed

end
