(* ===== verification/Store_Properties.thy ===== *)
theory Store_Properties
  imports Issue_Once Gregorian
begin

text \<open>
  The properties of the billing store: writing a statement once, the integrity and immutability of
  what was issued, payments, email leases, scopes, and the agreement of the overdue query with the
  derived service status.
\<close>

section \<open>A database for the witnesses\<close>

definition sample_prices :: pricing_snapshot where
  "sample_prices =
     \<lparr>ps_input = PricePerMillion 2500000, ps_cached_input = PricePerMillion 1250000,
      ps_output = PricePerMillion 10000000\<rparr>"

definition sample_line :: line_draft where
  "sample_line =
     \<lparr>ld_model = ''gpt-4o'', ld_prices = sample_prices, ld_request_count = 1,
      ld_input_tokens = 1000, ld_cached_input_tokens = 200, ld_output_tokens = 20,
      ld_cost = \<lparr>uncached_input_tokens = 800, input_cost = MicroUsd 2000,
                 cached_input_cost = MicroUsd 250, output_cost = MicroUsd 200,
                 line_total = MicroUsd 2450\<rparr>\<rparr>"

definition sample_draft :: statement_draft where
  "sample_draft =
     \<lparr>sd_consumer_id = ''acme'', sd_billing_date = BillingDay 0, sd_billing_mode = Invoice,
      sd_period_start = ''a'', sd_period_end = ''b'', sd_billing_cutoff_at = ''c'',
      sd_due_at = Some 0, sd_incomplete = 0, sd_lines = [sample_line]\<rparr>"

definition sample_partner :: partner_row where
  "sample_partner =
     \<lparr>pr_consumer_id = ''acme'', pr_name = ''Acme'', pr_billing_email = ''billing@acme.test'',
      pr_billing_mode = ''invoice'', pr_payment_terms = 720, pr_created_at = ''t'',
      pr_updated_at = ''t''\<rparr>"

definition sample_db :: db where
  "sample_db = empty_db\<lparr>partners := [sample_partner]\<rparr>"

definition issued_db :: db where
  "issued_db = snd (write_statement gregorian 0 None None sample_draft sample_db)"

lemmas sample_defs =
  sample_prices_def sample_line_def sample_draft_def sample_partner_def sample_db_def empty_db_def

lemma sample_db_constraints [simp]: "row_constraints sample_db"
  by (simp add: row_constraints_def sample_db_def empty_db_def sample_partner_def partner_row_check_def)

lemma sample_db_invariant [simp]: "billing_invariant sample_db"
  by (simp add: billing_invariant_def sample_db_def empty_db_def)

lemma sample_write:
  "\<exists>st. write_statement gregorian now None None sample_draft sample_db = (Inr (Created st), s')
     \<and> st_id st = 1" if "s' = snd (write_statement gregorian now None None sample_draft sample_db)"
  using that
  by (simp add: write_statement_def validate_draft_def draft_total_def micro_checked_add_def
      checked_add_i64_def in_i64_def write_statement_tx_def draft_row_def statement_check_def
      find_statement_def has_partner_def insert_line_def draft_line_def statement_line_check_def
      as_tuple_def wrap_i64_def get_statement_def db_result_def row_to_statement_def
      statement.truncate_def fresh_id_def CURRENCY_def pool_write_def Let_def sample_defs)

lemma issued_db_reached: "(billing_step gregorian)\<^sup>*\<^sup>* sample_db issued_db"
proof -
  have "billing_step gregorian sample_db issued_db"
    unfolding issued_db_def by (rule step_write) (rule surjective_pairing)
  then show ?thesis by (rule r_into_rtranclp)
qed

section \<open>Writing a statement\<close>

text \<open>A write that succeeds, taken apart.\<close>

lemma write_statement_Inr:
  assumes "write_statement T now wflt rflt d s = (Inr out, s')"
  obtains tot inserted where "validate_draft d = Inr ()" "draft_total d = Inr tot"
    "wflt = None" "rflt = None" "write_statement_tx T now d tot s = Inr (inserted, s')"
    "was_created out = inserted"
    "map_option row_to_statement (issued (draft_key T d) s') = Some (outcome_statement out)"
proof -
  from assms have v: "validate_draft d = Inr ()"
    by (cases "validate_draft d") (auto simp: write_statement_def)
  with assms obtain tot where tot: "draft_total d = Inr tot"
    by (cases "draft_total d") (auto simp: write_statement_def)
  obtain r t where t: "pool_write wflt (write_statement_tx T now d tot) s = (r, t)" by fastforce
  with assms v tot obtain inserted where r: "r = Inr inserted" "t = s'"
    by (cases r) (auto simp: write_statement_def)
  have tx: "wflt = None" "write_statement_tx T now d tot s = Inr (inserted, s')"
    using t r by (simp_all add: pool_write_Inr)
  from assms v tot t r obtain st where st:
      "get_statement rflt (sd_consumer_id d) (day_display T (sd_billing_date d)) s' = Inr (Some st)"
      "out = (if inserted then Created st else Existed st)"
    by (auto simp: write_statement_def res_bind_Inr_iff split: option.splits)
  have "rflt = None \<and> map_option row_to_statement (issued (draft_key T d) s') = Some st"
    using st(1) by (cases rflt) (auto simp: get_statement_def db_result_def issued_def draft_key_def)
  with that [OF v tot tx(1) _ tx(2)] st(2) show thesis by auto
qed

lemma write_statement_tx_existing:
  assumes "issued (draft_key T d) s = Some row" "statement_check (draft_row T now d tot i)"
  shows "write_statement_tx T now d tot s = Inr (False, s)"
proof -
  have "statement_check (draft_row T now d tot j)" for j
    using assms(2) by (simp add: statement_check_def draft_row_def)
  then show ?thesis
    using assms(1)
    by (simp add: write_statement_tx_def issued_def draft_key_def) (simp add: draft_row_def)
qed

lemma write_statement_tx_check:
  "write_statement_tx T now d tot s = Inr x \<Longrightarrow> statement_check (draft_row T now' d tot i)"
  by (auto simp: write_statement_tx_def statement_check_def draft_row_def Let_def split: if_splits)

text \<open>
  C2: a statement is issued once. After a write of a draft succeeded, writing the same draft again,
  at any later time, changes no table and returns, as already existing, exactly the statement the
  first write returned.
\<close>

theorem statement_write_idempotent:
  assumes "write_statement T now wflt rflt d s = (Inr out, s')"
  shows "write_statement T now' None None d s' = (Inr (Existed (outcome_statement out)), s')"
  using assms
proof (rule write_statement_Inr)
  fix tot inserted
  assume a: "validate_draft d = Inr ()" "draft_total d = Inr tot"
    "write_statement_tx T now d tot s = Inr (inserted, s')"
    "map_option row_to_statement (issued (draft_key T d) s') = Some (outcome_statement out)"
  then obtain row where row: "issued (draft_key T d) s' = Some row" by auto
  have "write_statement_tx T now' d tot s' = Inr (False, s')"
    by (rule write_statement_tx_existing [OF row write_statement_tx_check [OF a(3)]])
  then show ?thesis
    using a(1,2,4) row
    by (simp add: write_statement_def pool_write_def get_statement_def db_result_def issued_def
        draft_key_def)
qed

theorem statement_write_idempotent_witness:
  "\<exists>st. write_statement gregorian 5 None None sample_draft issued_db = (Inr (Existed st), issued_db)"
proof -
  obtain st where "write_statement gregorian 0 None None sample_draft sample_db = (Inr (Created st), issued_db)"
    using sample_write issued_db_def by blast
  from statement_write_idempotent [OF this, of 5] show ?thesis by blast
qed

text \<open>
  a created statement says what its draft says. Its total is the sum of the totals of its lines,
  it starts unpaid and unsent, its lines are stored with it in the order of the draft, and nothing
  else in the tables changed.
\<close>

theorem created_statement_content:
  assumes "write_statement T now wflt rflt d s = (Inr (Created st), s')"
  shows "\<exists>row new. st = row_to_statement row
    \<and> s' = s\<lparr>daily_statements := daily_statements s @ [row], statement_lines := statement_lines s @ new\<rparr>
    \<and> st_consumer_id row = sd_consumer_id d
    \<and> st_billing_date row = day_display T (sd_billing_date d)
    \<and> st_billing_mode row = mode_as_str (sd_billing_mode d)
    \<and> st_total row = (\<Sum>l\<leftarrow>sd_lines d. micro_as_i64 (line_total (ld_cost l)))
    \<and> st_incomplete row = sd_incomplete d \<and> st_due_at row = map_option (format_ts T) (sd_due_at d)
    \<and> st_paid_at row = None \<and> st_email_sent_at row = None
    \<and> length new = length (sd_lines d)
    \<and> (\<forall>k < length (sd_lines d). \<exists>i. new ! k = draft_line (st_id row) (sd_lines d ! k) i)"
  using assms
proof (rule write_statement_Inr)
  fix tot inserted
  assume a: "draft_total d = Inr tot" "write_statement_tx T now d tot s = Inr (inserted, s')"
    "was_created (Created st) = inserted"
    "map_option row_to_statement (issued (draft_key T d) s') = Some (outcome_statement (Created st))"
  from a(2) show ?thesis
  proof (cases rule: write_statement_tx_cases)
    case existed
    then show ?thesis using a(3) by simp
  next
    case (created row new)
    have "issued (draft_key T d) s = None" using created(5) by (simp add: issued_def draft_key_def)
    moreover have "statement_key row = draft_key T d"
      by (simp add: created(2) draft_row_def statement_key_def draft_key_def)
    ultimately have "issued (draft_key T d) s' = Some row"
      by (simp add: created(6) issued_append)
    then have "st = row_to_statement row" using a(4) by simp
    then show ?thesis
      using created(6,8,9) draft_total_sum [OF a(1)]
      by (intro exI [of _ row] exI [of _ new]) (simp, simp add: created(2) draft_row_def)
  qed
qed

lemma issued_statements:
  "daily_statements issued_db = [draft_row gregorian 0 sample_draft (MicroUsd 2450) 1]"
  by (simp add: issued_db_def write_statement_def validate_draft_def draft_total_def
      micro_checked_add_def checked_add_i64_def in_i64_def write_statement_tx_def draft_row_def
      statement_check_def find_statement_def has_partner_def insert_line_def draft_line_def
      statement_line_check_def as_tuple_def wrap_i64_def fresh_id_def CURRENCY_def pool_write_def
      Let_def sample_defs)

theorem created_statement_content_witness:
  "\<exists>row. daily_statements issued_db = [row] \<and> st_total row = 2450"
proof -
  obtain st where "write_statement gregorian 0 None None sample_draft sample_db = (Inr (Created st), issued_db)"
    using sample_write issued_db_def by blast
  from created_statement_content [OF this] obtain row new where
      i: "issued_db = sample_db\<lparr>daily_statements := daily_statements sample_db @ [row],
           statement_lines := statement_lines sample_db @ new\<rparr>"
    and "st_total row = (\<Sum>l\<leftarrow>sd_lines sample_draft. micro_as_i64 (line_total (ld_cost l)))"
    by blast
  then have "st_total row = 2450" by (simp add: sample_defs)
  moreover have "daily_statements issued_db = [row]" by (subst i) (simp add: sample_defs)
  ultimately show ?thesis by blast
qed

section \<open>Every sequence of operations\<close>

text \<open>
  C3: the billing tables stay consistent. Every sequence of store operations, at any instants and
  with any database faults, keeps: one statement per partner and day, one price per partner and model,
  one line per statement, model and prices; every CHECK of the billing tables, those of partners and
  prices included; every foreign key; and each statement's total equal to the sum of the totals of its
  stored lines.
\<close>

theorem store_integrity:
  assumes "billing_invariant s" "row_constraints s" "(billing_step T)\<^sup>*\<^sup>* s s'"
  shows "billing_invariant s' \<and> row_constraints s'
    \<and> (\<forall>r \<in> set (daily_statements s'). st_total r = (\<Sum>l\<leftarrow>lines_of (st_id r) s'. sl_total_cost l))"
proof -
  have inv: "billing_invariant s'" "row_constraints s'"
    using billing_steps_keep [OF assms(3)] assms(1,2) by (simp_all add: keeps_def)
  then have "list_all (statement_total_ok s') (daily_statements s')" by (simp add: billing_invariant_def)
  with inv show ?thesis unfolding list_all_iff statement_total_ok_def by blast
qed

theorem store_integrity_witness: "billing_invariant issued_db \<and> row_constraints issued_db"
  using store_integrity [OF sample_db_invariant sample_db_constraints issued_db_reached] by blast

text \<open>
  C4: an issued statement is immutable. Across every sequence of store operations a statement keeps
  its partner, day, mode, currency, window, cut-off, total, incomplete count, deadline and lines; a
  recorded payment keeps its instant, author, reference and note; a recorded delivery keeps its
  instant; and the statement is never deleted.
\<close>

theorem issued_statement_immutable:
  assumes "billing_invariant s" "(billing_step T)\<^sup>*\<^sup>* s s'" "r \<in> set (daily_statements s)"
  shows "\<exists>q \<in> set (daily_statements s'). same_terms r q \<and> lines_of (st_id r) s' = lines_of (st_id r) s
    \<and> (st_paid_at r \<noteq> None \<longrightarrow> same_payment r q)
    \<and> (st_email_sent_at r \<noteq> None \<longrightarrow> st_email_sent_at q = st_email_sent_at r)"
proof -
  have "db_evolves s s'" using billing_steps_keep [OF assms(2)] assms(1) by (simp add: keeps_def)
  then obtain q where "q \<in> set (daily_statements s')" "row_evolves r q"
      "lines_of (st_id r) s' = lines_of (st_id r) s"
    using assms(3) by (auto simp: db_evolves_def)
  then show ?thesis by (intro bexI [of _ q]) (simp_all add: row_evolves_def)
qed

theorem issued_statement_immutable_witness:
  "\<exists>r q. daily_statements issued_db = [r] \<and> q \<in> set (daily_statements issued_db) \<and> same_terms r q"
proof -
  obtain r where r: "daily_statements issued_db = [r]"
    using issued_statements by blast
  have "billing_invariant issued_db"
    using billing_steps_keep [OF issued_db_reached] by (simp add: keeps_def)
  from issued_statement_immutable [OF this rtranclp.rtrancl_refl [of "billing_step gregorian"], of r] r
  show ?thesis by auto
qed

section \<open>Payments\<close>

lemma find_id_map:
  "(\<And>q. st_id (u q) = st_id q) \<Longrightarrow>
   find (\<lambda>r. st_id r = i) (map u xs) = map_option u (find (\<lambda>r. st_id r = i) xs)"
  by (induction xs) auto

lemma find_id_unique:
  "distinct (map st_id xs) \<Longrightarrow> find (\<lambda>r. st_id r = i) xs = Some r \<Longrightarrow> q \<in> set xs \<Longrightarrow> st_id q = i \<Longrightarrow> q = r"
  by (induction xs) (auto split: if_splits)

lemma find_id_Some: "find (\<lambda>r. st_id r = i) xs = Some r \<Longrightarrow> r \<in> set xs \<and> st_id r = i"
  by (auto simp: find_Some_iff)

lemma row_to_statement_fields [simp]:
  "st_id (row_to_statement r) = st_id r" "st_paid_at (row_to_statement r) = st_paid_at r"
  "st_billing_mode (row_to_statement r) = st_billing_mode r"
  "st_consumer_id (row_to_statement r) = st_consumer_id r"
  "st_due_at (row_to_statement r) = st_due_at r" "st_total (row_to_statement r) = st_total r"
  "st_incomplete (row_to_statement r) = st_incomplete r"
  "to_overdue_row (row_to_statement r) = to_overdue_row r"
  by (simp_all add: row_to_statement_def statement.truncate_def to_overdue_row_def)

text \<open>An update that selects by id, on tables whose ids are distinct.\<close>

lemma update_by_id:
  assumes "distinct (map st_id (daily_statements s))"
    and "find (\<lambda>r. st_id r = i) (daily_statements s) = Some r"
    and "\<And>q. P q \<longleftrightarrow> st_id q = i \<and> Q q" "Q r \<Longrightarrow> statement_check (f r)"
  shows "\<exists>rows. update_statements P f s = Inr (rows,
    if Q r then s\<lparr>daily_statements := map (\<lambda>q. if st_id q = i then f q else q) (daily_statements s)\<rparr>
    else s)"
proof -
  have u: "q = r" if "q \<in> set (daily_statements s)" "st_id q = i" for q
    using find_id_unique [OF assms(1,2) that] .
  show ?thesis
  proof (cases "Q r")
    case True
    have "map (\<lambda>q. if P q then f q else q) (daily_statements s)
        = map (\<lambda>q. if st_id q = i then f q else q) (daily_statements s)"
      using u True by (auto simp: assms(3))
    moreover have "list_all statement_check (map f (filter P (daily_statements s)))"
      using u assms(4) True by (auto simp: list_all_iff assms(3))
    ultimately show ?thesis using True by (simp add: update_statements_def)
  next
    case False
    then have "\<not> P q" if "q \<in> set (daily_statements s)" for q
      using u [OF that] assms(3) by blast
    then have "filter P (daily_statements s) = []"
      "map (\<lambda>q. if P q then f q else q) (daily_statements s) = daily_statements s"
      by (simp_all add: filter_empty_conv map_idI)
    then show ?thesis using False by (simp add: update_statements_def)
  qed
qed

text \<open>
  the first payment wins. Recording a payment on an unpaid invoice sets its payment fields and
  returns it; on an already paid invoice it changes nothing and returns the first payment; on a
  reconciliation statement and on an unknown id it changes nothing and says why.
\<close>

theorem payment_recorded_once:
  assumes "billing_invariant s" "trim by \<noteq> []"
  shows "mark_paid T now None None i by ref note s =
    (case find (\<lambda>r. st_id r = i) (daily_statements s) of
       None \<Rightarrow> (Inl (PartnerNotFound (''statement '' @ dec_int i)), s)
     | Some r \<Rightarrow>
         if st_billing_mode r \<noteq> ''invoice'' then (Inl (StatementNotPayable i (st_billing_mode r)), s)
         else if st_paid_at r \<noteq> None then (Inr (row_to_statement r), s)
         else (Inr (row_to_statement (pay_row (format_ts T now) by ref note r)),
               s\<lparr>daily_statements := map (\<lambda>q. if st_id q = i then pay_row (format_ts T now) by ref note q
                                            else q) (daily_statements s)\<rparr>))"
proof -
  let ?f = "pay_row (format_ts T now) by ref note"
  let ?Q = "\<lambda>r. st_billing_mode r = ''invoice'' \<and> st_paid_at r = None"
  let ?P = "\<lambda>r. st_id r = i \<and> st_billing_mode r = ''invoice'' \<and> st_paid_at r = None"
  let ?u = "\<lambda>q. if st_id q = i then ?f q else q"
  have d: "distinct (map st_id (daily_statements s))"
    and c: "list_all statement_check (daily_statements s)"
    using assms(1) by (simp_all add: billing_invariant_def)
  have u: "st_id (?u q) = st_id q" for q by (simp add: pay_row_def)
  show ?thesis
  proof (cases "find (\<lambda>r. st_id r = i) (daily_statements s)")
    case None
    then have "filter ?P (daily_statements s) = []"
      "map (\<lambda>q. if ?P q then ?f q else q) (daily_statements s) = daily_statements s"
      by (auto simp: find_None_iff filter_empty_conv intro!: map_idI)
    then have "update_statements ?P ?f s = Inr ([], s)" by (simp add: update_statements_def)
    then show ?thesis
      using None assms(2) by (simp add: mark_paid_def pool_write_def statement_by_id_def db_result_def)
  next
    case (Some r)
    note r = find_id_Some [OF Some]
    have chk: "statement_check r" using c r by (simp add: list_all_iff)
    then have "?Q r \<Longrightarrow> statement_check (?f r)" by (simp add: statement_check_def pay_row_def)
    then obtain rows where up: "update_statements ?P ?f s = Inr (rows,
        if ?Q r then s\<lparr>daily_statements := map ?u (daily_statements s)\<rparr> else s)"
      using update_by_id [OF d Some, of ?P ?Q ?f] by auto
    have unpaid: "st_billing_mode r \<noteq> ''invoice'' \<Longrightarrow> st_paid_at r = None"
      using chk by (simp add: statement_check_def)
    have fu: "find (\<lambda>r. st_id r = i) (map ?u (daily_statements s)) = Some (?f r)"
      using find_id_map [of ?u i, OF u] Some r by simp
    show ?thesis
      using assms(2) up Some fu unpaid
      by (cases "?Q r")
        (auto simp: mark_paid_def pool_write_def statement_by_id_def db_result_def is_paid_def pay_row_def)
  qed
qed

theorem payment_recorded_once_witness:
  "mark_paid gregorian 9 None None 77 ''ops'' None None issued_db
     = (Inl (PartnerNotFound ''statement 77''), issued_db)"
proof -
  have "find (\<lambda>r. st_id r = 77) (daily_statements issued_db) = None"
    by (simp add: issued_db_def write_statement_def validate_draft_def draft_total_def
      micro_checked_add_def checked_add_i64_def in_i64_def write_statement_tx_def draft_row_def
      statement_check_def find_statement_def has_partner_def insert_line_def draft_line_def
      statement_line_check_def as_tuple_def wrap_i64_def fresh_id_def CURRENCY_def pool_write_def
      Let_def sample_defs)
  moreover have "billing_invariant issued_db"
    using billing_steps_keep [OF issued_db_reached] by (simp add: keeps_def)
  moreover have "trim ''ops'' \<noteq> []" by (subst trim_visible) (simp_all add: visible_def)
  moreover have "dec_int 77 = ''77''" by code_simp
  ultimately show ?thesis
    using payment_recorded_once [of issued_db "''ops''" gregorian 9 77 None None] by simp
qed

section \<open>Email leases\<close>

lemma sql_limit_subset: "set (sql_limit limit offset xs) \<subseteq> set xs"
  using set_take_subset [of "nat limit" "drop (nat offset) xs"] set_drop_subset [of "nat offset" xs]
  by (auto simp: sql_limit_def Let_def)

lemma sql_limit_length: "0 \<le> limit \<Longrightarrow> length (sql_limit limit offset xs) \<le> nat limit"
  by (simp add: sql_limit_def Let_def)

text \<open>The statements a claim returns, and the tables it leaves.\<close>

lemma claim_emails_Inr:
  assumes "claim_emails T wflt now who limit ttl s = Done (Inr sts, s')"
  shows "\<exists>until. instant_add T now (ttl * 60000000000) = Done until
    \<and> sts = map row_to_statement (map (lease_row who (format_ts T until))
        (filter (\<lambda>r. st_id r \<in> set (claimed_ids (format_ts T now) limit s)) (daily_statements s)))
    \<and> s' = s\<lparr>daily_statements := map (\<lambda>r. if st_id r \<in> set (claimed_ids (format_ts T now) limit s)
        then lease_row who (format_ts T until) r else r) (daily_statements s)\<rparr>"
  using assms
proof (rule claim_emails_Done)
  fix d until r
  assume a: "duration_minutes ttl = Done d" "instant_add T now d = Done until"
    "pool_write wflt (\<lambda>s. update_statements
       (\<lambda>r. st_id r \<in> set (claimed_ids (format_ts T now) limit s))
       (lease_row who (format_ts T until)) s) s = (r, s')"
    "Inr sts = (case r of Inl e \<Rightarrow> Inl (Database e) | Inr rows \<Rightarrow> Inr (map row_to_statement rows))"
  then obtain rows where "r = Inr rows" "sts = map row_to_statement rows" by (cases r) auto
  moreover have "d = ttl * 60000000000"
    using a(1) by (auto simp: duration_minutes_def split: if_splits)
  ultimately show ?thesis
    using a(2,3) by (auto simp: pool_write_Inr update_statements_def Let_def split: if_splits)
qed

lemma claimed_idsD:
  "i \<in> set (claimed_ids now limit s) \<Longrightarrow> \<exists>r \<in> set (daily_statements s). st_id r = i \<and> claimable now s r"
  using sql_limit_subset [of limit 0 "sort_key (\<lambda>r. (st_due_at r, st_id r))
    (filter (claimable now s) (daily_statements s))"]
  by (auto simp: claimed_ids_def)

lemma row_of_id:
  "distinct (map st_id xs) \<Longrightarrow> r \<in> set xs \<Longrightarrow> q \<in> set xs \<Longrightarrow> st_id r = st_id q \<Longrightarrow> r = q"
  by (auto simp: distinct_map inj_on_def)

lemma claimed_statement_eligible:
  assumes "claim_emails T wflt now who limit ttl s = Done (Inr sts, s')" "st \<in> set sts"
  shows "\<exists>r \<in> set (daily_statements s). st_id r = st_id st \<and> claimable (format_ts T now) s r"
proof -
  obtain until where "sts = map row_to_statement (map (lease_row who (format_ts T until))
      (filter (\<lambda>r. st_id r \<in> set (claimed_ids (format_ts T now) limit s)) (daily_statements s)))"
    using claim_emails_Inr [OF assms(1)] by blast
  with assms(2) have "st_id st \<in> set (claimed_ids (format_ts T now) limit s)"
    by (auto simp: lease_row_def)
  then show ?thesis by (rule claimed_idsD)
qed

text \<open>
  what a claim hands out may be sent. Every statement it returns is an unpaid, unsent invoice
  with something to say, of a partner with an address on file, whose retry is due and whose lease, if
  any, has lapsed; and a claim returns at most \<open>limit\<close> of them.
\<close>

theorem claim_is_eligible:
  assumes "billing_invariant s" "claim_emails T wflt now who limit ttl s = Done (Inr sts, s')"
  shows "(\<forall>st \<in> set sts. \<exists>r \<in> set (daily_statements s). st_id r = st_id st \<and> claimable (format_ts T now) s r)
    \<and> (0 \<le> limit \<longrightarrow> length sts \<le> nat limit)"
proof -
  let ?ids = "set (claimed_ids (format_ts T now) limit s)"
  obtain until where sts: "sts = map row_to_statement (map (lease_row who (format_ts T until))
      (filter (\<lambda>r. st_id r \<in> ?ids) (daily_statements s)))"
    using claim_emails_Inr [OF assms(2)] by blast
  have "length sts \<le> nat limit" if "0 \<le> limit"
  proof -
    let ?xs = "map st_id (filter (\<lambda>r. st_id r \<in> ?ids) (daily_statements s))"
    have "distinct ?xs"
      using assms(1) by (simp add: billing_invariant_def distinct_map_filter)
    then have "length sts = card (set ?xs)" by (simp only: distinct_card) (simp add: sts)
    also have "\<dots> \<le> card ?ids" by (intro card_mono) auto
    also have "\<dots> \<le> length (claimed_ids (format_ts T now) limit s)" by (rule card_length)
    also have "\<dots> \<le> nat limit" using sql_limit_length [OF that] by (simp add: claimed_ids_def)
    finally show ?thesis .
  qed
  then show ?thesis using claimed_statement_eligible [OF assms(2)] by blast
qed

text \<open>A claim whose lease can be represented succeeds.\<close>

lemma claim_succeeds:
  assumes "billing_invariant s" "in_i64 (ttl * 60)" "instant_add T now (ttl * 60000000000) = Done until"
  shows "\<exists>sts s'. claim_emails T None now who limit ttl s = Done (Inr sts, s')"
proof -
  have "list_all statement_check (daily_statements s)" using assms(1) by (simp add: billing_invariant_def)
  moreover have "statement_check
      (r\<lparr>st_claim_instance := Some who, st_claimed_until := Some (format_ts T until)\<rparr>) = statement_check r" for r :: statement_row
    by (simp add: statement_check_def)
  ultimately have "\<forall>r \<in> set (daily_statements s). statement_check
      (r\<lparr>st_claim_instance := Some who, st_claimed_until := Some (format_ts T until)\<rparr>)"
    by (simp add: list_all_iff)
  moreover have "duration_minutes ttl = Done (ttl * 60000000000)"
    using assms(2) by (simp add: duration_minutes_def)
  ultimately show ?thesis
    using assms(3)
    by (auto simp: claim_emails_def pool_write_def update_statements_def list_all_iff Let_def
        mult.commute)
qed

lemma issued_db_invariant [simp]: "billing_invariant issued_db"
  using billing_steps_keep [OF issued_db_reached] by (simp add: keeps_def)

lemma gregorian_add: "0 \<le> d \<Longrightarrow> d < 86400000000000 \<Longrightarrow> instant_add gregorian 0 d = Done d"
  by (simp add: instant_add_def instant_checked_add_def gregorian_def calendar_only_def NANOS_PER_DAY_def)

theorem claim_is_eligible_witness:
  "\<exists>sts s'. claim_emails gregorian None 0 ''a'' 5 10 issued_db = Done (Inr sts, s') \<and> length sts \<le> 5"
proof -
  have ok: "in_i64 (10 * 60)" "instant_add gregorian 0 (10 * 60000000000) = Done 600000000000"
    using gregorian_add [of 600000000000] by (simp_all add: in_i64_def)
  obtain sts s' where c: "claim_emails gregorian None 0 ''a'' 5 10 issued_db = Done (Inr sts, s')"
    using claim_succeeds [OF issued_db_invariant ok] by blast
  from claim_is_eligible [OF issued_db_invariant c] show ?thesis using c by auto
qed

text \<open>
  a lease excludes. While the lease of a claim is running, no instance (the claiming one
  included) can claim any of its statements again.
\<close>

theorem lease_excludes:
  assumes "time_laws T" "claim_emails T wflt now who limit ttl s = Done (Inr sts, s')"
    and "claim_emails T wflt' now' who' limit' ttl' s' = Done (Inr sts', s'')"
    and "now' < now + ttl * 60000000000"
    and "four_digit_instant now'" "four_digit_instant (now + ttl * 60000000000)"
  shows "set (map st_id sts) \<inter> set (map st_id sts') = {}"
proof (rule ccontr)
  let ?ids = "set (claimed_ids (format_ts T now) limit s)"
  assume "set (map st_id sts) \<inter> set (map st_id sts') \<noteq> {}"
  then obtain st st' where st: "st \<in> set sts" "st' \<in> set sts'" "st_id st = st_id st'" by auto
  obtain until where u: "instant_add T now (ttl * 60000000000) = Done until"
      "sts = map row_to_statement (map (lease_row who (format_ts T until))
        (filter (\<lambda>r. st_id r \<in> ?ids) (daily_statements s)))"
      "s' = s\<lparr>daily_statements := map (\<lambda>r. if st_id r \<in> ?ids
        then lease_row who (format_ts T until) r else r) (daily_statements s)\<rparr>"
    using claim_emails_Inr [OF assms(2)] by blast
  have until: "until = now + ttl * 60000000000"
    using u(1) by (auto simp: instant_add_def instant_checked_add_def split: option.splits if_splits)
  obtain r where r: "r \<in> set (daily_statements s')" "st_id r = st_id st"
      "claimable (format_ts T now') s' r"
    using claimed_statement_eligible [OF assms(3) st(2)] st(3) by auto
  have "st_id st \<in> ?ids" using st(1) by (auto simp: u(2) lease_row_def)
  then have "st_claimed_until r = Some (format_ts T until)"
    using r(1,2) by (auto simp: u(3) lease_row_def)
  then have "format_ts T until \<le> format_ts T now'" using r(3) by (simp add: claimable_def)
  then have "until \<le> now'"
    using time_laws.format_ts_le_iff [OF assms(1)] assms(5,6) until by simp
  then show False using assms(4) until by simp
qed

theorem lease_excludes_witness:
  "\<exists>sts s' sts' s''. claim_emails gregorian None 0 ''a'' 5 10 issued_db = Done (Inr sts, s')
     \<and> claim_emails gregorian None 0 ''b'' 5 10 s' = Done (Inr sts', s'')
     \<and> set (map st_id sts) \<inter> set (map st_id sts') = {}"
proof -
  have ok: "in_i64 (10 * 60)" "instant_add gregorian 0 (10 * 60000000000) = Done 600000000000"
    using gregorian_add [of 600000000000] by (simp_all add: in_i64_def)
  obtain sts s' where c: "claim_emails gregorian None 0 ''a'' 5 10 issued_db = Done (Inr sts, s')"
    using claim_succeeds [OF issued_db_invariant ok] by blast
  have "billing_invariant s'" using claim_emails_keeps [OF c] by (simp add: keeps_def)
  then obtain sts' s'' where d: "claim_emails gregorian None 0 ''b'' 5 10 s' = Done (Inr sts', s'')"
    using claim_succeeds [OF _ ok] by blast
  have "set (map st_id sts) \<inter> set (map st_id sts') = {}"
    by (rule lease_excludes [OF greg.time_laws_axioms c d])
      (simp_all add: four_digit_instant_def four_digit_day_def NANOS_PER_DAY_def)
  with c d show ?thesis by blast
qed

section \<open>Scopes\<close>

text \<open>
  a partner key reads its own statements only. Whatever the request asks for, a statement, a page
  of statements or a statement's lines read within the scope of a key belong to the key's partner; and
  the page, the count and the totals are the same on any two databases that agree on that partner's
  statements.
\<close>

theorem key_scope_isolates:
  fixes q :: string and p :: runtime_config
  defines "sc \<equiv> resolve_scope (context_new p) q" and "c \<equiv> rc_consumer_id p"
  shows "(get_statement_by_id rflt i sc s = Inr (Some st) \<longrightarrow> st_consumer_id st = c)
    \<and> (list_statements rflt sc limit offset unpaid s = Inr sts \<longrightarrow> (\<forall>st \<in> set sts. st_consumer_id st = c))
    \<and> (scoped_lines rflt i sc s = Inr ls \<and> ls \<noteq> [] \<longrightarrow>
         (\<exists>r \<in> set (daily_statements s). st_id r = i \<and> st_consumer_id r = c))
    \<and> (statements_where (\<lambda>r. st_consumer_id r = c) s = statements_where (\<lambda>r. st_consumer_id r = c) t \<longrightarrow>
         list_statements rflt sc limit offset unpaid s = list_statements rflt sc limit offset unpaid t
         \<and> count_statements rflt sc s = count_statements rflt sc t
         \<and> outstanding_totals rflt sc s = outstanding_totals rflt sc t)"
proof (intro conjI impI)
  have sc: "scope_admits sc = (\<lambda>x. x = c)"
    by (simp add: sc_def c_def key_context_scope fun_eq_iff)
  show "st_consumer_id st = c" if "get_statement_by_id rflt i sc s = Inr (Some st)"
    using that by (cases rflt) (auto simp: get_statement_by_id_def db_result_def sc find_Some_iff)
  show "\<forall>st \<in> set sts. st_consumer_id st = c"
    if "list_statements rflt sc limit offset unpaid s = Inr sts"
  proof
    fix st assume st: "st \<in> set sts"
    let ?P = "\<lambda>r. st_consumer_id r = c \<and> (unpaid \<longrightarrow> unpaid_invoice r)"
    have "rflt = None" using that by (cases rflt) (auto simp: list_statements_def db_result_def)
    with that obtain rows where rows: "sts = map row_to_statement (sql_limit limit offset rows)"
        "set rows \<subseteq> set (statements_where ?P s)"
      by (cases unpaid) (auto simp: list_statements_def db_result_def sc statements_where_def)
    with st obtain r where "r \<in> set rows" "st = row_to_statement r"
      using sql_limit_subset [of limit offset rows] by auto
    with rows(2) show "st_consumer_id st = c" by (auto simp: statements_where_def)
  qed
  show "\<exists>r \<in> set (daily_statements s). st_id r = i \<and> st_consumer_id r = c"
    if ne: "scoped_lines rflt i sc s = Inr ls \<and> ls \<noteq> []"
  proof -
    have "rflt = None" using ne by (cases rflt) (auto simp: scoped_lines_def db_result_def)
    with ne have ls: "ls = sort_key line_order (concat (map (\<lambda>l. map (\<lambda>_. l)
        (filter (\<lambda>r. st_id r = sl_statement_id l \<and> st_consumer_id r = c) (daily_statements s)))
        (lines_of i s)))"
      by (simp add: scoped_lines_def db_result_def sc)
    obtain l where "l \<in> set ls" using ne by (cases ls) auto
    then show ?thesis unfolding ls set_sort by (auto simp: lines_of_def)
  qed
  have w: "statements_where (\<lambda>r. scope_admits sc (st_consumer_id r) \<and> P r) u
      = filter P (statements_where (\<lambda>r. st_consumer_id r = c) u)" for P u
    by (simp add: statements_where_def sc)
  have w': "statements_where (\<lambda>r. scope_admits sc (st_consumer_id r)) u
      = statements_where (\<lambda>r. st_consumer_id r = c) u" for u
    by (simp add: statements_where_def sc)
  assume eq: "statements_where (\<lambda>r. st_consumer_id r = c) s = statements_where (\<lambda>r. st_consumer_id r = c) t"
  show "list_statements rflt sc limit offset unpaid s = list_statements rflt sc limit offset unpaid t"
    by (cases rflt) (simp_all only: list_statements_def pool_read_simps w w' eq)
  show "count_statements rflt sc s = count_statements rflt sc t"
    by (cases rflt) (simp_all only: count_statements_def pool_read_simps w' eq)
  show "outstanding_totals rflt sc s = outstanding_totals rflt sc t"
    by (cases rflt) (simp_all only: outstanding_totals_def pool_read_simps w eq)
qed

theorem key_scope_isolates_witness:
  "get_statement_by_id None 1 (resolve_scope (context_new (config_empty ''acme'' ''k'' Invoice Active)) ''other'')
     issued_db = Inr (Some (row_to_statement (draft_row gregorian 0 sample_draft (MicroUsd 2450) 1)))
   \<and> st_consumer_id (row_to_statement (draft_row gregorian 0 sample_draft (MicroUsd 2450) 1)) = ''acme''"
proof -
  let ?p = "config_empty ''acme'' ''k'' Invoice Active"
  let ?st = "row_to_statement (draft_row gregorian 0 sample_draft (MicroUsd 2450) 1)"
  have "get_statement_by_id None 1 (resolve_scope (context_new ?p) ''other'') issued_db = Inr (Some ?st)"
    by (simp add: get_statement_by_id_def db_result_def key_context_scope issued_statements)
      (simp add: draft_row_def config_empty_def config_new_def sample_draft_def)
  moreover from key_scope_isolates [of None 1 ?p "''other''" issued_db ?st] this
  have "st_consumer_id ?st = ''acme''" by (simp add: config_empty_def config_new_def)
  ultimately show ?thesis ..
qed

section \<open>Suspension\<close>

text \<open>The deadlines the store writes are formatted instants.\<close>

definition due_texts :: "time_crate \<Rightarrow> db \<Rightarrow> bool" where
  "due_texts T s \<longleftrightarrow>
     (\<forall>r \<in> set (daily_statements s). \<forall>t. st_due_at r = Some t \<longrightarrow>
        (\<exists>d. four_digit_instant d \<and> t = format_ts T d))"

text \<open>The specification: an invoice that can suspend and whose deadline has passed.\<close>

definition overdue_at :: "time_crate \<Rightarrow> instant \<Rightarrow> string \<Rightarrow> statement_row \<Rightarrow> instant \<Rightarrow> bool" where
  "overdue_at T now c r due \<longleftrightarrow>
     st_consumer_id r = c \<and> can_suspend r \<and> four_digit_instant due
     \<and> st_due_at r = Some (format_ts T due) \<and> due \<le> now"

definition derived_status :: "time_crate \<Rightarrow> instant \<Rightarrow> string \<Rightarrow> string \<Rightarrow> db \<Rightarrow> billing_error + service_status" where
  "derived_status T now mode c s =
     res_bind (overdue_statements T now None (Some c) s)
       (\<lambda>sts. Inr (status_for T mode now (map to_overdue_row sts)))"

lemma find_sorted_first:
  "sorted (map k xs) \<Longrightarrow> find P xs = Some x \<Longrightarrow> y \<in> set xs \<Longrightarrow> P y \<Longrightarrow> k x \<le> k y"
  by (induction xs) (auto split: if_splits)

lemma derived_status_eq:
  "derived_status T now ''invoice'' c s =
     Inr (case find (\<lambda>r. row_suspends T now (to_overdue_row r))
             (sort_key (\<lambda>r. (st_due_at r, st_id r)) (statements_where (overdue_where (format_ts T now) (Some c)) s)) of
            None \<Rightarrow> Active
          | Some r \<Rightarrow> the (overdue_verdict T now (to_overdue_row r)))"
  by (simp add: derived_status_def overdue_statements_def db_result_def status_for_first o_def
      find_map_row split: option.split)

lemma overdue_candidate_iff:
  assumes "time_laws T" "four_digit_instant now" "billing_invariant s" "due_texts T s"
    and "r \<in> set (daily_statements s)"
  shows "overdue_where (format_ts T now) (Some c) r \<and> row_suspends T now (to_overdue_row r)
    \<longleftrightarrow> (\<exists>due. overdue_at T now c r due)"
proof (cases "st_due_at r")
  case None
  then show ?thesis by (simp add: overdue_where_def overdue_at_def)
next
  case (Some t)
  then obtain d where d: "four_digit_instant d" "t = format_ts T d"
    using assms(4,5) by (auto simp: due_texts_def)
  have le: "format_ts T e \<le> format_ts T now \<longleftrightarrow> e \<le> now" if "four_digit_instant e" for e
    using time_laws.format_ts_le_iff [OF assms(1) that assms(2)] .
  have parse: "parse_ts T t = Some d"
    using time_laws.parse_ts_format_ts [OF assms(1) d(1)] d(2) by simp
  have inj: "e = d" if "four_digit_instant e" "format_ts T e = format_ts T d" for e
    using time_laws.format_ts_le_iff [OF assms(1) that(1) d(1)]
      time_laws.format_ts_le_iff [OF assms(1) d(1) that(1)] that(2) by simp
  have chk: "statement_check r" using assms(3,5) by (simp add: billing_invariant_def list_all_iff)
  have "can_suspend r \<longleftrightarrow> unpaid_invoice r \<and> st_incomplete r = 0 \<and> 0 < st_total r"
    using chk Some
    by (auto simp: can_suspend_def is_outstanding_def billing_mode_value_def mode_parse_def is_paid_def
        has_incomplete_usage_def unpaid_invoice_def statement_check_def)
  moreover have "row_suspends T now (to_overdue_row r)
      \<longleftrightarrow> st_incomplete r = 0 \<and> 0 < st_total r \<and> d \<le> now"
    using Some parse by (simp add: row_suspends_def to_overdue_row_def)
  moreover have "overdue_where (format_ts T now) (Some c) r
      \<longleftrightarrow> unpaid_invoice r \<and> d \<le> now \<and> st_consumer_id r = c"
    using Some d le [OF d(1)] by (simp add: overdue_where_def)
  moreover have "(\<exists>due. overdue_at T now c r due) \<longleftrightarrow> st_consumer_id r = c \<and> can_suspend r \<and> d \<le> now"
  proof
    assume "\<exists>due. overdue_at T now c r due"
    then obtain e where e: "overdue_at T now c r e" by blast
    then have "four_digit_instant e" "st_due_at r = Some (format_ts T e)"
      unfolding overdue_at_def by blast+
    then have "e = d" using inj Some d(2) by (metis option.inject)
    then show "st_consumer_id r = c \<and> can_suspend r \<and> d \<le> now"
      using e unfolding overdue_at_def by blast
  next
    assume "st_consumer_id r = c \<and> can_suspend r \<and> d \<le> now"
    then have "overdue_at T now c r d" using Some d by (simp add: overdue_at_def)
    then show "\<exists>due. overdue_at T now c r due" by blast
  qed
  ultimately show ?thesis by blast
qed

text \<open>
  C22: the derived service status is the definition of overdue. A partner is suspended exactly when
  its mode is invoice and some statement of its own can suspend (an unpaid invoice, complete, with an
  amount and a deadline) and is past its deadline; the bill named as the reason is one of these, and
  none of them was due earlier.
\<close>

theorem suspended_iff_overdue_invoice:
  assumes "time_laws T" "four_digit_instant now" "billing_invariant s" "due_texts T s"
  shows "\<exists>status. derived_status T now mode c s = Inr status
    \<and> (status_is_suspended status \<longleftrightarrow>
        mode = ''invoice'' \<and> (\<exists>r \<in> set (daily_statements s). \<exists>due. overdue_at T now c r due))
    \<and> (\<forall>od. status = Suspended (InvoiceOverdue od) \<longrightarrow>
        (\<exists>r \<in> set (daily_statements s). overdue_at T now c r (od_due_at od) \<and> od_id od = st_id r)
        \<and> (\<forall>r \<in> set (daily_statements s). \<forall>due. overdue_at T now c r due \<longrightarrow> od_due_at od \<le> due))"
proof (cases "mode = ''invoice''")
  case False
  then show ?thesis
    by (simp add: derived_status_def overdue_statements_def db_result_def status_for_reconciliation
        status_is_suspended_def status_is_active_def)
next
  case inv: True
  let ?P = "\<lambda>r. row_suspends T now (to_overdue_row r)"
  let ?k = "\<lambda>r. (st_due_at r, st_id r)"
  let ?rows = "sort_key ?k (statements_where (overdue_where (format_ts T now) (Some c)) s)"
  note cand = overdue_candidate_iff [OF assms]
  have mem: "r \<in> set ?rows \<and> ?P r \<longleftrightarrow> r \<in> set (daily_statements s) \<and> (\<exists>due. overdue_at T now c r due)" for r
    using cand by (auto simp: statements_where_def)
  show ?thesis
  proof (cases "find ?P ?rows")
    case None
    then have "\<not> (\<exists>r \<in> set (daily_statements s). \<exists>due. overdue_at T now c r due)"
      using mem by (auto simp: find_None_iff)
    then show ?thesis
      using inv None derived_status_eq [of T now c s]
      by (simp add: status_is_suspended_def status_is_active_def)
  next
    case (Some r)
    have r: "r \<in> set ?rows" "?P r" using find_SomeD [OF Some] by blast+
    obtain due where due: "parse_ts T (or_due_at (to_overdue_row r)) = Some due" "due \<le> now"
        "overdue_verdict T now (to_overdue_row r) = Some (Suspended (InvoiceOverdue
           \<lparr>od_id = st_id r, od_billing_date = st_billing_date r, od_due_at = due,
            od_amount = MicroUsd (st_total r)\<rparr>))"
      using row_suspends_verdict [OF r(2)] by (auto simp: to_overdue_row_def)
    obtain d where d: "r \<in> set (daily_statements s)" "overdue_at T now c r d" using mem r by blast
    have "due = d"
      using due(1) d(2) time_laws.parse_ts_format_ts [OF assms(1), of d]
      by (auto simp: overdue_at_def to_overdue_row_def)
    have "d \<le> e" if "q \<in> set (daily_statements s)" "overdue_at T now c q e" for q e
    proof -
      have "?k r \<le> ?k q"
        using find_sorted_first [of ?k ?rows ?P r q] Some mem that by auto
      then have "format_ts T d \<le> format_ts T e"
        using d(2) that(2) by (auto simp: overdue_at_def less_eq_prod_def)
      then show ?thesis
        using time_laws.format_ts_le_iff [OF assms(1)] d(2) that(2) by (simp add: overdue_at_def)
    qed
    then show ?thesis
      using inv Some derived_status_eq [of T now c s] due(3) d \<open>due = d\<close>
      by (auto simp: status_is_suspended_def status_is_active_def)
  qed
qed

lemma four_digit_epoch [simp]: "four_digit_instant 0" "four_digit_instant 5"
  by (simp_all add: four_digit_instant_def four_digit_day_def NANOS_PER_DAY_def)

lemma issued_due_texts: "due_texts gregorian issued_db"
  unfolding due_texts_def issued_statements
  by (auto simp: draft_row_def sample_draft_def intro: exI [of _ 0])

theorem suspended_iff_overdue_invoice_witness:
  "\<exists>status. derived_status gregorian 5 ''invoice'' ''acme'' issued_db = Inr status
     \<and> status_is_suspended status"
proof -
  let ?r = "draft_row gregorian 0 sample_draft (MicroUsd 2450) 1"
  have "overdue_at gregorian 5 ''acme'' ?r 0"
    by (simp add: overdue_at_def draft_row_def sample_draft_def can_suspend_def is_outstanding_def
        billing_mode_value_def mode_parse_def is_paid_def has_incomplete_usage_def)
  then have "\<exists>r \<in> set (daily_statements issued_db). \<exists>due. overdue_at gregorian 5 ''acme'' r due"
    unfolding issued_statements by auto
  then show ?thesis
    using suspended_iff_overdue_invoice [OF greg.time_laws_axioms four_digit_epoch(2)
        issued_db_invariant issued_due_texts, of "''invoice''" "''acme''"]
    by blast
qed

section \<open>Partners and their models\<close>

lemma find_partner_map:
  "(\<And>q. pr_consumer_id (u q) = pr_consumer_id q) \<Longrightarrow>
   find (\<lambda>r. pr_consumer_id r = i) (map u xs) = map_option u (find (\<lambda>r. pr_consumer_id r = i) xs)"
  by (induction xs) auto

text \<open>
  a patch changes the fields it names and nothing else. An update that succeeds returns the stored
  partner with exactly the fields of the patch replaced; every other partner, every price and every
  statement stay as they were.
\<close>

theorem patch_changes_named_fields:
  assumes "update_partner T now wflt rflt i patch s = (Inr p, s')"
  shows "\<exists>r. find_partner i s = Some r
    \<and> p = row_to_partner (if patch = patch_default then r else patch_row T now patch r)
    \<and> (\<forall>j. j \<noteq> i \<longrightarrow> find_partner j s' = find_partner j s)
    \<and> partner_models s' = partner_models s \<and> daily_statements s' = daily_statements s"
proof (cases "patch = patch_default")
  case True
  then have "s' = s" "require_partner rflt i s = Inr p"
    using assms by (auto simp: update_partner_def patch_default_def)
  then show ?thesis
    using True
    by (cases rflt) (auto simp: require_partner_def get_partner_def db_result_def res_bind_Inr_iff
        split: option.splits)
next
  case False
  let ?u = "\<lambda>r. if pr_consumer_id r = i then patch_row T now patch r else r"
  have u: "pr_consumer_id (?u q) = pr_consumer_id q" for q by (simp add: patch_row_def)
  obtain res t where t: "pool_write wflt
      (update_partners (\<lambda>r. pr_consumer_id r = i) (patch_row T now patch)) s = (res, t)" by fastforce
  with assms False obtain n where n: "res = Inr n" "t = s'" "require_partner rflt i s' = Inr p"
    by (cases res) (auto simp: update_partner_def split: if_splits)
  then have s': "s' = s\<lparr>partners := map ?u (partners s)\<rparr>"
    using t by (auto simp: pool_write_Inr update_partners_def split: if_splits)
  have f: "find_partner j s' = map_option ?u (find_partner j s)" for j
    using find_partner_map [of ?u j "partners s", OF u] by (simp add: find_partner_def s')
  have same: "map_option ?u (find_partner j s) = find_partner j s" if "j \<noteq> i" for j
  proof -
    have "pr_consumer_id q = j" if "find_partner j s = Some q" for q
      using find_SomeD [OF that [unfolded find_partner_def]] by simp
    with that show ?thesis by (cases "find_partner j s") (auto simp del: find_partner_None)
  qed
  obtain q where q: "find_partner i s' = Some q" "p = row_to_partner q"
    using n(3) by (cases rflt) (auto simp: require_partner_def get_partner_def db_result_def
        res_bind_Inr_iff split: option.splits)
  then obtain r where "find_partner i s = Some r" "q = ?u r"
    using f by (cases "find_partner i s") (auto simp del: find_partner_None)
  moreover have "pr_consumer_id r = i"
    using calculation(1) unfolding find_partner_def by (metis (mono_tags, lifting) find_SomeD)
  ultimately show ?thesis using q(2) False f same by (simp add: s')
qed

theorem patch_changes_named_fields_witness:
  "\<exists>p s'. update_partner gregorian 3 None None ''acme'' (patch_default\<lparr>pp_payment_terms := Some 60\<rparr>) sample_db
     = (Inr p, s') \<and> p_payment_terms p = 60 \<and> p_name p = ''Acme''"
proof -
  let ?patch = "patch_default\<lparr>pp_payment_terms := Some 60\<rparr>"
  have "\<exists>p s'. update_partner gregorian 3 None None ''acme'' ?patch sample_db = (Inr p, s')"
    by (simp add: update_partner_def patch_default_def pool_write_def update_partners_def sample_db_def
        empty_db_def sample_partner_def patch_row_def partner_row_check_def require_partner_def
        get_partner_def db_result_def find_partner_def)
  then obtain p s' where u: "update_partner gregorian 3 None None ''acme'' ?patch sample_db = (Inr p, s')"
    by blast
  from patch_changes_named_fields [OF u] have "p = row_to_partner (patch_row gregorian 3 ?patch sample_partner)"
    by (auto simp: find_partner_def sample_db_def sample_partner_def patch_default_def)
  then have "p_payment_terms p = 60" "p_name p = ''Acme''"
    by (simp_all add: row_to_partner_def patch_row_def patch_default_def sample_partner_def)
  with u show ?thesis by blast
qed

lemma sort_key_map: "map f (sort_key (\<lambda>x. k (f x)) xs) = sort_key k (map f xs)"
proof -
  have i: "map f (insort_key (\<lambda>x. k (f x)) y ys) = insort_key k (f y) (map f ys)" for y ys
    by (induction ys) simp_all
  show ?thesis by (induction xs) (simp_all add: i)
qed

lemma insert_models_rows:
  "insert_models rs s = Inr s' \<Longrightarrow> partner_models s' = partner_models s @ rs"
  by (induction rs arbitrary: s) (auto simp: res_bind_Inr_iff insert_model_def split: if_splits)

lemma model_row_back [simp]: "row_to_model (model_to_row T now i m) = m"
  by (simp add: row_to_model_def model_to_row_def as_tuple_def)

lemma model_row_fields [simp]:
  "mr_consumer_id (model_to_row T now i m) = i" "mr_model (model_to_row T now i m) = mp_model m"
  by (simp_all add: model_to_row_def as_tuple_def)

text \<open>
  replacing a price list is atomic and exact. When it succeeds, reading the partner's models
  returns exactly the given list, with the names verbatim, in name order; when it fails the tables are
  unchanged; either way no other partner's models change.
\<close>

theorem replace_models_exact:
  assumes "replace_models T now wflt i models s = (res, s')"
  shows "(res = Inr () \<longrightarrow> store_models None i s' = Inr (sort_key mp_model models))
    \<and> (\<forall>e. res = Inl e \<longrightarrow> s' = s)
    \<and> (\<forall>j. j \<noteq> i \<longrightarrow> store_models None j s' = store_models None j s)"
proof (cases "validate_models [] models")
  case (Inl e)
  then show ?thesis using assms by (auto simp: replace_models_def)
next
  case (Inr u)
  let ?rows = "map (model_to_row T now i) models"
  obtain r t where t: "pool_write wflt (replace_models_tx T now i models) s = (r, t)" by fastforce
  show ?thesis
  proof (cases r)
    case (Inl e)
    then have "t = s" using t pool_write_Inl by blast
    then show ?thesis using assms Inr t Inl by (auto simp: replace_models_def split: if_splits)
  next
    case (Inr x)
    then have res: "res = Inr ()" "s' = t"
      using assms \<open>validate_models [] models = Inr u\<close> t by (auto simp: replace_models_def)
    have "replace_models_tx T now i models s = Inr (x, t)"
      using t Inr by (simp add: pool_write_Inr)
    then have m: "partner_models s' = filter (\<lambda>m. mr_consumer_id m \<noteq> i) (partner_models s) @ ?rows"
      using insert_models_rows res(2) by (fastforce simp: replace_models_tx_def res_bind_Inr_iff)
    have "store_models None i s' = Inr (map row_to_model (sort_key mr_model ?rows))"
      by (simp add: store_models_def db_result_def m filter_empty_conv)
    also have "map row_to_model (sort_key mr_model ?rows) = sort_key mp_model models"
    proof -
      have "sort_key mr_model ?rows = map (model_to_row T now i) (sort_key mp_model models)"
        using sort_key_map [of "model_to_row T now i" mr_model models] by simp
      then show ?thesis by (simp add: o_def)
    qed
    finally have "store_models None i s' = Inr (sort_key mp_model models)" .
    moreover have "store_models None j s' = store_models None j s" if "j \<noteq> i" for j
    proof -
      have "filter (\<lambda>m. mr_consumer_id m = j) (filter (\<lambda>m. mr_consumer_id m \<noteq> i) (partner_models s))
          = filter (\<lambda>m. mr_consumer_id m = j) (partner_models s)"
        using that by (auto intro: filter_cong)
      then show ?thesis using that by (simp add: store_models_def db_result_def m filter_empty_conv o_def)
    qed
    ultimately show ?thesis using res by simp
  qed
qed

definition sample_models :: "model_price list" where
  "sample_models = [\<lparr>mp_model = ''b'', mp_prices = sample_prices\<rparr>, \<lparr>mp_model = ''a'', mp_prices = sample_prices\<rparr>]"

theorem replace_models_exact_witness:
  "\<exists>s'. replace_models gregorian 3 None ''acme'' sample_models sample_db = (Inr (), s')
     \<and> store_models None ''acme'' s' = Inr (rev sample_models)"
proof -
  have v: "trim ''a'' = ''a''" "trim ''b'' = ''b''"
    by (subst trim_visible; simp add: visible_def)+
  have "\<exists>s'. replace_models gregorian 3 None ''acme'' sample_models sample_db = (Inr (), s')"
    by (simp add: replace_models_def sample_models_def v pool_write_def replace_models_tx_def
        insert_model_def model_to_row_def as_tuple_def sample_prices_def model_row_check_def
        sql_trim_def sample_db_def empty_db_def has_partner_def sample_partner_def)
  then obtain s' where r: "replace_models gregorian 3 None ''acme'' sample_models sample_db = (Inr (), s')"
    by blast
  moreover have "sort_key mp_model sample_models = rev sample_models"
    by (simp add: sample_models_def less_eq_char_def)
  ultimately show ?thesis using replace_models_exact [OF r] by auto
qed

text \<open>
  a partner with statements cannot be deleted. The delete fails and changes nothing; the caller
  gets the database's foreign-key error, not a refusal of its own.
\<close>

theorem delete_refused_with_statements:
  assumes "find_partner i s \<noteq> None" "r \<in> set (daily_statements s)" "st_consumer_id r = i"
  shows "delete_partner None i s = (Inl (Database (SqliteFailure SQLITE_CONSTRAINT_FOREIGNKEY)), s)"
proof -
  have "filter (\<lambda>r. pr_consumer_id r = i) (partners s) \<noteq> []"
    using assms(1) by (auto simp: has_partner_def filter_empty_conv)
  moreover have "list_ex (\<lambda>st. st_consumer_id st = i) (daily_statements s)"
    using assms(2,3) by (auto simp: list_ex_iff)
  ultimately show ?thesis
    by (simp add: delete_partner_def pool_write_def delete_partner_rows_def)
qed

theorem delete_refused_with_statements_witness:
  "delete_partner None ''acme'' issued_db
     = (Inl (Database (SqliteFailure SQLITE_CONSTRAINT_FOREIGNKEY)), issued_db)"
proof -
  have s: "st_consumer_id (draft_row gregorian 0 sample_draft (MicroUsd 2450) 1) = ''acme''"
    by (simp add: draft_row_def sample_draft_def)
  have "has_partner ''acme'' issued_db"
    using issued_db_invariant s unfolding billing_invariant_def issued_statements by simp
  then show ?thesis
    by (intro delete_refused_with_statements [OF _ _ s]) (simp_all add: issued_statements)
qed

section \<open>Email bookkeeping\<close>

text \<open>
  A failed attempt recorded after a delivery does not un-send, but it does rewrite the error and the
  retry time of the sent statement: the update has no guard on \<open>email_sent_at\<close>.
\<close>

lemma failed_attempt_after_delivery:
  assumes "st_email_sent_at r = Some t"
  shows "st_email_sent_at (attempt_row T now out r) = Some t"
    and "st_email_last_error (attempt_row T now (EmailFailed err retry) r) = Some err"
    and "st_email_next_retry_at (attempt_row T now (EmailFailed err retry) r) = Some (format_ts T retry)"
  using assms by (simp_all add: attempt_row_def split: email_outcome.split)

end
