(* ===== verification/Ledger_Types.thy ===== *)
theory Ledger_Types
  imports Pricing Timefmt
begin

text \<open>
  \<^verbatim>\<open>src/src/ledger/types.rs\<close>: endpoints, the request lifecycle, token usage and the request
  record the proxy hands to the ledger. Unsigned fields are \<^typ>\<open>int\<close> values in the range of
  their type.
\<close>

section \<open>Enumerations and their stored names\<close>

datatype endpoint = ChatCompletions | Responses | Models

fun endpoint_as_str :: "endpoint \<Rightarrow> string" where
  "endpoint_as_str ChatCompletions = ''chat_completions''"
| "endpoint_as_str Responses = ''responses''"
| "endpoint_as_str Models = ''models''"

definition endpoint_from_path :: "string \<Rightarrow> endpoint option" where
  "endpoint_from_path target =
     (let path = takeWhile (\<lambda>c. c \<noteq> CHR ''?'' \<and> c \<noteq> CHR ''#'') target
      in if path = ''/v1/chat/completions'' then Some ChatCompletions
         else if path = ''/v1/responses'' then Some Responses
         else if path = ''/v1/models'' then Some Models
         else None)"

datatype request_status = InFlight | Completed | Failed | Interrupted

fun request_status_as_str :: "request_status \<Rightarrow> string" where
  "request_status_as_str InFlight = ''in_flight''"
| "request_status_as_str Completed = ''completed''"
| "request_status_as_str Failed = ''failed''"
| "request_status_as_str Interrupted = ''interrupted''"

fun status_is_terminal :: "request_status \<Rightarrow> bool" where
  "status_is_terminal InFlight = False"
| "status_is_terminal _ = True"

definition from_str_lossy :: "string \<Rightarrow> request_status" where
  "from_str_lossy s =
     (if s = ''in_flight'' then InFlight
      else if s = ''completed'' then Completed
      else if s = ''failed'' then Failed
      else Interrupted)"

datatype usage_status = Available | Unavailable | Partial

fun usage_status_as_str :: "usage_status \<Rightarrow> string" where
  "usage_status_as_str Available = ''available''"
| "usage_status_as_str Unavailable = ''unavailable''"
| "usage_status_as_str Partial = ''partial''"

section \<open>Token usage\<close>

record token_usage =
  tu_input :: "u64 option"
  tu_output :: "u64 option"
  tu_cached :: "u64 option"

definition usage_new :: "u64 option \<Rightarrow> u64 option \<Rightarrow> u64 option \<Rightarrow> token_usage" where
  "usage_new i out c = \<lparr>tu_input = i, tu_output = out, tu_cached = c\<rparr>"

definition usage_default :: token_usage where
  "usage_default = usage_new None None None"

definition usage_status_of :: "token_usage \<Rightarrow> usage_status" where
  "usage_status_of u =
     (if tu_input u \<noteq> None \<and> tu_output u \<noteq> None then Available
      else if tu_input u \<noteq> None \<or> tu_output u \<noteq> None then Partial
      else Unavailable)"

text \<open>The addition is unchecked: a release build wraps at 64 bits.\<close>

definition usage_total :: "token_usage \<Rightarrow> u64 option" where
  "usage_total u =
     (case (tu_input u, tu_output u) of
        (Some i, Some out) \<Rightarrow> Some ((i + out) mod 2 ^ 64)
      | _ \<Rightarrow> None)"

section \<open>The request record\<close>

record request_record =
  rr_request_id :: string
  rr_created_at :: instant
  rr_consumer_id :: string
  rr_model :: string
  rr_endpoint :: endpoint
  rr_streaming :: bool
  rr_http_status :: "int option"
  rr_request_status :: request_status
  rr_usage :: token_usage
  rr_ttft_ms :: "u64 option"
  rr_duration_ms :: u64
  rr_error_message :: "string option"
  rr_error_body :: "string option"
  rr_pricing :: "pricing_snapshot option"

text \<open>\<open>RequestRecord::new\<close>; \<open>now\<close> is the reading of the clock.\<close>

definition record_new ::
  "instant \<Rightarrow> string \<Rightarrow> string \<Rightarrow> string \<Rightarrow> endpoint \<Rightarrow> bool \<Rightarrow> request_record" where
  "record_new now request_id consumer_id model ep streaming =
     \<lparr>rr_request_id = request_id, rr_created_at = now, rr_consumer_id = consumer_id,
      rr_model = model, rr_endpoint = ep, rr_streaming = streaming, rr_http_status = None,
      rr_request_status = InFlight, rr_usage = usage_default, rr_ttft_ms = None,
      rr_duration_ms = 0, rr_error_message = None, rr_error_body = None, rr_pricing = None\<rparr>"

definition with_pricing :: "pricing_snapshot \<Rightarrow> request_record \<Rightarrow> request_record" where
  "with_pricing p r = r\<lparr>rr_pricing := Some p\<rparr>"

definition record_complete ::
  "int \<Rightarrow> token_usage \<Rightarrow> u64 \<Rightarrow> request_record \<Rightarrow> request_record" where
  "record_complete http u duration r =
     r\<lparr>rr_http_status := Some http, rr_request_status := Completed, rr_usage := u,
       rr_duration_ms := duration\<rparr>"

definition record_fail ::
  "int option \<Rightarrow> string \<Rightarrow> u64 \<Rightarrow> request_record \<Rightarrow> request_record" where
  "record_fail http err duration r =
     r\<lparr>rr_http_status := http, rr_request_status := Failed, rr_error_message := Some err,
       rr_duration_ms := duration\<rparr>"

definition record_interrupt :: "string \<Rightarrow> u64 \<Rightarrow> request_record \<Rightarrow> request_record" where
  "record_interrupt reason duration r =
     (let r' = r\<lparr>rr_request_status := Interrupted, rr_duration_ms := duration\<rparr>
      in if rr_error_message r' = None then r'\<lparr>rr_error_message := Some reason\<rparr> else r')"

definition record_is_terminal :: "request_record \<Rightarrow> bool" where
  "record_is_terminal r \<longleftrightarrow> status_is_terminal (rr_request_status r)"

definition set_ttft :: "u64 \<Rightarrow> request_record \<Rightarrow> request_record" where
  "set_ttft t r = r\<lparr>rr_ttft_ms := Some t\<rparr>"

definition record_usage_status :: "request_record \<Rightarrow> usage_status" where
  "record_usage_status r = usage_status_of (rr_usage r)"

definition set_usage :: "token_usage \<Rightarrow> request_record \<Rightarrow> request_record" where
  "set_usage u r = r\<lparr>rr_usage := u\<rparr>"

section \<open>Facts\<close>

lemma from_str_lossy_as_str [simp]: "from_str_lossy (request_status_as_str st) = st"
  by (cases st) (simp_all add: from_str_lossy_def)

lemma request_status_as_str_inject [simp]:
  "request_status_as_str a = request_status_as_str b \<longleftrightarrow> a = b"
  by (metis from_str_lossy_as_str)

lemma endpoint_as_str_inject [simp]: "endpoint_as_str a = endpoint_as_str b \<longleftrightarrow> a = b"
  by (cases a; cases b) simp_all

lemma status_is_terminal_iff: "status_is_terminal st \<longleftrightarrow> st \<noteq> InFlight"
  by (cases st) simp_all

lemma record_lifecycle_terminal:
  "record_is_terminal (record_complete h u d r)"
  "record_is_terminal (record_fail h' e d r)"
  "record_is_terminal (record_interrupt reason d r)"
  "\<not> record_is_terminal (record_new now i c m ep s)"
  by (simp_all add: record_is_terminal_def record_complete_def record_fail_def
      record_interrupt_def record_new_def Let_def)

end
