(* ===== verification/Rollup.thy ===== *)
theory Rollup
  imports Ledger_Types Schema "HOL-Library.Multiset"
begin

text \<open>
  \<^verbatim>\<open>src/src/ledger/rollup.rs\<close>: the hourly rollup as retractable contributions. The locale
  \<open>rollup_store\<close> states the contract of the two operations over the multiset of contributions
  a table reflects; it is interpreted on the code's \<open>add\<close> and \<open>retract\<close> below.
\<close>

section \<open>Arithmetic of SQLite\<close>

text \<open>
  \<open>total + ?\<close> and \<open>total - ?\<close> in an \<open>UPDATE\<close>. Two integers are added as integers while the result fits
  64 bits; otherwise both operands become doubles and the column keeps a \<open>REAL\<close>, for \<open>usage_hourly\<close>
  is not a \<open>STRICT\<close> table. A stored total is represented by its value: one inside the 64-bit range is
  an \<open>INTEGER\<close> (the column's affinity turns a \<open>REAL\<close> of that range back into one), one outside it is a
  \<open>REAL\<close>, always a whole number at that size. \<open>nearest_double\<close> rounds half to even to 53 bits.
\<close>

fun bit_length :: "nat \<Rightarrow> nat" where
  "bit_length n = (if n = 0 then 0 else Suc (bit_length (n div 2)))"

declare bit_length.simps [simp del]

lemma bit_length_unique: "2 ^ k \<le> n \<Longrightarrow> n < 2 ^ Suc k \<Longrightarrow> bit_length n = Suc k"
proof (induction k arbitrary: n)
  case 0
  then have "n = 1" by simp
  then show ?case by (simp add: bit_length.simps [of "Suc 0"] bit_length.simps [of 0])
next
  case (Suc k)
  then have "bit_length (n div 2) = Suc k" by (intro Suc.IH) auto
  with Suc.prems show ?case by (auto simp: bit_length.simps [of n])
qed

definition nearest_double :: "int \<Rightarrow> int" where
  "nearest_double x =
     (let u = 2 ^ (bit_length (nat \<bar>x\<bar>) - 53);
          q = \<bar>x\<bar> div u;
          r = \<bar>x\<bar> mod u;
          q' = (if u < 2 * r \<or> (u = 2 * r \<and> odd q) then q + 1 else q)
      in sgn x * (q' * u))"

definition sql_add :: "int \<Rightarrow> int \<Rightarrow> int" where
  "sql_add a b =
     (if in_i64 a \<and> in_i64 b \<and> in_i64 (a + b) then a + b
      else if b = 0 then a
      else nearest_double (nearest_double a + nearest_double b))"

definition sql_sub :: "int \<Rightarrow> int \<Rightarrow> int" where
  "sql_sub a b =
     (if in_i64 a \<and> in_i64 b \<and> in_i64 (a - b) then a - b
      else if b = 0 then a
      else nearest_double (nearest_double a - nearest_double b))"

lemma sql_exact [simp]:
  "0 \<le> a \<Longrightarrow> 0 \<le> b \<Longrightarrow> a + b < 2 ^ 63 \<Longrightarrow> sql_add a b = a + b"
  "0 \<le> a \<Longrightarrow> 0 \<le> b \<Longrightarrow> a + b < 2 ^ 63 \<Longrightarrow> sql_sub (a + b) b = a"
  "sql_add a 0 = a"
  by (auto simp: sql_add_def sql_sub_def in_i64_def)

section \<open>Metrics form a group\<close>

text \<open>The exact sums, which the rollup is meant to hold.\<close>

definition metrics_add :: "metrics \<Rightarrow> metrics \<Rightarrow> metrics" where
  "metrics_add a b =
     Metrics (m_input_tokens a + m_input_tokens b) (m_output_tokens a + m_output_tokens b)
       (m_cached_tokens a + m_cached_tokens b) (m_duration_ms a + m_duration_ms b)
       (m_ttft_ms a + m_ttft_ms b) (m_ttft_count a + m_ttft_count b)
       (m_success_count a + m_success_count b) (m_failure_count a + m_failure_count b)"

definition metrics_neg :: "metrics \<Rightarrow> metrics" where
  "metrics_neg a =
     Metrics (- m_input_tokens a) (- m_output_tokens a) (- m_cached_tokens a) (- m_duration_ms a)
       (- m_ttft_ms a) (- m_ttft_count a) (- m_success_count a) (- m_failure_count a)"

definition metrics_default :: metrics where
  "metrics_default = Metrics 0 0 0 0 0 0 0 0"

instantiation metrics :: ab_group_add
begin

definition zero_metrics :: metrics where "zero_metrics = metrics_default"
definition plus_metrics :: "metrics \<Rightarrow> metrics \<Rightarrow> metrics" where "plus_metrics = metrics_add"
definition uminus_metrics :: "metrics \<Rightarrow> metrics" where "uminus_metrics = metrics_neg"
definition minus_metrics :: "metrics \<Rightarrow> metrics \<Rightarrow> metrics" where
  "minus_metrics a b = metrics_add a (metrics_neg b)"

instance
  by standard
    (simp_all add: zero_metrics_def plus_metrics_def uminus_metrics_def minus_metrics_def
      metrics_add_def metrics_neg_def metrics_default_def)

end

section \<open>Contributions\<close>

record contribution =
  cb_key :: bucket_key
  cb_metrics :: metrics

definition from_record :: "time_crate \<Rightarrow> request_record \<Rightarrow> bucket_key" where
  "from_record T r =
     \<lparr>bk_hour = format_hour T (rr_created_at r), bk_consumer_id = rr_consumer_id r,
      bk_model = rr_model r, bk_endpoint = endpoint_as_str (rr_endpoint r),
      bk_streaming = of_bool (rr_streaming r)\<rparr>"

text \<open>\<open>unwrap_or(0) as i64\<close>.\<close>

definition known_tokens :: "u64 option \<Rightarrow> i64" where
  "known_tokens v = wrap_i64 (case v of None \<Rightarrow> 0 | Some n \<Rightarrow> n)"

definition terminal :: "request_record \<Rightarrow> bucket_key \<Rightarrow> contribution" where
  "terminal r key =
     \<lparr>cb_key = key,
      cb_metrics = Metrics (known_tokens (tu_input (rr_usage r)))
        (known_tokens (tu_output (rr_usage r))) (known_tokens (tu_cached (rr_usage r)))
        (wrap_i64 (rr_duration_ms r)) (known_tokens (rr_ttft_ms r))
        (of_bool (rr_ttft_ms r \<noteq> None)) (of_bool (rr_request_status r = Completed))
        (of_bool (rr_request_status r = Failed \<or> rr_request_status r = Interrupted))\<rparr>"

definition interrupted :: "i64 \<Rightarrow> metrics" where
  "interrupted duration = Metrics 0 0 0 duration 0 0 0 1"

text \<open>
  The \<open>SET\<close> lists of the two updates. The three counters grow by at most one with a raw row, whose
  \<open>AUTOINCREMENT\<close> id stays below \<open>2 ^ 63\<close>, so they are added exactly.
\<close>

definition totals_add :: "metrics \<Rightarrow> metrics \<Rightarrow> metrics" where
  "totals_add a b =
     Metrics (sql_add (m_input_tokens a) (m_input_tokens b))
       (sql_add (m_output_tokens a) (m_output_tokens b))
       (sql_add (m_cached_tokens a) (m_cached_tokens b))
       (sql_add (m_duration_ms a) (m_duration_ms b)) (sql_add (m_ttft_ms a) (m_ttft_ms b))
       (m_ttft_count a + m_ttft_count b)
       (m_success_count a + m_success_count b) (m_failure_count a + m_failure_count b)"

definition totals_sub :: "metrics \<Rightarrow> metrics \<Rightarrow> metrics" where
  "totals_sub a b =
     Metrics (sql_sub (m_input_tokens a) (m_input_tokens b))
       (sql_sub (m_output_tokens a) (m_output_tokens b))
       (sql_sub (m_cached_tokens a) (m_cached_tokens b))
       (sql_sub (m_duration_ms a) (m_duration_ms b)) (sql_sub (m_ttft_ms a) (m_ttft_ms b))
       (m_ttft_count a - m_ttft_count b)
       (m_success_count a - m_success_count b) (m_failure_count a - m_failure_count b)"

text \<open>\<open>INSERT \<dots> ON CONFLICT DO UPDATE\<close> on \<open>usage_hourly\<close>.\<close>

definition contribution_add :: "contribution \<Rightarrow> hourly_table \<Rightarrow> hourly_table" where
  "contribution_add c h =
     (case h (cb_key c) of
        None \<Rightarrow> h(cb_key c \<mapsto> HourlyRow 1 (cb_metrics c))
      | Some row \<Rightarrow>
          h(cb_key c \<mapsto> HourlyRow (hr_request_count row + 1) (totals_add (hr_totals row) (cb_metrics c))))"

text \<open>\<open>UPDATE\<close> the bucket, then \<open>DELETE\<close> it when its count is no longer positive.\<close>

definition contribution_retract :: "contribution \<Rightarrow> hourly_table \<Rightarrow> hourly_table" where
  "contribution_retract c h =
     (let h' = (case h (cb_key c) of
                  None \<Rightarrow> h
                | Some row \<Rightarrow>
                    h(cb_key c \<mapsto> HourlyRow (hr_request_count row - 1)
                                      (totals_sub (hr_totals row) (cb_metrics c))))
      in case h' (cb_key c) of
           None \<Rightarrow> h'
         | Some row \<Rightarrow> if hr_request_count row \<le> 0 then h'(cb_key c := None) else h')"

section \<open>A stored row, as the rollup sees it\<close>

record stored_row =
  sr_status :: request_status
  sr_key :: bucket_key
  sr_metrics :: metrics

definition or_zero :: "i64 option \<Rightarrow> i64" where
  "or_zero v = (case v of None \<Rightarrow> 0 | Some n \<Rightarrow> n)"

definition stored_of_row :: "time_crate \<Rightarrow> usage_row \<Rightarrow> stored_row" where
  "stored_of_row T r =
     (let status = from_str_lossy (ur_request_status r) in
      \<lparr>sr_status = status,
       sr_key = \<lparr>bk_hour = format_hour_str T (ur_created_at r), bk_consumer_id = ur_consumer_id r,
                 bk_model = ur_model r, bk_endpoint = ur_endpoint r, bk_streaming = ur_streaming r\<rparr>,
       sr_metrics = Metrics (or_zero (ur_input_tokens r)) (or_zero (ur_output_tokens r))
         (or_zero (ur_cached_tokens r)) (ur_duration_ms r) (or_zero (ur_ttft_ms r))
         (of_bool (ur_ttft_ms r \<noteq> None)) (of_bool (status = Completed))
         (of_bool (status = Failed \<or> status = Interrupted))\<rparr>)"

definition stored_load :: "time_crate \<Rightarrow> string \<Rightarrow> usage_row list \<Rightarrow> stored_row option" where
  "stored_load T request_id rows =
     map_option (stored_of_row T) (find (\<lambda>r. ur_request_id r = request_id) rows)"

definition stored_contribution :: "stored_row \<Rightarrow> contribution option" where
  "stored_contribution s =
     (if status_is_terminal (sr_status s) then Some \<lparr>cb_key = sr_key s, cb_metrics = sr_metrics s\<rparr>
      else None)"

section \<open>The contract of the rollup\<close>

text \<open>
  \<open>reflects h M\<close>: the table \<open>h\<close> is the rollup of the contributions \<open>M\<close>. A client may add a
  contribution and retract one that is there while the sums fit their columns, and the table is
  determined by what it reflects.
\<close>

locale rollup_store =
  fixes reflects :: "'s \<Rightarrow> 'c multiset \<Rightarrow> bool"
    and fits :: "'c multiset \<Rightarrow> bool"
    and add :: "'c \<Rightarrow> 's \<Rightarrow> 's"
    and retract :: "'c \<Rightarrow> 's \<Rightarrow> 's"
  assumes fits_less: "fits (add_mset c M) \<Longrightarrow> fits M"
    and reflects_add: "reflects h M \<Longrightarrow> fits (add_mset c M) \<Longrightarrow> reflects (add c h) (add_mset c M)"
    and reflects_retract:
      "reflects h (add_mset c M) \<Longrightarrow> fits (add_mset c M) \<Longrightarrow> reflects (retract c h) M"
    and reflects_determines: "reflects h M \<Longrightarrow> reflects k M \<Longrightarrow> h = k"
begin

lemma fits_part: "fits (N + M) \<Longrightarrow> fits M"
  by (induction N) (auto dest: fits_less)

lemma fits_subset: "fits N \<Longrightarrow> M \<subseteq># N \<Longrightarrow> fits M"
  using fits_part [of "N - M" M] by (simp add: subset_mset.diff_add)

lemma replace:
  assumes "reflects h (add_mset c M)" "fits (add_mset c M)" "fits (add_mset d M)"
  shows "reflects (add d (retract c h)) (add_mset d M)"
  using reflects_add [OF reflects_retract [OF assms(1,2)] assms(3)] .

lemma replace_same:
  assumes "reflects h (add_mset c M)" "fits (add_mset c M)"
  shows "add c (retract c h) = h"
  using reflects_determines [OF replace [OF assms(1,2,2)] assms(1)] .

lemma add_commute:
  assumes "reflects h M" "fits (add_mset c (add_mset d M))"
  shows "add c (add d h) = add d (add c h)"
proof (rule reflects_determines)
  have f: "fits (add_mset d (add_mset c M))" using assms(2) by (simp add: add_mset_commute)
  show "reflects (add c (add d h)) (add_mset c (add_mset d M))"
    using assms by (intro reflects_add fits_less [OF assms(2)])
  show "reflects (add d (add c h)) (add_mset c (add_mset d M))"
    using reflects_add [OF reflects_add [OF assms(1) fits_less [OF f]] f]
    by (simp add: add_mset_commute)
qed

end

text \<open>What the code's table reflects: per bucket the number and the sum of its contributions.\<close>

definition bucket_row :: "metrics multiset \<Rightarrow> hourly_row option" where
  "bucket_row ms = (if ms = {#} then None else Some (HourlyRow (int (size ms)) (sum_mset ms)))"

definition in_bucket :: "bucket_key \<Rightarrow> contribution multiset \<Rightarrow> metrics multiset" where
  "in_bucket k M = image_mset cb_metrics (filter_mset (\<lambda>c. cb_key c = k) M)"

definition hourly_reflects :: "hourly_table \<Rightarrow> contribution multiset \<Rightarrow> bool" where
  "hourly_reflects h M \<longleftrightarrow> (\<forall>k. h k = bucket_row (in_bucket k M))"

text \<open>The totals of every bucket fit a signed 64-bit integer, and no part of one is negative.\<close>

definition every_total :: "(int \<Rightarrow> bool) \<Rightarrow> metrics \<Rightarrow> bool" where
  "every_total P m \<longleftrightarrow>
     P (m_input_tokens m) \<and> P (m_output_tokens m) \<and> P (m_cached_tokens m)
     \<and> P (m_duration_ms m) \<and> P (m_ttft_ms m)"

definition totals_fit :: "contribution multiset \<Rightarrow> bool" where
  "totals_fit M \<longleftrightarrow>
     (\<forall>c \<in># M. every_total (\<lambda>n. 0 \<le> n) (cb_metrics c))
     \<and> (\<forall>k. every_total (\<lambda>n. n < 2 ^ 63) (sum_mset (in_bucket k M)))"

lemma in_bucket_add [simp]:
  "in_bucket k (add_mset c M)
     = (if cb_key c = k then add_mset (cb_metrics c) (in_bucket k M) else in_bucket k M)"
  by (simp add: in_bucket_def)

lemma hourly_reflects_empty [simp]: "hourly_reflects (\<lambda>_. None) {#}"
  by (simp add: hourly_reflects_def bucket_row_def in_bucket_def)

lemma metrics_fields [simp]:
  "m_input_tokens (a + b) = m_input_tokens a + m_input_tokens b"
  "m_output_tokens (a + b) = m_output_tokens a + m_output_tokens b"
  "m_cached_tokens (a + b) = m_cached_tokens a + m_cached_tokens b"
  "m_duration_ms (a + b) = m_duration_ms a + m_duration_ms b"
  "m_ttft_ms (a + b) = m_ttft_ms a + m_ttft_ms b"
  "m_ttft_count (a + b) = m_ttft_count a + m_ttft_count b"
  "m_success_count (a + b) = m_success_count a + m_success_count b"
  "m_failure_count (a + b) = m_failure_count a + m_failure_count b"
  by (simp_all add: plus_metrics_def metrics_add_def)

lemma metrics_zero [simp]:
  "m_input_tokens 0 = 0" "m_output_tokens 0 = 0" "m_cached_tokens 0 = 0" "m_duration_ms 0 = 0"
  "m_ttft_ms 0 = 0" "m_ttft_count 0 = 0" "m_success_count 0 = 0" "m_failure_count 0 = 0"
  by (simp_all add: zero_metrics_def metrics_default_def)

lemma every_total_nonneg_sum:
  "\<forall>m \<in># N. every_total (\<lambda>n. 0 \<le> n) m \<Longrightarrow> every_total (\<lambda>n. 0 \<le> n) (sum_mset N)"
  by (induction N) (auto simp: every_total_def)

lemma totals_exact:
  assumes "every_total (\<lambda>n. 0 \<le> n) a" "every_total (\<lambda>n. 0 \<le> n) b"
    and "every_total (\<lambda>n. n < 2 ^ 63) (a + b)"
  shows "totals_add a b = a + b" "totals_sub (a + b) b = a"
    "every_total (\<lambda>n. n < 2 ^ 63) a"
  using assms
  by (auto simp: totals_add_def totals_sub_def every_total_def metrics.expand)

lemma totals_fit_bucket:
  assumes "totals_fit (add_mset c M)"
  defines "rest \<equiv> sum_mset (in_bucket (cb_key c) M)"
  shows "totals_add rest (cb_metrics c) = rest + cb_metrics c"
    "totals_sub (rest + cb_metrics c) (cb_metrics c) = rest"
    "every_total (\<lambda>n. n < 2 ^ 63) rest"
proof -
  have "every_total (\<lambda>n. 0 \<le> n) rest" "every_total (\<lambda>n. 0 \<le> n) (cb_metrics c)"
    using assms(1) unfolding rest_def
    by (auto intro!: every_total_nonneg_sum simp: totals_fit_def in_bucket_def)
  moreover have "every_total (\<lambda>n. n < 2 ^ 63) (rest + cb_metrics c)"
    using assms(1) unfolding totals_fit_def rest_def
    by (auto simp: add.commute dest!: spec [of _ "cb_key c"])
  ultimately show "totals_add rest (cb_metrics c) = rest + cb_metrics c"
    "totals_sub (rest + cb_metrics c) (cb_metrics c) = rest"
    "every_total (\<lambda>n. n < 2 ^ 63) rest"
    using totals_exact by blast+
qed

lemma totals_fit_less: "totals_fit (add_mset c M) \<Longrightarrow> totals_fit M"
  using totals_fit_bucket(3) [of c M] by (auto simp: totals_fit_def split: if_splits)

lemma totals_fit_empty [simp]: "totals_fit {#}"
  by (simp add: totals_fit_def every_total_def in_bucket_def)

interpretation hourly: rollup_store hourly_reflects totals_fit contribution_add contribution_retract
proof
  fix h k :: hourly_table and M :: "contribution multiset" and c :: contribution
  show "totals_fit M" if "totals_fit (add_mset c M)"
    using that by (rule totals_fit_less)
  show "hourly_reflects (contribution_add c h) (add_mset c M)"
    if "hourly_reflects h M" "totals_fit (add_mset c M)"
    using that totals_fit_bucket(1) [OF that(2)]
    by (auto simp: hourly_reflects_def contribution_add_def bucket_row_def
        algebra_simps split: option.split)
  show "hourly_reflects (contribution_retract c h) M"
    if "hourly_reflects h (add_mset c M)" "totals_fit (add_mset c M)"
    using that totals_fit_bucket(2) [OF that(2)]
    by (auto simp: hourly_reflects_def contribution_retract_def bucket_row_def Let_def add.commute)
  show "h = k" if "hourly_reflects h M" "hourly_reflects k M"
    using that by (auto simp: hourly_reflects_def)
qed

text \<open>A contribution with no totals, as recovery adds, is counted exactly at any size of the bucket.\<close>

lemma reflects_add_zero:
  assumes "hourly_reflects h M" "every_total (\<lambda>n. n = 0) (cb_metrics c)"
  shows "hourly_reflects (contribution_add c h) (add_mset c M)"
proof -
  have "totals_add m (cb_metrics c) = m + cb_metrics c" for m
    using assms(2) by (simp add: totals_add_def every_total_def metrics.expand)
  with assms(1) show ?thesis
    by (auto simp: hourly_reflects_def contribution_add_def bucket_row_def
        algebra_simps split: option.split)
qed

lemma totals_fit_zero:
  "totals_fit M \<Longrightarrow> every_total (\<lambda>n. n = 0) (cb_metrics c) \<Longrightarrow> totals_fit (add_mset c M)"
  by (auto simp: totals_fit_def every_total_def)

text \<open>
  Past 64 bits the table no longer agrees with the requests it counts: the database takes a count of
  \<open>2 ^ 63 - 1\<close> tokens, and two such requests of one bucket add up to a rounded \<open>REAL\<close>.
\<close>

lemma sql_add_overflow: "sql_add (2 ^ 63 - 1) (2 ^ 63 - 1) = 2 ^ 64"
proof -
  have a: "bit_length (nat (2 ^ 63 - 1)) = 63" "bit_length (nat (2 ^ 64)) = 65"
    using bit_length_unique [of 62 "nat (2 ^ 63 - 1)"] bit_length_unique [of 64 "nat (2 ^ 64)"]
    by simp_all
  have "nearest_double (2 ^ 63 - 1) = 2 ^ 63" "nearest_double (2 ^ 64) = 2 ^ 64"
    using a by (simp_all add: nearest_double_def Let_def)
  then show ?thesis by (simp add: sql_add_def in_i64_def)
qed

lemma rollup_overflow_rounds:
  assumes "cb_metrics c = Metrics (2 ^ 63 - 1) 0 0 0 0 0 1 0"
  defines "one \<equiv> contribution_add c (\<lambda>_. None)"
  shows "hourly_reflects one {#c#}" "\<not> hourly_reflects (contribution_add c one) {#c, c#}"
proof -
  show "hourly_reflects one {#c#}"
    by (simp add: one_def hourly_reflects_def contribution_add_def bucket_row_def in_bucket_def)
  have "contribution_add c one (cb_key c)
      = Some (HourlyRow 2 (Metrics (2 ^ 64) 0 0 0 0 0 2 0))"
    using sql_add_overflow by (simp add: one_def contribution_add_def totals_add_def assms(1))
  then show "\<not> hourly_reflects (contribution_add c one) {#c, c#}"
    by (auto simp: hourly_reflects_def bucket_row_def in_bucket_def assms(1) plus_metrics_def
        metrics_add_def intro!: exI [of _ "cb_key c"])
qed

end
