(* ===== verification/Ledger_Rows.thy ===== *)
theory Ledger_Rows
  imports Rollup Gregorian
begin

text \<open>
  The row writes of \<^verbatim>\<open>src/src/ledger/writer.rs\<close>: \<open>insert_accept\<close> and \<open>finalize_record\<close>, and the
  invariant they keep: one raw row per request, and the hourly rollup equal to the sum of the
  contributions of the terminal raw rows.
\<close>

section \<open>Binding unsigned values\<close>

text \<open>
  \<^verbatim>\<open>rusqlite\<close> decides how a \<open>u64\<close> is bound to SQLite's signed 64-bit integers: \<open>bind\<close> is that
  conversion, \<^const>\<open>None\<close> when it is refused.
\<close>

type_synonym u64_binding = "u64 \<Rightarrow> i64 option"

locale rusqlite_binding =
  fixes bind :: u64_binding
  assumes bind_in_range: "0 \<le> n \<Longrightarrow> n < 2 ^ 63 \<Longrightarrow> bind n = Some n"
    and bind_out_of_range: "2 ^ 63 \<le> n \<Longrightarrow> bind n = None"
begin

lemma bind_Some: "0 \<le> n \<Longrightarrow> bind n = Some m \<Longrightarrow> m = n \<and> n < 2 ^ 63"
  using bind_in_range [of n] bind_out_of_range [of n] by (cases "n < 2 ^ 63") auto

end

definition exact_binding :: u64_binding where
  "exact_binding n = (if n < 2 ^ 63 then Some n else None)"

interpretation exact: rusqlite_binding exact_binding
  by unfold_locales (simp_all add: exact_binding_def)

definition bind_opt :: "u64_binding \<Rightarrow> u64 option \<Rightarrow> rusqlite_error + i64 option" where
  "bind_opt B v =
     (case v of
        None \<Rightarrow> Inr None
      | Some n \<Rightarrow> (case B n of None \<Rightarrow> Inl ToSqlConversionFailure | Some m \<Rightarrow> Inr (Some m)))"

section \<open>Row writes\<close>

definition snapshot_columns :: "pricing_snapshot option \<Rightarrow> i64 option \<times> i64 option \<times> i64 option" where
  "snapshot_columns p =
     (map_option (\<lambda>p. fst (as_tuple p)) p, map_option (\<lambda>p. fst (snd (as_tuple p))) p,
      map_option (\<lambda>p. snd (snd (as_tuple p))) p)"

definition accept_row :: "time_crate \<Rightarrow> string option \<Rightarrow> request_record \<Rightarrow> int \<Rightarrow> usage_row" where
  "accept_row T inst r i =
     (case snapshot_columns (rr_pricing r) of (pi, pc, po) \<Rightarrow>
      \<lparr>ur_id = i, ur_request_id = rr_request_id r, ur_created_at = format_ts T (rr_created_at r),
       ur_consumer_id = rr_consumer_id r, ur_model = rr_model r,
       ur_endpoint = endpoint_as_str (rr_endpoint r), ur_streaming = of_bool (rr_streaming r),
       ur_http_status = None, ur_request_status = ''in_flight'', ur_instance_id = inst,
       ur_input_tokens = None, ur_output_tokens = None, ur_cached_tokens = None,
       ur_ttft_ms = None, ur_duration_ms = 0, ur_usage_status = ''unavailable'',
       ur_error_message = None, ur_error_body = None,
       ur_input_price = pi, ur_cached_price = pc, ur_output_price = po\<rparr>)"

definition has_request :: "string \<Rightarrow> usage_row list \<Rightarrow> bool" where
  "has_request request_id rows \<longleftrightarrow> request_id \<in> set (map ur_request_id rows)"

text \<open>\<open>INSERT \<dots> ON CONFLICT(request_id) DO NOTHING\<close>; a \<open>CHECK\<close> is tested before the conflict.\<close>

definition insert_accept ::
  "time_crate \<Rightarrow> request_record \<Rightarrow> string option \<Rightarrow> db \<Rightarrow> rusqlite_error + db" where
  "insert_accept T r inst s =
     (let row = accept_row T inst r (fresh_id (map ur_id (usage_records s))) in
      if \<not> usage_row_check row then Inl (SqliteFailure SQLITE_CONSTRAINT_CHECK)
      else if has_request (rr_request_id r) (usage_records s) then Inr s
      else Inr (s\<lparr>usage_records := usage_records s @ [row]\<rparr>))"

text \<open>The values a finalize binds for its token counts and latency: input, output, cached, ttft.\<close>

definition bind_usage ::
  "u64_binding \<Rightarrow> request_record \<Rightarrow>
   rusqlite_error + (i64 option \<times> i64 option \<times> i64 option \<times> i64 option)" where
  "bind_usage B r =
     res_bind (bind_opt B (tu_input (rr_usage r))) (\<lambda>i.
     res_bind (bind_opt B (tu_output (rr_usage r))) (\<lambda>out.
     res_bind (bind_opt B (tu_cached (rr_usage r))) (\<lambda>c.
     res_bind (bind_opt B (rr_ttft_ms r)) (\<lambda>t. Inr (i, out, c, t)))))"

definition coalesce :: "'a option \<Rightarrow> 'a option \<Rightarrow> 'a option" where
  "coalesce a b = (case a of None \<Rightarrow> b | Some x \<Rightarrow> Some x)"

text \<open>The \<open>UPDATE\<close> of a stored row, and the \<open>INSERT\<close> of a row that has none.\<close>

definition updated_row ::
  "request_record \<Rightarrow> i64 option \<times> i64 option \<times> i64 option \<times> i64 option \<Rightarrow>
   usage_row \<Rightarrow> usage_row" where
  "updated_row r v row =
     (case (v, snapshot_columns (rr_pricing r)) of ((i, out, c, t), (pi, pc, po)) \<Rightarrow>
      row\<lparr>ur_http_status := rr_http_status r,
          ur_request_status := request_status_as_str (rr_request_status r),
          ur_streaming := of_bool (rr_streaming r),
          ur_input_tokens := i, ur_output_tokens := out, ur_cached_tokens := c, ur_ttft_ms := t,
          ur_duration_ms := wrap_i64 (rr_duration_ms r),
          ur_usage_status := usage_status_as_str (record_usage_status r),
          ur_error_message := rr_error_message r, ur_error_body := rr_error_body r,
          ur_input_price := coalesce pi (ur_input_price row),
          ur_cached_price := coalesce pc (ur_cached_price row),
          ur_output_price := coalesce po (ur_output_price row)\<rparr>)"

definition terminal_row ::
  "time_crate \<Rightarrow> string option \<Rightarrow> request_record \<Rightarrow>
   i64 option \<times> i64 option \<times> i64 option \<times> i64 option \<Rightarrow> int \<Rightarrow> usage_row" where
  "terminal_row T inst r v n =
     (case (v, snapshot_columns (rr_pricing r)) of ((i, out, c, t), (pi, pc, po)) \<Rightarrow>
      \<lparr>ur_id = n, ur_request_id = rr_request_id r, ur_created_at = format_ts T (rr_created_at r),
       ur_consumer_id = rr_consumer_id r, ur_model = rr_model r,
       ur_endpoint = endpoint_as_str (rr_endpoint r), ur_streaming = of_bool (rr_streaming r),
       ur_http_status = rr_http_status r,
       ur_request_status = request_status_as_str (rr_request_status r), ur_instance_id = inst,
       ur_input_tokens = i, ur_output_tokens = out, ur_cached_tokens = c, ur_ttft_ms = t,
       ur_duration_ms = wrap_i64 (rr_duration_ms r),
       ur_usage_status = usage_status_as_str (record_usage_status r),
       ur_error_message = rr_error_message r, ur_error_body = rr_error_body r,
       ur_input_price = pi, ur_cached_price = pc, ur_output_price = po\<rparr>)"

definition retract_previous :: "stored_row \<Rightarrow> hourly_table \<Rightarrow> hourly_table" where
  "retract_previous existing h =
     (case stored_contribution existing of
        None \<Rightarrow> h
      | Some previous \<Rightarrow> contribution_retract previous h)"

definition finalize_record ::
  "time_crate \<Rightarrow> u64_binding \<Rightarrow> request_record \<Rightarrow> string option \<Rightarrow> db \<Rightarrow> rusqlite_error + db" where
  "finalize_record T B r inst s =
     (let new = terminal r (from_record T r) in
      case stored_load T (rr_request_id r) (usage_records s) of
        Some existing \<Rightarrow>
          res_bind (bind_usage B r) (\<lambda>v.
            let rows = map (\<lambda>row. if ur_request_id row = rr_request_id r
                                  then updated_row r v row else row) (usage_records s)
            in if \<not> list_all usage_row_check
                     (filter (\<lambda>row. ur_request_id row = rr_request_id r) rows)
               then Inl (SqliteFailure SQLITE_CONSTRAINT_CHECK)
               else Inr (s\<lparr>usage_records := rows,
                            usage_hourly :=
                              contribution_add new (retract_previous existing (usage_hourly s))\<rparr>))
      | None \<Rightarrow>
          res_bind (bind_usage B r) (\<lambda>v.
            let row = terminal_row T inst r v (fresh_id (map ur_id (usage_records s)))
            in if \<not> usage_row_check row then Inl (SqliteFailure SQLITE_CONSTRAINT_CHECK)
               else Inr (s\<lparr>usage_records := usage_records s @ [row],
                            usage_hourly := contribution_add new (usage_hourly s)\<rparr>)))"

definition finalize_in_tx ::
  "time_crate \<Rightarrow> u64_binding \<Rightarrow> request_record \<Rightarrow> db \<Rightarrow> rusqlite_error + db" where
  "finalize_in_tx T B r s = finalize_record T B r None s"

section \<open>The rollup invariant\<close>

definition row_contribution :: "time_crate \<Rightarrow> usage_row \<Rightarrow> contribution multiset" where
  "row_contribution T row =
     (case stored_contribution (stored_of_row T row) of None \<Rightarrow> {#} | Some c \<Rightarrow> {#c#})"

definition row_contributions :: "time_crate \<Rightarrow> usage_row list \<Rightarrow> contribution multiset" where
  "row_contributions T rows = (\<Sum>row\<leftarrow>rows. row_contribution T row)"

definition rollup_consistent :: "time_crate \<Rightarrow> db \<Rightarrow> bool" where
  "rollup_consistent T s \<longleftrightarrow>
     distinct (map ur_request_id (usage_records s))
     \<and> hourly_reflects (usage_hourly s) (row_contributions T (usage_records s))"

text \<open>
  The totals of every bucket fit the 64-bit columns they are kept in, and no row has a negative count.
\<close>

definition rollup_fits :: "time_crate \<Rightarrow> db \<Rightarrow> bool" where
  "rollup_fits T s \<longleftrightarrow> totals_fit (row_contributions T (usage_records s))"

text \<open>
  What a caller of \<open>finalize\<close> owes: the record is terminal, its unsigned fields are unsigned, its
  year has four digits, and it is the record that was accepted under its id: the columns fixed at
  accept agree with the stored row.
\<close>

definition wf_record :: "request_record \<Rightarrow> bool" where
  "wf_record r \<longleftrightarrow>
     four_digit_instant (rr_created_at r) \<and> in_u64 (rr_duration_ms r)
     \<and> pred_option in_u64 (tu_input (rr_usage r)) \<and> pred_option in_u64 (tu_output (rr_usage r))
     \<and> pred_option in_u64 (tu_cached (rr_usage r)) \<and> pred_option in_u64 (rr_ttft_ms r)"

definition same_request :: "time_crate \<Rightarrow> request_record \<Rightarrow> usage_row \<Rightarrow> bool" where
  "same_request T r row \<longleftrightarrow>
     ur_created_at row = format_ts T (rr_created_at r) \<and> ur_consumer_id row = rr_consumer_id r
     \<and> ur_model row = rr_model r \<and> ur_endpoint row = endpoint_as_str (rr_endpoint r)"

definition accepted_as :: "time_crate \<Rightarrow> request_record \<Rightarrow> db \<Rightarrow> bool" where
  "accepted_as T r s \<longleftrightarrow>
     list_all (\<lambda>row. ur_request_id row = rr_request_id r \<longrightarrow> same_request T r row) (usage_records s)"

section \<open>Facts about the row list\<close>

lemma map_at_request:
  assumes "distinct (map ur_request_id rows)" "find (\<lambda>r. ur_request_id r = x) rows = Some row"
  shows "\<exists>pre post. rows = pre @ row # post \<and> ur_request_id row = x
    \<and> map (\<lambda>r. if ur_request_id r = x then f r else r) rows = pre @ f row # post"
proof -
  from assms(2) have "row \<in> set rows" and x: "ur_request_id row = x"
    by (auto simp: find_Some_iff)
  then obtain pre post where rows: "rows = pre @ row # post" by (meson split_list)
  let ?g = "\<lambda>r. if ur_request_id r = x then f r else r"
  have "x \<notin> set (map ur_request_id pre)" "x \<notin> set (map ur_request_id post)"
    using assms(1) unfolding rows map_append list.map x by simp_all
  then have o: "ur_request_id r \<noteq> x" if "r \<in> set pre \<or> r \<in> set post" for r
    using that by (metis image_eqI list.set_map)
  have "map ?g pre = pre" "map ?g post = post"
    by (rule map_idI; use o in simp)+
  then have "map ?g rows = pre @ f row # post" using x by (simp add: rows)
  with rows x show ?thesis by blast
qed

lemma row_contributions_simps [simp]:
  "row_contributions T [] = {#}"
  "row_contributions T (row # rows) = row_contribution T row + row_contributions T rows"
  "row_contributions T (rows @ rows') = row_contributions T rows + row_contributions T rows'"
  by (simp_all add: row_contributions_def)

lemma stored_load_None: "stored_load T x rows = None \<longleftrightarrow> \<not> has_request x rows"
  by (auto simp: stored_load_def has_request_def find_None_iff)

lemma ids_of_update [simp]:
  "ur_request_id (updated_row r v row) = ur_request_id row"
  "ur_created_at (updated_row r v row) = ur_created_at row"
  "ur_consumer_id (updated_row r v row) = ur_consumer_id row"
  "ur_model (updated_row r v row) = ur_model row"
  "ur_endpoint (updated_row r v row) = ur_endpoint row"
  "ur_id (updated_row r v row) = ur_id row"
  by (auto simp: updated_row_def split: prod.splits)

lemma ids_of_new [simp]:
  "ur_request_id (accept_row T inst r i) = rr_request_id r"
  "ur_request_id (terminal_row T inst r v i) = rr_request_id r"
  by (auto simp: accept_row_def terminal_row_def split: prod.splits)

lemma accept_row_contribution [simp]: "row_contribution T (accept_row T' inst r i) = {#}"
  by (auto simp: accept_row_def row_contribution_def stored_contribution_def stored_of_row_def
      from_str_lossy_def split: prod.splits)

section \<open>The environment the ledger relies on\<close>

locale ledger_env = time_laws T + rusqlite_binding bind
  for T :: time_crate and bind :: u64_binding
begin

lemma bind_opt_Inr:
  assumes "bind_opt bind v = Inr w" "pred_option in_u64 v"
  shows "w = v \<and> or_zero w = known_tokens v"
proof (cases v)
  case (Some n)
  then obtain m where m: "bind n = Some m" "w = Some m"
    using assms(1) by (auto simp: bind_opt_def split: option.splits)
  moreover have "0 \<le> n" using assms(2) Some by (simp add: in_u64_def)
  ultimately have "m = n" "n < 2 ^ 63" "0 \<le> n" using bind_Some by auto
  then show ?thesis
    using Some m by (simp add: or_zero_def known_tokens_def wrap_i64_id in_i64_def)
qed (use assms in \<open>simp add: bind_opt_def or_zero_def known_tokens_def wrap_i64_def\<close>)

lemma bind_usage_Inr:
  assumes "bind_usage bind r = Inr (i, out, c, t)" "wf_record r"
  shows "or_zero i = known_tokens (tu_input (rr_usage r))"
    "or_zero out = known_tokens (tu_output (rr_usage r))"
    "or_zero c = known_tokens (tu_cached (rr_usage r))"
    "or_zero t = known_tokens (rr_ttft_ms r)" "t = rr_ttft_ms r"
  using assms bind_opt_Inr
  by (auto simp: bind_usage_def wf_record_def res_bind_Inr_iff)

lemma stored_is_terminal:
  assumes "bind_usage bind r = Inr (i, out, c, t)" "wf_record r" "record_is_terminal r"
    and "same_request T r row" "ur_streaming row = of_bool (rr_streaming r)"
    and "ur_request_status row = request_status_as_str (rr_request_status r)"
    and "ur_input_tokens row = i" "ur_output_tokens row = out" "ur_cached_tokens row = c"
    and "ur_ttft_ms row = t" "ur_duration_ms row = wrap_i64 (rr_duration_ms r)"
  shows "row_contribution T row = {#terminal r (from_record T r)#}"
  using assms(2-) bind_usage_Inr [OF assms(1,2)] format_hour_str_format_ts [of "rr_created_at r"]
  by (auto simp: row_contribution_def stored_contribution_def stored_of_row_def Let_def
      terminal_def from_record_def same_request_def record_is_terminal_def wf_record_def)

lemma updated_row_contribution:
  assumes "bind_usage bind r = Inr v" "wf_record r" "record_is_terminal r" "same_request T r row"
  shows "row_contribution T (updated_row r v row) = {#terminal r (from_record T r)#}"
proof -
  obtain i out c t where v: "v = (i, out, c, t)" by (cases v)
  show ?thesis
    using assms(4)
    by (intro stored_is_terminal [OF assms(1) [unfolded v] assms(2,3)])
      (simp_all add: same_request_def updated_row_def v split: prod.split)
qed

lemma terminal_row_contribution:
  assumes "bind_usage bind r = Inr v" "wf_record r" "record_is_terminal r"
  shows "row_contribution T (terminal_row T inst r v n) = {#terminal r (from_record T r)#}"
proof -
  obtain i out c t where v: "v = (i, out, c, t)" by (cases v)
  show ?thesis
    by (intro stored_is_terminal [OF assms(1) [unfolded v] assms(2,3)])
      (simp_all add: same_request_def terminal_row_def v split: prod.split)
qed

lemma insert_accept_consistent:
  assumes "insert_accept T r inst s = Inr s'" "rollup_consistent T s"
  shows "rollup_consistent T s'"
  using assms
  by (auto simp: insert_accept_def rollup_consistent_def Let_def has_request_def split: if_splits)

lemma retract_previous_reflects:
  assumes "hourly_reflects h (row_contribution T row + M)" "totals_fit (row_contribution T row + M)"
  shows "hourly_reflects (retract_previous (stored_of_row T row) h) M"
  using assms hourly.reflects_retract
  by (auto simp: row_contribution_def retract_previous_def split: option.splits)

text \<open>What a successful finalize does, in one place: the list is changed at one row.\<close>

lemma finalize_record_cases:
  assumes "finalize_record T bind r inst s = Inr s'" "rollup_consistent T s"
  obtains (update) pre row post v where "usage_records s = pre @ row # post"
      "ur_request_id row = rr_request_id r" "bind_usage bind r = Inr v"
      "usage_row_check (updated_row r v row)"
      "s' = s\<lparr>usage_records := pre @ updated_row r v row # post,
             usage_hourly := contribution_add (terminal r (from_record T r))
               (retract_previous (stored_of_row T row) (usage_hourly s))\<rparr>"
  | (insert) v n where "\<not> has_request (rr_request_id r) (usage_records s)"
      "bind_usage bind r = Inr v" "usage_row_check (terminal_row T inst r v n)"
      "s' = s\<lparr>usage_records := usage_records s @ [terminal_row T inst r v n],
             usage_hourly := contribution_add (terminal r (from_record T r)) (usage_hourly s)\<rparr>"
proof (cases "stored_load T (rr_request_id r) (usage_records s)")
  case None
  from assms(1) obtain v where "bind_usage bind r = Inr v"
      "usage_row_check (terminal_row T inst r v (fresh_id (map ur_id (usage_records s))))"
      "s' = s\<lparr>usage_records := usage_records s
               @ [terminal_row T inst r v (fresh_id (map ur_id (usage_records s)))],
             usage_hourly := contribution_add (terminal r (from_record T r)) (usage_hourly s)\<rparr>"
    unfolding finalize_record_def Let_def None option.case res_bind_Inr_iff
    by (auto split: if_splits)
  then show thesis using None insert stored_load_None by blast
next
  case (Some existing)
  then obtain row where row: "find (\<lambda>x. ur_request_id x = rr_request_id r) (usage_records s) = Some row"
      "existing = stored_of_row T row"
    by (auto simp: stored_load_def)
  from assms(1) obtain v where v: "bind_usage bind r = Inr v"
      "list_all usage_row_check (filter (\<lambda>x. ur_request_id x = rr_request_id r)
         (map (\<lambda>x. if ur_request_id x = rr_request_id r then updated_row r v x else x)
           (usage_records s)))"
      "s' = s\<lparr>usage_records := map (\<lambda>x. if ur_request_id x = rr_request_id r
               then updated_row r v x else x) (usage_records s),
             usage_hourly := contribution_add (terminal r (from_record T r))
               (retract_previous existing (usage_hourly s))\<rparr>"
    unfolding finalize_record_def Let_def Some option.case res_bind_Inr_iff
    by (auto split: if_splits)
  have "distinct (map ur_request_id (usage_records s))"
    using assms(2) by (simp add: rollup_consistent_def)
  from map_at_request [OF this row(1), of "updated_row r v"] obtain pre post
    where "usage_records s = pre @ row # post" "ur_request_id row = rr_request_id r"
      "map (\<lambda>x. if ur_request_id x = rr_request_id r then updated_row r v x else x)
         (usage_records s) = pre @ updated_row r v row # post"
    by blast
  with v show thesis using update [of pre row post v] row(2) by simp
qed

lemma finalize_contributions:
  assumes "finalize_record T bind r inst s = Inr s'" "rollup_consistent T s"
    and "wf_record r" "record_is_terminal r" "accepted_as T r s"
  shows "row_contributions T (usage_records s')
    \<subseteq># add_mset (terminal r (from_record T r)) (row_contributions T (usage_records s))"
  using assms(1,2)
proof (cases rule: finalize_record_cases)
  case (update pre row post v)
  have "same_request T r row" using assms(5) update(1,2) by (simp add: accepted_as_def)
  with updated_row_contribution [OF update(3) assms(3,4)] update(1,5) show ?thesis by simp
next
  case (insert v n)
  with terminal_row_contribution [OF insert(2) assms(3,4)] show ?thesis by simp
qed

lemma finalize_record_consistent:
  assumes "finalize_record T bind r inst s = Inr s'" "rollup_consistent T s"
    and "wf_record r" "record_is_terminal r" "accepted_as T r s"
    and "rollup_fits T s" "rollup_fits T s'"
  shows "rollup_consistent T s'"
  using assms(1,2)
proof (cases rule: finalize_record_cases)
  case (update pre row post v)
  let ?M = "row_contributions T pre + row_contributions T post"
  have "same_request T r row" using assms(5) update(1,2) by (simp add: accepted_as_def)
  then have c: "row_contribution T (updated_row r v row) = {#terminal r (from_record T r)#}"
    using updated_row_contribution [OF update(3) assms(3,4)] by simp
  have "hourly_reflects (usage_hourly s) (row_contribution T row + ?M)"
    "totals_fit (row_contribution T row + ?M)"
    using assms(2,6) update(1) by (simp_all add: rollup_consistent_def rollup_fits_def ac_simps)
  moreover have "totals_fit (add_mset (terminal r (from_record T r)) ?M)"
    using assms(7) update(5) by (simp add: rollup_fits_def c ac_simps)
  ultimately show ?thesis
    using hourly.reflects_add [OF retract_previous_reflects] assms(2) update(1,5)
    by (simp add: rollup_consistent_def c ac_simps)
next
  case (insert v n)
  have "row_contribution T (terminal_row T inst r v n) = {#terminal r (from_record T r)#}"
    by (rule terminal_row_contribution [OF insert(2) assms(3,4)])
  then show ?thesis
    using assms(2,7) insert(1,4) hourly.reflects_add
    by (auto simp: rollup_consistent_def rollup_fits_def has_request_def)
qed

lemma finalize_again:
  assumes "usage_records s = pre @ row # post" "ur_request_id row = rr_request_id r"
    and "bind_usage bind r = Inr v" "updated_row r v row = row" "usage_row_check row"
    and "rollup_consistent T s" "row_contribution T row = {#terminal r (from_record T r)#}"
    and "rollup_fits T s"
  shows "finalize_record T bind r inst s = Inr s"
proof -
  let ?upd = "\<lambda>x. if ur_request_id x = rr_request_id r then updated_row r v x else x"
  let ?c = "terminal r (from_record T r)"
  have d: "distinct (map ur_request_id (usage_records s))"
    and h: "hourly_reflects (usage_hourly s) (row_contributions T (usage_records s))"
    using assms(6) by (simp_all add: rollup_consistent_def)
  have "rr_request_id r \<notin> set (map ur_request_id pre)" "rr_request_id r \<notin> set (map ur_request_id post)"
    using d unfolding assms(1) map_append list.map assms(2) by simp_all
  then have o: "ur_request_id x \<noteq> rr_request_id r" if "x \<in> set pre \<or> x \<in> set post" for x
    using that by (metis image_eqI list.set_map)
  have m: "map ?upd (usage_records s) = usage_records s"
    using o assms(2,4) unfolding assms(1) by (simp add: map_idI)
  have f: "find (\<lambda>x. ur_request_id x = rr_request_id r) (usage_records s) = Some row"
    unfolding assms(1) using o assms(2) by (induction pre) auto
  have k: "list_all usage_row_check (filter (\<lambda>x. ur_request_id x = rr_request_id r) (usage_records s))"
    unfolding assms(1) using o assms(2,5) by (auto simp: list_all_iff)
  have "stored_contribution (stored_of_row T row) = Some ?c"
    using assms(7) by (auto simp: row_contribution_def split: option.splits)
  moreover have "hourly_reflects (usage_hourly s)
      (add_mset ?c (row_contributions T pre + row_contributions T post))"
    using h assms(1,7) by (simp add: ac_simps)
  moreover have "totals_fit (add_mset ?c (row_contributions T pre + row_contributions T post))"
    using assms(1,7,8) by (simp add: rollup_fits_def ac_simps)
  ultimately have "contribution_add ?c (retract_previous (stored_of_row T row) (usage_hourly s))
      = usage_hourly s"
    using hourly.replace_same by (simp add: retract_previous_def)
  then show ?thesis
    using f k by (simp add: finalize_record_def stored_load_def assms(3) m)
qed

lemma updated_row_again: "updated_row r v (updated_row r v row) = updated_row r v row"
  by (simp add: updated_row_def coalesce_def split: prod.split option.split)

lemma updated_terminal_row: "updated_row r v (terminal_row T inst r v n) = terminal_row T inst r v n"
  by (simp add: updated_row_def terminal_row_def coalesce_def split: prod.split option.split)

lemma finalize_record_idempotent:
  assumes "finalize_record T bind r inst s = Inr s'" "rollup_consistent T s"
    and "wf_record r" "record_is_terminal r" "accepted_as T r s"
    and "rollup_fits T s" "rollup_fits T s'"
  shows "finalize_record T bind r inst' s' = Inr s'"
  using assms(1,2)
proof (cases rule: finalize_record_cases)
  case (update pre row post v)
  have "same_request T r row" using assms(5) update(1,2) by (simp add: accepted_as_def)
  then show ?thesis
    using update finalize_record_consistent [OF assms] assms(7)
    by (intro finalize_again [where row = "updated_row r v row" and v = v])
      (auto simp: updated_row_again updated_row_contribution [OF update(3) assms(3,4)])
next
  case (insert v n)
  then show ?thesis
    using finalize_record_consistent [OF assms] assms(7)
    by (intro finalize_again [where row = "terminal_row T inst r v n" and v = v])
      (auto simp: updated_terminal_row terminal_row_contribution [OF insert(2) assms(3,4)])
qed

lemma finalize_fits:
  assumes "finalize_record T bind r inst s = Inr s'" "rollup_consistent T s"
    and "wf_record r" "record_is_terminal r" "accepted_as T r s"
    and "totals_fit (add_mset (terminal r (from_record T r)) (row_contributions T (usage_records s)))"
  shows "rollup_fits T s'"
  unfolding rollup_fits_def
  by (rule hourly.fits_subset [OF assms(6) finalize_contributions [OF assms(1-5)]])

end

interpretation env: ledger_env gregorian exact_binding ..

section \<open>Properties\<close>

text \<open>A record for the witnesses: a completed request of the first day of the epoch.\<close>

definition sample_record :: request_record where
  "sample_record =
     record_complete 200 (usage_new (Some 1000) (Some 20) (Some 200)) 350
       (with_pricing \<lparr>ps_input = PricePerMillion 2500000, ps_cached_input = PricePerMillion 1250000,
                       ps_output = PricePerMillion 10000000\<rparr>
         (record_new 36000000000000 ''req-1'' ''acme'' ''gpt-4o'' ChatCompletions False))"

lemma sample_record_wf [simp]:
  "wf_record sample_record" "record_is_terminal sample_record"
  by (simp_all add: sample_record_def wf_record_def record_complete_def with_pricing_def
      record_new_def usage_new_def in_u64_def four_digit_instant_def four_digit_day_def
      NANOS_PER_DAY_def record_is_terminal_def)

lemma empty_db_rows [simp]: "usage_records empty_db = []"
  by (simp add: empty_db_def)

lemma empty_db_consistent [simp]: "rollup_consistent T empty_db"
  by (simp add: rollup_consistent_def empty_db_def)

lemma empty_db_fits [simp]: "rollup_fits T empty_db"
  by (simp add: rollup_fits_def empty_db_def)

lemma accepted_as_empty [simp]: "accepted_as T r empty_db"
  by (simp add: accepted_as_def empty_db_def)

lemma sample_finalize:
  "\<exists>s'. finalize_record gregorian exact_binding sample_record None empty_db = Inr s'"
  by (simp add: finalize_record_def stored_load_def empty_db_def bind_usage_def bind_opt_def
      exact_binding_def sample_record_def record_complete_def with_pricing_def record_new_def
      usage_new_def usage_row_check_def terminal_row_def snapshot_columns_def as_tuple_def
      absent_or_nonneg_def record_usage_status_def usage_status_of_def)

lemma totals_fit_single:
  "every_total (\<lambda>n. 0 \<le> n \<and> n < 2 ^ 63) (cb_metrics c) \<Longrightarrow> totals_fit {#c#}"
  by (auto simp: totals_fit_def in_bucket_def every_total_def)

lemma sample_room: "totals_fit {#terminal sample_record k#}"
  by (rule totals_fit_single)
    (simp add: every_total_def terminal_def sample_record_def record_complete_def with_pricing_def
      record_new_def usage_new_def known_tokens_def wrap_i64_def)

lemma sample_fits:
  assumes "finalize_record gregorian exact_binding sample_record inst empty_db = Inr s'"
  shows "rollup_fits gregorian s'"
  by (rule env.finalize_fits [OF assms]) (simp_all, simp add: empty_db_def sample_room)



text \<open>
  finalize is idempotent. Finalizing the same record again, as a retry or a racing drop guard
  does, succeeds and leaves the ledger, raw rows and rollup, exactly as the first one left it.
\<close>

theorem finalize_idempotent:
  assumes "time_laws T" "rusqlite_binding B"
    and "rollup_consistent T s" "wf_record r" "record_is_terminal r" "accepted_as T r s"
    and "finalize_record T B r inst s = Inr s'" "rollup_fits T s" "rollup_fits T s'"
  shows "finalize_record T B r inst' s' = Inr s'"
  using ledger_env.finalize_record_idempotent [OF ledger_env.intro [OF assms(1,2)]] assms(3-) by blast

theorem finalize_idempotent_witness:
  "\<exists>s'. finalize_record gregorian exact_binding sample_record None empty_db = Inr s'
     \<and> finalize_record gregorian exact_binding sample_record (Some ''b'') s' = Inr s'"
proof -
  obtain s' where s: "finalize_record gregorian exact_binding sample_record None empty_db = Inr s'"
    using sample_finalize by blast
  with finalize_idempotent [OF greg.time_laws_axioms exact.rusqlite_binding_axioms _ _ _ _ s]
    sample_fits [OF s]
  show ?thesis by auto
qed

end
