(* ===== verification/Writer.thy ===== *)
theory Writer
  imports Ledger_Rows
begin

text \<open>
  \<^verbatim>\<open>src/src/ledger/writer.rs\<close>: the batch transaction, its retries, and the single writer task
  behind a bounded queue. Acknowledgements are values: a flush returns the result it sends to every
  waiter. The commits of other processes while the writer sleeps between two attempts, and the
  failures of the database, are parameters.
\<close>

section \<open>Queued writes\<close>

datatype write_error = QueueFull | Shutdown | Sqlite rusqlite_error

datatype write_op = Accept | Finalize | Barrier

record writer_config =
  cf_queue_size :: nat
  cf_batch_size :: nat
  cf_batch_timeout_ms :: nat
  cf_instance_id :: "string option"

definition default_config :: writer_config where
  "default_config =
     \<lparr>cf_queue_size = 10000, cf_batch_size = 100, cf_batch_timeout_ms = 10, cf_instance_id = None\<rparr>"

text \<open>\<open>pw_ack\<close> names the oneshot channel the result goes to.\<close>

record pending_write =
  pw_op :: write_op
  pw_record :: "request_record option"
  pw_ack :: nat

definition BUSY_RETRIES :: nat where
  [simp]: "BUSY_RETRIES = 6"

definition BUSY_BACKOFF_BASE :: nat where
  [simp]: "BUSY_BACKOFF_BASE = 20"

section \<open>One attempt at a batch\<close>

definition finalized_ids :: "pending_write list \<Rightarrow> string list" where
  "finalized_ids batch =
     map rr_request_id (List.map_filter pw_record (filter (\<lambda>p. pw_op p = Finalize) batch))"

definition write_pending ::
  "time_crate \<Rightarrow> u64_binding \<Rightarrow> string option \<Rightarrow> string list \<Rightarrow> pending_write \<Rightarrow> db \<times> nat \<Rightarrow>
   rusqlite_error + (db \<times> nat)" where
  "write_pending T B inst finalized p st =
     (case st of (s, written) \<Rightarrow>
       (case pw_record p of
          None \<Rightarrow> Inr (s, written)
        | Some r \<Rightarrow>
            (case pw_op p of
               Accept \<Rightarrow>
                 if rr_request_id r \<in> set finalized then Inr (s, written)
                 else res_bind (insert_accept T r inst s) (\<lambda>s'. Inr (s', written + 1))
             | Finalize \<Rightarrow> res_bind (finalize_record T B r inst s) (\<lambda>s'. Inr (s', written + 1))
             | Barrier \<Rightarrow> Inr (s, written))))"

fun write_batch ::
  "time_crate \<Rightarrow> u64_binding \<Rightarrow> string option \<Rightarrow> string list \<Rightarrow> pending_write list \<Rightarrow> db \<times> nat \<Rightarrow>
   rusqlite_error + (db \<times> nat)" where
  "write_batch T B inst finalized [] st = Inr st"
| "write_batch T B inst finalized (p # ps) st =
     res_bind (write_pending T B inst finalized p st) (write_batch T B inst finalized ps)"

text \<open>
  What the database does to the transaction: nothing, refuse to begin it (or abort it while it
  runs), or refuse to commit it.
\<close>

datatype tx_fault = NoFault | BeginFault rusqlite_error | CommitFault rusqlite_error

definition try_flush ::
  "time_crate \<Rightarrow> u64_binding \<Rightarrow> pending_write list \<Rightarrow> string option \<Rightarrow> tx_fault \<Rightarrow> db \<Rightarrow>
   (rusqlite_error + nat) \<times> db" where
  "try_flush T B batch inst flt s =
     (case flt of
        BeginFault e \<Rightarrow> (Inl e, s)
      | _ \<Rightarrow>
          (case write_batch T B inst (finalized_ids batch) batch (s, 0) of
             Inl e \<Rightarrow> (Inl e, s)
           | Inr (s', written) \<Rightarrow>
               (case flt of CommitFault e \<Rightarrow> (Inl e, s) | _ \<Rightarrow> (Inr written, s'))))"

section \<open>Retrying\<close>

record flush_outcome =
  fo_ok :: bool
  fo_acks :: "(nat \<times> (write_error + unit)) list"
  fo_committed :: nat
  fo_db :: db
  fo_attempts :: nat
  fo_backoff_ms :: nat

definition ack_all ::
  "pending_write list \<Rightarrow> write_error + unit \<Rightarrow> (nat \<times> (write_error + unit)) list" where
  "ack_all batch res = map (\<lambda>p. (pw_ack p, res)) batch"

text \<open>
  \<open>others k\<close> is what other processes commit while the writer sleeps after attempt \<open>k\<close>, \<open>flt k\<close>
  what the database does to attempt \<open>k\<close>.
\<close>

function flush_loop ::
  "time_crate \<Rightarrow> u64_binding \<Rightarrow> string option \<Rightarrow> (nat \<Rightarrow> db \<Rightarrow> db) \<Rightarrow> (nat \<Rightarrow> tx_fault) \<Rightarrow>
   pending_write list \<Rightarrow> nat \<Rightarrow> nat \<Rightarrow> db \<Rightarrow> flush_outcome" where
  "flush_loop T B inst others flt batch attempt slept s =
     (case try_flush T B batch inst (flt attempt) s of
        (Inr n, s') \<Rightarrow>
          \<lparr>fo_ok = True, fo_acks = ack_all batch (Inr ()), fo_committed = n, fo_db = s',
           fo_attempts = attempt + 1, fo_backoff_ms = slept\<rparr>
      | (Inl e, s') \<Rightarrow>
          if is_busy e \<and> attempt < BUSY_RETRIES
          then flush_loop T B inst others flt batch (attempt + 1)
                 (slept + BUSY_BACKOFF_BASE * 2 ^ attempt) (others attempt s')
          else \<lparr>fo_ok = False, fo_acks = ack_all batch (Inl (Sqlite e)), fo_committed = 0,
                fo_db = s', fo_attempts = attempt + 1, fo_backoff_ms = slept\<rparr>)"
  by pat_completeness auto

termination flush_loop
  by (relation "measure (\<lambda>(T, B, inst, others, flt, batch, attempt, slept, s). BUSY_RETRIES - attempt)")
    auto

declare flush_loop.simps [simp del]

definition flush_with_retry ::
  "time_crate \<Rightarrow> u64_binding \<Rightarrow> string option \<Rightarrow> (nat \<Rightarrow> db \<Rightarrow> db) \<Rightarrow> (nat \<Rightarrow> tx_fault) \<Rightarrow>
   pending_write list \<Rightarrow> db \<Rightarrow> flush_outcome" where
  "flush_with_retry T B inst others flt batch s =
     (if batch = []
      then \<lparr>fo_ok = True, fo_acks = [], fo_committed = 0, fo_db = s, fo_attempts = 0,
            fo_backoff_ms = 0\<rparr>
      else flush_loop T B inst others flt batch 0 0 s)"

section \<open>The writer and its producers\<close>

text \<open>
  The state shared by the producers and the writer task. \<open>w_clones\<close> counts the producer handles
  cloned by calls that have not sent yet; \<open>w_sent\<close> and \<open>w_acks\<close> are the history of what was queued
  and of what was answered.
\<close>

record writer =
  w_queue :: "pending_write list"
  w_batch :: "pending_write list"
  w_db :: db
  w_committed :: nat
  w_healthy :: bool
  w_commits_ok :: bool
  w_ready :: bool
  w_closed :: bool
  w_sender :: bool
  w_clones :: nat
  w_detached :: nat
  w_shutting_down :: bool
  w_running :: bool
  w_sent :: "pending_write list"
  w_acks :: "(nat \<times> (write_error + unit)) list"

definition writer_new :: "db \<Rightarrow> writer" where
  "writer_new s =
     \<lparr>w_queue = [], w_batch = [], w_db = s, w_committed = 0, w_healthy = True,
      w_commits_ok = True, w_ready = True, w_closed = False, w_sender = True, w_clones = 0,
      w_detached = 0, w_shutting_down = False, w_running = True, w_sent = [], w_acks = []\<rparr>"

definition queue_size :: "writer_config \<Rightarrow> nat" where
  "queue_size cfg = max (cf_queue_size cfg) 1"

definition batch_size :: "writer_config \<Rightarrow> nat" where
  "batch_size cfg = max (cf_batch_size cfg) 1"

text \<open>\<open>sender()\<close>: clone the producer handle, or report that the writer has stopped.\<close>

definition clone_sender :: "writer \<Rightarrow> (write_error + unit) \<times> writer" where
  "clone_sender w =
     (if w_shutting_down w then (Inl Shutdown, w)
      else if w_sender w then (Inr (), w\<lparr>w_clones := w_clones w + 1\<rparr>)
      else (Inl Shutdown, w))"

text \<open>
  A send on a cloned handle, which is dropped afterwards. \<^const>\<open>None\<close>: the queue is full and the
  send waits for capacity.
\<close>

definition send_pending :: "writer_config \<Rightarrow> pending_write \<Rightarrow> writer \<Rightarrow> writer option" where
  "send_pending cfg p w =
     (if length (w_queue w) < queue_size cfg
      then Some (w\<lparr>w_queue := w_queue w @ [p], w_sent := w_sent w @ [p],
                   w_clones := w_clones w - 1\<rparr>)
      else None)"

definition try_finalize ::
  "writer_config \<Rightarrow> request_record \<Rightarrow> nat \<Rightarrow> writer \<Rightarrow> (write_error + unit) \<times> writer" where
  "try_finalize cfg r ack w =
     (case clone_sender w of
        (Inl e, w') \<Rightarrow> (Inl e, w')
      | (Inr _, w') \<Rightarrow>
          (case send_pending cfg \<lparr>pw_op = Finalize, pw_record = Some r, pw_ack = ack\<rparr> w' of
             None \<Rightarrow> (Inl QueueFull, w'\<lparr>w_clones := w_clones w' - 1\<rparr>)
           | Some w'' \<Rightarrow> (Inr (), w'')))"

definition is_ready :: "writer \<Rightarrow> bool" where
  "is_ready w \<longleftrightarrow> \<not> w_shutting_down w \<and> w_healthy w \<and> w_ready w"

definition mark_unhealthy :: "writer \<Rightarrow> writer" where
  "mark_unhealthy w = w\<lparr>w_healthy := False\<rparr>"

text \<open>\<open>report_detached_result\<close>: a write a drop guard could not complete degrades readiness.\<close>

definition report_detached_result :: "write_error + unit \<Rightarrow> writer \<Rightarrow> writer" where
  "report_detached_result res w = (case res of Inl _ \<Rightarrow> mark_unhealthy w | Inr _ \<Rightarrow> w)"

text \<open>
  \<open>spawn_detached_finalize\<close> counts the write before it is queued, and reports its result before
  it stops counting it.
\<close>

definition detached_begin :: "writer \<Rightarrow> writer" where
  "detached_begin w = w\<lparr>w_detached := w_detached w + 1\<rparr>"

definition detached_end :: "write_error + unit \<Rightarrow> writer \<Rightarrow> writer" where
  "detached_end res w =
     (let w' = report_detached_result res w in w'\<lparr>w_detached := w_detached w' - 1\<rparr>)"

definition queue_depth :: "writer \<Rightarrow> nat" where
  "queue_depth w = (if w_sender w then length (w_queue w) else 0)"

text \<open>The two steps of \<open>shutdown\<close> before it joins the task.\<close>

definition shutdown_refuse :: "writer \<Rightarrow> writer" where
  "shutdown_refuse w = w\<lparr>w_shutting_down := True\<rparr>"

definition shutdown_close :: "writer \<Rightarrow> writer" where
  "shutdown_close w = w\<lparr>w_sender := False\<rparr>"

section \<open>The writer task\<close>

text \<open>
  One iteration of the task's loop. The biased \<open>select!\<close> polls the channel first (only while the
  batch has room): a queued write is taken; a closed and empty channel sets \<open>closed\<close>; otherwise the
  timer fires. \<open>timeout\<close> says whether the batch timeout has elapsed since the last flush.
\<close>

definition channel_closed :: "writer \<Rightarrow> bool" where
  "channel_closed w \<longleftrightarrow> \<not> w_sender w \<and> w_clones w = 0"

definition task_receive :: "writer_config \<Rightarrow> writer \<Rightarrow> writer" where
  "task_receive cfg w =
     (if length (w_batch w) < batch_size cfg
      then (case w_queue w of
              p # ps \<Rightarrow> w\<lparr>w_queue := ps, w_batch := w_batch w @ [p]\<rparr>
            | [] \<Rightarrow> if channel_closed w then w\<lparr>w_closed := True\<rparr> else w)
      else w)"

definition task_drain :: "writer_config \<Rightarrow> writer \<Rightarrow> writer" where
  "task_drain cfg w =
     (if w_closed w
      then (let room = batch_size cfg - length (w_batch w)
            in w\<lparr>w_queue := drop room (w_queue w), w_batch := w_batch w @ take room (w_queue w)\<rparr>)
      else w)"

definition apply_flush :: "flush_outcome \<Rightarrow> writer \<Rightarrow> writer" where
  "apply_flush fo w =
     w\<lparr>w_batch := [], w_db := fo_db fo, w_committed := w_committed w + fo_committed fo,
       w_acks := w_acks w @ fo_acks fo\<rparr>"

definition task_flush ::
  "writer_config \<Rightarrow> time_crate \<Rightarrow> u64_binding \<Rightarrow> (nat \<Rightarrow> db \<Rightarrow> db) \<Rightarrow> (nat \<Rightarrow> tx_fault) \<Rightarrow> bool \<Rightarrow>
   writer \<Rightarrow> writer" where
  "task_flush cfg T B others flt timeout w =
     (if w_batch w \<noteq> [] \<and> (w_closed w \<or> batch_size cfg \<le> length (w_batch w) \<or> timeout)
      then (let fo = flush_with_retry T B (cf_instance_id cfg) others flt (w_batch w) (w_db w);
                w' = apply_flush fo w
            in w'\<lparr>w_commits_ok := fo_ok fo, w_healthy := w_healthy w \<and> fo_ok fo\<rparr>)
      else w)"

definition task_report :: "writer_config \<Rightarrow> writer \<Rightarrow> writer" where
  "task_report cfg w =
     (let depth = length (w_queue w) + length (w_batch w)
      in w\<lparr>w_ready := (w_commits_ok w \<and> depth * 2 < queue_size cfg)\<rparr>)"

definition task_exit ::
  "writer_config \<Rightarrow> time_crate \<Rightarrow> u64_binding \<Rightarrow> (nat \<Rightarrow> db \<Rightarrow> db) \<Rightarrow> (nat \<Rightarrow> tx_fault) \<Rightarrow>
   writer \<Rightarrow> writer" where
  "task_exit cfg T B others flt w =
     (if w_closed w \<and> w_batch w = []
      then (let leftover = w_queue w;
                fo = flush_with_retry T B (cf_instance_id cfg) others flt leftover (w_db w)
            in (apply_flush fo (w\<lparr>w_queue := []\<rparr>))\<lparr>w_running := False, w_ready := False\<rparr>)
      else w)"

definition writer_iteration ::
  "writer_config \<Rightarrow> time_crate \<Rightarrow> u64_binding \<Rightarrow> (nat \<Rightarrow> db \<Rightarrow> db) \<Rightarrow> (nat \<Rightarrow> tx_fault) \<Rightarrow> bool \<Rightarrow>
   (nat \<Rightarrow> db \<Rightarrow> db) \<Rightarrow> (nat \<Rightarrow> tx_fault) \<Rightarrow> writer \<Rightarrow> writer" where
  "writer_iteration cfg T B others flt timeout others' flt' w =
     task_exit cfg T B others' flt' (task_report cfg
       (task_flush cfg T B others flt timeout (task_drain cfg (task_receive cfg w))))"

text \<open>
  Every interleaving of the producers, the shutdown, the task, and the commits of the program's
  other writers and of other processes (\<open>step_world\<close>). Dropping a handle without sending is a
  cancelled call.
\<close>

inductive writer_step ::
  "writer_config \<Rightarrow> time_crate \<Rightarrow> u64_binding \<Rightarrow> writer \<Rightarrow> writer \<Rightarrow> bool"
  for cfg T B where
  step_clone: "clone_sender w = (Inr (), w') \<Longrightarrow> writer_step cfg T B w w'"
| step_send: "0 < w_clones w \<Longrightarrow> send_pending cfg p w = Some w' \<Longrightarrow> writer_step cfg T B w w'"
| step_try_finalize: "try_finalize cfg r ack w = (res, w') \<Longrightarrow> writer_step cfg T B w w'"
| step_drop: "0 < w_clones w \<Longrightarrow> writer_step cfg T B w (w\<lparr>w_clones := w_clones w - 1\<rparr>)"
| step_unhealthy: "writer_step cfg T B w (mark_unhealthy w)"
| step_detached_begin: "writer_step cfg T B w (detached_begin w)"
| step_detached_end: "0 < w_detached w \<Longrightarrow> writer_step cfg T B w (detached_end res w)"
| step_refuse: "w_detached w = 0 \<or> deadline_passed \<Longrightarrow> writer_step cfg T B w (shutdown_refuse w)"
| step_world: "writer_step cfg T B w (w\<lparr>w_db := s\<rparr>)"
| step_close: "w_shutting_down w \<Longrightarrow> writer_step cfg T B w (shutdown_close w)"
| step_task: "w_running w \<Longrightarrow>
    writer_step cfg T B w (writer_iteration cfg T B others flt timeout others' flt' w)"

inductive_cases writer_stepE: "writer_step cfg T B w w'"

section \<open>What a flush does\<close>

lemma try_flush_Inl: "try_flush T B batch inst f s = (Inl e, s') \<Longrightarrow> s' = s"
  by (auto simp: try_flush_def split: tx_fault.splits sum.splits)

lemma try_flush_Inr:
  "try_flush T B batch inst f s = (Inr n, s') \<longleftrightarrow>
     f = NoFault \<and> write_batch T B inst (finalized_ids batch) batch (s, 0) = Inr (s', n)"
  by (auto simp: try_flush_def split: tx_fault.splits sum.splits)

text \<open>The tables as attempt \<open>a + k\<close> finds them, when attempt \<open>a\<close> found \<open>s\<close>.\<close>

fun world :: "(nat \<Rightarrow> db \<Rightarrow> db) \<Rightarrow> nat \<Rightarrow> nat \<Rightarrow> db \<Rightarrow> db" where
  "world others a 0 s = s"
| "world others a (Suc k) s = world others (Suc a) k (others a s)"

definition flush_committed ::
  "time_crate \<Rightarrow> u64_binding \<Rightarrow> string option \<Rightarrow> pending_write list \<Rightarrow> db \<Rightarrow> flush_outcome \<Rightarrow> bool" where
  "flush_committed T B inst batch s fo \<longleftrightarrow>
     write_batch T B inst (finalized_ids batch) batch (s, 0) = Inr (fo_db fo, fo_committed fo)
     \<and> fo_acks fo = ack_all batch (Inr ())"

definition flush_refused :: "pending_write list \<Rightarrow> db \<Rightarrow> flush_outcome \<Rightarrow> bool" where
  "flush_refused batch s fo \<longleftrightarrow>
     fo_db fo = s \<and> fo_committed fo = 0
     \<and> (\<exists>e. fo_acks fo = ack_all batch (Inl (Sqlite e)) \<and> (is_busy e \<longrightarrow> fo_attempts fo = 7))"

lemma flush_loop_spec:
  assumes "attempt \<le> 6" "fo = flush_loop T B inst others flt batch attempt slept s"
  shows "\<exists>k. fo_attempts fo = attempt + k + 1 \<and> attempt + k \<le> 6
    \<and> fo_backoff_ms fo + 20 * 2 ^ attempt = slept + 20 * 2 ^ (attempt + k)
    \<and> (if fo_ok fo then flush_committed T B inst batch (world others attempt k s) fo
       else flush_refused batch (world others attempt k s) fo)"
  using assms
proof (induction T B inst others flt batch attempt slept s rule: flush_loop.induct)
  case (1 T B inst others flt batch attempt slept s)
  obtain res s' where tf: "try_flush T B batch inst (flt attempt) s = (res, s')" by fastforce
  show ?case
  proof (cases res)
    case (Inr n)
    then show ?thesis
      using 1(2,3) tf
      by (intro exI [of _ 0])
        (simp add: flush_loop.simps [of T B inst] flush_committed_def try_flush_Inr)
  next
    case (Inl e)
    then have s': "s' = s" using tf try_flush_Inl by blast
    show ?thesis
    proof (cases "is_busy e \<and> attempt < 6")
      case True
      have "fo = flush_loop T B inst others flt batch (attempt + 1) (slept + 20 * 2 ^ attempt)
          (others attempt s)"
        using 1(3) tf Inl True s' by (simp add: flush_loop.simps [of T B inst _ _ _ attempt])
      with 1(1) [OF tf [symmetric] Inl] True s' obtain k where k:
          "fo_attempts fo = attempt + 1 + k + 1" "attempt + 1 + k \<le> 6"
          "fo_backoff_ms fo + 20 * 2 ^ (attempt + 1) = slept + 20 * 2 ^ attempt + 20 * 2 ^ (attempt + 1 + k)"
          "if fo_ok fo
           then flush_committed T B inst batch (world others (attempt + 1) k (others attempt s)) fo
           else flush_refused batch (world others (attempt + 1) k (others attempt s)) fo"
        by auto
      then show ?thesis by (intro exI [of _ "Suc k"]) (cases "fo_ok fo"; simp)
    next
      case False
      then show ?thesis
        using 1(2,3) tf Inl s'
        by (intro exI [of _ 0]) (auto simp: flush_loop.simps [of T B inst] flush_refused_def)
    qed
  qed
qed

section \<open>What a committed batch leaves\<close>

definition same_identity :: "request_record \<Rightarrow> request_record \<Rightarrow> bool" where
  "same_identity r q \<longleftrightarrow>
     rr_created_at r = rr_created_at q \<and> rr_consumer_id r = rr_consumer_id q
     \<and> rr_model r = rr_model q \<and> rr_endpoint r = rr_endpoint q"

text \<open>
  What the producers owe the batch: every finalize carries a well-formed terminal record, and
  records with one id, queued or stored, describe one request.
\<close>

definition batch_records :: "pending_write list \<Rightarrow> request_record list" where
  "batch_records batch = List.map_filter pw_record batch"

definition coherent_with :: "time_crate \<Rightarrow> request_record list \<Rightarrow> db \<Rightarrow> bool" where
  "coherent_with T rs s \<longleftrightarrow>
     (\<forall>r \<in> set rs. accepted_as T r s)
     \<and> (\<forall>r \<in> set rs. \<forall>q \<in> set rs. rr_request_id r = rr_request_id q \<longrightarrow> same_identity r q)"

text \<open>
  The terminal rows together with the finalizes of the batch: what the rollup may have to hold while
  the batch is written.
\<close>

definition batch_contributions :: "time_crate \<Rightarrow> pending_write list \<Rightarrow> contribution multiset" where
  "batch_contributions T batch =
     mset (map (\<lambda>r. terminal r (from_record T r))
       (List.map_filter pw_record (filter (\<lambda>p. pw_op p = Finalize) batch)))"

definition room_for :: "time_crate \<Rightarrow> pending_write list \<Rightarrow> db \<Rightarrow> bool" where
  "room_for T batch s \<longleftrightarrow>
     totals_fit (batch_contributions T batch + row_contributions T (usage_records s))"

lemma batch_contributions_simps [simp]:
  "batch_contributions T [] = {#}"
  "batch_contributions T (p # ps) =
     (case pw_record p of
        Some r \<Rightarrow> if pw_op p = Finalize then {#terminal r (from_record T r)#} else {#}
      | None \<Rightarrow> {#}) + batch_contributions T ps"
  by (auto simp: batch_contributions_def List.map_filter_simps split: option.split)

lemma insert_accept_contributions:
  "insert_accept T r inst s = Inr s' \<Longrightarrow>
   row_contributions T (usage_records s') = row_contributions T (usage_records s)"
  by (auto simp: insert_accept_def Let_def split: if_splits)

definition finalizes_wf :: "pending_write list \<Rightarrow> bool" where
  "finalizes_wf batch \<longleftrightarrow>
     list_all (\<lambda>p. pw_op p = Finalize \<longrightarrow>
       pred_option (\<lambda>r. wf_record r \<and> record_is_terminal r) (pw_record p)) batch"

text \<open>The request has a row, and when \<open>fin\<close> its row is terminal.\<close>

definition recorded :: "bool \<Rightarrow> string \<Rightarrow> db \<Rightarrow> bool" where
  "recorded fin x s \<longleftrightarrow>
     list_ex (\<lambda>row. ur_request_id row = x
       \<and> (fin \<longrightarrow> ur_request_status row \<noteq> ''in_flight'')) (usage_records s)"

text \<open>How one write for \<open>r\<close> changes the rows: not at all, by a new row, or at one row.\<close>

definition row_step :: "time_crate \<Rightarrow> request_record \<Rightarrow> usage_row list \<Rightarrow> usage_row list \<Rightarrow> bool" where
  "row_step T r rows rows' \<longleftrightarrow>
     rows' = rows
     \<or> (\<exists>row. rows' = rows @ [row] \<and> ur_request_id row = rr_request_id r
           \<and> (\<forall>q. same_identity r q \<longrightarrow> same_request T q row))
     \<or> (\<exists>pre row post v. rows = pre @ row # post \<and> rows' = pre @ updated_row r v row # post)"

lemma same_request_new:
  "same_identity r q \<Longrightarrow> same_request T q (accept_row T inst r i)"
  "same_identity r q \<Longrightarrow> same_request T q (terminal_row T inst r v i)"
  by (auto simp: same_request_def same_identity_def accept_row_def terminal_row_def split: prod.split)

lemma same_request_updated [simp]: "same_request T q (updated_row r v row) = same_request T q row"
  by (simp add: same_request_def)

lemma terminal_not_in_flight: "record_is_terminal r \<Longrightarrow>
    request_status_as_str (rr_request_status r) \<noteq> ''in_flight''"
  by (cases "rr_request_status r") (simp_all add: record_is_terminal_def)

lemma insert_accept_effect:
  assumes "insert_accept T r inst s = Inr s'"
  shows "row_step T r (usage_records s) (usage_records s')"
    and "recorded False (rr_request_id r) s'" and "recorded f x s \<Longrightarrow> recorded f x s'"
  using assms
  by (auto simp: insert_accept_def Let_def recorded_def has_request_def list_ex_iff row_step_def
      same_request_new split: if_splits)

context ledger_env
begin

lemma accepted_as_write:
  assumes "coherent_with T rs s" "r \<in> set rs"
    and "row_step T r (usage_records s) (usage_records s')"
  shows "coherent_with T rs s'"
  using assms by (fastforce simp: coherent_with_def accepted_as_def row_step_def)

lemma finalize_effect:
  assumes "finalize_record T bind r inst s = Inr s'" "rollup_consistent T s" "record_is_terminal r"
  shows "row_step T r (usage_records s) (usage_records s')"
    and "recorded True (rr_request_id r) s'"
    and "recorded fin x s \<Longrightarrow> recorded fin x s'"
proof -
  have st: "ur_request_status (updated_row r v row) \<noteq> ''in_flight''"
    "ur_request_status (terminal_row T inst r v n) \<noteq> ''in_flight''" for v row n
    using terminal_not_in_flight [OF assms(3)]
    by (simp_all add: updated_row_def terminal_row_def split: prod.split)
  from assms(1,2) show "row_step T r (usage_records s) (usage_records s')"
  proof (cases rule: finalize_record_cases)
    case (update pre row post v)
    then have "usage_records s' = pre @ updated_row r v row # post" by simp
    with update(1) show ?thesis unfolding row_step_def by blast
  next
    case (insert v n)
    then have "usage_records s' = usage_records s @ [terminal_row T inst r v n]" by simp
    then show ?thesis unfolding row_step_def using ids_of_new(2) same_request_new(2) by blast
  qed
  from assms(1,2) show "recorded True (rr_request_id r) s'"
    by (cases rule: finalize_record_cases) (auto simp: recorded_def st)
  from assms(1,2) show "recorded fin x s \<Longrightarrow> recorded fin x s'"
    by (cases rule: finalize_record_cases) (auto simp: recorded_def st)
qed

lemma write_pending_invariant:
  assumes "write_pending T bind inst fin p (s, n) = Inr (s', n')"
    and "rollup_consistent T s" "coherent_with T rs s" "finalizes_wf [p]"
    and "set (batch_records [p]) \<subseteq> set rs" "room_for T (p # ps) s"
  shows "rollup_consistent T s' \<and> coherent_with T rs s' \<and> room_for T ps s'
    \<and> (recorded f x s \<longrightarrow> recorded f x s')
    \<and> (\<forall>r. pw_record p = Some r \<longrightarrow>
          (pw_op p = Finalize \<longrightarrow> recorded True (rr_request_id r) s')
        \<and> (pw_op p = Accept \<longrightarrow> rr_request_id r \<in> set fin \<or> recorded False (rr_request_id r) s'))"
proof (cases "pw_record p")
  case None
  then show ?thesis using assms(1-3,6) by (simp add: write_pending_def room_for_def)
next
  case (Some r)
  have r: "r \<in> set rs" using assms(5) Some by (simp add: batch_records_def List.map_filter_simps)
  show ?thesis
  proof (cases "pw_op p")
    case Accept
    show ?thesis
    proof (cases "rr_request_id r \<in> set fin")
      case True
      then show ?thesis
        using assms(1-3,6) Some Accept by (simp add: write_pending_def room_for_def)
    next
      case False
      then have i: "insert_accept T r inst s = Inr s'"
        using assms(1) Some Accept by (auto simp: write_pending_def res_bind_Inr_iff)
      note e = insert_accept_effect [OF i]
      show ?thesis
        using accepted_as_write [OF assms(3) r e(1)] insert_accept_consistent [OF i assms(2)]
          e(2,3) Some Accept assms(6) insert_accept_contributions [OF i]
        by (simp add: room_for_def)
    qed
  next
    case Finalize
    then have f: "finalize_record T bind r inst s = Inr s'" and w: "wf_record r" "record_is_terminal r"
      using assms(1,4) Some by (auto simp: write_pending_def res_bind_Inr_iff finalizes_wf_def)
    have a: "accepted_as T r s" using assms(3) r by (simp add: coherent_with_def)
    have now: "totals_fit (batch_contributions T ps + add_mset (terminal r (from_record T r))
        (row_contributions T (usage_records s)))"
      using assms(6) Some Finalize by (simp add: room_for_def)
    have "room_for T ps s'"
      unfolding room_for_def
      by (rule hourly.fits_subset [OF now])
        (simp add: finalize_contributions [OF f assms(2) w a] del: add_mset_add_single)
    moreover have "totals_fit (add_mset (terminal r (from_record T r))
        (row_contributions T (usage_records s)))"
      using hourly.fits_part [OF now] .
    then have "rollup_fits T s" "rollup_fits T s'"
      using finalize_fits [OF f assms(2) w a] hourly.fits_less by (auto simp: rollup_fits_def)
    moreover note e = finalize_effect [OF f assms(2) w(2)]
    ultimately show ?thesis
      using finalize_record_consistent [OF f assms(2) w a]
        accepted_as_write [OF assms(3) r e(1)] e(2,3) Some Finalize by simp
  next
    case Barrier
    then show ?thesis using assms(1-3,6) Some by (simp add: write_pending_def room_for_def)
  qed
qed

lemma write_batch_invariant:
  assumes "write_batch T bind inst fin ps (s, n) = Inr (s', n')"
    and "rollup_consistent T s" "coherent_with T rs s" "finalizes_wf ps"
    and "set (batch_records ps) \<subseteq> set rs" "room_for T ps s"
  shows "rollup_consistent T s' \<and> (recorded f x s \<longrightarrow> recorded f x s')
    \<and> (\<forall>p \<in> set ps. \<forall>r. pw_record p = Some r \<longrightarrow>
          (pw_op p = Finalize \<longrightarrow> recorded True (rr_request_id r) s')
        \<and> (pw_op p = Accept \<longrightarrow> rr_request_id r \<in> set fin \<or> recorded False (rr_request_id r) s'))"
  using assms
proof (induction ps arbitrary: s n f x)
  case (Cons p ps)
  from Cons.prems(1) obtain t m where t: "write_pending T bind inst fin p (s, n) = Inr (t, m)"
      "write_batch T bind inst fin ps (t, m) = Inr (s', n')"
    by (auto simp: res_bind_Inr_iff)
  have sub: "finalizes_wf [p]" "finalizes_wf ps" "set (batch_records [p]) \<subseteq> set rs"
      "set (batch_records ps) \<subseteq> set rs"
    using Cons.prems(4,5)
    by (auto simp: finalizes_wf_def batch_records_def List.map_filter_simps split: option.splits)
  note w = write_pending_invariant [OF t(1) Cons.prems(2,3) sub(1,3) Cons.prems(6)]
  then have c: "rollup_consistent T t" "coherent_with T rs t" "room_for T ps t" by blast+
  note ih = Cons.IH [OF t(2) c(1,2) sub(2,4) c(3)]
  have up: "recorded g y t \<Longrightarrow> recorded g y s'" for g y using ih by blast
  have "rollup_consistent T s'" using ih by blast
  moreover have "recorded f x s \<longrightarrow> recorded f x s'" using w up by blast
  moreover have "(pw_op q = Finalize \<longrightarrow> recorded True (rr_request_id r) s')
      \<and> (pw_op q = Accept \<longrightarrow> rr_request_id r \<in> set fin \<or> recorded False (rr_request_id r) s')"
    if "q \<in> set (p # ps)" "pw_record q = Some r" for q r
    using that w up ih by (cases "q = p") auto
  ultimately show ?case by blast
qed simp

end

section \<open>The queue loses nothing\<close>

definition writer_invariant :: "writer_config \<Rightarrow> writer \<Rightarrow> bool" where
  "writer_invariant cfg w \<longleftrightarrow>
     length (w_queue w) \<le> queue_size cfg \<and> length (w_batch w) \<le> batch_size cfg
     \<and> mset (map pw_ack (w_sent w))
         = mset (map pw_ack (w_queue w)) + mset (map pw_ack (w_batch w)) + mset (map fst (w_acks w))
     \<and> (w_closed w \<longrightarrow> w_queue w = [] \<and> channel_closed w)
     \<and> (\<not> w_running w \<longrightarrow> w_closed w \<and> w_batch w = [])
     \<and> (\<not> w_sender w \<longrightarrow> w_shutting_down w)"

lemma acks_of_flush:
  "map fst (fo_acks (flush_with_retry T B inst others flt batch s)) = map pw_ack batch"
proof (cases "batch = []")
  case False
  obtain k where "if fo_ok (flush_loop T B inst others flt batch 0 0 s)
      then flush_committed T B inst batch (world others 0 k s) (flush_loop T B inst others flt batch 0 0 s)
      else flush_refused batch (world others 0 k s) (flush_loop T B inst others flt batch 0 0 s)"
    using flush_loop_spec [OF _ refl, of 0 T B inst others flt batch 0 s] by auto
  then show ?thesis
    using False
    by (auto simp: flush_with_retry_def flush_committed_def flush_refused_def ack_all_def
        split: if_splits)
qed (simp add: flush_with_retry_def)

lemma acks_of_flush_mset [simp]:
  "image_mset fst (mset (fo_acks (flush_with_retry T B inst others flt batch s)))
     = image_mset pw_ack (mset batch)"
  by (metis acks_of_flush mset_map)

lemma acks_of_flush_Nil [simp]: "fo_acks (flush_with_retry T B inst others flt [] s) = []"
  by (simp add: flush_with_retry_def)

lemma task_receive_invariant:
  "writer_invariant cfg w \<Longrightarrow> w_running w \<Longrightarrow>
   writer_invariant cfg (task_receive cfg w) \<and> w_running (task_receive cfg w)"
  by (auto simp: writer_invariant_def task_receive_def channel_closed_def ac_simps
      split: list.split)

lemma task_drain_invariant:
  "writer_invariant cfg w \<Longrightarrow> w_running w \<Longrightarrow>
   writer_invariant cfg (task_drain cfg w) \<and> w_running (task_drain cfg w)"
  by (auto simp: writer_invariant_def task_drain_def Let_def channel_closed_def)

lemma task_flush_invariant:
  "writer_invariant cfg w \<Longrightarrow> w_running w \<Longrightarrow>
   writer_invariant cfg (task_flush cfg T B others flt timeout w)
   \<and> w_running (task_flush cfg T B others flt timeout w)"
  by (auto simp: writer_invariant_def task_flush_def apply_flush_def Let_def channel_closed_def
      ac_simps)

lemma task_report_invariant:
  "writer_invariant cfg (task_report cfg w) = writer_invariant cfg w"
  "w_running (task_report cfg w) = w_running w"
  by (simp_all add: writer_invariant_def task_report_def Let_def channel_closed_def)

lemma task_exit_invariant:
  "writer_invariant cfg w \<Longrightarrow> w_running w \<Longrightarrow> writer_invariant cfg (task_exit cfg T B others flt w)"
  by (auto simp: writer_invariant_def task_exit_def apply_flush_def Let_def channel_closed_def)

lemmas writer_flag_defs =
  mark_unhealthy_def detached_begin_def detached_end_def report_detached_result_def
  shutdown_refuse_def shutdown_close_def

lemma clone_sender_invariant:
  "clone_sender w = (res, w') \<Longrightarrow> writer_invariant cfg w \<Longrightarrow>
   writer_invariant cfg w' \<and> (res = Inr () \<longrightarrow> 0 < w_clones w')"
  by (auto simp: writer_invariant_def clone_sender_def channel_closed_def split: if_splits)

lemma send_pending_invariant:
  "send_pending cfg p w = Some w' \<Longrightarrow> 0 < w_clones w \<Longrightarrow> writer_invariant cfg w \<Longrightarrow>
   writer_invariant cfg w'"
  by (auto simp: writer_invariant_def send_pending_def channel_closed_def split: if_splits)

lemma drop_clone_invariant:
  "0 < w_clones w \<Longrightarrow> writer_invariant cfg w \<Longrightarrow>
   writer_invariant cfg (w\<lparr>w_clones := w_clones w - 1\<rparr>)"
  by (auto simp: writer_invariant_def channel_closed_def)

lemma try_finalize_invariant:
  assumes "try_finalize cfg r ack w = (res, w')" "writer_invariant cfg w"
  shows "writer_invariant cfg w'"
proof -
  obtain u v where c: "clone_sender w = (u, v)" by fastforce
  note i = clone_sender_invariant [OF c assms(2)]
  show ?thesis
  proof (cases u)
    case (Inl e)
    then show ?thesis using assms(1) c i by (simp add: try_finalize_def)
  next
    case (Inr x)
    then have v: "writer_invariant cfg v" "0 < w_clones v" using i by simp_all
    show ?thesis
    proof (cases "send_pending cfg \<lparr>pw_op = Finalize, pw_record = Some r, pw_ack = ack\<rparr> v")
      case None
      then show ?thesis
        using assms(1) c Inr drop_clone_invariant [OF v(2,1)] by (simp add: try_finalize_def)
    next
      case (Some q)
      then show ?thesis
        using assms(1) c Inr send_pending_invariant [OF Some v(2,1)] by (simp add: try_finalize_def)
    qed
  qed
qed

lemma flags_invariant:
  "writer_invariant cfg w \<Longrightarrow> writer_invariant cfg (mark_unhealthy w)"
  "writer_invariant cfg w \<Longrightarrow> writer_invariant cfg (detached_begin w)"
  "writer_invariant cfg w \<Longrightarrow> writer_invariant cfg (detached_end res w)"
  "writer_invariant cfg w \<Longrightarrow> writer_invariant cfg (shutdown_refuse w)"
  "writer_invariant cfg w \<Longrightarrow> w_shutting_down w \<Longrightarrow> writer_invariant cfg (shutdown_close w)"
  "writer_invariant cfg w \<Longrightarrow> writer_invariant cfg (w\<lparr>w_db := s\<rparr>)"
  by (simp_all add: writer_invariant_def writer_flag_defs channel_closed_def Let_def split: sum.split)

lemma task_invariant:
  assumes "writer_invariant cfg w" "w_running w"
  shows "writer_invariant cfg (writer_iteration cfg T B others flt timeout others' flt' w)"
proof -
  note r = task_receive_invariant [OF assms]
  note d = task_drain_invariant [OF conjunct1 [OF r] conjunct2 [OF r]]
  note f = task_flush_invariant [OF conjunct1 [OF d] conjunct2 [OF d]]
  show ?thesis
    unfolding writer_iteration_def
    by (intro task_exit_invariant) (simp_all add: f task_report_invariant)
qed

lemma writer_step_invariant:
  "writer_step cfg T B w w' \<Longrightarrow> writer_invariant cfg w \<Longrightarrow> writer_invariant cfg w'"
  by (erule writer_step.cases)
    (simp_all add: clone_sender_invariant send_pending_invariant try_finalize_invariant
      drop_clone_invariant [simplified] flags_invariant task_invariant)

lemma writer_new_invariant [simp]: "writer_invariant cfg (writer_new s)"
  by (simp add: writer_invariant_def writer_new_def)

lemma reachable_invariant:
  "(writer_step cfg T B)\<^sup>*\<^sup>* w w' \<Longrightarrow> writer_invariant cfg w \<Longrightarrow> writer_invariant cfg w'"
  by (induction rule: rtranclp_induct) (auto intro: writer_step_invariant)

lemma task_healthy:
  "w_healthy (task_receive cfg w) = w_healthy w" "w_healthy (task_drain cfg w) = w_healthy w"
  "w_healthy (task_flush cfg T B others flt timeout w) \<Longrightarrow> w_healthy w"
  "w_healthy (task_report cfg w) = w_healthy w" "w_healthy (task_exit cfg T B others flt w) = w_healthy w"
  by (auto simp: task_receive_def task_drain_def task_flush_def task_report_def task_exit_def
      apply_flush_def Let_def split: list.split if_splits)

lemma ops_healthy:
  "clone_sender w = (res, w') \<Longrightarrow> w_healthy w' = w_healthy w"
  "send_pending cfg p w = Some w' \<Longrightarrow> w_healthy w' = w_healthy w"
  "try_finalize cfg r ack w = (res, w') \<Longrightarrow> w_healthy w' = w_healthy w"
  "w_healthy (detached_end dres w) \<Longrightarrow> w_healthy w"
  "w_healthy (detached_begin w) = w_healthy w" "\<not> w_healthy (mark_unhealthy w)"
  "w_healthy (shutdown_refuse w) = w_healthy w" "w_healthy (shutdown_close w) = w_healthy w"
proof -
  show c: "w_healthy w' = w_healthy w" if "clone_sender w = (res, w')" for w w' res
    using that by (auto simp: clone_sender_def split: if_splits)
  show p: "w_healthy w' = w_healthy w" if "send_pending cfg p w = Some w'" for w w' p
    using that by (auto simp: send_pending_def split: if_splits)
  show "w_healthy w' = w_healthy w" if t: "try_finalize cfg r ack w = (res, w')"
  proof -
    obtain u v where "clone_sender w = (u, v)" by fastforce
    with t show ?thesis
      using c [of w u v] p by (auto simp: try_finalize_def split: sum.splits option.splits unit.splits)
  qed
qed (simp_all add: writer_flag_defs Let_def split: sum.splits)

lemma task_latches:
  "w_healthy (writer_iteration cfg T B others flt timeout others' flt' w) \<Longrightarrow> w_healthy w"
  unfolding writer_iteration_def task_healthy(1,2,4,5)
  using task_healthy(1,2,3) by metis

lemma writer_step_latches: "writer_step cfg T B w w' \<Longrightarrow> w_healthy w' \<Longrightarrow> w_healthy w"
  by (erule writer_step.cases) (auto simp: ops_healthy dest: ops_healthy(1-4) task_latches)

lemma reachable_latched:
  "(writer_step cfg T B)\<^sup>*\<^sup>* w w' \<Longrightarrow> w_healthy w' \<Longrightarrow> w_healthy w"
  by (induction rule: rtranclp_induct) (auto dest: writer_step_latches)

section \<open>Collapsing an accept into its finalize\<close>

lemma accept_row_check:
  "pred_option wf_prices (rr_pricing r) \<Longrightarrow> usage_row_check (accept_row T inst r i)"
  by (cases "rr_endpoint r"; cases "rr_pricing r")
    (simp_all add: usage_row_check_def accept_row_def snapshot_columns_def as_tuple_def wf_prices_def
      absent_or_nonneg_def)

lemma update_accepted:
  assumes "rr_request_id q = rr_request_id r" "same_identity q r" "rr_pricing q = rr_pricing r"
  shows "updated_row r v (accept_row T inst q i) = terminal_row T inst r v i"
  using assms
  by (simp add: updated_row_def accept_row_def terminal_row_def same_identity_def coalesce_def
      split: prod.split option.split)

lemma accept_in_flight [simp]:
  "retract_previous (stored_of_row T (accept_row T' inst r i)) h = h"
  by (simp add: retract_previous_def stored_contribution_def stored_of_row_def Let_def accept_row_def
      from_str_lossy_def split: prod.split)

lemma find_append_notin: "\<forall>x \<in> set xs. \<not> P x \<Longrightarrow> find P (xs @ ys) = find P ys"
  by (induction xs) auto

lemma accept_then_finalize:
  assumes "rr_request_id q = rr_request_id r" "same_identity q r" "rr_pricing q = rr_pricing r"
    and "pred_option wf_prices (rr_pricing q)"
  shows "res_bind (insert_accept T q inst s) (finalize_record T B r inst) = finalize_record T B r inst s"
proof (cases "has_request (rr_request_id q) (usage_records s)")
  case True
  then show ?thesis using accept_row_check [OF assms(4)] by (simp add: insert_accept_def)
next
  case False
  let ?i = "fresh_id (map ur_id (usage_records s))"
  let ?a = "accept_row T inst q ?i"
  let ?s = "s\<lparr>usage_records := usage_records s @ [?a]\<rparr>"
  have o: "\<forall>x \<in> set (usage_records s). ur_request_id x \<noteq> rr_request_id r"
    using False assms(1) by (metis has_request_def image_eqI list.set_map)
  have "find (\<lambda>x. ur_request_id x = rr_request_id r) (usage_records s @ [?a]) = Some ?a"
    using o assms(1) by (simp add: find_append_notin)
  then have l: "stored_load T (rr_request_id r) (usage_records ?s) = Some (stored_of_row T ?a)"
    by (simp add: stored_load_def)
  have n: "stored_load T (rr_request_id r) (usage_records s) = None"
    using False assms(1) by (simp add: stored_load_None)
  have m: "map (\<lambda>x. if ur_request_id x = rr_request_id r then updated_row r v x else x)
      (usage_records ?s) = usage_records s @ [terminal_row T inst r v ?i]" for v
    using o assms(1) update_accepted [OF assms(1-3)] by (simp add: map_idI)
  have f: "filter (\<lambda>x. ur_request_id x = rr_request_id r) (usage_records s @ [terminal_row T inst r v ?i])
      = [terminal_row T inst r v ?i]" for v
    using o by (simp add: filter_empty_conv)
  have "insert_accept T q inst s = Inr ?s"
    using False accept_row_check [OF assms(4)] by (simp add: insert_accept_def)
  moreover have "finalize_record T B r inst ?s = finalize_record T B r inst s"
    unfolding finalize_record_def Let_def l n option.case m f by (simp cong: if_cong)
  ultimately show ?thesis by simp
qed

section \<open>Properties\<close>

lemma flush_with_retry_spec:
  assumes "batch \<noteq> []" "fo = flush_with_retry T B inst others flt batch s"
  shows "\<exists>k \<le> 6. fo_attempts fo = k + 1 \<and> fo_backoff_ms fo + 20 = 20 * 2 ^ k
    \<and> (if fo_ok fo then flush_committed T B inst batch (world others 0 k s) fo
       else flush_refused batch (world others 0 k s) fo)"
  using flush_loop_spec [of 0 fo T B inst others flt batch 0 s] assms
  by (auto simp: flush_with_retry_def)

lemma map_filter_set: "set (List.map_filter f xs) = {y. \<exists>x \<in> set xs. f x = Some y}"
  by (induction xs) (auto simp: List.map_filter_simps split: option.split)

lemma finalized_idsD:
  "x \<in> set (finalized_ids batch) \<Longrightarrow>
   \<exists>p \<in> set batch. \<exists>r. pw_op p = Finalize \<and> pw_record p = Some r \<and> x = rr_request_id r"
  unfolding finalized_ids_def set_map map_filter_set by auto

lemma world_invariant:
  "(\<And>k s. P s \<Longrightarrow> P (others k s)) \<Longrightarrow> P s \<Longrightarrow> P (world others a k s)"
  by (induction k arbitrary: a s) auto

text \<open>
  C37: a flush is all or nothing, and bounded. It makes at most seven attempts and sleeps at most
  1260 ms; every waiter of the batch gets one answer and all get the same one. On success the tables
  are the result of writing the whole batch in order to what the last attempt found; on failure they
  are exactly what it found, nothing is counted as committed, every waiter gets the database's own
  error, and a lock error is given up only after the seventh attempt.
\<close>

theorem flush_all_or_nothing:
  assumes "batch \<noteq> []" "fo = flush_with_retry T B inst others flt batch s"
  shows "\<exists>k \<le> 6. fo_attempts fo = k + 1 \<and> fo_backoff_ms fo \<le> 1260
    \<and> (let found = world others 0 k s in
        if fo_ok fo
        then write_batch T B inst (finalized_ids batch) batch (found, 0)
               = Inr (fo_db fo, fo_committed fo)
             \<and> fo_acks fo = map (\<lambda>p. (pw_ack p, Inr ())) batch
        else fo_db fo = found \<and> fo_committed fo = 0
             \<and> (\<exists>e. fo_acks fo = map (\<lambda>p. (pw_ack p, Inl (Sqlite e))) batch
                  \<and> (is_busy e \<longrightarrow> fo_attempts fo = 7)))"
proof -
  obtain k where k: "k \<le> 6" "fo_attempts fo = k + 1" "fo_backoff_ms fo + 20 = 20 * 2 ^ k"
    "if fo_ok fo then flush_committed T B inst batch (world others 0 k s) fo
     else flush_refused batch (world others 0 k s) fo"
    using flush_with_retry_spec [OF assms] by blast
  have "(2 :: nat) ^ k \<le> 2 ^ 6" using k(1) by (intro power_increasing) simp_all
  then have "fo_backoff_ms fo \<le> 1260" using k(3) by simp
  then show ?thesis
    using k by (intro exI [of _ k])
      (cases "fo_ok fo"; simp add: Let_def flush_committed_def flush_refused_def ack_all_def)
qed

definition busy_twice :: "nat \<Rightarrow> tx_fault" where
  "busy_twice k = (if k < 2 then BeginFault (SqliteFailure 5) else NoFault)"

theorem flush_all_or_nothing_witness:
  "\<exists>fo. fo = flush_with_retry gregorian exact_binding None (\<lambda>_ s. s) busy_twice
       [\<lparr>pw_op = Barrier, pw_record = None, pw_ack = 7\<rparr>] empty_db
     \<and> fo_backoff_ms fo \<le> 1260"
  using flush_all_or_nothing [of "[\<lparr>pw_op = Barrier, pw_record = None, pw_ack = 7\<rparr>]" _
      gregorian exact_binding None "\<lambda>_ s. s" busy_twice empty_db]
  by auto


definition sample_batch :: "pending_write list" where
  "sample_batch = [\<lparr>pw_op = Finalize, pw_record = Some sample_record, pw_ack = 0\<rparr>]"


text \<open>
  collapsing an accept into the finalize of the same batch is a pure optimisation for records
  that keep their price: writing the accept and then the finalize leaves the same tables, or the
  same error, as writing the finalize alone.
\<close>

theorem accept_collapse_equivalent:
  assumes "rr_request_id q = rr_request_id r" "same_identity q r" "rr_pricing q = rr_pricing r"
    and "pred_option wf_prices (rr_pricing q)"
  shows "res_bind (insert_accept T q inst s) (finalize_record T B r inst)
    = finalize_record T B r inst s"
  using assms by (rule accept_then_finalize)

theorem accept_collapse_equivalent_witness:
  "res_bind (insert_accept gregorian (sample_record\<lparr>rr_streaming := True\<rparr>) None empty_db)
      (finalize_record gregorian exact_binding sample_record None)
    = finalize_record gregorian exact_binding sample_record None empty_db"
  by (rule accept_collapse_equivalent)
    (simp_all add: same_identity_def sample_record_def record_complete_def with_pricing_def
      wf_prices_def in_i64_def)

text \<open>
  one token count outside the signed 64-bit range refuses the whole batch. If any finalize of a
  batch carries an input token count of 2^63 or more, the flush fails whatever the other records
  are: nothing of the batch is written and every waiter is answered with an error.
\<close>

theorem unbindable_count_fails_batch:
  assumes "rusqlite_binding B" "p \<in> set batch" "pw_op p = Finalize" "pw_record p = Some r"
    and "tu_input (rr_usage r) = Some n" "2 ^ 63 \<le> n"
  shows "\<not> fo_ok (flush_with_retry T B inst others flt batch s)"
proof
  let ?fo = "flush_with_retry T B inst others flt batch s"
  assume ok: "fo_ok ?fo"
  have "B n = None" using rusqlite_binding.bind_out_of_range [OF assms(1,6)] .
  then have "bind_usage B r = Inl ToSqlConversionFailure"
    using assms(5) by (simp add: bind_usage_def bind_opt_def)
  then have f: "finalize_record T B r inst t \<noteq> Inr t'" for t t'
    by (cases "stored_load T (rr_request_id r) (usage_records t)")
      (simp_all add: finalize_record_def Let_def)
  have "write_batch T B inst fin ps st \<noteq> Inr st'" if "p \<in> set ps" for fin ps st st'
    using that
  proof (induction ps arbitrary: st)
    case (Cons q qs)
    have "write_pending T B inst fin p st' \<noteq> Inr st''" for st' st''
      using f by (cases st') (simp add: write_pending_def assms(3,4) res_bind_Inr_iff)
    then have "p \<noteq> q \<or> write_pending T B inst fin q st \<noteq> Inr u" for u by blast
    then show ?case using Cons.IH Cons.prems by (force simp: res_bind_Inr_iff)
  qed simp
  moreover have "batch \<noteq> []" using assms(2) by auto
  ultimately show False
    using flush_with_retry_spec [OF \<open>batch \<noteq> []\<close> refl, of T B inst others flt s] ok assms(2)
    by (auto simp: flush_committed_def)
qed

theorem unbindable_count_fails_batch_witness:
  "\<not> fo_ok (flush_with_retry gregorian exact_binding None (\<lambda>_ s. s) (\<lambda>_. NoFault)
      (\<lparr>pw_op = Finalize, pw_record = Some (set_usage (usage_new (Some (2 ^ 63)) None None) sample_record),
        pw_ack = 1\<rparr> # sample_batch) empty_db)"
  by (rule unbindable_count_fails_batch [OF exact.rusqlite_binding_axioms list.set_intros(1),
        where n = "2 ^ 63"
        and r = "set_usage (usage_new (Some (2 ^ 63)) None None) sample_record"])
    (simp_all add: set_usage_def usage_new_def)

text \<open>
  the bounded queue loses nothing. In every reachable state the queue holds at most
  \<open>queue_size\<close> writes and the batch at most \<open>batch_size\<close>; every write ever queued is waiting in
  exactly one of them or has been answered exactly once; and once the task has exited every queued
  write has been answered.
\<close>

theorem queue_loses_nothing:
  assumes "(writer_step cfg T B)\<^sup>*\<^sup>* (writer_new s) w"
  shows "length (w_queue w) \<le> queue_size cfg \<and> length (w_batch w) \<le> batch_size cfg
    \<and> mset (map pw_ack (w_sent w))
        = mset (map pw_ack (w_queue w)) + mset (map pw_ack (w_batch w)) + mset (map fst (w_acks w))
    \<and> (\<not> w_running w \<longrightarrow> mset (map pw_ack (w_sent w)) = mset (map fst (w_acks w)))"
  using reachable_invariant [OF assms writer_new_invariant]
  by (auto simp: writer_invariant_def)

lemma sample_run:
  "(writer_step default_config gregorian exact_binding)\<^sup>*\<^sup>* (writer_new empty_db)
     (shutdown_close (shutdown_refuse (writer_new empty_db)))"
proof -
  have "writer_step default_config gregorian exact_binding (writer_new empty_db)
      (shutdown_refuse (writer_new empty_db))"
    by (rule step_refuse) (simp add: writer_new_def)
  moreover have "writer_step default_config gregorian exact_binding
      (shutdown_refuse (writer_new empty_db)) (shutdown_close (shutdown_refuse (writer_new empty_db)))"
    by (rule step_close) (simp add: shutdown_refuse_def)
  ultimately show ?thesis by auto
qed

theorem queue_loses_nothing_witness:
  "length (w_queue (shutdown_close (shutdown_refuse (writer_new empty_db)))) \<le> queue_size default_config"
  using queue_loses_nothing [OF sample_run] by simp

text \<open>
  a metering loss is never forgotten. Once the writer is unhealthy (a flush failed for good, or a
  detached write was lost) it reports not ready in every later state.
\<close>

theorem unhealthy_is_latched:
  assumes "(writer_step cfg T B)\<^sup>*\<^sup>* w w'" "\<not> w_healthy w"
  shows "\<not> is_ready w'"
  using reachable_latched [OF assms(1)] assms(2) by (auto simp: is_ready_def)

theorem unhealthy_is_latched_witness:
  "\<not> is_ready (mark_unhealthy (writer_new empty_db))"
  by (rule unhealthy_is_latched [of default_config gregorian exact_binding, OF rtranclp.rtrancl_refl])
    (simp add: mark_unhealthy_def)

end
