(* ===== verification/Statements.thy ===== *)
theory Statements
  imports Statement_Store
begin

text \<open>
  \<^verbatim>\<open>src/src/billing/statements.rs\<close> and the usage query of \<^verbatim>\<open>src/src/billing/store.rs\<close>:
  which days are closeable, which usage rows a statement charges and what an incomplete day looks
  like. The lemmas relate the grouped query to the rows of the window: every row is on exactly one
  line or counted as incomplete, and only a cost that overflows makes a measured group incomplete.
\<close>

section \<open>Three-valued logic\<close>

type_synonym sql_bool = "bool option"

definition sql_and :: "sql_bool \<Rightarrow> sql_bool \<Rightarrow> sql_bool" where
  "sql_and a b =
     (if a = Some False \<or> b = Some False then Some False
      else if a = None \<or> b = None then None else Some True)"

definition sql_or :: "sql_bool \<Rightarrow> sql_bool \<Rightarrow> sql_bool" where
  "sql_or a b =
     (if a = Some True \<or> b = Some True then Some True
      else if a = None \<or> b = None then None else Some False)"

definition sql_cmp :: "(int \<Rightarrow> int \<Rightarrow> bool) \<Rightarrow> int option \<Rightarrow> int option \<Rightarrow> sql_bool" where
  "sql_cmp f a b = (case (a, b) of (Some x, Some y) \<Rightarrow> Some (f x y) | _ \<Rightarrow> None)"

definition is_not_null :: "'a option \<Rightarrow> sql_bool" where
  "is_not_null a = Some (a \<noteq> None)"

definition coalesce_to :: "'a option \<Rightarrow> 'a \<Rightarrow> 'a" where
  "coalesce_to a x = (case a of None \<Rightarrow> x | Some y \<Rightarrow> y)"

lemma coalesce_to_simps [simp]: "coalesce_to None x = x" "coalesce_to (Some y) x = y"
  by (simp_all add: coalesce_to_def)

lemma sql_and_True: "sql_and a b = Some True \<longleftrightarrow> a = Some True \<and> b = Some True"
  by (auto simp: sql_and_def)

lemma coalesce_to_False: "coalesce_to v False \<longleftrightarrow> v = Some True"
  by (cases v) simp_all

section \<open>A day's usage, grouped\<close>

type_synonym group_key = "string \<times> i64 option \<times> i64 option \<times> i64 option"

record usage_group =
  ug_model :: string
  ug_prices :: "pricing_snapshot option"
  ug_request_count :: i64
  ug_input_tokens :: "i64 option"
  ug_cached_tokens :: "i64 option"
  ug_output_tokens :: "i64 option"
  ug_incomplete_count :: i64

text \<open>The \<open>billable\<close> column of the query, a three-valued conjunction made two-valued at the end.\<close>

definition row_billable :: "usage_row \<Rightarrow> bool" where
  "row_billable r =
     coalesce_to
       (foldr sql_and
          [is_not_null (ur_input_tokens r), sql_cmp (\<ge>) (ur_input_tokens r) (Some 0),
           is_not_null (ur_output_tokens r), sql_cmp (\<ge>) (ur_output_tokens r) (Some 0),
           is_not_null (ur_input_price r), is_not_null (ur_cached_price r),
           is_not_null (ur_output_price r),
           sql_or (sql_cmp (=) (ur_cached_price r) (ur_input_price r))
             (is_not_null (ur_cached_tokens r)),
           sql_cmp (\<ge>) (Some (coalesce_to (ur_cached_tokens r) 0)) (Some 0),
           sql_cmp (\<le>) (Some (coalesce_to (ur_cached_tokens r) 0)) (ur_input_tokens r)]
          (Some True))
       False"

definition usage_key :: "usage_row \<Rightarrow> group_key" where
  "usage_key r = (ur_model r, ur_input_price r, ur_cached_price r, ur_output_price r)"

definition window_rows :: "string \<Rightarrow> string \<times> string \<Rightarrow> db \<Rightarrow> usage_row list" where
  "window_rows c bounds s =
     filter (\<lambda>r. ur_consumer_id r = c \<and> in_text_window bounds (ur_created_at r)) (usage_records s)"

text \<open>\<open>SUM\<close> of a nullable column.\<close>

definition sum_column :: "(usage_row \<Rightarrow> int option) \<Rightarrow> usage_row list \<Rightarrow> rusqlite_error + int option" where
  "sum_column f rows = sql_sum (List.map_filter f rows)"

definition group_of :: "usage_row list \<Rightarrow> group_key \<Rightarrow> rusqlite_error + usage_group" where
  "group_of rows key =
     (let grp = filter (\<lambda>r. usage_key r = key) rows;
          billed = filter row_billable grp;
          (model, ip, cp, op) = key
      in res_bind (sum_column ur_input_tokens billed) (\<lambda>i.
         res_bind (sum_column ur_cached_tokens billed) (\<lambda>c.
         res_bind (sum_column ur_output_tokens billed) (\<lambda>out.
           Inr \<lparr>ug_model = model,
                ug_prices = (case from_columns ip cp op of Inl _ \<Rightarrow> None | Inr p \<Rightarrow> Some p),
                ug_request_count = int (length billed), ug_input_tokens = i,
                ug_cached_tokens = c, ug_output_tokens = out,
                ug_incomplete_count = int (length (filter (\<lambda>r. \<not> row_billable r) grp))\<rparr>))))"

fun res_map :: "('a \<Rightarrow> 'e + 'b) \<Rightarrow> 'a list \<Rightarrow> 'e + 'b list" where
  "res_map f [] = Inr []"
| "res_map f (x # xs) = res_bind (f x) (\<lambda>y. res_bind (res_map f xs) (\<lambda>ys. Inr (y # ys)))"

definition usage_keys :: "usage_row list \<Rightarrow> group_key list" where
  "usage_keys rows = sort (remdups (map usage_key rows))"

definition usage_groups ::
  "string \<Rightarrow> string \<times> string \<Rightarrow> db \<Rightarrow> rusqlite_error + usage_group list" where
  "usage_groups c bounds s =
     (let rows = window_rows c bounds s in res_map (group_of rows) (usage_keys rows))"

section \<open>Pricing a group\<close>

datatype incomplete_reason =
    UsageMissing
  | CachedCountMissing
  | ReasonNoPriceSnapshot
  | ReasonCachedExceedsInput
  | ReasonOverflow

fun reason_of :: "price_error \<Rightarrow> incomplete_reason" where
  "reason_of (NoPriceSnapshot _) = ReasonNoPriceSnapshot"
| "reason_of IncompleteUsage = UsageMissing"
| "reason_of (CachedExceedsInput _ _) = ReasonCachedExceedsInput"
| "reason_of (Overflow _) = ReasonOverflow"
| "reason_of (NotANumber _) = ReasonNoPriceSnapshot"
| "reason_of (OutOfRange _) = ReasonNoPriceSnapshot"

fun reason_display :: "incomplete_reason \<Rightarrow> string" where
  "reason_display UsageMissing = ''the provider did not report usage in full''"
| "reason_display CachedCountMissing =
     ''the provider did not report a cached-token count and the cached price differs''"
| "reason_display ReasonNoPriceSnapshot =
     ''no billing configuration was in force when the request was accepted''"
| "reason_display ReasonCachedExceedsInput =
     ''the upstream reported more cached tokens than input tokens''"
| "reason_display ReasonOverflow = ''pricing the usage overflowed micro-dollars''"

definition token_count :: "i64 option \<Rightarrow> u64 option" where
  "token_count v = Option.bind v (\<lambda>n. if 0 \<le> n then Some n else None)"

definition map_reason :: "price_error + 'a \<Rightarrow> incomplete_reason + 'a" where
  "map_reason r = (case r of Inl e \<Rightarrow> Inl (reason_of e) | Inr x \<Rightarrow> Inr x)"

definition line_for :: "usage_group \<Rightarrow> incomplete_reason + line_draft" where
  "line_for g =
     (case ug_prices g of
        None \<Rightarrow> Inl ReasonNoPriceSnapshot
      | Some prices \<Rightarrow>
          if needs_cached_count prices \<and> ug_cached_tokens g = None then Inl CachedCountMissing
          else res_bind (map_reason (billable (token_count (ug_input_tokens g))
                   (token_count (ug_output_tokens g)) (token_count (ug_cached_tokens g))))
                 (\<lambda>(input, output, cached).
                   res_bind (map_reason (price_line input cached output prices)) (\<lambda>cost.
                     Inr \<lparr>ld_model = ug_model g, ld_prices = prices,
                          ld_request_count = ug_request_count g,
                          ld_input_tokens = wrap_i64 input,
                          ld_cached_input_tokens = wrap_i64 cached,
                          ld_output_tokens = wrap_i64 output, ld_cost = cost\<rparr>)))"

section \<open>The generator\<close>

definition MAX_CATCHUP_DAYS :: i64 where
  "MAX_CATCHUP_DAYS = 31"

record generator =
  gen_timezone :: billing_timezone
  gen_close_delay :: i64

definition generator_new :: "billing_timezone \<Rightarrow> i64 \<Rightarrow> generator" where
  "generator_new tz delay = \<lparr>gen_timezone = tz, gen_close_delay = max 0 delay\<rparr>"

definition cutoff_for :: "time_crate \<Rightarrow> generator \<Rightarrow> billing_day \<Rightarrow> instant run" where
  "cutoff_for T g d =
     run_bind (duration_minutes (gen_close_delay g))
       (instant_add T (end_exclusive_utc d (gen_timezone g)))"

definition closable_through :: "time_crate \<Rightarrow> generator \<Rightarrow> instant \<Rightarrow> billing_day option run" where
  "closable_through T g now =
     (let yesterday = day_previous (day_of now (gen_timezone g));
          day_before = day_previous yesterday
      in run_bind (cutoff_for T g yesterday) (\<lambda>cutoff.
           if cutoff \<le> now then Done (Some yesterday)
           else run_bind (cutoff_for T g day_before) (\<lambda>cutoff.
             if cutoff \<le> now then Done (Some day_before) else Done None)))"

definition previous_n :: "billing_day \<Rightarrow> i64 \<Rightarrow> billing_day" where
  "previous_n d n = BillingDay (day_date d - n)"

definition oldest_closeable :: "billing_day \<Rightarrow> billing_day" where
  "oldest_closeable through = previous_n through (MAX_CATCHUP_DAYS - 1)"

text \<open>The loop \<open>while day <= through\<close>.\<close>

function days_from :: "billing_day \<Rightarrow> billing_day \<Rightarrow> billing_day list" where
  "days_from day through = (if day \<le> through then day # days_from (day_next day) through else [])"
  by pat_completeness auto
termination
  by (relation "measure (\<lambda>(day, through). nat (day_date through - day_date day + 1))")
    (auto simp: less_eq_billing_day_def)

declare days_from.simps [simp del]

definition days_to_close ::
  "time_crate \<Rightarrow> string option \<Rightarrow> billing_day \<Rightarrow> billing_day list" where
  "days_to_close T last_closed through =
     (let floor = oldest_closeable through;
          day = (case Option.bind last_closed (day_parse T) of
                   Some d \<Rightarrow> day_next d | None \<Rightarrow> floor)
      in days_from (if day < floor then floor else day) through)"

definition catchup_truncated :: "time_crate \<Rightarrow> string option \<Rightarrow> billing_day \<Rightarrow> bool" where
  "catchup_truncated T last_closed through =
     (case Option.bind last_closed (day_parse T) of
        Some d \<Rightarrow> day_next d < oldest_closeable through
      | None \<Rightarrow> True)"

text \<open>The walk over the groups: the incomplete count so far and the lines so far.\<close>

fun bill_groups :: "i64 \<Rightarrow> line_draft list \<Rightarrow> usage_group list \<Rightarrow> i64 \<times> line_draft list" where
  "bill_groups incomplete ls [] = (incomplete, ls)"
| "bill_groups incomplete ls (g # gs) =
     (let incomplete = incomplete + ug_incomplete_count g
      in if ug_request_count g = 0 then bill_groups incomplete ls gs
         else case line_for g of
                Inr l \<Rightarrow> bill_groups incomplete (ls @ [l]) gs
              | Inl _ \<Rightarrow> bill_groups (incomplete + ug_request_count g) ls gs)"

definition statement_for_day ::
  "time_crate \<Rightarrow> generator \<Rightarrow> partner \<Rightarrow> billing_day \<Rightarrow> instant \<Rightarrow> db \<Rightarrow>
   (billing_error + statement_draft) run" where
  "statement_for_day T g p day cutoff s =
     (let period = period_for_day day (gen_timezone g);
          bounds = to_bounds T period
      in case usage_groups (p_consumer_id p) bounds s of
           Inl e \<Rightarrow> Done (Inl (Database e))
         | Inr groups \<Rightarrow>
             (case bill_groups 0 [] groups of
                (incomplete, ls) \<Rightarrow>
                  run_bind (due_at_for T p (period_end period)) (\<lambda>due.
                    Done (Inr \<lparr>sd_consumer_id = p_consumer_id p, sd_billing_date = day,
                      sd_billing_mode = p_billing_mode p, sd_period_start = fst bounds,
                      sd_period_end = snd bounds, sd_billing_cutoff_at = format_ts T cutoff,
                      sd_due_at = due, sd_incomplete = incomplete, sd_lines = ls\<rparr>))))"

end
