(* ===== verification/Statement_Facts.thy ===== *)
theory Statement_Facts
  imports Statements
begin

text \<open>
  Facts about the usage query and the statement it becomes: what \<open>billable\<close> means once the
  three-valued logic is resolved, what a group holds, and how the groups of a window account for
  its rows.
\<close>

section \<open>Billable rows\<close>

definition priced :: "usage_row \<Rightarrow> bool" where
  "priced r \<longleftrightarrow>
     ur_input_price r \<noteq> None \<and> ur_cached_price r \<noteq> None \<and> ur_output_price r \<noteq> None"

definition measured :: "usage_row \<Rightarrow> bool" where
  "measured r \<longleftrightarrow>
     (\<exists>i out. ur_input_tokens r = Some i \<and> ur_output_tokens r = Some out \<and> 0 \<le> i \<and> 0 \<le> out
        \<and> 0 \<le> coalesce_to (ur_cached_tokens r) 0 \<and> coalesce_to (ur_cached_tokens r) 0 \<le> i
        \<and> (ur_cached_tokens r = None \<longrightarrow> ur_cached_price r = ur_input_price r))"

lemma row_billable_iff: "row_billable r \<longleftrightarrow> priced r \<and> measured r"
proof -
  have "row_billable r \<longleftrightarrow>
     is_not_null (ur_input_tokens r) = Some True \<and>
     sql_cmp (\<ge>) (ur_input_tokens r) (Some 0) = Some True \<and>
     is_not_null (ur_output_tokens r) = Some True \<and>
     sql_cmp (\<ge>) (ur_output_tokens r) (Some 0) = Some True \<and>
     is_not_null (ur_input_price r) = Some True \<and> is_not_null (ur_cached_price r) = Some True \<and>
     is_not_null (ur_output_price r) = Some True \<and>
     sql_or (sql_cmp (=) (ur_cached_price r) (ur_input_price r))
       (is_not_null (ur_cached_tokens r)) = Some True \<and>
     sql_cmp (\<ge>) (Some (coalesce_to (ur_cached_tokens r) 0)) (Some 0) = Some True \<and>
     sql_cmp (\<le>) (Some (coalesce_to (ur_cached_tokens r) 0)) (ur_input_tokens r) = Some True"
    by (simp only: row_billable_def coalesce_to_False foldr.simps o_apply id_apply sql_and_True
        simp_thms list.simps conj_assoc)
  also have "\<dots> \<longleftrightarrow> priced r \<and> measured r"
    by (cases "ur_input_tokens r"; cases "ur_output_tokens r"; cases "ur_input_price r";
        cases "ur_cached_price r"; cases "ur_output_price r")
      (auto simp: sql_cmp_def is_not_null_def sql_or_def priced_def measured_def)
  finally show ?thesis .
qed

section \<open>Sums\<close>

definition tokens_of :: "(usage_row \<Rightarrow> int option) \<Rightarrow> usage_row list \<Rightarrow> int" where
  "tokens_of f rows = sum_list (map (\<lambda>r. coalesce_to (f r) 0) rows)"

lemma tokens_of_simps [simp]:
  "tokens_of f [] = 0"
  "tokens_of f (r # rows) = coalesce_to (f r) 0 + tokens_of f rows"
  by (simp_all add: tokens_of_def)

lemma tokens_of_map_filter: "sum_list (List.map_filter f rows) = tokens_of f rows"
  by (induction rows) (auto simp: map_filter_simps split: option.split)

lemma sum_from_Inr: "sum_from acc xs = Inr n \<Longrightarrow> n = acc + sum_list xs \<and> (xs \<noteq> [] \<longrightarrow> in_i64 n)"
proof (induction acc xs rule: sum_from.induct)
  case (2 acc x xs)
  then show ?case by (cases xs) (auto split: if_splits)
qed simp

lemma sum_column_Inr:
  assumes "sum_column f rows = Inr v"
  shows "v = (if \<forall>r\<in>set rows. f r = None then None else Some (tokens_of f rows))"
    and "in_i64 (tokens_of f rows)"
proof -
  let ?xs = "List.map_filter f rows"
  have e: "?xs = [] \<longleftrightarrow> (\<forall>r\<in>set rows. f r = None)"
    by (induction rows) (auto simp: map_filter_simps split: option.split)
  have t: "sum_list ?xs = tokens_of f rows" by (rule tokens_of_map_filter)
  have "v = (if ?xs = [] then None else Some (tokens_of f rows)) \<and> in_i64 (tokens_of f rows)"
  proof (cases "?xs = []")
    case True
    then show ?thesis using assms t by (simp add: sum_column_def sql_sum_def in_i64_def)
  next
    case False
    then obtain n where n: "sum_from 0 ?xs = Inr n" "v = Some n"
      using assms by (auto simp: sum_column_def sql_sum_def res_bind_Inr_iff)
    have "n = tokens_of f rows" using sum_from_Inr [OF n(1)] t by simp
    moreover have "in_i64 n" using sum_from_Inr [OF n(1)] False by blast
    ultimately have "n = tokens_of f rows" "in_i64 (tokens_of f rows)" by blast+
    with n(2) False show ?thesis by simp
  qed
  then show "v = (if \<forall>r\<in>set rows. f r = None then None else Some (tokens_of f rows))"
    "in_i64 (tokens_of f rows)"
    unfolding e by simp_all
qed

section \<open>Groups\<close>

text \<open>The rows of a key that are charged when their cost fits.\<close>

definition billed_rows :: "usage_row list \<Rightarrow> group_key \<Rightarrow> usage_row list" where
  "billed_rows rows key = filter row_billable (filter (\<lambda>r. usage_key r = key) rows)"

definition key_prices :: "group_key \<Rightarrow> pricing_snapshot option" where
  "key_prices key =
     (case key of (_, ip, cp, op) \<Rightarrow>
        (case from_columns ip cp op of Inl _ \<Rightarrow> None | Inr p \<Rightarrow> Some p))"

definition group_cost :: "usage_row list \<Rightarrow> group_key \<Rightarrow> int" where
  "group_cost rows key =
     (let b = billed_rows rows key
      in exact_line_total (tokens_of ur_input_tokens b) (tokens_of ur_cached_tokens b)
           (tokens_of ur_output_tokens b) (the (key_prices key)))"

text \<open>Charged: billable, and the exact cost of its group fits micro-dollars.\<close>

definition charged :: "usage_row list \<Rightarrow> usage_row \<Rightarrow> bool" where
  "charged rows r \<longleftrightarrow> row_billable r \<and> in_i64 (group_cost rows (usage_key r))"

text \<open>Stored rows: the table's checks, and integer columns in range.\<close>

definition stored_ok :: "usage_row list \<Rightarrow> bool" where
  "stored_ok rows \<longleftrightarrow>
     list_all (\<lambda>r. usage_row_check r
       \<and> (\<forall>v \<in> {ur_input_price r, ur_cached_price r, ur_output_price r}.
            case v of None \<Rightarrow> True | Some x \<Rightarrow> in_i64 x)) rows"

lemma group_of_Inr:
  assumes "group_of rows key = Inr g"
  defines "b \<equiv> billed_rows rows key"
  shows "ug_model g = fst key"
    and "ug_prices g = key_prices key"
    and "ug_request_count g = int (length b)"
    and "ug_incomplete_count g
      = int (length (filter (\<lambda>r. usage_key r = key \<and> \<not> row_billable r) rows))"
    and "sum_column ur_input_tokens b = Inr (ug_input_tokens g)"
    and "sum_column ur_cached_tokens b = Inr (ug_cached_tokens g)"
    and "sum_column ur_output_tokens b = Inr (ug_output_tokens g)"
  using assms(1) unfolding b_def billed_rows_def
  by (auto simp: group_of_def Let_def res_bind_Inr_iff key_prices_def conj_commute
      split: prod.splits)

lemma billed_rowD:
  assumes "r \<in> set (billed_rows rows key)"
  shows "r \<in> set rows" "usage_key r = key" "priced r" "measured r"
  using assms by (auto simp: billed_rows_def row_billable_iff)

lemma priced_key:
  assumes "priced r" "usage_key r = key"
  obtains p where "key_prices key = Some p"
    "ur_input_price r = Some (price_as_i64 (ps_input p))"
    "ur_cached_price r = Some (price_as_i64 (ps_cached_input p))"
    "ur_output_price r = Some (price_as_i64 (ps_output p))"
proof -
  obtain x y z where v: "ur_input_price r = Some x" "ur_cached_price r = Some y"
    "ur_output_price r = Some z"
    using assms(1) by (auto simp: priced_def)
  show thesis
    by (rule that [of "\<lparr>ps_input = PricePerMillion x, ps_cached_input = PricePerMillion y,
          ps_output = PricePerMillion z\<rparr>"])
      (use v assms(2) in \<open>auto simp: usage_key_def key_prices_def from_columns_def require_def\<close>)
qed

lemma tokens_of_mono:
  "(\<And>r. r \<in> set rows \<Longrightarrow> coalesce_to (f r) 0 \<le> coalesce_to (g r) 0) \<Longrightarrow> tokens_of f rows \<le> tokens_of g rows"
  by (induction rows) (auto intro!: add_mono)

lemma tokens_of_nonneg:
  "(\<And>r. r \<in> set rows \<Longrightarrow> 0 \<le> coalesce_to (f r) 0) \<Longrightarrow> 0 \<le> tokens_of f rows"
  by (induction rows) (auto intro!: add_nonneg_nonneg)

lemma measured_tokens:
  assumes "\<forall>r\<in>set b. measured r"
  shows "0 \<le> tokens_of ur_cached_tokens b"
    "tokens_of ur_cached_tokens b \<le> tokens_of ur_input_tokens b"
    "0 \<le> tokens_of ur_output_tokens b"
  using assms by (force simp: measured_def intro!: tokens_of_mono tokens_of_nonneg)+

lemma stored_prices:
  assumes "stored_ok rows" "r \<in> set rows" "priced r" "key_prices (usage_key r) = Some p"
  shows "wf_prices p"
proof -
  obtain q where q: "key_prices (usage_key r) = Some q"
    "ur_input_price r = Some (price_as_i64 (ps_input q))"
    "ur_cached_price r = Some (price_as_i64 (ps_cached_input q))"
    "ur_output_price r = Some (price_as_i64 (ps_output q))"
    using priced_key [OF assms(3) refl] by blast
  have "usage_row_check r" "\<forall>v \<in> {ur_input_price r, ur_cached_price r, ur_output_price r}.
      case v of None \<Rightarrow> True | Some x \<Rightarrow> in_i64 x"
    using assms(1,2) by (auto simp: stored_ok_def list_all_iff)
  then show ?thesis
    using q assms(4) by (simp add: wf_prices_def usage_row_check_def absent_or_nonneg_def)
qed

section \<open>From a group to a line\<close>

definition group_line :: "usage_row list \<Rightarrow> group_key \<Rightarrow> line_draft" where
  "group_line rows key =
     (let b = billed_rows rows key; i = tokens_of ur_input_tokens b;
          c = tokens_of ur_cached_tokens b; out = tokens_of ur_output_tokens b
      in \<lparr>ld_model = fst key, ld_prices = the (key_prices key), ld_request_count = int (length b),
          ld_input_tokens = i, ld_cached_input_tokens = c, ld_output_tokens = out,
          ld_cost = exact_line_cost i c out (the (key_prices key))\<rparr>)"

lemma token_count_of_nonneg: "0 \<le> n \<Longrightarrow> token_count (Some n) = Some n"
  by (simp add: token_count_def)

lemma group_counts:
  assumes "group_of rows key = Inr g" "r \<in> set (billed_rows rows key)"
  defines "b \<equiv> billed_rows rows key"
  shows "billable (token_count (ug_input_tokens g)) (token_count (ug_output_tokens g))
      (token_count (ug_cached_tokens g))
    = Inr (tokens_of ur_input_tokens b, tokens_of ur_output_tokens b, tokens_of ur_cached_tokens b)"
proof -
  have m: "\<forall>q\<in>set b. measured q" using billed_rowD unfolding b_def by blast
  note nn = measured_tokens [OF m]
  note s = group_of_Inr(5-7) [OF assms(1), folded b_def, THEN sum_column_Inr(1)]
  have r: "r \<in> set b" "ur_input_tokens r \<noteq> None" "ur_output_tokens r \<noteq> None"
    using assms(2) m by (auto simp: b_def measured_def)
  have i: "ug_input_tokens g = Some (tokens_of ur_input_tokens b)"
    unfolding s(1) using r by auto
  have out: "ug_output_tokens g = Some (tokens_of ur_output_tokens b)"
    unfolding s(3) using r by auto
  have "tokens_of ur_cached_tokens b = 0" if "\<forall>q\<in>set b. ur_cached_tokens q = None"
    using that by (induction b) simp_all
  then have c: "(case token_count (ug_cached_tokens g) of None \<Rightarrow> 0 | Some x \<Rightarrow> x)
      = tokens_of ur_cached_tokens b"
    unfolding s(2) using nn by (simp add: token_count_def)
  show ?thesis
    using nn by (simp add: i out c billable_def token_count_of_nonneg)
qed

lemma line_for_group:
  assumes "group_of rows key = Inr g" "stored_ok rows" "billed_rows rows key \<noteq> []"
  shows "line_for g =
    (if in_i64 (group_cost rows key) then Inr (group_line rows key) else Inl ReasonOverflow)"
proof -
  let ?b = "billed_rows rows key"
  let ?i = "tokens_of ur_input_tokens ?b" and ?c = "tokens_of ur_cached_tokens ?b"
    and ?out = "tokens_of ur_output_tokens ?b"
  obtain r where r: "r \<in> set ?b" using assms(3) by (cases ?b) auto
  note d = billed_rowD [OF r]
  obtain p where p: "key_prices key = Some p"
    "ur_input_price r = Some (price_as_i64 (ps_input p))"
    "ur_cached_price r = Some (price_as_i64 (ps_cached_input p))"
    using priced_key [OF d(3,2)] by blast
  have w: "wf_prices p" using stored_prices [OF assms(2) d(1,3)] p(1) d(2) by simp
  note gi = group_of_Inr [OF assms(1)]
  note cs = group_counts [OF assms(1) r]
  have m: "\<forall>q\<in>set ?b. measured q" using billed_rowD by blast
  note nn = measured_tokens [OF m]
  have rng: "in_i64 ?i" "in_i64 ?c" "in_i64 ?out"
    using gi(5-7) [THEN sum_column_Inr(2)] by simp_all
  have u: "in_u64 ?i" "in_u64 ?out" using rng nn by (auto simp: in_i64_def in_u64_def)
  have "\<not> needs_cached_count p" if "ug_cached_tokens g = None"
  proof -
    have "ur_cached_tokens r = None"
      using sum_column_Inr(1) [OF gi(6)] that r by (auto split: if_splits)
    then have "ur_cached_price r = ur_input_price r" using d(4) by (auto simp: measured_def)
    then show ?thesis using p by (simp add: needs_cached_count_def price_per_million.expand)
  qed
  then have nc: "\<not> (needs_cached_count p \<and> ug_cached_tokens g = None)" by blast
  have cost: "group_cost rows key = exact_line_total ?i ?c ?out p"
    by (simp add: group_cost_def Let_def p(1))
  show ?thesis
  proof (cases "in_i64 (group_cost rows key)")
    case True
    have "price_line ?i ?c ?out p = Inr (exact_line_cost ?i ?c ?out p)"
      using price_line_fits [OF nn(1,2) u w] True cost by simp
    then show ?thesis
      using True nc rng
      by (simp add: line_for_def gi(1-3) p(1) cs map_reason_def group_line_def Let_def wrap_i64_id)
  next
    case False
    obtain what where "price_line ?i ?c ?out p = Inl (Overflow what)"
      using price_line_overflows [OF nn(1,2) u w] False cost by auto
    then show ?thesis
      using False nc by (simp add: line_for_def gi(1-3) p(1) cs map_reason_def)
  qed
qed

section \<open>The groups of a window\<close>

lemma sum_indicator: "distinct ks \<Longrightarrow> sum_list (map (\<lambda>k. if x = k then n else (0::nat)) ks) = (if x \<in> set ks then n else 0)"
  by (induction ks) auto

lemma sum_by_key:
  assumes "distinct ks" "\<forall>r\<in>set rows. key r \<in> set ks"
  shows "sum_list (map (\<lambda>k. length (filter (\<lambda>r. key r = k \<and> P r) rows)) ks) = length (filter P rows)"
  using assms(2)
proof (induction rows)
  case (Cons r rows)
  have "length (filter (\<lambda>q. key q = k \<and> P q) (r # rows))
      = (if key r = k then (if P r then 1 else 0) else 0) + length (filter (\<lambda>q. key q = k \<and> P q) rows)"
    for k by simp
  then show ?case
    using Cons sum_indicator [OF assms(1), of "key r"] by (simp add: sum_list_addf)
qed simp

lemma sum_by_key_int:
  assumes "distinct ks" "\<forall>r\<in>set rows. key r \<in> set ks"
  shows "sum_list (map (\<lambda>k. int (length (filter (\<lambda>r. key r = k \<and> P r) rows))) ks)
    = int (length (filter P rows))"
proof -
  have "int (sum_list ns) = sum_list (map int ns)" for ns by (induction ns) simp_all
  then show ?thesis
    using arg_cong [OF sum_by_key [OF assms, of P], of int] by (simp add: o_def)
qed

lemma usage_keys_facts: "distinct (usage_keys rows)" "set (usage_keys rows) = usage_key ` set rows"
  by (simp_all add: usage_keys_def)

lemma bill_groups_conserve:
  "bill_groups n ls gs = (m, ks) \<Longrightarrow>
    m + sum_list (map ld_request_count ks) = n + sum_list (map ld_request_count ls)
      + sum_list (map (\<lambda>g. ug_request_count g + ug_incomplete_count g) gs)"
proof (induction n ls gs rule: bill_groups.induct)
  case (2 n ls g gs)
  have "ld_request_count l = ug_request_count g" if "line_for g = Inr l" for l
    using that by (auto simp: line_for_def res_bind_Inr_iff split: option.splits if_splits)
  with 2 show ?case by (cases "line_for g") (auto simp: Let_def split: if_splits)
qed simp

lemma res_map_Cons_Inr:
  "res_map f (x # xs) = Inr zs \<longleftrightarrow> (\<exists>y ys. f x = Inr y \<and> res_map f xs = Inr ys \<and> zs = y # ys)"
  by (auto simp: res_bind_Inr_iff)

lemma group_counts_sum:
  "res_map (group_of rows) ks = Inr gs \<Longrightarrow>
    sum_list (map (\<lambda>g. ug_request_count g + ug_incomplete_count g) gs)
      = sum_list (map (\<lambda>k. int (length (filter (\<lambda>r. usage_key r = k \<and> True) rows))) ks)"
proof (induction ks arbitrary: gs)
  case (Cons k ks)
  then obtain g gs' where g: "group_of rows k = Inr g" "res_map (group_of rows) ks = Inr gs'"
    "gs = g # gs'"
    unfolding res_map_Cons_Inr by blast
  have "ug_request_count g + ug_incomplete_count g
      = int (length (filter (\<lambda>r. usage_key r = k) rows))"
    using group_of_Inr(3,4) [OF g(1)]
      sum_length_filter_compl [of row_billable "filter (\<lambda>r. usage_key r = k) rows"]
    by (simp add: billed_rows_def conj_commute)
  then show ?case using Cons.IH [OF g(2)] g(3) by simp
qed simp

lemma bill_groups_eq:
  assumes "stored_ok rows"
  shows "res_map (group_of rows) ks = Inr gs \<Longrightarrow>
    bill_groups n ls gs =
      (n + sum_list (map (\<lambda>k. int (length (filter (\<lambda>r. usage_key r = k \<and> \<not> charged rows r) rows))) ks),
       ls @ map (group_line rows)
              (filter (\<lambda>k. billed_rows rows k \<noteq> [] \<and> in_i64 (group_cost rows k)) ks))"
proof (induction ks arbitrary: gs n ls)
  case (Cons k ks)
  then obtain g gs' where g: "group_of rows k = Inr g" "res_map (group_of rows) ks = Inr gs'"
    "gs = g # gs'"
    unfolding res_map_Cons_Inr by blast
  note gi = group_of_Inr(3,4) [OF g(1)]
  let ?b = "billed_rows rows k"
  let ?un = "int (length (filter (\<lambda>r. usage_key r = k \<and> \<not> charged rows r) rows))"
  have c: "charged rows r \<longleftrightarrow> row_billable r \<and> in_i64 (group_cost rows k)" if "usage_key r = k" for r
    using that by (simp add: charged_def)
  have b0: "?b = [] \<longleftrightarrow> (\<forall>r\<in>set rows. usage_key r = k \<longrightarrow> \<not> row_billable r)"
    by (auto simp: billed_rows_def filter_empty_conv)
  have same: "?un = ug_incomplete_count g" if "?b = [] \<or> in_i64 (group_cost rows k)"
    unfolding gi(2) using that c b0 by (intro arg_cong [of _ _ int] arg_cong [of _ _ length] filter_cong) auto
  have all: "?un = ug_incomplete_count g + ug_request_count g" if "\<not> in_i64 (group_cost rows k)"
  proof -
    have "filter (\<lambda>r. usage_key r = k \<and> \<not> charged rows r) rows = filter (\<lambda>r. usage_key r = k) rows"
      using that c by (intro filter_cong) auto
    then show ?thesis
      using gi sum_length_filter_compl [of row_billable "filter (\<lambda>r. usage_key r = k) rows"]
      by (simp add: billed_rows_def conj_commute)
  qed
  note IH = Cons.IH [OF g(2)]
  note lf = line_for_group [OF g(1) assms]
  show ?case
  proof (cases "?b = []")
    case True
    then show ?thesis using same gi(1) by (simp add: g(3) IH)
  next
    case False
    then have n0: "ug_request_count g \<noteq> 0" using gi(1) by simp
    show ?thesis
    proof (cases "in_i64 (group_cost rows k)")
      case True
      then show ?thesis using same lf [OF False] False n0 by (simp add: g(3) IH)
    next
      case no: False
      then show ?thesis using all lf [OF False] n0 by (simp add: g(3) IH)
    qed
  qed
qed simp

text \<open>The draft of a day in terms of the rows of its window.\<close>

lemma statement_for_day_Inr:
  assumes "statement_for_day T g p day cutoff s = Done (Inr d)"
  defines "bounds \<equiv> to_bounds T (period_for_day day (gen_timezone g))"
  obtains gs due where "usage_groups (p_consumer_id p) bounds s = Inr gs"
    "bill_groups 0 [] gs = (sd_incomplete d, sd_lines d)"
    "due_at_for T p (end_exclusive_utc day (gen_timezone g)) = Done due"
    "sd_due_at d = due" "sd_consumer_id d = p_consumer_id p" "sd_billing_date d = day"
    "sd_billing_mode d = p_billing_mode p" "(sd_period_start d, sd_period_end d) = bounds"
    "sd_billing_cutoff_at d = format_ts T cutoff"
  using assms
  by (auto simp: statement_for_day_def Let_def run_bind_def period_for_day_def
      split: sum.splits prod.splits run.splits)

end
