(* ===== verification/Statement_Properties.thy ===== *)
theory Statement_Properties
  imports Statement_Facts Gregorian
begin

text \<open>
  The properties of statement generation: how a day's rows are accounted for, what is charged,
  which days are closed and when.
\<close>

section \<open>A sample day\<close>

definition sample_row :: "i64 option \<Rightarrow> i64 option \<Rightarrow> i64 option \<Rightarrow> usage_row" where
  "sample_row input cached out =
     \<lparr>ur_id = 1, ur_request_id = ''r'', ur_created_at = format_ts gregorian 1,
      ur_consumer_id = ''acme'', ur_model = ''m'', ur_endpoint = ''responses'', ur_streaming = 0,
      ur_http_status = None, ur_request_status = ''completed'', ur_instance_id = None,
      ur_input_tokens = input, ur_output_tokens = out, ur_cached_tokens = cached,
      ur_ttft_ms = None, ur_duration_ms = 0, ur_usage_status = ''available'',
      ur_error_message = None, ur_error_body = None, ur_input_price = Some 2500000,
      ur_cached_price = Some 1250000, ur_output_price = Some 10000000\<rparr>"

definition sample_usage :: db where
  "sample_usage = empty_db\<lparr>usage_records :=
     [sample_row (Some 1000) (Some 400) (Some 301), sample_row None None None]\<rparr>"

definition sample_generator :: generator where
  "sample_generator = generator_new tz_default 60"

definition sample_buyer :: partner where
  "sample_buyer = \<lparr>p_consumer_id = ''acme'', p_name = ''Acme'', p_billing_email = [],
     p_billing_mode = Reconciliation, p_payment_terms = 720, p_created_at = [], p_updated_at = []\<rparr>"

lemma sample_window:
  "window_rows ''acme'' (to_bounds gregorian (period_for_day (BillingDay 0) tz_default)) sample_usage
    = [sample_row (Some 1000) (Some 400) (Some 301), sample_row None None None]"
proof -
  have "in_text_window (to_bounds gregorian (period_for_day (BillingDay 0) tz_default))
      (format_ts gregorian 1)"
    by (subst time_laws.in_text_window_iff [OF greg.time_laws_axioms])
      (simp_all add: four_digit_instant_def four_digit_day_def NANOS_PER_DAY_def period_for_day_def
        start_utc_def end_exclusive_utc_def day_next_def tz_default_def utc_offset_def
        period_contains_def)
  then show ?thesis
    by (simp add: window_rows_def sample_usage_def sample_row_def)
qed

lemma sample_rows:
  "row_billable (sample_row (Some 1000) (Some 400) (Some 301))"
  "\<not> row_billable (sample_row None None None)"
  "usage_key (sample_row a b c) = (''m'', Some 2500000, Some 1250000, Some 10000000)"
  by (simp_all add: row_billable_iff priced_def measured_def sample_row_def usage_key_def)

lemma sample_stored: "stored_ok (usage_records sample_usage)"
  by (simp add: stored_ok_def sample_usage_def sample_row_def usage_row_check_def
      absent_or_nonneg_def in_i64_def)

lemma sample_statement:
  "\<exists>d. statement_for_day gregorian sample_generator sample_buyer (BillingDay 0) 0 sample_usage
    = Done (Inr d)"
proof -
  let ?W = "[sample_row (Some 1000) (Some 400) (Some 301), sample_row None None None]"
  have "group_of ?W (''m'', Some 2500000, Some 1250000, Some 10000000) \<noteq> Inl e" for e
    by (simp add: group_of_def sample_rows sum_column_def sql_sum_def map_filter_simps in_i64_def
        sample_row_def)
  then obtain g where "group_of ?W (''m'', Some 2500000, Some 1250000, Some 10000000) = Inr g"
    by (metis sumE)
  then have "\<exists>gs. usage_groups ''acme''
      (to_bounds gregorian (period_for_day (BillingDay 0) tz_default)) sample_usage = Inr gs"
    by (simp add: usage_groups_def sample_window usage_keys_def sample_rows)
  then show ?thesis
    by (auto simp: statement_for_day_def sample_generator_def generator_new_def sample_buyer_def
        Let_def split: prod.split)
qed

section \<open>Accounting for a day\<close>

text \<open>
  no request of a day is lost. The requests on the lines of a statement and its incomplete
  count add up to the usage rows of the partner in the day's window, whatever the rows hold.
\<close>

theorem statement_counts_every_request:
  assumes "statement_for_day T g p day cutoff s = Done (Inr d)"
  shows "sum_list (map ld_request_count (sd_lines d)) + sd_incomplete d
    = int (length (window_rows (p_consumer_id p)
        (to_bounds T (period_for_day day (gen_timezone g))) s))"
proof -
  let ?W = "window_rows (p_consumer_id p) (to_bounds T (period_for_day day (gen_timezone g))) s"
  obtain gs where gs: "res_map (group_of ?W) (usage_keys ?W) = Inr gs"
    "bill_groups 0 [] gs = (sd_incomplete d, sd_lines d)"
    using statement_for_day_Inr [OF assms] by (auto simp: usage_groups_def Let_def)
  have "\<forall>r\<in>set ?W. usage_key r \<in> set (usage_keys ?W)" by (simp add: usage_keys_facts)
  from sum_by_key_int [OF usage_keys_facts(1) this, of "\<lambda>_. True"]
  show ?thesis
    using bill_groups_conserve [OF gs(2)] group_counts_sum [OF gs(1)] by simp
qed

theorem statement_counts_every_request_witness:
  "\<exists>d. statement_for_day gregorian sample_generator sample_buyer (BillingDay 0) 0 sample_usage
      = Done (Inr d)
    \<and> sum_list (map ld_request_count (sd_lines d)) + sd_incomplete d = 2"
proof -
  obtain d where d: "statement_for_day gregorian sample_generator sample_buyer (BillingDay 0) 0
      sample_usage = Done (Inr d)"
    using sample_statement by blast
  then show ?thesis
    using statement_counts_every_request [OF d]
    by (simp add: sample_generator_def generator_new_def sample_buyer_def sample_window)
qed

text \<open>
  C1: a statement charges exactly the measured usage. On rows the table accepts, there is one line
  per model and price at which some request is charged; it holds the number and the token sums of
  the billable requests at that model and price and their exactly rounded cost. The incomplete
  count is exactly the number of rows that are not charged: rows not measured or not priced, and
  groups whose cost leaves 64 bits.
\<close>

theorem statement_charges_exactly:
  assumes "statement_for_day T g p day cutoff s = Done (Inr d)" "stored_ok (usage_records s)"
  defines "W \<equiv> window_rows (p_consumer_id p) (to_bounds T (period_for_day day (gen_timezone g))) s"
  shows "sd_lines d =
      map (group_line W) (filter (\<lambda>k. \<exists>r\<in>set W. usage_key r = k \<and> charged W r) (usage_keys W))
    \<and> sd_incomplete d = int (length (filter (\<lambda>r. \<not> charged W r) W))
    \<and> (\<forall>r. charged W r \<longleftrightarrow> priced r \<and> measured r \<and> in_i64 (group_cost W (usage_key r)))"
proof -
  obtain gs where gs: "res_map (group_of W) (usage_keys W) = Inr gs"
    "bill_groups 0 [] gs = (sd_incomplete d, sd_lines d)"
    using statement_for_day_Inr [OF assms(1)] by (auto simp: usage_groups_def Let_def W_def)
  have w: "stored_ok W"
    using assms(2) by (auto simp: stored_ok_def W_def window_rows_def list_all_iff)
  have keys: "\<forall>r\<in>set W. usage_key r \<in> set (usage_keys W)" by (simp add: usage_keys_facts)
  have "billed_rows W k \<noteq> [] \<and> in_i64 (group_cost W k)
      \<longleftrightarrow> (\<exists>r\<in>set W. usage_key r = k \<and> charged W r)" for k
    by (auto simp: billed_rows_def charged_def filter_empty_conv)
  then have "sd_lines d =
      map (group_line W) (filter (\<lambda>k. \<exists>r\<in>set W. usage_key r = k \<and> charged W r) (usage_keys W))"
    using gs(2) bill_groups_eq [OF w gs(1), of 0 "[]"] by simp
  moreover have "sd_incomplete d = int (length (filter (\<lambda>r. \<not> charged W r) W))"
    using gs(2) bill_groups_eq [OF w gs(1), of 0 "[]"]
      sum_by_key_int [OF usage_keys_facts(1) keys, of "\<lambda>r. \<not> charged W r"]
    by simp
  ultimately show ?thesis by (auto simp: charged_def row_billable_iff)
qed

theorem statement_charges_exactly_witness:
  "\<exists>d. statement_for_day gregorian sample_generator sample_buyer (BillingDay 0) 0 sample_usage
      = Done (Inr d)
    \<and> sd_incomplete d = 1 \<and> map (micro_as_i64 \<circ> line_total \<circ> ld_cost) (sd_lines d) = [5010]"
proof -
  let ?a = "sample_row (Some 1000) (Some 400) (Some 301)" and ?b = "sample_row None None None"
  let ?k = "(''m'', Some 2500000, Some 1250000, Some 10000000)"
  obtain d where d: "statement_for_day gregorian sample_generator sample_buyer (BillingDay 0) 0
      sample_usage = Done (Inr d)"
    using sample_statement by blast
  have W: "window_rows (p_consumer_id sample_buyer) (to_bounds gregorian
      (period_for_day (BillingDay 0) (gen_timezone sample_generator))) sample_usage = [?a, ?b]"
    by (simp add: sample_generator_def generator_new_def sample_buyer_def sample_window)
  have b: "billed_rows [?a, ?b] ?k = [?a]" by (simp add: billed_rows_def sample_rows)
  have k: "group_line [?a, ?b] ?k = group_line [?a, ?b] ?k
      \<and> micro_as_i64 (line_total (ld_cost (group_line [?a, ?b] ?k))) = 5010
      \<and> group_cost [?a, ?b] ?k = 5010"
    by (simp add: group_line_def group_cost_def b Let_def key_prices_def from_columns_def
        require_def exact_line_cost_def exact_line_total_def rounded_cost_def)
      (simp add: sample_row_def)
  have "usage_keys [?a, ?b] = [?k]" by (simp add: usage_keys_def sample_rows)
  moreover have "charged [?a, ?b] ?a" "\<not> charged [?a, ?b] ?b"
    using k by (simp_all add: charged_def sample_rows in_i64_def)
  ultimately show ?thesis
    using d statement_charges_exactly [OF d sample_stored, unfolded W] k
    by (auto simp: sample_rows)
qed

section \<open>Which days are closed\<close>

lemma days_from_upto: "days_from day through = map BillingDay [day_date day .. day_date through]"
proof (induction day through rule: days_from.induct)
  case (1 day through)
  show ?case
  proof (cases "day \<le> through")
    case True
    then have "[day_date day .. day_date through] = day_date day # [day_date day + 1 .. day_date through]"
      by (simp add: less_eq_billing_day_def upto_rec1)
    with True 1 show ?thesis by (simp add: days_from.simps [of day])
  next
    case False
    then show ?thesis by (simp add: days_from.simps [of day] less_eq_billing_day_def)
  qed
qed

text \<open>
  the walk covers exactly the days still owed. It is the run of consecutive days after the last
  closed one, or from thirty days before the newest closeable day when that is later or nothing
  was closed, through that day; it never has more than \<open>MAX_CATCHUP_DAYS\<close> days.
\<close>

theorem days_to_close_exact:
  "days_to_close T last_closed through =
     map BillingDay
       [(case Option.bind last_closed (day_parse T) of
           None \<Rightarrow> day_date through - 30
         | Some d \<Rightarrow> max (day_date d + 1) (day_date through - 30)) .. day_date through]
   \<and> int (length (days_to_close T last_closed through)) \<le> MAX_CATCHUP_DAYS"
  by (auto simp: days_to_close_def Let_def days_from_upto oldest_closeable_def previous_n_def
      MAX_CATCHUP_DAYS_def less_billing_day_def split: option.split)

lemma cutoff_for_Done:
  assumes "cutoff_for T g d = Done c"
  shows "c = end_exclusive_utc d (gen_timezone g) + gen_close_delay g * 60000000000"
  using assms
  by (auto simp: cutoff_for_def duration_minutes_def instant_add_def instant_checked_add_def
      split: if_splits)

lemma day_of_window:
  "start_utc (day_of t tz) tz \<le> t" "t < end_exclusive_utc (day_of t tz) tz"
  using contains_iff_day_of [of "day_of t tz" tz t]
  by (simp_all add: period_contains_def period_for_day_def)

lemma end_previous: "end_exclusive_utc (day_previous d) tz = start_utc d tz"
  by (simp add: end_exclusive_utc_def)

lemma end_before_previous:
  "end_exclusive_utc (day_previous (day_previous d)) tz = start_utc d tz - NANOS_PER_DAY"
  using end_is_start_plus_day [of "day_previous d" tz] by (simp add: end_previous end_exclusive_utc_def)

context time_laws
begin

lemma instant_in_range:
  assumes "four_digit_instant a" "a \<le> t" "t \<le> b" "four_digit_instant b"
  shows "tc_min T \<le> t" "t \<le> tc_max T"
proof -
  show "tc_min T \<le> t" using instant_min [OF assms(1)] assms(2) by simp
  have "t div NANOS_PER_DAY \<le> b div NANOS_PER_DAY" using assms(3) by (simp add: zdiv_mono1)
  then show "t \<le> tc_max T"
    using assms(4) by (simp add: instant_max four_digit_instant_def four_digit_day_def)
qed

lemma cutoff_for_in_range:
  assumes "0 \<le> gen_close_delay g" "gen_close_delay g \<le> 1440"
    and "four_digit_instant a" "four_digit_instant b"
    and "a \<le> end_exclusive_utc d (gen_timezone g)"
    and "end_exclusive_utc d (gen_timezone g) + NANOS_PER_DAY \<le> b"
  shows "cutoff_for T g d
    = Done (end_exclusive_utc d (gen_timezone g) + gen_close_delay g * 60000000000)"
proof -
  let ?e = "end_exclusive_utc d (gen_timezone g)" and ?m = "gen_close_delay g * 60000000000"
  have m: "0 \<le> ?m" "?m \<le> NANOS_PER_DAY" using assms(1,2) by (simp_all add: NANOS_PER_DAY_def)
  have "tc_min T \<le> ?e + ?m" "?e + ?m \<le> tc_max T"
    using instant_in_range [OF assms(3) _ _ assms(4), of "?e + ?m"] m assms(5,6) by linarith+
  moreover have "in_i64 (gen_close_delay g * 60)" using assms(1,2) by (simp add: in_i64_def)
  ultimately show ?thesis
    by (simp add: cutoff_for_def duration_minutes_def instant_add_def instant_checked_add_def)
qed

end

text \<open>
  the day offered for closing is the newest whose cutoff has passed. With a close delay of at
  most a day there always is one, it is yesterday or the day before, its period and the delay are
  over, and the following day's cutoff is still ahead.
\<close>

theorem closable_through_newest:
  assumes "time_laws T" "0 \<le> gen_close_delay g" "gen_close_delay g \<le> 1440"
    and "four_digit_instant (now - 2 * NANOS_PER_DAY)" "four_digit_instant (now + 2 * NANOS_PER_DAY)"
  shows "\<exists>d c c'. closable_through T g now = Done (Some d)
    \<and> cutoff_for T g d = Done c \<and> c \<le> now
    \<and> cutoff_for T g (day_next d) = Done c' \<and> now < c'"
proof -
  let ?tz = "gen_timezone g" and ?m = "gen_close_delay g * 60000000000"
  define today where "today = day_of now ?tz"
  let ?y = "day_previous today"
  let ?s = "start_utc today ?tz"
  have w: "?s \<le> now" "now < ?s + NANOS_PER_DAY"
    using day_of_window [of now ?tz] unfolding today_def end_is_start_plus_day by simp_all
  have m: "0 \<le> ?m" "?m \<le> NANOS_PER_DAY" using assms(2,3) by (simp_all add: NANOS_PER_DAY_def)
  have e: "end_exclusive_utc ?y ?tz = ?s" "end_exclusive_utc (day_previous ?y) ?tz = ?s - NANOS_PER_DAY"
    "end_exclusive_utc today ?tz = ?s + NANOS_PER_DAY"
    by (rule end_previous end_before_previous end_is_start_plus_day)+
  note cut = time_laws.cutoff_for_in_range [OF assms(1-5)]
  have c: "cutoff_for T g ?y = Done (?s + ?m)"
    "cutoff_for T g (day_previous ?y) = Done (?s - NANOS_PER_DAY + ?m)"
    using cut [of ?y] cut [of "day_previous ?y"] w unfolding e by simp_all
  show ?thesis
  proof (cases "?s + ?m \<le> now")
    case True
    have "cutoff_for T g today = Done (?s + NANOS_PER_DAY + ?m)"
    proof -
      have "tc_min T \<le> ?s + NANOS_PER_DAY + ?m" "?s + NANOS_PER_DAY + ?m \<le> tc_max T"
        using time_laws.instant_in_range [OF assms(1,4) _ _ assms(5),
            of "?s + NANOS_PER_DAY + ?m"] w m True by linarith+
      moreover have "in_i64 (gen_close_delay g * 60)" using assms(2,3) by (simp add: in_i64_def)
      ultimately show ?thesis
        by (simp add: cutoff_for_def duration_minutes_def instant_add_def instant_checked_add_def e(3))
    qed
    moreover have "closable_through T g now = Done (Some ?y)"
      using True c by (simp add: closable_through_def Let_def today_def)
    ultimately show ?thesis using True c(1) w m by auto
  next
    case False
    have "?s - NANOS_PER_DAY + ?m \<le> now" using w m by linarith
    then have "closable_through T g now = Done (Some (day_previous ?y))"
      using False c by (simp add: closable_through_def Let_def today_def)
    with False c w m show ?thesis by force
  qed
qed

theorem closable_through_newest_witness:
  "\<exists>d. closable_through gregorian sample_generator 0 = Done (Some d)"
proof -
  have "\<exists>d c c'. closable_through gregorian sample_generator 0 = Done (Some d)
    \<and> cutoff_for gregorian sample_generator d = Done c \<and> c \<le> 0
    \<and> cutoff_for gregorian sample_generator (day_next d) = Done c' \<and> 0 < c'"
    by (rule closable_through_newest [OF greg.time_laws_axioms])
      (simp_all add: sample_generator_def generator_new_def four_digit_instant_def
        four_digit_day_def NANOS_PER_DAY_def)
  then show ?thesis by blast
qed

text \<open>
  a close delay of two days or more, which the configuration accepts, closes nothing. At no
  instant is any day closeable, because the code looks back two days only.
\<close>

theorem close_delay_too_long:
  assumes "2880 \<le> gen_close_delay g"
  shows "closable_through T g now \<noteq> Done (Some d)"
proof
  let ?tz = "gen_timezone g"
  define today where "today = day_of now ?tz"
  let ?y = "day_previous today"
  assume "closable_through T g now = Done (Some d)"
  then obtain e c where c: "cutoff_for T g e = Done c" "c \<le> now" "e = ?y \<or> e = day_previous ?y"
    by (auto simp: closable_through_def Let_def today_def run_bind_def split: run.splits if_splits)
  have "start_utc today ?tz - NANOS_PER_DAY \<le> end_exclusive_utc e ?tz"
    using c(3)
  proof
    assume "e = ?y"
    then show ?thesis using end_previous [of today ?tz] by (simp add: NANOS_PER_DAY_def)
  next
    assume "e = day_previous ?y"
    then show ?thesis using end_before_previous [of today ?tz] by (simp only: order_refl)
  qed
  moreover have "now < start_utc today ?tz + NANOS_PER_DAY"
    using day_of_window [of now ?tz] unfolding today_def end_is_start_plus_day by simp
  moreover have "2 * NANOS_PER_DAY \<le> gen_close_delay g * 60000000000"
    using assms by (simp add: NANOS_PER_DAY_def)
  ultimately show False using c(2) cutoff_for_Done [OF c(1)] by linarith
qed

theorem close_delay_too_long_witness:
  "closable_through gregorian (generator_new tz_default 2880) 0 \<noteq> Done (Some (BillingDay 0))"
  by (rule close_delay_too_long) (simp add: generator_new_def)

end
