(* ===== verification/Calendar_Properties.thy ===== *)
theory Calendar_Properties
  imports Gregorian Period Partner
begin

text \<open>
  The properties of \<^verbatim>\<open>timefmt.rs\<close>, \<^verbatim>\<open>period.rs\<close> and \<^verbatim>\<open>partner.rs\<close> that rest on the calendar,
  each with a witness at \<^const>\<open>gregorian\<close>.
\<close>

text \<open>
  a stored timestamp stands for its instant. The text is thirty bytes wide, its byte order is
  the order of time, it parses back to the instant, and the hour of the rollup bucket cut out of
  the text is the hour of the instant.
\<close>

theorem timestamp_text_faithful:
  assumes "time_laws T" "four_digit_instant s" "four_digit_instant t"
  shows "(format_ts T s < format_ts T t \<longleftrightarrow> s < t)
    \<and> length (format_ts T t) = 30
    \<and> parse_ts T (format_ts T t) = Some t
    \<and> format_hour_str T (format_ts T t) = format_hour T t"
  using time_laws.format_ts_less_iff [OF assms] time_laws.format_ts_length [OF assms(1,3)]
    time_laws.parse_ts_format_ts [OF assms(1,3)]
    time_laws.format_hour_str_format_ts [OF assms(1,3)]
  by simp

lemma four_digit_start [simp]: "four_digit_instant 0" "four_digit_instant 1"
  "four_digit_instant 86400000000000"
  by (simp_all add: four_digit_instant_def four_digit_day_def NANOS_PER_DAY_def)

theorem timestamp_text_faithful_witness:
  "format_ts gregorian 0 < format_ts gregorian 1
   \<and> format_hour_str gregorian (format_ts gregorian 1) = format_hour gregorian 1"
  using timestamp_text_faithful [OF greg.time_laws_axioms, of 0 1] by simp

text \<open>
  the text window of a statement is the billing day. Comparing the stored fixed-width timestamps
  with the bounds of a day, as the usage query does, selects exactly the instants of that day.
\<close>

theorem text_window_is_billing_day:
  assumes "time_laws T" "four_digit_instant t"
    "four_digit_instant (start_utc d tz)" "four_digit_instant (end_exclusive_utc d tz)"
  shows "in_text_window (to_bounds T (period_for_day d tz)) (format_ts T t) \<longleftrightarrow> day_of t tz = d"
proof -
  have "in_text_window (to_bounds T (period_for_day d tz)) (format_ts T t)
      \<longleftrightarrow> period_contains (period_for_day d tz) t"
    by (rule time_laws.in_text_window_iff [OF assms(1,2)])
      (simp_all add: period_for_day_def assms(3,4))
  then show ?thesis by (simp add: contains_iff_day_of)
qed

theorem text_window_is_billing_day_witness:
  "in_text_window (to_bounds gregorian (period_for_day (BillingDay 0) tz_default))
     (format_ts gregorian 1)"
proof -
  have b: "start_utc (BillingDay 0) tz_default = 0"
    "end_exclusive_utc (BillingDay 0) tz_default = 86400000000000"
    by (simp_all add: start_utc_def end_exclusive_utc_def day_next_def tz_default_def
        utc_offset_def NANOS_PER_DAY_def)
  have "day_of 1 tz_default = BillingDay 0"
    by (simp add: day_of_def tz_default_def utc_offset_def NANOS_PER_DAY_def)
  then show ?thesis
    using text_window_is_billing_day [OF greg.time_laws_axioms, of 1 "BillingDay 0" tz_default]
    by (simp add: b)
qed

text \<open>
  a deadline is the end of the period plus the payment terms, for a partner that owes payment
  and only for one. Terms that the addition cannot represent give no deadline, and terms beyond
  153722867280912930 minutes, which nothing refuses, panic.
\<close>

theorem due_date_of_terms:
  assumes "0 \<le> p_payment_terms p"
  shows "(p_billing_mode p = Reconciliation \<longrightarrow> due_at_for T p e = Done None)
    \<and> (p_billing_mode p = Invoice \<longrightarrow>
        due_at_for T p e =
          (if 153722867280912930 < p_payment_terms p then Panic
           else Done (if tc_min T \<le> e + p_payment_terms p * 60000000000
                         \<and> e + p_payment_terms p * 60000000000 \<le> tc_max T
                      then Some (e + p_payment_terms p * 60000000000) else None)))"
  using due_at_for_invoice [OF _ assms] by (auto simp: instant_checked_add_def)

theorem due_date_of_terms_witness:
  "due_at_for gregorian
     \<lparr>p_consumer_id = ''acme'', p_name = ''Acme'', p_billing_email = [], p_billing_mode = Invoice,
      p_payment_terms = 153722867280912931, p_created_at = [], p_updated_at = []\<rparr> 0 = Panic"
  using due_date_of_terms
    [of "\<lparr>p_consumer_id = ''acme'', p_name = ''Acme'', p_billing_email = [],
          p_billing_mode = Invoice, p_payment_terms = 153722867280912931, p_created_at = [],
          p_updated_at = []\<rparr>" gregorian 0]
  by simp

end
