(* ===== verification/Utf8.thy ===== *)
theory Utf8
  imports Portal_Prelude
begin

text \<open>
  What Rust's standard library does with UTF-8: \<^verbatim>\<open>String::from_utf8_lossy\<close>, the characters of a
  text, the boundaries between them, and the control characters.
\<close>

section \<open>Line ends\<close>

definition lf :: char where "lf = CHR 0x0A"
definition cr :: char where "cr = CHR 0x0D"
definition crlf :: string where "crlf = [cr, lf]"

section \<open>Decoding, lossily\<close>

definition byte_at :: "string \<Rightarrow> nat \<Rightarrow> nat" where
  "byte_at s i = (if i < length s then of_char (s ! i) else 0)"

definition continuation_at :: "string \<Rightarrow> nat \<Rightarrow> bool" where
  "continuation_at s i \<longleftrightarrow> 0x80 \<le> byte_at s i \<and> byte_at s i < 0xC0"

text \<open>The range of the second byte after a lead byte, as far as it is narrower than \<open>80..BF\<close>.\<close>

definition second_ok :: "string \<Rightarrow> bool" where
  "second_ok s \<longleftrightarrow>
     continuation_at s 1
     \<and> (byte_at s 0 = 0xE0 \<longrightarrow> 0xA0 \<le> byte_at s 1) \<and> (byte_at s 0 = 0xED \<longrightarrow> byte_at s 1 < 0xA0)
     \<and> (byte_at s 0 = 0xF0 \<longrightarrow> 0x90 \<le> byte_at s 1) \<and> (byte_at s 0 = 0xF4 \<longrightarrow> byte_at s 1 < 0x90)"

text \<open>The length of the next character, or of the invalid prefix that is replaced.\<close>

definition utf8_step :: "string \<Rightarrow> nat \<times> bool" where
  "utf8_step s =
     (let b = byte_at s 0
      in if b < 0x80 then (1, True)
         else if 0xC2 \<le> b \<and> b < 0xE0 then (if second_ok s then (2, True) else (1, False))
         else if 0xE0 \<le> b \<and> b < 0xF0 then
           (if \<not> second_ok s then (1, False)
            else if continuation_at s 2 then (3, True) else (2, False))
         else if 0xF0 \<le> b \<and> b < 0xF5 then
           (if \<not> second_ok s then (1, False)
            else if \<not> continuation_at s 2 then (2, False)
            else if continuation_at s 3 then (4, True) else (3, False))
         else (1, False))"

definition replacement_char :: string where
  "replacement_char = map char_of [0xEF, 0xBF, 0xBD :: nat]"

function utf8_lossy :: "string \<Rightarrow> string" where
  "utf8_lossy s =
     (if s = [] then []
      else case utf8_step s of
             (n, ok) \<Rightarrow> (if ok then take n s else replacement_char) @ utf8_lossy (drop n s))"
  by pat_completeness auto
termination
  by (relation "measure length") (auto simp: utf8_step_def Let_def split: if_splits)

declare utf8_lossy.simps [simp del]

section \<open>Characters\<close>

text \<open>\<open>str::chars\<close>: an ASCII byte, or a lead byte and the continuation bytes after it.\<close>

function utf8_chars :: "string \<Rightarrow> string list" where
  "utf8_chars [] = []"
| "utf8_chars (c # s) =
     (if (of_char c :: nat) < 0x80 then [c] # utf8_chars s
      else (c # takeWhile is_continuation s) # utf8_chars (dropWhile is_continuation s))"
  by pat_completeness auto
termination
  by (relation "measure length") (auto simp: le_imp_less_Suc length_dropWhile_le)

text \<open>\<open>str::is_char_boundary\<close>.\<close>

definition is_char_boundary :: "string \<Rightarrow> nat \<Rightarrow> bool" where
  "is_char_boundary s i \<longleftrightarrow> i = 0 \<or> i = length s \<or> (i < length s \<and> \<not> is_continuation (s ! i))"

text \<open>Well-formed UTF-8: what a Rust \<open>str\<close> always is.\<close>

function utf8_ok :: "string \<Rightarrow> bool" where
  "utf8_ok s = (if s = [] then True else case utf8_step s of (n, ok) \<Rightarrow> ok \<and> utf8_ok (drop n s))"
  by pat_completeness auto
termination
  by (relation "measure length") (auto simp: utf8_step_def Let_def split: if_splits)

declare utf8_ok.simps [simp del]

section \<open>Facts\<close>

text \<open>ASCII text is what it decodes to.\<close>

definition ascii :: "string \<Rightarrow> bool" where
  "ascii s \<longleftrightarrow> (\<forall>c \<in> set s. (of_char c :: nat) < 0x80)"

lemma utf8_lossy_ascii: "ascii s \<Longrightarrow> utf8_lossy s = s"
proof (induction s)
  case (Cons c s)
  then show ?case
    by (simp add: utf8_lossy.simps [of "c # s"] utf8_step_def byte_at_def ascii_def)
qed (simp add: utf8_lossy.simps)

lemma utf8_ok_Nil [simp]: "utf8_ok []"
  by (simp add: utf8_ok.simps)

lemma continuation_at_length: "continuation_at s i \<Longrightarrow> i < length s"
  by (auto simp: continuation_at_def byte_at_def split: if_splits)

lemma continuation_at_iff:
  "continuation_at s i \<longleftrightarrow> i < length s \<and> is_continuation (s ! i)"
  by (auto simp: continuation_at_def byte_at_def is_continuation_def Let_def)

lemma second_ok_continuation: "second_ok s \<Longrightarrow> continuation_at s 1"
  by (simp add: second_ok_def)

text \<open>The well-formed characters, by their length.\<close>

lemma utf8_step_True_iff:
  "utf8_step s = (n, True) \<longleftrightarrow>
     (let b = byte_at s 0
      in (n = 1 \<and> b < 0x80)
         \<or> (n = 2 \<and> 0xC2 \<le> b \<and> b < 0xE0 \<and> second_ok s)
         \<or> (n = 3 \<and> 0xE0 \<le> b \<and> b < 0xF0 \<and> second_ok s \<and> continuation_at s 2)
         \<or> (n = 4 \<and> 0xF0 \<le> b \<and> b < 0xF5 \<and> second_ok s \<and> continuation_at s 2
            \<and> continuation_at s 3))"
  by (simp add: utf8_step_def Let_def) linarith

lemma utf8_step_True:
  assumes "utf8_step s = (n, True)" "s \<noteq> []"
  shows "0 < n" "n \<le> length s" "0 < i \<Longrightarrow> i < n \<Longrightarrow> i < length s \<and> is_continuation (s ! i)"
proof -
  note c = continuation_at_iff [of s]
  have "0 < length s"
    using assms(2) by simp
  with assms(1) show "0 < n" "n \<le> length s"
    by (auto simp: utf8_step_True_iff Let_def c Suc_le_eq dest!: second_ok_continuation)
  show "i < length s \<and> is_continuation (s ! i)" if i: "0 < i" "i < n"
  proof -
    from i assms(1) have "i = 1 \<or> i = 2 \<and> continuation_at s 2 \<or> i = 3 \<and> continuation_at s 3" "second_ok s"
      by (auto simp: utf8_step_True_iff Let_def)
    then show ?thesis
      using second_ok_continuation [of s] c by auto
  qed
qed

lemma byte_at_take: "i < n \<Longrightarrow> n \<le> length s \<Longrightarrow> byte_at (take n s @ t) i = byte_at s i"
  by (simp add: byte_at_def nth_append)

lemma utf8_step_take:
  assumes "utf8_step s = (n, True)" "s \<noteq> []"
  shows "utf8_step (take n s @ t) = (n, True)"
proof -
  have n: "0 < n" "n \<le> length s"
    using utf8_step_True [OF assms] by simp_all
  have b: "byte_at (take n s @ t) i = byte_at s i" if "i < n" for i
    using that n(2) by (rule byte_at_take)
  from assms(1) consider "n = 1" | "n = 2" | "n = 3" | "n = 4"
    by (auto simp: utf8_step_True_iff Let_def)
  then show ?thesis
    using assms(1) b [of 0] b [of 1] b [of 2] b [of 3]
    by cases (simp_all add: utf8_step_True_iff Let_def second_ok_def continuation_at_def)
qed

lemma utf8_ok_step:
  assumes "utf8_step s = (n, True)" "s \<noteq> []" "utf8_ok t"
  shows "utf8_ok (take n s @ t)"
proof -
  have "0 < n" "n \<le> length s"
    using utf8_step_True [OF assms(1,2)] by simp_all
  with utf8_step_take [OF assms(1,2), of t] assms(2,3) show ?thesis
    by (subst utf8_ok.simps) simp
qed

lemma utf8_ok_append: "utf8_ok a \<Longrightarrow> utf8_ok b \<Longrightarrow> utf8_ok (a @ b)"
proof (induction a rule: utf8_ok.induct)
  case (1 a)
  show ?case
  proof (cases "a = []")
    case False
    obtain n ok where step: "utf8_step a = (n, ok)"
      by fastforce
    with 1(2) False have ok: "ok" "utf8_ok (drop n a)"
      by (auto simp: utf8_ok.simps [of a])
    have "utf8_ok (take n a @ drop n a @ b)"
      using 1(1) [OF False step [symmetric]] ok 1(3) step False by (intro utf8_ok_step) auto
    then show ?thesis by (metis append_assoc append_take_drop_id)
  qed (use 1 in simp)
qed

lemma utf8_ok_replacement [simp]: "utf8_ok replacement_char"
  by (simp add: utf8_ok.simps [of replacement_char])
    (simp add: replacement_char_def utf8_step_def byte_at_def second_ok_def continuation_at_def Let_def)

lemma utf8_ok_lossy [simp]: "utf8_ok (utf8_lossy s)"
proof (induction s rule: utf8_lossy.induct)
  case (1 s)
  show ?case
  proof (cases "s = []")
    case False
    obtain n ok where step: "utf8_step s = (n, ok)"
      by fastforce
    have "utf8_ok (utf8_lossy (drop n s))"
      using 1 [OF False step [symmetric]] .
    then show ?thesis
      using step False utf8_ok_step [of s n] utf8_ok_append [OF utf8_ok_replacement]
      by (simp add: utf8_lossy.simps [of s])
  qed (simp add: utf8_lossy.simps)
qed

lemma utf8_lossy_ok: "utf8_ok s \<Longrightarrow> utf8_lossy s = s"
proof (induction s rule: utf8_ok.induct)
  case (1 s)
  show ?case
  proof (cases "s = []")
    case False
    obtain n ok where step: "utf8_step s = (n, ok)"
      by fastforce
    with 1(2) False have ok: "ok" "utf8_ok (drop n s)"
      by (auto simp: utf8_ok.simps [of s])
    then show ?thesis
      using 1(1) [OF False step [symmetric]] step False by (simp add: utf8_lossy.simps [of s])
  qed (simp add: utf8_lossy.simps)
qed

lemma utf8_ok_take: "utf8_ok s \<Longrightarrow> is_char_boundary s i \<Longrightarrow> utf8_ok (take i s)"
proof (induction s arbitrary: i rule: utf8_ok.induct)
  case (1 s)
  show ?case
  proof (cases "s = [] \<or> i = 0 \<or> i = length s")
    case False
    obtain n ok where step: "utf8_step s = (n, ok)"
      by fastforce
    with 1(2) False have ok: "ok" "utf8_ok (drop n s)"
      by (auto simp: utf8_ok.simps [of s])
    with step False have n: "utf8_step s = (n, True)" "s \<noteq> []" "n \<le> length s"
      using utf8_step_True(2) [of s n] by auto
    have i: "i < length s" "\<not> is_continuation (s ! i)"
      using 1(3) False by (auto simp: is_char_boundary_def)
    have "n \<le> i"
      using utf8_step_True(3) [OF n(1,2), of i] i False by (cases "n \<le> i") auto
    then have "is_char_boundary (drop n s) (i - n)" "take i s = take n s @ take (i - n) (drop n s)"
      using i by (auto simp: is_char_boundary_def take_add [symmetric])
    then show ?thesis
      using 1(1) [OF _ step [symmetric] ok(2), of "i - n"] False utf8_ok_step [OF n(1,2)] by auto
  qed (use 1 in auto)
qed

lemma utf8_ok_ascii: "ascii s \<Longrightarrow> utf8_ok s"
  by (metis utf8_lossy_ascii utf8_ok_lossy)

end
