(* ===== verification/Email.thy ===== *)
theory Email
  imports Store Utf8
begin

text \<open>
  \<^verbatim>\<open>src/src/billing/email.rs\<close>, the message half, and the relay settings of
  \<^verbatim>\<open>src/src/config\<close>: header validation, the bytes of a message on the wire, dot-stuffing, the text
  of a statement message and base64.
\<close>

section \<open>Settings\<close>

record email_config =
  ec_enabled :: bool
  ec_smtp_host :: string
  ec_smtp_port :: nat
  ec_from_address :: string

record smtp_credentials =
  sc_username :: string
  sc_password :: string

record settings =
  se_host :: string
  se_port :: nat
  se_from_address :: string
  se_credentials :: "smtp_credentials option"

definition filled :: "string option \<Rightarrow> string option" where
  "filled v = Option.bind v (\<lambda>s. if trim s = [] then None else Some (trim s))"

definition parse_credentials ::
  "string option \<Rightarrow> string option \<Rightarrow> string + smtp_credentials option" where
  "parse_credentials username password =
     (case (filled username, filled password) of
        (None, None) \<Rightarrow> Inr None
      | (Some u, Some p) \<Rightarrow> Inr (Some \<lparr>sc_username = u, sc_password = p\<rparr>)
      | _ \<Rightarrow> Inl (''PARTNER_PORTAL_SMTP_USERNAME and PARTNER_PORTAL_SMTP_PASSWORD must be set ''
               @ ''together: an SMTP credential is one value, and half of one cannot authenticate''))"

definition settings_from_config :: "email_config \<Rightarrow> smtp_credentials option \<Rightarrow> settings" where
  "settings_from_config email credentials =
     \<lparr>se_host = trim (ec_smtp_host email), se_port = ec_smtp_port email,
      se_from_address = trim (ec_from_address email), se_credentials = credentials\<rparr>"

definition settings_complete :: "settings \<Rightarrow> bool" where
  "settings_complete s \<longleftrightarrow> se_host s \<noteq> [] \<and> se_from_address s \<noteq> []"

section \<open>Messages\<close>

record email_message =
  ms_from :: string
  ms_to :: string
  ms_subject :: string
  ms_body :: string

datatype send_error =
    ConnectFailed string
  | InvalidHeader string string
  | CredentialsWithoutTls
  | NoTlsInBuild
  | Refused string nat string
  | Protocol string
  | IoFailed string

text \<open>\<open>char::is_control\<close> on UTF-8: U+0000 to U+001F, U+007F, and U+0080 to U+009F after \<open>0xC2\<close>.\<close>

fun has_control :: "string \<Rightarrow> bool" where
  "has_control [] = False"
| "has_control (c # s) \<longleftrightarrow>
     (let n = (of_char c :: nat)
      in n < 32 \<or> n = 127
         \<or> (n = 0xC2 \<and> s \<noteq> [] \<and> (let m = (of_char (hd s) :: nat) in 0x80 \<le> m \<and> m < 0xA0)))
     \<or> has_control s"

definition check_header :: "string \<Rightarrow> string \<Rightarrow> send_error + unit" where
  "check_header field value =
     (if value = [] then Inl (InvalidHeader field ''it is empty'')
      else if cr \<in> set value \<or> lf \<in> set value
           then Inl (InvalidHeader field ''it carries a line break'')
      else if has_control value then Inl (InvalidHeader field ''it carries a control character'')
      else Inr ())"

definition check_address :: "string \<Rightarrow> string \<Rightarrow> send_error + unit" where
  "check_address field value =
     (if CHR ''@'' \<notin> set value
      then Inl (InvalidHeader field ''the address has no @ in it'') else Inr ())"

definition message_new :: "string \<Rightarrow> string \<Rightarrow> string \<Rightarrow> string \<Rightarrow> send_error + email_message" where
  "message_new from to subject body =
     res_bind (check_header ''from'' from) (\<lambda>_.
     res_bind (check_header ''to'' to) (\<lambda>_.
     res_bind (check_header ''subject'' subject) (\<lambda>_.
     res_bind (check_address ''to'' to) (\<lambda>_.
     res_bind (check_address ''from'' from) (\<lambda>_.
       Inr \<lparr>ms_from = from, ms_to = to, ms_subject = subject, ms_body = body\<rparr>)))))"

section \<open>On the wire\<close>

fun crlf_to_lf :: "string \<Rightarrow> string" where
  "crlf_to_lf [] = []"
| "crlf_to_lf [c] = [c]"
| "crlf_to_lf (c # d # s) =
     (if c = cr \<and> d = lf then lf # crlf_to_lf s else c # crlf_to_lf (d # s))"

definition normalised_lines :: "string \<Rightarrow> string list" where
  "normalised_lines body =
     split_on lf (map (\<lambda>c. if c = cr then lf else c) (crlf_to_lf body))"

fun stuffed_from :: "bool \<Rightarrow> string \<Rightarrow> string" where
  "stuffed_from at_line_start [] = []"
| "stuffed_from at_line_start (b # bs) =
     (if at_line_start \<and> b = CHR ''.'' then ''.'' else []) @ b # stuffed_from (b = lf) bs"

definition stuffed :: "string \<Rightarrow> string" where
  "stuffed bytes = stuffed_from True bytes"

definition list_get :: "'a list \<Rightarrow> nat \<Rightarrow> 'a \<Rightarrow> 'a" where
  "list_get xs i d = (if i < length xs then xs ! i else d)"

definition year04 :: "int \<Rightarrow> string" where
  "year04 y = (if y < 0 then ''-'' @ pad0 3 (dec (nat \<bar>y\<bar>)) else pad0 4 (dec (nat y)))"

definition rfc5322_date :: "time_crate \<Rightarrow> instant \<Rightarrow> string" where
  "rfc5322_date T now =
     (let day = now div NANOS_PER_DAY;
          weekday = list_get [''Mon'', ''Tue'', ''Wed'', ''Thu'', ''Fri'', ''Sat'', ''Sun'']
                      (tc_weekday T day) ''Mon''
      in case tc_civil T day of
           (y, m, d) \<Rightarrow>
             weekday @ '', '' @ pad0 2 (dec d) @ '' ''
             @ list_get [''Jan'', ''Feb'', ''Mar'', ''Apr'', ''May'', ''Jun'', ''Jul'', ''Aug'',
                         ''Sep'', ''Oct'', ''Nov'', ''Dec''] (m - 1) ''Jan''
             @ '' '' @ year04 y @ '' '' @ pad0 2 (dec (clock_hour now)) @ '':''
             @ pad0 2 (dec (clock_minute now)) @ '':'' @ pad0 2 (dec (clock_second now)) @ '' +0000'')"

definition header_line :: "string \<Rightarrow> string \<Rightarrow> string" where
  "header_line name value = name @ '': '' @ value @ crlf"

text \<open>The headers in the order they are written, each a name and a value.\<close>

definition message_headers :: "time_crate \<Rightarrow> instant \<Rightarrow> email_message \<Rightarrow> (string \<times> string) list" where
  "message_headers T now m =
     [(''From'', ms_from m), (''To'', ms_to m), (''Subject'', ms_subject m),
      (''Date'', rfc5322_date T now), (''MIME-Version'', ''1.0''),
      (''Content-Type'', ''text/plain; charset=utf-8''), (''Content-Transfer-Encoding'', ''8bit''),
      (''Auto-Submitted'', ''auto-generated'')]"

definition wire_bytes :: "time_crate \<Rightarrow> instant \<Rightarrow> email_message \<Rightarrow> string" where
  "wire_bytes T now m =
     concat (map (\<lambda>(n, v). header_line n v) (message_headers T now m)) @ crlf
     @ concat (map (\<lambda>l. l @ crlf) (normalised_lines (ms_body m)))"

section \<open>The text of a statement\<close>

definition short_instant :: "string \<Rightarrow> string" where
  "short_instant stored =
     (case split_once (CHR ''T'') stored of
        Some (date, rest) \<Rightarrow>
          (case split_once (CHR ''.'') rest of
             Some (time, _) \<Rightarrow> date @ '' '' @ time @ '' UTC''
           | None \<Rightarrow> date @ '' '' @ rest)
      | None \<Rightarrow> stored)"

fun grouped_from :: "bool \<Rightarrow> string \<Rightarrow> string" where
  "grouped_from first [] = []"
| "grouped_from first (c # cs) =
     (if \<not> first \<and> length (c # cs) mod 3 = 0 then '','' else []) @ c # grouped_from False cs"

definition grouped :: "i64 \<Rightarrow> string" where
  "grouped n = (if n < 0 then ''-'' else []) @ grouped_from True (dec (nat \<bar>n\<bar>))"

text \<open>\<open>{:<w}\<close> and \<open>{:>w}\<close> count characters. The \<open>Display\<close> of an amount ignores the width.\<close>

definition char_count :: "string \<Rightarrow> nat" where
  "char_count s = length (filter (\<lambda>c. \<not> is_continuation c) s)"

definition pad_right :: "nat \<Rightarrow> string \<Rightarrow> string" where
  "pad_right w s = s @ replicate (w - char_count s) (CHR '' '')"

definition pad_left :: "nat \<Rightarrow> string \<Rightarrow> string" where
  "pad_left w s = replicate (w - char_count s) (CHR '' '') @ s"

definition table_row :: "string \<Rightarrow> string \<Rightarrow> string \<Rightarrow> string \<Rightarrow> string \<Rightarrow> string" where
  "table_row model input cached output amount =
     pad_right 32 model @ '' '' @ pad_left 10 input @ '' '' @ pad_left 10 cached @ '' ''
     @ pad_left 12 output @ '' '' @ amount @ [lf]"

definition em_dash :: string where
  "em_dash = map char_of [0xE2, 0x80, 0x94 :: nat]"

definition sum_i64 :: "i64 list \<Rightarrow> i64" where
  "sum_i64 xs = foldl (\<lambda>a x. wrap_i64 (a + x)) 0 xs"

definition is_reconciliation :: "('a statement_scheme) \<Rightarrow> bool" where
  "is_reconciliation st \<longleftrightarrow> is_some_and (\<lambda>m. \<not> owes_payment m) (billing_mode_value st)"

definition statement_amount :: "('a statement_scheme) \<Rightarrow> string" where
  "statement_amount st = micro_display (MicroUsd (st_total st))"

definition statement_subject :: "('a statement_scheme) \<Rightarrow> string" where
  "statement_subject st =
     (if is_reconciliation st
      then ''Settlement statement for '' @ st_billing_date st @ '': '' @ statement_amount st
      else (case st_due_at st of
              Some due \<Rightarrow> ''Statement for '' @ st_billing_date st @ '': '' @ statement_amount st
                          @ '' due '' @ short_instant due
            | None \<Rightarrow> ''Statement for '' @ st_billing_date st @ '': '' @ statement_amount st))"

definition usage_table :: "('a statement_scheme) \<Rightarrow> statement_line list \<Rightarrow> string" where
  "usage_table st ls =
     (if ls = [] then ''No billable usage was recorded for this day.'' @ [lf, lf]
      else
        table_row ''model'' ''input'' ''cached'' ''output'' (pad_left 14 ''amount'')
        @ concat (map (\<lambda>l. table_row (sl_model l) (grouped (sl_input_tokens l))
             (grouped (sl_cached_input_tokens l)) (grouped (sl_output_tokens l))
             (micro_display (MicroUsd (sl_total_cost l)))) ls)
        @ [lf]
        @ table_row ''total'' (grouped (sum_i64 (map sl_input_tokens ls)))
            (grouped (sum_i64 (map sl_cached_input_tokens ls)))
            (grouped (sum_i64 (map sl_output_tokens ls))) (statement_amount st)
        @ [lf])"

definition incomplete_note :: "('a statement_scheme) \<Rightarrow> string" where
  "incomplete_note st =
     (if 0 < st_incomplete st
      then dec_int (st_incomplete st)
           @ '' request(s) that day could not be measured in full '' @ em_dash
           @ '' the provider did not report their usage, or no complete price was configured ''
           @ ''for the model '' @ em_dash
           @ '' and are therefore not charged. They are counted here so the total above is not ''
           @ ''read as complete when it is not. No suspension follows from that count.'' @ [lf, lf]
      else [])"

definition payment_note :: "('a statement_scheme) \<Rightarrow> string" where
  "payment_note st =
     (if is_reconciliation st
      then ''This is a reconciliation statement, for the settlement record. There is no payment ''
           @ ''due on it and no deadline attached to it.'' @ [lf, lf]
      else (case st_due_at st of
              Some due \<Rightarrow>
                ''Payment of '' @ statement_amount st @ '' is due by '' @ short_instant due
                @ ''. If it is not recorded by then, this account's API key is suspended until it ''
                @ ''is, and requests are refused with a billing error in the meantime.'' @ [lf, lf]
            | None \<Rightarrow>
                ''Payment is due. The deadline for this statement is set when it is issued.''
                @ [lf, lf]))"

definition statement_body :: "('a statement_scheme) \<Rightarrow> statement_line list \<Rightarrow> string \<Rightarrow> string" where
  "statement_body st ls partner_name =
     ''Hello '' @ partner_name @ '','' @ [lf, lf]
     @ ''Here is your usage statement for '' @ st_billing_date st @ '', covering ''
     @ short_instant (st_period_start st) @ '' to '' @ short_instant (st_period_end st) @ ''.''
     @ [lf, lf]
     @ usage_table st ls @ incomplete_note st @ payment_note st
     @ ''Statement reference: '' @ dec_int (st_id st) @ [lf, lf]
     @ ''This message was generated automatically. If a figure here looks wrong, reply to it ''
     @ ''before paying '' @ em_dash
     @ '' a statement is the record, and it is not adjusted after it is sent.'' @ [lf]"

definition statement_message ::
  "('a statement_scheme) \<Rightarrow> statement_line list \<Rightarrow> string \<Rightarrow> string \<Rightarrow> string \<Rightarrow>
   send_error + email_message" where
  "statement_message st ls partner_name from_address recipient =
     message_new from_address recipient (statement_subject st) (statement_body st ls partner_name)"

section \<open>Base64\<close>

definition base64_alphabet :: string where
  "base64_alphabet = ''ABCDEFGHIJKLMNOPQRSTUVWXYZabcdefghijklmnopqrstuvwxyz0123456789+/''"

definition base64_digits :: "char \<Rightarrow> char \<Rightarrow> char \<Rightarrow> string" where
  "base64_digits a b c =
     (let triple = (of_char a * 2 ^ 16 + of_char b * 2 ^ 8 + of_char c :: nat)
      in map (\<lambda>shift. base64_alphabet ! (triple div 2 ^ shift mod 64)) [18, 12, 6, 0])"

fun base64 :: "string \<Rightarrow> string" where
  "base64 [] = []"
| "base64 [a] = take 2 (base64_digits a (CHR 0x00) (CHR 0x00)) @ ''==''"
| "base64 [a, b] = take 3 (base64_digits a b (CHR 0x00)) @ ''=''"
| "base64 (a # b # c # rest) = base64_digits a b c @ base64 rest"

end
