(* ===== verification/Smtp.thy ===== *)
theory Smtp
  imports Email
begin

text \<open>
  \<^verbatim>\<open>src/src/billing/email.rs\<close>, the SMTP client. The relay is the script of what each read returns,
  over which every statement ranges: it stands for any peer and any network. TLS, the connection
  and the \<open>Debug\<close> rendering of a text are parameters. \<open>ss_log\<close> is the history of the
  conversation: the writes, each with whether the session was encrypted (one that fails counts as
  sent), and the codes of the replies.
\<close>

section \<open>The wire\<close>

text \<open>
  What the next reads return (an error, or bytes that have arrived; no bytes, or nothing left, is a
  closed connection) and what the next writes suffer.
\<close>

record wire =
  wi_reads :: "(string + string) list"
  wi_writes :: "string option list"

definition MAX_REPLY_BYTES :: nat where
  "MAX_REPLY_BYTES = 8 * 1024"

definition MAX_ERROR_CHARS :: nat where
  "MAX_ERROR_CHARS = 500"

definition CHUNK :: nat where
  "CHUNK = 1024"

text \<open>One \<open>read\<close> into a buffer of \<open>CHUNK\<close> bytes; the rest of what arrived stays on the wire.\<close>

definition wire_read :: "wire \<Rightarrow> (string + string) \<times> wire" where
  "wire_read w =
     (case wi_reads w of
        [] \<Rightarrow> (Inr [], w)
      | Inl e # rest \<Rightarrow> (Inl e, w\<lparr>wi_reads := rest\<rparr>)
      | Inr bytes # rest \<Rightarrow>
          (Inr (take CHUNK bytes),
           w\<lparr>wi_reads := (if drop CHUNK bytes = [] then rest else Inr (drop CHUNK bytes) # rest)\<rparr>))"

definition wire_write :: "wire \<Rightarrow> (string + unit) \<times> wire" where
  "wire_write w =
     (case wi_writes w of
        [] \<Rightarrow> (Inr (), w)
      | None # rest \<Rightarrow> (Inr (), w\<lparr>wi_writes := rest\<rparr>)
      | Some e # rest \<Rightarrow> (Inl e, w\<lparr>wi_writes := rest\<rparr>))"

section \<open>The session\<close>

datatype smtp_event = Sent bool string | Got nat

record session =
  ss_wire :: "wire option"
  ss_buffer :: string
  ss_consumed :: nat
  ss_capabilities :: "string list"
  ss_encrypted :: bool
  ss_log :: "smtp_event list"

record reply =
  rp_code :: nat
  rp_text :: string

type_synonym 'a smtp = "(send_error + 'a) \<times> session"

definition session_new :: "wire \<Rightarrow> session" where
  "session_new w =
     \<lparr>ss_wire = Some w, ss_buffer = [], ss_consumed = 0, ss_capabilities = [],
      ss_encrypted = False, ss_log = []\<rparr>"

definition smtp_bind :: "'a smtp \<Rightarrow> ('a \<Rightarrow> session \<Rightarrow> 'b smtp) \<Rightarrow> 'b smtp" where
  "smtp_bind r f = (case r of (Inl e, s) \<Rightarrow> (Inl e, s) | (Inr x, s) \<Rightarrow> f x s)"

lemma smtp_bind_simps [simp]:
  "smtp_bind (Inl e, s) f = (Inl e, s)"
  "smtp_bind (Inr x, s) f = f x s"
  by (simp_all add: smtp_bind_def)

definition no_wire :: send_error where
  "no_wire = Protocol ''the session lost its connection''"

definition write_all :: "string \<Rightarrow> session \<Rightarrow> unit smtp" where
  "write_all bytes s =
     (case ss_wire s of
        None \<Rightarrow> (Inl no_wire, s)
      | Some w \<Rightarrow>
          (let s' = s\<lparr>ss_wire := Some (snd (wire_write w)),
                     ss_log := ss_log s @ [Sent (ss_encrypted s) bytes]\<rparr>
           in case fst (wire_write w) of
                Inl e \<Rightarrow> (Inl (IoFailed e), s')
              | Inr _ \<Rightarrow> (Inr (), s')))"

subsection \<open>Reading a line\<close>

definition script_size :: "(string + string) list \<Rightarrow> nat" where
  "script_size rs = sum_list (map (\<lambda>r. case r of Inl _ \<Rightarrow> 1 | Inr b \<Rightarrow> length b + 1) rs)"

definition pending_reads :: "session \<Rightarrow> nat" where
  "pending_reads s = (case ss_wire s of None \<Rightarrow> 0 | Some w \<Rightarrow> script_size (wi_reads w))"

definition unread :: "session \<Rightarrow> string" where
  "unread s = drop (ss_consumed s) (ss_buffer s)"

function read_line :: "session \<Rightarrow> string smtp" where
  "read_line s =
     (if lf \<in> set (unread s)
      then (let line = takeWhile (\<lambda>b. b \<noteq> lf) (unread s) @ [lf]
            in (Inr (utf8_lossy line), s\<lparr>ss_consumed := ss_consumed s + length line\<rparr>))
      else
        let s = s\<lparr>ss_buffer := unread s, ss_consumed := 0\<rparr>
        in if MAX_REPLY_BYTES < length (ss_buffer s)
           then (Inl (Protocol (''the relay sent more than 8192 bytes without ending a line'')), s)
           else case ss_wire s of
                  None \<Rightarrow> (Inl no_wire, s)
                | Some w \<Rightarrow>
                    (case wire_read w of
                       (Inl e, w') \<Rightarrow> (Inl (IoFailed e), s\<lparr>ss_wire := Some w'\<rparr>)
                     | (Inr chunk, w') \<Rightarrow>
                         if chunk = []
                         then (Inl (Protocol ''the relay closed the connection mid-reply''),
                               s\<lparr>ss_wire := Some w'\<rparr>)
                         else read_line (s\<lparr>ss_wire := Some w', ss_buffer := ss_buffer s @ chunk\<rparr>)))"
  by pat_completeness auto

lemma wire_read_shrinks:
  "wire_read w = (Inr chunk, w') \<Longrightarrow> chunk \<noteq> [] \<Longrightarrow>
    script_size (wi_reads w') + length chunk \<le> script_size (wi_reads w)
    \<and> (script_size (wi_reads w') < script_size (wi_reads w))"
  by (auto simp: wire_read_def script_size_def CHUNK_def split: list.splits sum.splits if_splits)

termination read_line
  by (relation "measure pending_reads")
    (auto simp: pending_reads_def dest: wire_read_shrinks [OF sym])

declare read_line.simps [simp del]

subsection \<open>Reading a reply\<close>

text \<open>\<open>bounded\<close>: at most \<open>MAX_ERROR_CHARS\<close> characters, with an ellipsis when something was cut.\<close>

definition ellipsis :: string where
  "ellipsis = map char_of [0xE2, 0x80, 0xA6 :: nat]"

definition bounded :: "string \<Rightarrow> string" where
  "bounded s =
     (if char_count s \<le> MAX_ERROR_CHARS then s else take_chars MAX_ERROR_CHARS s @ ellipsis)"

definition trim_line_end :: "string \<Rightarrow> string" where
  "trim_line_end line = rev (dropWhile (\<lambda>c. c = cr \<or> c = lf) (rev line))"

definition suffix_from :: "nat \<Rightarrow> string \<Rightarrow> string" where
  "suffix_from n s =
     (if n \<le> length s \<and> (n = length s \<or> \<not> is_continuation (s ! n)) then drop n s else [])"

datatype line_verdict = LineError send_error | LineMore string string | LineLast string string

text \<open>One line of a reply against the code and text so far.\<close>

definition reply_line :: "(string \<Rightarrow> string) \<Rightarrow> string \<Rightarrow> string \<Rightarrow> string \<Rightarrow> line_verdict" where
  "reply_line D code sofar line =
     (let trimmed = trim_line_end line
      in if length trimmed < 3 \<or> \<not> all_digits (take 3 trimmed)
         then LineError (Protocol (''the relay sent a line that is not a reply: '' @ D trimmed))
         else if code \<noteq> [] \<and> take 3 trimmed \<noteq> code
              then LineError (Protocol (''the reply changed code mid-message: '' @ D trimmed))
         else
           let code' = take 3 trimmed; text' = sofar @ suffix_from 4 trimmed
           in if 3 < length trimmed \<and> trimmed ! 3 = CHR ''-'' then LineMore code' (text' @ [lf])
              else if 3 < length trimmed \<and> trimmed ! 3 = CHR '' '' then LineLast code' text'
              else LineError (Protocol
                     (''the relay sent an unseparated reply line: '' @ D trimmed)))"

text \<open>What is left to read; each line read makes it smaller.\<close>

definition unread_size :: "session \<Rightarrow> nat" where
  "unread_size s = length (unread s) + pending_reads s"

lemma read_line_shrinks: "read_line s = (Inr line, s') \<Longrightarrow> unread_size s' < unread_size s"
proof (induction s rule: read_line.induct)
  case (1 s)
  show ?case
  proof (cases "lf \<in> set (unread s)")
    case True
    let ?n = "length (takeWhile (\<lambda>b. b \<noteq> lf) (unread s)) + 1"
    have "s' = s\<lparr>ss_consumed := ss_consumed s + ?n\<rparr>"
      using 1(2) True by (subst (asm) read_line.simps) (simp add: Let_def)
    moreover have "0 < length (unread s)" using True by (cases "unread s") auto
    ultimately show ?thesis by (simp add: unread_size_def unread_def pending_reads_def)
  next
    case False
    define t where "t = s\<lparr>ss_buffer := unread s, ss_consumed := 0\<rparr>"
    have "\<not> MAX_REPLY_BYTES < length (ss_buffer t)"
      using 1(2) False by (subst (asm) read_line.simps) (auto simp: t_def Let_def)
    moreover obtain w where w: "ss_wire t = Some w"
      using 1(2) False calculation
      by (subst (asm) read_line.simps) (auto simp: t_def Let_def split: option.splits)
    moreover obtain chunk w' where r: "wire_read w = (Inr chunk, w')" "chunk \<noteq> []"
      using 1(2) False calculation
      by (subst (asm) read_line.simps)
        (auto simp: t_def Let_def split: prod.splits sum.splits if_splits)
    moreover define u where "u = t\<lparr>ss_wire := Some w', ss_buffer := ss_buffer t @ chunk\<rparr>"
    ultimately have "read_line u = (Inr line, s')"
      using 1(2) False by (subst (asm) read_line.simps) (simp add: t_def u_def Let_def)
    moreover have "unread_size u \<le> unread_size s"
      using wire_read_shrinks [OF r] w
      by (simp add: u_def t_def unread_size_def unread_def pending_reads_def)
    ultimately show ?thesis
      using 1(1) [OF False _ _ w] r(1,2) \<open>\<not> MAX_REPLY_BYTES < length (ss_buffer t)\<close>
      by (auto simp: t_def u_def)
  qed
qed

function read_reply_from :: "(string \<Rightarrow> string) \<Rightarrow> string \<Rightarrow> string \<Rightarrow> session \<Rightarrow> reply smtp" where
  "read_reply_from D code sofar s =
     (case read_line s of
        (Inl e, s') \<Rightarrow> (Inl e, s')
      | (Inr line, s') \<Rightarrow>
          (case reply_line D code sofar line of
             LineError e \<Rightarrow> (Inl e, s')
           | LineMore code' text' \<Rightarrow> read_reply_from D code' text' s'
           | LineLast code' text' \<Rightarrow>
               (Inr \<lparr>rp_code = dec_value code', rp_text = bounded text'\<rparr>, s')))"
  by pat_completeness auto

termination read_reply_from
  by (relation "measure (\<lambda>(D, code, sofar, s). unread_size s)")
    (auto dest: read_line_shrinks [OF sym])

declare read_reply_from.simps [simp del]

definition read_reply :: "(string \<Rightarrow> string) \<Rightarrow> session \<Rightarrow> reply smtp" where
  "read_reply D s = read_reply_from D [] [] s"

section \<open>Commands\<close>

definition expect :: "(string \<Rightarrow> string) \<Rightarrow> nat \<Rightarrow> string \<Rightarrow> session \<Rightarrow> reply smtp" where
  "expect D expect_code command s =
     smtp_bind (read_reply D s) (\<lambda>r s. let s' = s\<lparr>ss_log := ss_log s @ [Got (rp_code r)]\<rparr> in
       if rp_code r = expect_code \<or> (expect_code = 250 \<and> rp_code r = 251) then (Inr r, s')
       else (Inl (Refused command (rp_code r) (rp_text r)), s'))"

definition smtp_command ::
  "(string \<Rightarrow> string) \<Rightarrow> nat \<Rightarrow> string \<Rightarrow> string \<Rightarrow> session \<Rightarrow> reply smtp" where
  "smtp_command D expect_code command line s =
     smtp_bind (write_all (line @ crlf) s) (\<lambda>_. expect D expect_code command)"

text \<open>\<open>rsplit_once('@')\<close>, the domain after the last one.\<close>

definition sender_domain :: "string \<Rightarrow> string" where
  "sender_domain from_address =
     (if CHR ''@'' \<in> set from_address
      then (let d = rev (takeWhile (\<lambda>c. c \<noteq> CHR ''@'') (rev from_address))
            in if d = [] then ''localhost'' else d)
      else ''localhost'')"

text \<open>\<open>str::lines\<close>, and the first word of a line.\<close>

definition strip_cr :: "string \<Rightarrow> string" where
  "strip_cr l = (if l \<noteq> [] \<and> last l = cr then butlast l else l)"

definition str_lines :: "string \<Rightarrow> string list" where
  "str_lines s =
     (let pieces = split_on lf s
      in map strip_cr (if last pieces = [] then butlast pieces else pieces))"

fun until_space :: "string \<Rightarrow> string" where
  "until_space [] = []"
| "until_space (c # cs) =
     (if strip_one white_space (c # cs) = None then c # until_space cs else [])"

definition first_word :: "string \<Rightarrow> string option" where
  "first_word line =
     (let t = trim_start_of white_space line in if t = [] then None else Some (until_space t))"

definition capabilities_of :: "string \<Rightarrow> string list" where
  "capabilities_of reply_text = List.map_filter first_word (drop 1 (str_lines reply_text))"

definition hello :: "(string \<Rightarrow> string) \<Rightarrow> string \<Rightarrow> session \<Rightarrow> unit smtp" where
  "hello D from_address s =
     smtp_bind (smtp_command D 250 ''EHLO'' (''EHLO '' @ sender_domain from_address) s) (\<lambda>r s'.
       (Inr (), s'\<lparr>ss_capabilities := capabilities_of (rp_text r)\<rparr>))"

definition ascii_upper :: "char \<Rightarrow> char" where
  "ascii_upper c =
     (let n = (of_char c :: nat) in if 97 \<le> n \<and> n \<le> 122 then char_of (n - 32) else c)"

definition supports :: "string \<Rightarrow> session \<Rightarrow> bool" where
  "supports capability s \<longleftrightarrow>
     list_ex (\<lambda>c. map ascii_upper c = map ascii_upper capability) (ss_capabilities s)"

text \<open>
  \<open>tls\<close> is \<open>upgrade\<close>: the encrypted wire made of a plain one, or a refusal. A build without TLS has
  \<open>upgrade_without_tls\<close>. The wire is taken before the upgrade, so a refused one is lost.
\<close>

type_synonym tls = "string \<Rightarrow> wire \<Rightarrow> send_error + wire"

definition upgrade_without_tls :: tls where
  "upgrade_without_tls host w = Inl NoTlsInBuild"

definition starttls :: "(string \<Rightarrow> string) \<Rightarrow> tls \<Rightarrow> string \<Rightarrow> session \<Rightarrow> unit smtp" where
  "starttls D tls host s =
     smtp_bind (smtp_command D 220 ''STARTTLS'' ''STARTTLS'' s) (\<lambda>_ s.
       if length (ss_buffer s) \<noteq> ss_consumed s
       then (Inl (Protocol ''the relay sent data after its STARTTLS reply, before the handshake''), s)
       else
         let s = s\<lparr>ss_buffer := [], ss_consumed := 0\<rparr>
         in case ss_wire s of
              None \<Rightarrow> (Inl no_wire, s)
            | Some w \<Rightarrow>
                (case tls host w of
                   Inl e \<Rightarrow> (Inl e, s\<lparr>ss_wire := None\<rparr>)
                 | Inr w' \<Rightarrow>
                     smtp_bind (smtp_command D 250 ''EHLO'' ''EHLO''
                         (s\<lparr>ss_wire := Some w', ss_encrypted := True, ss_capabilities := []\<rparr>))
                       (\<lambda>r s'. (Inr (), s'\<lparr>ss_capabilities := capabilities_of (rp_text r)\<rparr>))))"

definition authenticate ::
  "(string \<Rightarrow> string) \<Rightarrow> smtp_credentials \<Rightarrow> session \<Rightarrow> unit smtp" where
  "authenticate D credentials s =
     (let encoded = base64 ([CHR 0x00] @ sc_username credentials @ [CHR 0x00] @ sc_password credentials)
      in case smtp_command D 235 ''AUTH'' (''AUTH PLAIN '' @ encoded) s of
           (Inl (Refused command code reason), s') \<Rightarrow>
             if code = 334
             then smtp_bind (smtp_command D 235 ''AUTH'' encoded s') (\<lambda>_ s''. (Inr (), s''))
             else (Inl (Refused command code reason), s')
         | (Inl e, s') \<Rightarrow> (Inl e, s')
         | (Inr _, s') \<Rightarrow> (Inr (), s'))"

section \<open>Sending a message\<close>

text \<open>\<open>connect\<close> resolves the address and opens the socket with its timeouts.\<close>

definition start_encryption ::
  "(string \<Rightarrow> string) \<Rightarrow> tls \<Rightarrow> settings \<Rightarrow> session \<Rightarrow> bool smtp" where
  "start_encryption D tls settings s =
     (if supports ''STARTTLS'' s
      then smtp_bind (starttls D tls (se_host settings) s) (\<lambda>_ s'. (Inr True, s'))
      else (Inr False, s))"

definition present_credentials ::
  "(string \<Rightarrow> string) \<Rightarrow> settings \<Rightarrow> bool \<Rightarrow> session \<Rightarrow> unit smtp" where
  "present_credentials D settings enc s =
     (case se_credentials settings of
        None \<Rightarrow> (Inr (), s)
      | Some credentials \<Rightarrow>
          if \<not> enc then (Inl CredentialsWithoutTls, s) else authenticate D credentials s)"

definition transmit ::
  "time_crate \<Rightarrow> instant \<Rightarrow> (string \<Rightarrow> string) \<Rightarrow> settings \<Rightarrow> email_message \<Rightarrow> session \<Rightarrow>
   unit smtp" where
  "transmit T now D settings m s =
     smtp_bind (smtp_command D 250 ''MAIL FROM'' (''MAIL FROM:<'' @ se_from_address settings @ ''>'') s) (\<lambda>_ s.
     smtp_bind (smtp_command D 250 ''RCPT TO'' (''RCPT TO:<'' @ ms_to m @ ''>'') s) (\<lambda>_ s.
     smtp_bind (smtp_command D 354 ''DATA'' ''DATA'' s) (\<lambda>_ s.
     smtp_bind (write_all (stuffed (wire_bytes T now m)) s) (\<lambda>_ s.
     smtp_bind (write_all (''.'' @ crlf) s) (\<lambda>_ s.
     smtp_bind (expect D 250 ''end of DATA'' s) (\<lambda>_ s.
       (Inr (), snd (smtp_command D 221 ''QUIT'' ''QUIT'' s))))))))"

definition smtp_converse ::
  "time_crate \<Rightarrow> instant \<Rightarrow> (string \<Rightarrow> string) \<Rightarrow> tls \<Rightarrow> settings \<Rightarrow> email_message \<Rightarrow> wire \<Rightarrow>
   unit smtp" where
  "smtp_converse T now D tls settings m w =
     smtp_bind (expect D 220 ''greeting'' (session_new w)) (\<lambda>_ s.
     smtp_bind (hello D (se_from_address settings) s) (\<lambda>_ s.
     smtp_bind (start_encryption D tls settings s) (\<lambda>enc s.
     smtp_bind (present_credentials D settings enc s) (\<lambda>_ s.
       transmit T now D settings m s))))"

definition smtp_send ::
  "time_crate \<Rightarrow> instant \<Rightarrow> (string \<Rightarrow> string) \<Rightarrow> (string \<Rightarrow> send_error + wire) \<Rightarrow> tls \<Rightarrow>
   settings \<Rightarrow> email_message \<Rightarrow> (send_error + unit) \<times> smtp_event list" where
  "smtp_send T now D connect tls settings m =
     (if \<not> settings_complete settings
      then (Inl (Protocol (''no relay is configured (billing.email.smtp_host and from_address ''
              @ ''are required)'')), [])
      else case connect (se_host settings @ '':'' @ dec (se_port settings)) of
             Inl e \<Rightarrow> (Inl e, [])
           | Inr w \<Rightarrow>
               (case smtp_converse T now D tls settings m w of (r, s) \<Rightarrow> (r, ss_log s)))"

definition send_error_display :: "send_error \<Rightarrow> string" where
  "send_error_display e =
     (case e of
        ConnectFailed e \<Rightarrow> ''could not reach the mail relay: '' @ e
      | InvalidHeader field reason \<Rightarrow> field @ '' is not a usable header: '' @ reason
      | CredentialsWithoutTls \<Rightarrow>
          ''the relay does not offer STARTTLS, so the SMTP credential was not sent; ''
          @ ''enable encryption on the relay, or unset PARTNER_PORTAL_SMTP_USERNAME and ''
          @ ''PARTNER_PORTAL_SMTP_PASSWORD''
      | NoTlsInBuild \<Rightarrow>
          ''SMTP credentials are configured but this build has no TLS; build with ''
          @ ''--features hyper-rustls, or run the relay without a credential''
      | Refused command code reason \<Rightarrow>
          ''the relay refused '' @ command @ '': '' @ dec code @ '' '' @ reason
      | Protocol e \<Rightarrow> ''unexpected SMTP conversation: '' @ e
      | IoFailed e \<Rightarrow> ''the mail relay connection failed: '' @ e)"

end
