(* ===== verification/Smtp_Properties.thy ===== *)
theory Smtp_Properties
  imports Smtp Gregorian
begin

text \<open>
  The properties of the statement email: dot-stuffing, the shape of a message on the wire, and what
  the SMTP conversation sends and when it reports success.
\<close>

section \<open>Dot-stuffing\<close>

text \<open>The receiver's side of RFC 5321, 4.5.2: a leading period of a line is removed.\<close>

fun unstuffed_from :: "bool \<Rightarrow> string \<Rightarrow> string" where
  "unstuffed_from at_line_start [] = []"
| "unstuffed_from at_line_start (b # bs) =
     (if at_line_start \<and> b = CHR ''.'' then unstuffed_from False bs
      else b # unstuffed_from (b = lf) bs)"

lemma line_chars [simp]: "CHR ''.'' \<noteq> lf" "lf \<noteq> CHR ''.''" "cr \<noteq> lf" "lf \<noteq> cr"
  by (simp_all add: lf_def cr_def)

lemma unstuff_stuffed: "unstuffed_from start (stuffed_from start bs) = bs"
  by (induction start bs rule: stuffed_from.induct) auto

lemma stuffed_dot:
  "q # stuffed_from (q = lf) bs = pre @ lf # CHR ''.'' # rest \<Longrightarrow> \<exists>r. rest = CHR ''.'' # r"
proof (induction bs arbitrary: q pre)
  case Nil
  then show ?case by (cases pre) auto
next
  case (Cons b bs)
  show ?case
  proof (cases "q = lf \<and> b = CHR ''.''")
    case True
    then have l: "lf # CHR ''.'' # CHR ''.'' # stuffed_from False bs = pre @ lf # CHR ''.'' # rest"
      using Cons.prems by simp
    show ?thesis
    proof (cases pre)
      case (Cons x pre')
      then obtain pre'' where "CHR ''.'' # stuffed_from False bs = pre'' @ lf # CHR ''.'' # rest"
        using l by (cases pre') auto
      then show ?thesis using Cons.IH [of "CHR ''.''" pre''] by simp
    qed (use l in auto)
  next
    case False
    then have l: "q # b # stuffed_from (b = lf) bs = pre @ lf # CHR ''.'' # rest"
      using Cons.prems by auto
    show ?thesis
    proof (cases pre)
      case Nil
      then show ?thesis using l False by auto
    next
      case (Cons x pre')
      then show ?thesis using l Cons.IH [of b pre'] by simp
    qed
  qed
qed

text \<open>
  the body of a message survives the DATA phase. A receiver that undoes dot-stuffing gets the
  bytes that were stuffed, and in the stuffed bytes every period at the start of a line is followed
  by another, so nothing before the terminator can be read as the end of the data.
\<close>

theorem stuffing_is_transparent:
  "unstuffed_from True (stuffed bs) = bs
   \<and> (lf # stuffed bs = pre @ lf # CHR ''.'' # rest \<longrightarrow> (\<exists>r. rest = CHR ''.'' # r))"
  using unstuff_stuffed [of True bs] stuffed_dot [of lf bs pre rest] by (simp add: stuffed_def)

theorem stuffing_is_transparent_witness:
  "\<exists>r. stuffed ''.'' = CHR ''.'' # r \<and> r = ''.''"
  using stuffing_is_transparent [of "''.''" "[]" "''.''"] by (simp add: stuffed_def)

section \<open>A message on the wire\<close>

lemma split_on_nonempty [simp]: "split_on c s \<noteq> []"
  by (cases s) (auto split: list.splits)

lemma split_on_append: "c \<notin> set l \<Longrightarrow> split_on c (l @ c # s) = l # split_on c s"
  by (induction l) auto

lemma split_on_concat:
  "(\<And>l. l \<in> set ls \<Longrightarrow> c \<notin> set l) \<Longrightarrow>
    split_on c (concat (map (\<lambda>l. l @ [c]) ls) @ s) = ls @ split_on c s"
  by (induction ls) (auto simp: split_on_append)

lemma split_on_pieces: "p \<in> set (split_on c s) \<Longrightarrow> set p \<subseteq> set s \<and> c \<notin> set p"
proof (induction s arbitrary: p)
  case (Cons x s)
  obtain q qs where q: "split_on c s = q # qs" by (cases "split_on c s") auto
  have IH: "set r \<subseteq> set s \<and> c \<notin> set r" if "r \<in> set (q # qs)" for r
    using Cons.IH [of r] q that by simp
  have "p = [] \<and> x = c \<or> p \<in> set (q # qs) \<or> p = x # q \<and> x \<noteq> c"
    using Cons.prems q by (auto split: if_splits)
  then show ?case using IH [of p] IH [of q] by auto
qed simp

lemma normalised_line: "l \<in> set (normalised_lines body) \<Longrightarrow> cr \<notin> set l \<and> lf \<notin> set l"
  unfolding normalised_lines_def by (drule split_on_pieces) auto

definition line_safe :: "string \<Rightarrow> bool" where
  "line_safe s \<longleftrightarrow> cr \<notin> set s \<and> lf \<notin> set s"

lemma line_safe_simps [simp]:
  "line_safe []"
  "line_safe (a @ b) \<longleftrightarrow> line_safe a \<and> line_safe b"
  "line_safe (c # s) \<longleftrightarrow> c \<noteq> cr \<and> c \<noteq> lf \<and> line_safe s"
  by (auto simp: line_safe_def)

lemma digits_safe: "all_digits s \<Longrightarrow> line_safe s"
  using all_digits_notin [of s cr] all_digits_notin [of s lf]
  by (simp add: line_safe_def is_ascii_digit_def cr_def lf_def)

lemma pad_dec_safe [simp]: "line_safe (pad0 w (dec n))"
  by (rule digits_safe) simp

lemma list_get_safe: "list_all line_safe xs \<Longrightarrow> line_safe d \<Longrightarrow> line_safe (list_get xs i d)"
  by (simp add: list_get_def list_all_length)

lemma date_safe: "line_safe (rfc5322_date T now)"
  by (auto simp: rfc5322_date_def Let_def year04_def cr_def lf_def split: prod.split
      intro!: list_get_safe)

lemma check_header_safe: "check_header f v = Inr u \<Longrightarrow> v \<noteq> [] \<and> line_safe v"
  by (auto simp: check_header_def line_safe_def split: if_splits)

lemma message_new_Inr:
  assumes "message_new from to subject body = Inr m"
  shows "m = \<lparr>ms_from = from, ms_to = to, ms_subject = subject, ms_body = body\<rparr>"
    and "line_safe from" "line_safe to" "line_safe subject"
  using assms by (auto simp: message_new_def res_bind_Inr_iff dest: check_header_safe)

text \<open>
  no header can be forged. A message that was accepted is on the wire as exactly the eight
  headers the code writes, an empty line and the lines of the body, each line ended by CR LF and
  none holding a bare CR or LF, whatever the addresses, the subject and the body contain.
\<close>

theorem headers_cannot_be_forged:
  fixes T :: time_crate and now :: instant
  assumes "message_new from to subject body = Inr m"
  defines "ls \<equiv> map (\<lambda>(n, v). n @ '': '' @ v) (message_headers T now m) @ [[]]
                 @ normalised_lines (ms_body m)"
  shows "split_on lf (wire_bytes T now m) = map (\<lambda>l. l @ [cr]) ls @ [[]]
    \<and> list_all line_safe ls"
proof -
  note m = message_new_Inr [OF assms(1)]
  have "list_all (\<lambda>(n, v). line_safe (n @ '': '' @ v)) (message_headers T now m)"
    using m(2-4) date_safe [of T now] by (simp add: message_headers_def m(1)) (simp add: cr_def lf_def)
  moreover have "list_all line_safe (normalised_lines (ms_body m))"
    using normalised_line by (auto simp: list_all_iff line_safe_def)
  ultimately have safe: "list_all line_safe ls"
    by (auto simp: ls_def list_all_iff)
  have w: "wire_bytes T now m = concat (map (\<lambda>l. l @ [lf]) (map (\<lambda>l. l @ [cr]) ls)) @ []"
    by (simp add: wire_bytes_def ls_def header_line_def crlf_def comp_def split_def)
  have "lf \<notin> set l" if "l \<in> set (map (\<lambda>l. l @ [cr]) ls)" for l
    using that safe by (auto simp: list_all_iff line_safe_def)
  then have "split_on lf (wire_bytes T now m) = map (\<lambda>l. l @ [cr]) ls @ [[]]"
    unfolding w by (subst split_on_concat) simp_all
  with safe show ?thesis by simp
qed

theorem headers_cannot_be_forged_witness:
  "length (split_on lf (wire_bytes gregorian 0
     \<lparr>ms_from = ''a@x'', ms_to = ''b@y'', ms_subject = ''s'', ms_body = ''hi''\<rparr>)) = 11"
proof -
  have "message_new ''a@x'' ''b@y'' ''s'' ''hi''
      = Inr \<lparr>ms_from = ''a@x'', ms_to = ''b@y'', ms_subject = ''s'', ms_body = ''hi''\<rparr>"
    by (simp add: message_new_def check_header_def check_address_def cr_def lf_def)
  from headers_cannot_be_forged [OF this, of gregorian 0]
  show ?thesis
    by (simp add: message_headers_def normalised_lines_def cr_def lf_def)
qed

section \<open>What the conversation sends\<close>

text \<open>
  \<open>clear_only A e s\<close>: what was sent unencrypted so far is in \<open>A\<close>, and the session is (un)encrypted.
  Every operation keeps it when what it sends is encrypted or in \<open>A\<close>.
\<close>

definition clear_only :: "string set \<Rightarrow> bool \<Rightarrow> session \<Rightarrow> bool" where
  "clear_only A e s \<longleftrightarrow> ss_encrypted s = e \<and> (\<forall>b. Sent False b \<in> set (ss_log s) \<longrightarrow> b \<in> A)"

lemma clear_only_bind:
  assumes "clear_only A e (snd m)" "\<And>x s. clear_only A e s \<Longrightarrow> clear_only A e (snd (f x s))"
  shows "clear_only A e (snd (smtp_bind m f))"
  using assms by (cases m; cases "fst m") (auto simp: smtp_bind_def)

lemma read_line_log:
  "ss_log (snd (read_line s)) = ss_log s \<and> ss_encrypted (snd (read_line s)) = ss_encrypted s"
proof (induction s rule: read_line.induct)
  case (1 s)
  then show ?case
    by (subst (1 2) read_line.simps)
      (auto simp: Let_def split: option.split prod.split sum.split)
qed

lemma read_reply_from_log:
  "ss_log (snd (read_reply_from D code sofar s)) = ss_log s
   \<and> ss_encrypted (snd (read_reply_from D code sofar s)) = ss_encrypted s"
proof (induction D code sofar s rule: read_reply_from.induct)
  case (1 D code sofar s)
  obtain r s' where r: "read_line s = (r, s')" by fastforce
  have "ss_log s' = ss_log s" "ss_encrypted s' = ss_encrypted s"
    using read_line_log [of s] by (simp_all add: r)
  with 1 [OF r [symmetric]] show ?case
    by (subst (1 2) read_reply_from.simps) (auto simp: r split: sum.split line_verdict.split)
qed

lemma write_all_keeps:
  "clear_only A e s \<Longrightarrow> e \<or> bytes \<in> A \<Longrightarrow> clear_only A e (snd (write_all bytes s))"
  by (auto simp: write_all_def clear_only_def Let_def split: option.split sum.split)

lemma expect_keeps: "clear_only A e s \<Longrightarrow> clear_only A e (snd (expect D n c s))"
  unfolding expect_def
  by (rule clear_only_bind)
    (use read_reply_from_log [of D "[]" "[]" s] in
      \<open>auto simp: clear_only_def Let_def read_reply_def\<close>)

lemma command_keeps:
  assumes "clear_only A e s" "e \<or> line @ crlf \<in> A"
  shows "clear_only A e (snd (smtp_command D n c line s))"
  unfolding smtp_command_def
  by (rule clear_only_bind, rule write_all_keeps [OF assms], rule expect_keeps)

lemma capabilities_keep [simp]:
  "clear_only A e (s\<lparr>ss_capabilities := cs\<rparr>) = clear_only A e s"
  "clear_only A e (s\<lparr>ss_buffer := b, ss_consumed := n\<rparr>) = clear_only A e s"
  "clear_only A e (s\<lparr>ss_wire := w\<rparr>) = clear_only A e s"
  by (simp_all add: clear_only_def)

lemma hello_keeps:
  assumes "clear_only A e s" "e \<or> (''EHLO '' @ sender_domain f) @ crlf \<in> A"
  shows "clear_only A e (snd (hello D f s))"
  unfolding hello_def
  by (rule clear_only_bind, rule command_keeps [OF assms]) simp

lemma starttls_keeps:
  assumes "clear_only A False s" "''STARTTLS'' @ crlf \<in> A"
  shows "clear_only A (ss_encrypted (snd (starttls D tls host s))) (snd (starttls D tls host s))
    \<and> (\<forall>x s'. starttls D tls host s = (Inr x, s') \<longrightarrow> ss_encrypted s')"
proof -
  obtain r s1 where c: "smtp_command D 220 ''STARTTLS'' ''STARTTLS'' s = (r, s1)" by fastforce
  have k: "clear_only A False s1"
    using command_keeps [OF assms(1), of "''STARTTLS''" D 220 "''STARTTLS''"] assms(2) c by simp
  have self: "clear_only A (ss_encrypted s1) s1" using k by (auto simp: clear_only_def)
  show ?thesis
  proof (cases "\<exists>x w w'. r = Inr x \<and> length (ss_buffer s1) = ss_consumed s1 \<and> ss_wire s1 = Some w
      \<and> tls host w = Inr w'")
    case False
    then show ?thesis
      using self
      by (cases r) (auto simp: starttls_def c smtp_bind_def Let_def split: option.split sum.split)
  next
    case True
    then obtain x w w' where t: "r = Inr x" "length (ss_buffer s1) = ss_consumed s1"
      "ss_wire s1 = Some w" "tls host w = Inr w'" by blast
    define s2 where "s2 = s1\<lparr>ss_buffer := [], ss_consumed := 0, ss_wire := Some w',
      ss_encrypted := True, ss_capabilities := []\<rparr>"
    have "clear_only A True s2" using k by (auto simp: clear_only_def s2_def)
    then have e: "clear_only A True (snd (smtp_command D 250 ''EHLO'' ''EHLO'' s2))"
      by (rule command_keeps) simp
    have "starttls D tls host s = smtp_bind (smtp_command D 250 ''EHLO'' ''EHLO'' s2)
        (\<lambda>r s'. (Inr (), s'\<lparr>ss_capabilities := capabilities_of (rp_text r)\<rparr>))"
      using t by (simp add: starttls_def c smtp_bind_def s2_def)
    then show ?thesis
      using e by (auto simp: smtp_bind_def clear_only_def split: prod.splits sum.splits)
  qed
qed

lemma authenticate_keeps:
  assumes "clear_only A True s"
  shows "clear_only A True (snd (authenticate D credentials s))"
proof -
  define encoded where
    "encoded = base64 ([CHR 0x00] @ sc_username credentials @ [CHR 0x00] @ sc_password credentials)"
  define first where "first = smtp_command D 235 ''AUTH'' (''AUTH PLAIN '' @ encoded) s"
  have k: "clear_only A True (snd first)" unfolding first_def by (rule command_keeps [OF assms]) simp
  have again: "clear_only A True
      (snd (smtp_bind (smtp_command D 235 ''AUTH'' encoded s1) (\<lambda>_ s''. (Inr (), s''))))"
    if "clear_only A True s1" for s1
    by (rule clear_only_bind, rule command_keeps [OF that]) simp_all
  have "authenticate D credentials s =
      (case first of
         (Inl (Refused command code reason), s') \<Rightarrow>
           if code = 334
           then smtp_bind (smtp_command D 235 ''AUTH'' encoded s') (\<lambda>_ s''. (Inr (), s''))
           else (Inl (Refused command code reason), s')
       | (Inl e, s') \<Rightarrow> (Inl e, s')
       | (Inr _, s') \<Rightarrow> (Inr (), s'))"
    unfolding authenticate_def Let_def encoded_def [symmetric] first_def by (rule refl)
  then show ?thesis
    using k again by (cases first) (auto split: sum.split send_error.split)
qed

lemma transmit_keeps:
  assumes "clear_only A True s"
  shows "clear_only A True (snd (transmit T now D settings m s))"
  unfolding transmit_def
  by (rule clear_only_bind command_keeps write_all_keeps expect_keeps assms
      | assumption | (simp only: snd_conv) | simp only: simp_thms)+

definition plain_commands :: "settings \<Rightarrow> string set" where
  "plain_commands settings =
     {(''EHLO '' @ sender_domain (se_from_address settings)) @ crlf, ''STARTTLS'' @ crlf}"

definition plain_ok :: "settings \<Rightarrow> session \<Rightarrow> bool" where
  "plain_ok settings s \<longleftrightarrow> (\<forall>b. Sent False b \<in> set (ss_log s) \<longrightarrow> b \<in> plain_commands settings)"

lemma plain_okI: "clear_only (plain_commands settings) e s \<Longrightarrow> plain_ok settings s"
  by (simp add: clear_only_def plain_ok_def)

text \<open>After the capabilities are known: encryption, then the credentials, then the message.\<close>

lemma credentialed_plain_ok:
  assumes "clear_only (plain_commands settings) False s" "se_credentials settings = Some c"
  shows "plain_ok settings (snd (smtp_bind (start_encryption D tls settings s) (\<lambda>enc s.
     smtp_bind (present_credentials D settings enc s) (\<lambda>_ s. transmit T now D settings m s))))"
proof (cases "supports ''STARTTLS'' s")
  case False
  then show ?thesis
    using plain_okI [OF assms(1)] assms(2)
    by (simp add: start_encryption_def smtp_bind_def present_credentials_def)
next
  case True
  obtain r s1 where r: "starttls D tls (se_host settings) s = (r, s1)" by fastforce
  have in_set: "''STARTTLS'' @ crlf \<in> plain_commands settings" by (simp add: plain_commands_def)
  note k = starttls_keeps [OF assms(1) in_set, of D tls "se_host settings", unfolded r]
  show ?thesis
  proof (cases r)
    case (Inl e)
    then show ?thesis
      using plain_okI [OF conjunct1 [OF k]] True r by (simp add: start_encryption_def smtp_bind_def)
  next
    case (Inr x)
    have "ss_encrypted s1 = True" using k Inr by simp
    with conjunct1 [OF k] have e: "clear_only (plain_commands settings) True s1" by simp
    have "clear_only (plain_commands settings) True
        (snd (smtp_bind (authenticate D c s1) (\<lambda>_ s. transmit T now D settings m s)))"
      by (rule clear_only_bind authenticate_keeps transmit_keeps e | assumption)+
    then have "plain_ok settings
        (snd (smtp_bind (authenticate D c s1) (\<lambda>_ s. transmit T now D settings m s)))"
      by (rule plain_okI)
    then show ?thesis
      using True r Inr assms(2)
      by (simp add: start_encryption_def present_credentials_def)
  qed
qed

text \<open>
  C36: the relay password is never sent in the clear. With a credential configured, whatever the
  relay answers, the only bytes sent over an unencrypted connection are the greeting command and
  the request to encrypt: no credential, no address and no message.
\<close>

theorem credentials_stay_encrypted:
  assumes "smtp_send T now D connect tls settings m = (r, log)"
    and "se_credentials settings = Some c" "Sent False b \<in> set log"
  shows "b = ''EHLO '' @ sender_domain (se_from_address settings) @ crlf \<or> b = ''STARTTLS'' @ crlf"
proof -
  have "plain_ok settings (snd (smtp_converse T now D tls settings m w))" for w
  proof -
    let ?A = "plain_commands settings"
    obtain r1 s1 where e: "expect D 220 ''greeting'' (session_new w) = (r1, s1)" by fastforce
    have "clear_only ?A False (session_new w)" by (simp add: clear_only_def session_new_def)
    from expect_keeps [OF this, of D 220 "''greeting''"]
    have s1: "clear_only ?A False s1" by (simp add: e)
    obtain r2 s2 where h: "hello D (se_from_address settings) s1 = (r2, s2)" by fastforce
    have s2: "clear_only ?A False s2"
      using hello_keeps [OF s1, of "se_from_address settings" D] by (simp add: h plain_commands_def)
    show ?thesis
      using credentialed_plain_ok [OF s2 assms(2), of D tls T now m]
        plain_okI [OF s1] plain_okI [OF s2]
      by (cases r1; cases r2)
        (simp_all add: smtp_converse_def e h)
  qed
  moreover have "log = [] \<or> (\<exists>w. log = ss_log (snd (smtp_converse T now D tls settings m w)))"
    using assms(1)
    by (auto simp: smtp_send_def split: if_splits sum.splits prod.splits) (metis snd_conv)
  ultimately have "\<forall>b. Sent False b \<in> set log \<longrightarrow> b \<in> plain_commands settings"
    by (auto simp: plain_ok_def)
  then show ?thesis using assms(3) by (auto simp: plain_commands_def)
qed

definition sample_settings :: settings where
  "sample_settings = \<lparr>se_host = ''relay'', se_port = 587, se_from_address = ''billing@acme'',
     se_credentials = Some \<lparr>sc_username = ''u'', sc_password = ''p''\<rparr>\<rparr>"

definition sample_message :: email_message where
  "sample_message = \<lparr>ms_from = ''billing@acme'', ms_to = ''b@y'', ms_subject = ''s'', ms_body = ''hi''\<rparr>"

lemma sample_talk:
  "smtp_send gregorian 0 id (\<lambda>_. Inr \<lparr>wi_reads = [Inr (''220 x'' @ crlf)], wi_writes = []\<rparr>)
     upgrade_without_tls sample_settings sample_message
   = (Inl (Protocol ''the relay closed the connection mid-reply''),
      [Got 220, Sent False (''EHLO acme'' @ crlf)])"
  by (simp add: smtp_send_def sample_settings_def settings_complete_def smtp_converse_def expect_def
      read_reply_def read_reply_from.simps read_line.simps session_new_def unread_def
      MAX_REPLY_BYTES_def wire_read_def CHUNK_def crlf_def cr_def lf_def utf8_lossy.simps
      utf8_step_def byte_at_def reply_line_def trim_line_end_def Let_def smtp_bind_def
      suffix_from_def is_continuation_def is_ascii_digit_def digit_val_def hello_def
      smtp_command_def write_all_def wire_write_def sender_domain_def)

theorem credentials_stay_encrypted_witness:
  "''EHLO acme'' @ crlf = ''EHLO '' @ sender_domain (se_from_address sample_settings) @ crlf
   \<or> ''EHLO acme'' @ crlf = ''STARTTLS'' @ crlf"
  by (rule credentials_stay_encrypted [OF sample_talk]) (simp_all add: sample_settings_def)

section \<open>What success means\<close>

lemma write_all_Inr:
  "write_all bytes s = (Inr u, s') \<Longrightarrow>
    ss_log s' = ss_log s @ [Sent (ss_encrypted s) bytes] \<and> ss_encrypted s' = ss_encrypted s"
  by (auto simp: write_all_def Let_def split: option.splits sum.splits)

lemma expect_Inr:
  assumes "expect D n c s = (Inr r, s')"
  shows "(rp_code r = n \<or> n = 250 \<and> rp_code r = 251)
    \<and> ss_log s' = ss_log s @ [Got (rp_code r)] \<and> ss_encrypted s' = ss_encrypted s"
  using assms read_reply_from_log [of D "[]" "[]" s]
  by (auto simp: expect_def smtp_bind_def read_reply_def Let_def split: prod.splits sum.splits if_splits)

lemma smtp_bind_Inr:
  "smtp_bind m f = (Inr y, s') \<longleftrightarrow> (\<exists>x s. m = (Inr x, s) \<and> f x s = (Inr y, s'))"
  by (auto simp: smtp_bind_def split: prod.splits sum.splits)

lemma command_Inr:
  assumes "smtp_command D n c line s = (Inr r, s')"
  shows "(rp_code r = n \<or> n = 250 \<and> rp_code r = 251)
    \<and> ss_log s' = ss_log s @ [Sent (ss_encrypted s) (line @ crlf), Got (rp_code r)]
    \<and> ss_encrypted s' = ss_encrypted s"
  using assms
  by (auto simp: smtp_command_def smtp_bind_Inr dest!: write_all_Inr expect_Inr)

text \<open>A conversation that succeeded, from the envelope to the relay's answer to the terminator.\<close>

definition accepted_log :: "time_crate \<Rightarrow> instant \<Rightarrow> settings \<Rightarrow> email_message \<Rightarrow> bool \<Rightarrow> nat \<Rightarrow> nat \<Rightarrow> nat \<Rightarrow> smtp_event list" where
  "accepted_log T now settings m e a b c =
     [Sent e ((''MAIL FROM:<'' @ se_from_address settings @ ''>'') @ crlf), Got a,
      Sent e ((''RCPT TO:<'' @ ms_to m @ ''>'') @ crlf), Got b,
      Sent e (''DATA'' @ crlf), Got 354,
      Sent e (stuffed (wire_bytes T now m)), Sent e (''.'' @ crlf), Got c]"

lemma quit_log: "\<exists>more. ss_log (snd (smtp_command D n c line s)) = ss_log s @ more"
proof -
  obtain r s1 where w: "write_all (line @ crlf) s = (r, s1)" by fastforce
  have l1: "\<exists>more. ss_log s1 = ss_log s @ more"
    using w by (auto simp: write_all_def Let_def split: option.splits sum.splits)
  have "\<exists>more. ss_log (snd (expect D n c s1)) = ss_log s1 @ more"
    using read_reply_from_log [of D "[]" "[]" s1]
    by (auto simp: expect_def read_reply_def smtp_bind_def Let_def split: prod.split sum.split)
  with l1 show ?thesis
    by (cases r) (auto simp: smtp_command_def w smtp_bind_def)
qed

lemma transmit_Inr:
  assumes "transmit T now D settings m s = (Inr u, s')"
  shows "\<exists>a b c quit. ss_log s' = ss_log s @ accepted_log T now settings m (ss_encrypted s) a b c @ quit
    \<and> {a, b, c} \<subseteq> {250, 251}"
proof -
  obtain r1 s1 r2 s2 r3 s3 u4 s4 u5 s5 r6 s6 where
    st: "smtp_command D 250 ''MAIL FROM'' (''MAIL FROM:<'' @ se_from_address settings @ ''>'') s = (Inr r1, s1)"
      "smtp_command D 250 ''RCPT TO'' (''RCPT TO:<'' @ ms_to m @ ''>'') s1 = (Inr r2, s2)"
      "smtp_command D 354 ''DATA'' ''DATA'' s2 = (Inr r3, s3)"
      "write_all (stuffed (wire_bytes T now m)) s3 = (Inr u4, s4)"
      "write_all (''.'' @ crlf) s4 = (Inr u5, s5)"
      "expect D 250 ''end of DATA'' s5 = (Inr r6, s6)"
      "s' = snd (smtp_command D 221 ''QUIT'' ''QUIT'' s6)"
    using assms unfolding transmit_def smtp_bind_Inr by blast
  note l = command_Inr [OF st(1)] command_Inr [OF st(2)] command_Inr [OF st(3)]
    write_all_Inr [OF st(4)] write_all_Inr [OF st(5)] expect_Inr [OF st(6)]
  obtain quit where "ss_log s' = ss_log s6 @ quit" using quit_log st(7) by blast
  moreover have "ss_log s6 = ss_log s
      @ accepted_log T now settings m (ss_encrypted s) (rp_code r1) (rp_code r2) (rp_code r6)"
    using l by (simp add: accepted_log_def)
  moreover have "{rp_code r1, rp_code r2, rp_code r6} \<subseteq> {250, 251}" using l by auto
  ultimately show ?thesis by (metis append.assoc)
qed

text \<open>
  an email counts as sent only when the relay took it. If sending reports success, the
  conversation holds the envelope, the whole stuffed message and its terminator, in this order and
  over one kind of connection, and the relay answered 354 to DATA and 250 or 251 to the rest.
\<close>

theorem success_means_accepted:
  assumes "smtp_send T now D connect tls settings m = (Inr u, log)"
  shows "\<exists>pre e a b c quit. log = pre @ accepted_log T now settings m e a b c @ quit
    \<and> {a, b, c} \<subseteq> {250, 251}"
proof -
  obtain w s where c: "smtp_converse T now D tls settings m w = (Inr u, s)" "log = ss_log s"
    using assms by (auto simp: smtp_send_def split: if_splits sum.splits prod.splits)
  then obtain s0 where "transmit T now D settings m s0 = (Inr u, s)"
    unfolding smtp_converse_def smtp_bind_Inr by blast
  from transmit_Inr [OF this] c(2) show ?thesis by blast
qed

definition reply_ok :: "nat \<Rightarrow> string + string" where
  "reply_ok n = Inr (dec n @ '' x'' @ crlf)"

lemma reply_texts: "dec 220 = ''220''" "dec 250 = ''250''" "dec 354 = ''354''"
  by code_simp+

lemma read_one_reply:
  assumes "ss_wire s = Some w" "wi_reads w = reply_ok n # rest" "unread s = []" "n \<in> {220, 250, 354}"
  shows "read_reply D s = (Inr \<lparr>rp_code = n, rp_text = ''x''\<rparr>,
    s\<lparr>ss_wire := Some (w\<lparr>wi_reads := rest\<rparr>), ss_buffer := dec n @ '' x'' @ crlf, ss_consumed := 7\<rparr>)"
proof -
  note ev = read_reply_def read_reply_from.simps read_line.simps reply_ok_def reply_texts
    MAX_REPLY_BYTES_def wire_read_def CHUNK_def crlf_def cr_def lf_def utf8_lossy.simps
    utf8_step_def byte_at_def reply_line_def trim_line_end_def Let_def unread_def
    suffix_from_def is_continuation_def is_ascii_digit_def digit_val_def bounded_def
    MAX_ERROR_CHARS_def char_count_def
  consider "n = 220" | "n = 250" | "n = 354" using assms(4) by auto
  then show ?thesis
    by cases (use assms(1-3) in \<open>simp_all add: ev\<close>)
qed

lemma expect_one:
  assumes "ss_wire s = Some w" "wi_reads w = reply_ok n # rest" "unread s = []" "n \<in> {220, 250, 354}"
  shows "\<exists>s'. expect D n c s = (Inr \<lparr>rp_code = n, rp_text = ''x''\<rparr>, s')
    \<and> ss_wire s' = Some (w\<lparr>wi_reads := rest\<rparr>) \<and> unread s' = []"
  using read_one_reply [OF assms, of D] assms(4)
  by (auto simp: expect_def unread_def reply_texts crlf_def)

lemma command_one:
  assumes "ss_wire s = Some w" "wi_reads w = reply_ok n # rest" "unread s = []" "n \<in> {220, 250, 354}"
    and "wi_writes w = []"
  shows "\<exists>s'. smtp_command D n c line s = (Inr \<lparr>rp_code = n, rp_text = ''x''\<rparr>, s')
    \<and> ss_wire s' = Some (w\<lparr>wi_reads := rest\<rparr>) \<and> unread s' = []"
proof -
  define t where "t = s\<lparr>ss_log := ss_log s @ [Sent (ss_encrypted s) (line @ crlf)]\<rparr>"
  have "write_all (line @ crlf) s = (Inr (), t)"
    using assms(1,5) by (simp add: write_all_def wire_write_def Let_def t_def)
  moreover have "ss_wire t = Some w" "unread t = []"
    using assms(1,3) by (simp_all add: t_def unread_def)
  ultimately show ?thesis
    using expect_one [of t w n rest D c] assms(2,4) by (simp add: smtp_command_def)
qed

lemma write_one:
  assumes "ss_wire s = Some w" "unread s = []" "wi_writes w = []"
  shows "\<exists>s'. write_all b s = (Inr (), s') \<and> ss_wire s' = Some w \<and> unread s' = []"
  using assms by (simp add: write_all_def wire_write_def Let_def unread_def)

definition open_settings :: settings where
  "open_settings = sample_settings\<lparr>se_credentials := None\<rparr>"

definition relay_at :: "nat list \<Rightarrow> wire" where
  "relay_at codes = \<lparr>wi_reads = map reply_ok codes, wi_writes = []\<rparr>"

lemma relay_next [simp]:
  "wi_writes (relay_at cs) = []" "wi_reads (relay_at (c # cs)) = reply_ok c # map reply_ok cs"
  "relay_at (c # cs)\<lparr>wi_reads := map reply_ok cs\<rparr> = relay_at cs"
  by (simp_all add: relay_at_def)

lemma open_talk:
  "\<exists>log. smtp_send gregorian 0 id (\<lambda>_. Inr (relay_at [220, 250, 250, 250, 354, 250]))
    upgrade_without_tls open_settings sample_message = (Inr (), log)"
proof -
  let ?w = "relay_at [220, 250, 250, 250, 354, 250]"
  have "ss_wire (session_new ?w) = Some ?w" "unread (session_new ?w) = []"
    by (simp_all add: session_new_def unread_def)
  from expect_one [OF this(1) relay_next(2) this(2), of id "''greeting''"] obtain s1 where
    s1: "expect id 220 ''greeting'' (session_new ?w) = (Inr \<lparr>rp_code = 220, rp_text = ''x''\<rparr>, s1)"
      "ss_wire s1 = Some (relay_at [250, 250, 250, 354, 250])" "unread s1 = []"
    by auto
  from command_one [OF s1(2) relay_next(2) s1(3), of id "''EHLO''" "''EHLO acme''"] obtain s2 where
    s2: "smtp_command id 250 ''EHLO'' ''EHLO acme'' s1 = (Inr \<lparr>rp_code = 250, rp_text = ''x''\<rparr>, s2)"
      "ss_wire s2 = Some (relay_at [250, 250, 354, 250])" "unread s2 = []"
    by auto
  have caps: "capabilities_of ''x'' = []"
    by (simp add: capabilities_of_def str_lines_def lf_def strip_cr_def cr_def map_filter_simps)
  define s3 where "s3 = s2\<lparr>ss_capabilities := []\<rparr>"
  have s3: "ss_wire s3 = Some (relay_at [250, 250, 354, 250])" "unread s3 = []"
    using s2 by (simp_all add: s3_def unread_def)
  have h: "hello id ''billing@acme'' s1 = (Inr (), s3)"
    using s2(1) by (simp add: hello_def sender_domain_def caps s3_def)
  from command_one [OF s3(1) relay_next(2) s3(2), of id "''MAIL FROM''" "''MAIL FROM:<billing@acme>''"]
  obtain s4 where
    s4: "smtp_command id 250 ''MAIL FROM'' ''MAIL FROM:<billing@acme>'' s3
        = (Inr \<lparr>rp_code = 250, rp_text = ''x''\<rparr>, s4)"
      "ss_wire s4 = Some (relay_at [250, 354, 250])" "unread s4 = []"
    by auto
  from command_one [OF s4(2) relay_next(2) s4(3), of id "''RCPT TO''" "''RCPT TO:<b@y>''"]
  obtain s5 where
    s5: "smtp_command id 250 ''RCPT TO'' ''RCPT TO:<b@y>'' s4
        = (Inr \<lparr>rp_code = 250, rp_text = ''x''\<rparr>, s5)"
      "ss_wire s5 = Some (relay_at [354, 250])" "unread s5 = []"
    by auto
  from command_one [OF s5(2) relay_next(2) s5(3), of id "''DATA''" "''DATA''"]
  obtain s6 where
    s6: "smtp_command id 354 ''DATA'' ''DATA'' s5 = (Inr \<lparr>rp_code = 354, rp_text = ''x''\<rparr>, s6)"
      "ss_wire s6 = Some (relay_at [250])" "unread s6 = []"
    by auto
  from write_one [OF s6(2,3)] obtain s7 where
    s7: "write_all (stuffed (wire_bytes gregorian 0 sample_message)) s6 = (Inr (), s7)"
      "ss_wire s7 = Some (relay_at [250])" "unread s7 = []"
    by auto
  from write_one [OF s7(2,3)] obtain s8 where
    s8: "write_all (''.'' @ crlf) s7 = (Inr (), s8)"
      "ss_wire s8 = Some (relay_at [250])" "unread s8 = []"
    by auto
  from expect_one [OF s8(2) relay_next(2) s8(3), of id "''end of DATA''"] obtain s9 where
    s9: "expect id 250 ''end of DATA'' s8 = (Inr \<lparr>rp_code = 250, rp_text = ''x''\<rparr>, s9)"
    by auto
  have "settings_complete open_settings" "se_from_address open_settings = ''billing@acme''"
    "se_credentials open_settings = None" "ms_to sample_message = ''b@y''"
    by (simp_all add: open_settings_def sample_settings_def settings_complete_def sample_message_def)
  moreover have "start_encryption id upgrade_without_tls open_settings s3 = (Inr False, s3)"
    by (simp add: start_encryption_def supports_def s3_def)
  moreover have "transmit gregorian 0 id open_settings sample_message s3
      = (Inr (), snd (smtp_command id 221 ''QUIT'' ''QUIT'' s9))"
    using calculation(2,4) s4(1) s5(1) s6(1) s7(1) s8(1) s9 by (simp add: transmit_def)
  ultimately show ?thesis
    using s1(1) h by (simp add: smtp_send_def smtp_converse_def present_credentials_def)
qed

theorem success_means_accepted_witness:
  "\<exists>log. smtp_send gregorian 0 id (\<lambda>_. Inr (relay_at [220, 250, 250, 250, 354, 250]))
      upgrade_without_tls open_settings sample_message = (Inr (), log)
    \<and> (\<exists>pre e a b c quit.
      log = pre @ accepted_log gregorian 0 open_settings sample_message e a b c @ quit
      \<and> {a, b, c} \<subseteq> {250, 251})"
proof -
  obtain log where l: "smtp_send gregorian 0 id (\<lambda>_. Inr (relay_at [220, 250, 250, 250, 354, 250]))
      upgrade_without_tls open_settings sample_message = (Inr (), log)"
    using open_talk by blast
  have "\<exists>pre e a b c quit.
      log = pre @ accepted_log gregorian 0 open_settings sample_message e a b c @ quit
      \<and> {a, b, c} \<subseteq> {250, 251}"
    by (rule success_means_accepted [OF l])
  with l show ?thesis by - (rule exI [of _ log], rule conjI)
qed

section \<open>What is not seen\<close>

lemma take_chars_enough:
  assumes "n \<le> char_count p" "\<not> is_continuation c"
  shows "take_chars n (p @ c # r) = take_chars n p"
  using assms(1)
proof (induction p arbitrary: n)
  case Nil
  then show ?case using assms(2) by (simp add: char_count_def)
next
  case (Cons x p)
  show ?case
  proof (cases "is_continuation x")
    case True
    then show ?thesis using Cons by (simp add: char_count_def)
  next
    case False
    then show ?thesis using Cons by (cases n) (simp_all add: char_count_def)
  qed
qed

text \<open>
  the client sees no capability after the first 500 characters of a reply. A reply is cut there
  before its capabilities are read, so two replies that agree on 500 characters and go on give the
  same capabilities: a relay that announces STARTTLS late is taken not to offer it.
\<close>

theorem late_capability_unseen:
  assumes "500 \<le> char_count p" "\<not> is_continuation c" "\<not> is_continuation d"
  shows "capabilities_of (bounded (p @ c # r)) = capabilities_of (bounded (p @ d # r'))"
proof -
  have "char_count (p @ e # q) > 500" if "\<not> is_continuation e" for e q
    using assms(1) that by (simp add: char_count_def)
  then have "bounded (p @ c # r) = bounded (p @ d # r')"
    using assms take_chars_enough [of 500 p]
    by (simp add: bounded_def MAX_ERROR_CHARS_def not_le [symmetric])
  then show ?thesis by simp
qed

theorem late_capability_unseen_witness:
  "capabilities_of (bounded (replicate 500 (CHR ''x'') @ lf # ''STARTTLS''))
   = capabilities_of (bounded (replicate 500 (CHR ''x'') @ lf # ''SIZE''))"
  by (rule late_capability_unseen)
    (simp_all add: char_count_def is_continuation_def lf_def)

end
