(* ===== verification/Config.thy ===== *)
theory Config
  imports Email Period "HOL-Library.Sublist"
begin

text \<open>
  \<^verbatim>\<open>src/src/config\<close>: the configuration tree with its defaults (\<^verbatim>\<open>types.rs\<close>), the checks of the
  loader and the redaction of what it reports (\<^verbatim>\<open>loader.rs\<close>), what a reload reports
  (\<^verbatim>\<open>hot_reload.rs\<close>) and the listen address (\<^verbatim>\<open>listen.rs\<close>). The YAML reader, the URI parser of
  the \<open>http\<close> crate and the socket address parser are parameters.
\<close>

section \<open>The configuration tree\<close>

record server_config =
  sv_graceful_shutdown :: bool
  sv_shutdown_grace_secs :: nat
  sv_max_body_size :: nat
  sv_cors_allow_origins :: "string list"
  sv_sse_poll_interval_ms :: nat
  sv_api_key_refresh_ms :: nat

record upstream_config =
  up_base_url :: string
  up_api_key :: string
  up_timeout_secs :: nat
  up_connect_timeout_secs :: nat

record database_config =
  dc_path :: string
  dc_retention_days :: nat
  dc_queue_size :: nat
  dc_batch_size :: nat
  dc_batch_timeout_ms :: nat
  dc_retention_interval_secs :: nat
  dc_retention_batch_size :: nat

record manager_config =
  mg_password :: string

record billing_config =
  bc_timezone_offset_minutes :: i32
  bc_close_delay_minutes :: i64
  bc_scheduler_interval_secs :: nat
  bc_email :: email_config

record config =
  cf_server :: server_config
  cf_upstream :: upstream_config
  cf_database :: database_config
  cf_manager :: "manager_config option"
  cf_billing :: billing_config

definition DEFAULT_REFRESH_INTERVAL_MS :: nat where
  "DEFAULT_REFRESH_INTERVAL_MS = 1000"

definition server_default :: server_config where
  "server_default =
     \<lparr>sv_graceful_shutdown = True, sv_shutdown_grace_secs = 5,
      sv_max_body_size = 10 * 1024 * 1024, sv_cors_allow_origins = [],
      sv_sse_poll_interval_ms = 500, sv_api_key_refresh_ms = DEFAULT_REFRESH_INTERVAL_MS\<rparr>"

definition database_default :: database_config where
  "database_default =
     \<lparr>dc_path = ''partner-portal.db'', dc_retention_days = 60, dc_queue_size = 10000,
      dc_batch_size = 100, dc_batch_timeout_ms = 1000, dc_retention_interval_secs = 3600,
      dc_retention_batch_size = 2000\<rparr>"

definition email_default :: email_config where
  "email_default =
     \<lparr>ec_enabled = False, ec_smtp_host = [], ec_smtp_port = 587, ec_from_address = []\<rparr>"

definition billing_default :: billing_config where
  "billing_default =
     \<lparr>bc_timezone_offset_minutes = 0, bc_close_delay_minutes = 5,
      bc_scheduler_interval_secs = 30, bc_email = email_default\<rparr>"

definition sends_statement_email :: "config \<Rightarrow> bool" where
  "sends_statement_email c \<longleftrightarrow>
     (let email = bc_email (cf_billing c)
      in ec_enabled email \<and> trim (ec_smtp_host email) \<noteq> [] \<and> trim (ec_from_address email) \<noteq> [])"

section \<open>Credentials\<close>

definition MIN_SCRUBBED_SECRET_LEN :: nat where
  "MIN_SCRUBBED_SECRET_LEN = 8"

definition REDACTED :: string where
  "REDACTED = ''<redacted>''"

definition config_credentials :: "config \<Rightarrow> string list" where
  "config_credentials c =
     filter (\<lambda>secret. MIN_SCRUBBED_SECRET_LEN \<le> length secret)
       (up_api_key (cf_upstream c)
        # (case cf_manager c of None \<Rightarrow> [] | Some m \<Rightarrow> [mg_password m]))"

text \<open>\<open>str::replace\<close> for a pattern that is not empty.\<close>

function replace_all :: "string \<Rightarrow> string \<Rightarrow> string \<Rightarrow> string" where
  "replace_all p r s =
     (if p = [] \<or> s = [] then s
      else if prefix p s then r @ replace_all p r (drop (length p) s)
      else hd s # replace_all p r (tl s))"
  by pat_completeness auto
termination
  by (relation "measure (\<lambda>(p, r, s). length s)") (auto simp: prefix_def)

declare replace_all.simps [simp del]

fun redact_credentials :: "string \<Rightarrow> string list \<Rightarrow> string" where
  "redact_credentials out [] = out"
| "redact_credentials out (secret # rest) =
     redact_credentials
       (if MIN_SCRUBBED_SECRET_LEN \<le> length secret \<and> sublist secret out
        then replace_all secret REDACTED out else out) rest"

definition normalized_base_url :: "upstream_config \<Rightarrow> string" where
  "normalized_base_url u = rev (dropWhile (\<lambda>c. c = CHR ''/'') (rev (up_base_url u)))"

text \<open>\<open>find\<close> of a text, and what follows it.\<close>

fun after_first :: "string \<Rightarrow> string \<Rightarrow> (string \<times> string) option" where
  "after_first p [] = (if p = [] then Some ([], []) else None)"
| "after_first p (c # s) =
     (if prefix p (c # s) then Some ([], drop (length p) (c # s))
      else map_option (\<lambda>(a, b). (c # a, b)) (after_first p s))"

definition redact_userinfo :: "string \<Rightarrow> string option" where
  "redact_userinfo url =
     Option.bind (after_first ''://'' url) (\<lambda>(scheme, rest).
       let authority = takeWhile (\<lambda>c. c \<notin> set ''/?#'') rest
       in if CHR ''@'' \<in> set authority
          then Some (scheme @ ''://'' @ ''<credentials>@''
                 @ rev (takeWhile (\<lambda>c. c \<noteq> CHR ''@'') (rev authority))
                 @ drop (length authority) rest)
          else None)"

definition redacted_base_url :: "upstream_config \<Rightarrow> string" where
  "redacted_base_url u =
     (case redact_userinfo (up_base_url u) of Some redacted \<Rightarrow> redacted | None \<Rightarrow> up_base_url u)"

section \<open>Validation\<close>

datatype config_error =
    YamlParse string
  | InvalidUpstreamUrl string
  | InvalidConfig string

record uri =
  uri_scheme :: "string option"
  uri_authority :: "string option"
  uri_host :: string

definition url_error :: "string \<Rightarrow> string \<Rightarrow> config_error" where
  "url_error base_url reason =
     InvalidUpstreamUrl (''upstream.base_url '' @ reason @ '': '' @ [CHR 0x27] @ base_url @ [CHR 0x27])"

definition validate_base_url :: "(string \<Rightarrow> uri option) \<Rightarrow> string \<Rightarrow> config_error + unit" where
  "validate_base_url U base_url =
     (case U base_url of
        None \<Rightarrow> Inl (url_error base_url
                  ''is not a valid URL (expected http://host or https://host)'')
      | Some u \<Rightarrow>
          (case uri_scheme u of
             None \<Rightarrow> Inl (url_error base_url ''has no scheme (expected http:// or https://)'')
           | Some scheme \<Rightarrow>
               if scheme \<noteq> ''http'' \<and> scheme \<noteq> ''https''
               then Inl (url_error base_url
                      (''must use http or https, not '' @ [CHR 0x27] @ scheme @ [CHR 0x27]))
               else (case uri_authority u of
                       None \<Rightarrow> Inl (url_error base_url ''has no host'')
                     | Some authority \<Rightarrow>
                         if CHR ''@'' \<in> set authority
                         then Inl (InvalidUpstreamUrl
                           (''upstream.base_url must not embed credentials: the userinfo is ''
                            @ ''discarded before the request is sent, so it would leak the value ''
                            @ ''without authenticating anything. Use upstream.api_key''))
                         else if uri_host u = [] then Inl (url_error base_url ''has no host'')
                         else Inr ())))"

definition validate_billing :: "billing_config \<Rightarrow> config_error + unit" where
  "validate_billing b =
     (case from_offset_minutes (bc_timezone_offset_minutes b) of
        Inl _ \<Rightarrow> Inl (InvalidConfig (''billing.timezone_offset_minutes is ''
           @ dec_int (bc_timezone_offset_minutes b)
           @ ''; it must be a whole number of minutes between '' @ dec_int MIN_OFFSET_MINUTES
           @ '' and '' @ dec_int MAX_OFFSET_MINUTES))
      | Inr _ \<Rightarrow>
          if bc_close_delay_minutes b < 0
          then Inl (InvalidConfig (''billing.close_delay_minutes is ''
             @ dec_int (bc_close_delay_minutes b)
             @ ''; it cannot be negative, because a day closed before it ends loses the requests ''
             @ ''at its boundary''))
          else if ec_enabled (bc_email b) \<and> trim (ec_smtp_host (bc_email b)) = []
          then Inl (InvalidConfig (''billing.email.enabled is true but billing.email.smtp_host is ''
             @ ''empty; there is no relay to send through''))
          else if ec_enabled (bc_email b) \<and> trim (ec_from_address (bc_email b)) = []
          then Inl (InvalidConfig (''billing.email.enabled is true but billing.email.from_address is ''
             @ ''empty; a statement needs a sender a reply could reach''))
          else Inr ())"

definition config_validate :: "(string \<Rightarrow> uri option) \<Rightarrow> config \<Rightarrow> config_error + unit" where
  "config_validate U c =
     res_bind (validate_base_url U (up_base_url (cf_upstream c))) (\<lambda>_.
       if up_api_key (cf_upstream c) = []
       then Inl (InvalidConfig ''upstream.api_key cannot be empty'')
       else if map_option mg_password (cf_manager c) = Some []
       then Inl (InvalidConfig
              ''manager.password cannot be empty when the manager block is present'')
       else if dc_queue_size (cf_database c) = 0
       then Inl (InvalidConfig (''database.queue_size must be at least 1; a zero-capacity metering ''
              @ ''queue cannot be built''))
       else if dc_batch_size (cf_database c) = 0
       then Inl (InvalidConfig (''database.batch_size must be at least 1; a zero batch never arms ''
              @ ''the writer's receive, so metering would stall while readiness stayed green''))
       else validate_billing (cf_billing c))"

section \<open>Redacted parse errors\<close>

definition dquote :: char where "dquote = CHR 0x22"
definition backtick :: char where "backtick = CHR 0x60"
definition backslash :: char where "backslash = CHR 0x5C"

text \<open>Where an escaped double-quoted body ends, and where a backticked one does.\<close>

fun quote_end :: "string \<Rightarrow> nat option" where
  "quote_end [] = None"
| "quote_end [c] = (if c = dquote then Some 0 else None)"
| "quote_end (c # d # s) =
     (if c = backslash then map_option (\<lambda>n. n + 2) (quote_end s)
      else if c = dquote then Some 0
      else map_option Suc (quote_end (d # s)))"

definition backtick_end :: "string \<Rightarrow> nat option" where
  "backtick_end s =
     (if backtick \<in> set s then Some (length (takeWhile (\<lambda>c. c \<noteq> backtick) s)) else None)"

definition ascii_letter :: "char \<Rightarrow> bool" where
  "ascii_letter c \<longleftrightarrow>
     (let n = (of_char c :: nat) in (65 \<le> n \<and> n \<le> 90) \<or> (97 \<le> n \<and> n \<le> 122))"

definition is_token :: "string \<Rightarrow> bool" where
  "is_token content =
     (case content of
        [] \<Rightarrow> False
      | c # rest \<Rightarrow>
          (ascii_letter c \<or> c = CHR ''_'')
          \<and> list_all (\<lambda>c. ascii_letter c \<or> is_ascii_digit c \<or> c = CHR ''_'') rest)"

function redact_scalars :: "string \<Rightarrow> string" where
  "redact_scalars message =
     (case dropWhile (\<lambda>c. c \<noteq> dquote \<and> c \<noteq> backtick) message of
        [] \<Rightarrow> message
      | d # body \<Rightarrow>
          (let e = (if d = dquote then quote_end body else backtick_end body);
               content = (case e of Some i \<Rightarrow> take i body | None \<Rightarrow> body);
               remainder = (case e of Some i \<Rightarrow> drop (i + 1) body | None \<Rightarrow> [])
           in takeWhile (\<lambda>c. c \<noteq> dquote \<and> c \<noteq> backtick) message
              @ d # (if d = backtick \<and> is_token content then content else REDACTED)
              @ (if e \<noteq> None then [d] else [])
              @ redact_scalars remainder))"
  by pat_completeness auto

lemma dropWhile_shorter: "dropWhile P s = d # body \<Longrightarrow> length body < length s"
  by (metis length_Cons length_dropWhile_le Suc_le_lessD)

termination redact_scalars
  by (relation "measure length")
    (auto simp: Let_def dest!: dropWhile_shorter split: option.split)

declare redact_scalars.simps [simp del]

definition parse_yaml ::
  "(string \<Rightarrow> string + config) \<Rightarrow> (string \<Rightarrow> uri option) \<Rightarrow> string \<Rightarrow> config_error + config" where
  "parse_yaml Y U yaml =
     (case Y yaml of
        Inl message \<Rightarrow> Inl (YamlParse (redact_scalars message))
      | Inr c \<Rightarrow> res_bind (config_validate U c) (\<lambda>_. Inr c))"

section \<open>The listen address\<close>

definition DEFAULT_LISTEN_ADDR :: string where
  "DEFAULT_LISTEN_ADDR = ''0.0.0.0:8080''"

text \<open>\<open>A\<close> parses a socket address; \<open>D\<close> is the \<open>Debug\<close> rendering of a text.\<close>

definition parse_listen_addr ::
  "(string \<Rightarrow> string + 'addr) \<Rightarrow> (string \<Rightarrow> string) \<Rightarrow> string option \<Rightarrow> string + 'addr" where
  "parse_listen_addr A D raw =
     (case filled raw of
        None \<Rightarrow>
          (case A DEFAULT_LISTEN_ADDR of
             Inl e \<Rightarrow> Inl (D DEFAULT_LISTEN_ADDR @ '' must parse as a default: '' @ e)
           | Inr a \<Rightarrow> Inr a)
      | Some value \<Rightarrow>
          (case A value of
             Inl e \<Rightarrow> Inl (''PARTNER_PORTAL_LISTEN is not a valid listen address '' @ D value
                       @ '': '' @ e)
           | Inr a \<Rightarrow> Inr a))"

section \<open>Reloading\<close>

datatype change_report =
    Applied string string string
  | PartlyApplied string string string
  | NeedsRestart string string string

definition report_if :: "bool \<Rightarrow> change_report \<Rightarrow> change_report list" where
  "report_if changed r = (if changed then [r] else [])"

definition dec_bool :: "bool \<Rightarrow> string" where
  "dec_bool b = (if b then ''true'' else ''false'')"

fun join_comma :: "string list \<Rightarrow> string" where
  "join_comma [] = []"
| "join_comma [s] = s"
| "join_comma (s # t # ss) = s @ '','' @ join_comma (t # ss)"

definition report_live_changes :: "config \<Rightarrow> config \<Rightarrow> change_report list" where
  "report_live_changes old new =
     (let ou = cf_upstream old; nu = cf_upstream new
      in report_if (up_base_url ou \<noteq> up_base_url nu)
           (Applied ''upstream.base_url'' (up_base_url ou) (up_base_url nu))
         @ report_if (up_api_key ou \<noteq> up_api_key nu)
             (Applied ''upstream.api_key'' REDACTED REDACTED)
         @ report_if (up_timeout_secs ou \<noteq> up_timeout_secs nu)
             (Applied ''upstream.timeout_secs'' (dec (up_timeout_secs ou)) (dec (up_timeout_secs nu)))
         @ report_if (map_option mg_password (cf_manager old) \<noteq> map_option mg_password (cf_manager new))
             (Applied ''manager.password'' REDACTED REDACTED)
         @ report_if (sv_max_body_size (cf_server old) \<noteq> sv_max_body_size (cf_server new))
             (PartlyApplied ''server.max_body_size'' (dec (sv_max_body_size (cf_server old)))
                (dec (sv_max_body_size (cf_server new)))))"

definition restart_nat :: "string \<Rightarrow> ('a \<Rightarrow> nat) \<Rightarrow> 'a \<Rightarrow> 'a \<Rightarrow> change_report list" where
  "restart_nat field f old new =
     report_if (f old \<noteq> f new) (NeedsRestart field (dec (f old)) (dec (f new)))"

definition report_restart_required_changes :: "config \<Rightarrow> config \<Rightarrow> change_report list" where
  "report_restart_required_changes old new =
     (let os = cf_server old; ns = cf_server new; od = cf_database old; nd = cf_database new
      in report_if (sv_graceful_shutdown os \<noteq> sv_graceful_shutdown ns)
           (NeedsRestart ''server.graceful_shutdown'' (dec_bool (sv_graceful_shutdown os))
              (dec_bool (sv_graceful_shutdown ns)))
         @ restart_nat ''server.shutdown_grace_secs'' sv_shutdown_grace_secs os ns
         @ report_if (sv_cors_allow_origins os \<noteq> sv_cors_allow_origins ns)
             (NeedsRestart ''server.cors_allow_origins'' (join_comma (sv_cors_allow_origins os))
                (join_comma (sv_cors_allow_origins ns)))
         @ restart_nat ''server.sse_poll_interval_ms'' sv_sse_poll_interval_ms os ns
         @ restart_nat ''server.api_key_refresh_ms'' sv_api_key_refresh_ms os ns
         @ restart_nat ''upstream.connect_timeout_secs'' up_connect_timeout_secs
             (cf_upstream old) (cf_upstream new)
         @ report_if (dc_path od \<noteq> dc_path nd)
             (NeedsRestart ''database.path'' (dc_path od) (dc_path nd))
         @ report_if (dc_retention_days od \<noteq> dc_retention_days nd)
             (PartlyApplied ''database.retention_days'' (dec (dc_retention_days od))
                (dec (dc_retention_days nd)))
         @ restart_nat ''database.queue_size'' dc_queue_size od nd
         @ restart_nat ''database.batch_size'' dc_batch_size od nd
         @ restart_nat ''database.batch_timeout_ms'' dc_batch_timeout_ms od nd
         @ restart_nat ''database.retention_interval_secs'' dc_retention_interval_secs od nd
         @ restart_nat ''database.retention_batch_size'' dc_retention_batch_size od nd)"

definition report_changes :: "config \<Rightarrow> config \<Rightarrow> change_report list" where
  "report_changes old new = report_live_changes old new @ report_restart_required_changes old new"

text \<open>
  The watcher: the snapshot readers see and the hash of the last accepted file. \<open>H\<close> is the hash of
  a configuration (its YAML through SHA-256).
\<close>

record config_snapshot =
  cs_config :: config
  cs_hash :: string

record hot_reloader =
  hr_current :: config_snapshot
  hr_last_hash :: string

definition snapshot_new :: "(config \<Rightarrow> string) \<Rightarrow> config \<Rightarrow> config_snapshot" where
  "snapshot_new H c = \<lparr>cs_config = c, cs_hash = H c\<rparr>"

definition reloader_new :: "(config \<Rightarrow> string) \<Rightarrow> config \<Rightarrow> hot_reloader" where
  "reloader_new H c = \<lparr>hr_current = snapshot_new H c, hr_last_hash = H c\<rparr>"

text \<open>One turn of the watcher on what reading the file gave; the reports are in the order logged.\<close>

definition reload_turn ::
  "(config \<Rightarrow> string) \<Rightarrow> config_error + config \<Rightarrow> hot_reloader \<Rightarrow>
   hot_reloader \<times> change_report list" where
  "reload_turn H loaded r =
     (case loaded of
        Inl _ \<Rightarrow> (r, [])
      | Inr new \<Rightarrow>
          if H new \<noteq> hr_last_hash r
          then (\<lparr>hr_current = snapshot_new H new, hr_last_hash = H new\<rparr>,
                report_changes (cs_config (hr_current r)) new)
          else (r, []))"

end
