(* ===== verification/Worker.thy ===== *)
theory Worker
  imports Statements Smtp Config
begin

text \<open>
  \<^verbatim>\<open>src/src/billing/worker.rs\<close>: the scheduler. A tick closes the days that are due for every
  partner, sends the emails that are due and observes the partners' service status. Every write is
  committed on its own, so an operation returns the state it left behind also when it panics.
  \<open>tick_env\<close> is what the outside world does during one tick: clocks, database faults, what other
  instances and the metering writer commit in between, and the relay.
\<close>

section \<open>Constants, the tally and the worker\<close>

definition EMAIL_BATCH :: i64 where
  "EMAIL_BATCH = 50"

definition MIN_INTERVAL_SECS :: nat where
  "MIN_INTERVAL_SECS = 1"

definition EMAIL_RETRY_BASE_MINUTES :: i64 where
  "EMAIL_RETRY_BASE_MINUTES = 15"

definition EMAIL_RETRY_MAX_MINUTES :: i64 where
  "EMAIL_RETRY_MAX_MINUTES = 24 * 60"

definition EMAIL_CLAIM_TTL_MINUTES :: i64 where
  "EMAIL_CLAIM_TTL_MINUTES = 15"

record tick =
  tk_days :: nat
  tk_created :: nat
  tk_existing :: nat
  tk_incomplete :: nat
  tk_emails_sent :: nat
  tk_emails_failed :: nat
  tk_emails_skipped :: nat
  tk_failures :: nat

definition tick_default :: tick where
  "tick_default =
     \<lparr>tk_days = 0, tk_created = 0, tk_existing = 0, tk_incomplete = 0, tk_emails_sent = 0,
      tk_emails_failed = 0, tk_emails_skipped = 0, tk_failures = 0\<rparr>"

definition did_anything :: "tick \<Rightarrow> bool" where
  "did_anything t \<longleftrightarrow> 0 < tk_created t \<or> 0 < tk_emails_sent t \<or> 0 < tk_emails_failed t"

record worker =
  wk_generator :: generator
  wk_email :: "settings option"
  wk_interval_secs :: nat
  wk_instance_id :: string

definition worker_new ::
  "billing_config \<Rightarrow> smtp_credentials option \<Rightarrow> string \<Rightarrow> timezone_error + worker" where
  "worker_new b credentials instance_id =
     res_bind (from_offset_minutes (bc_timezone_offset_minutes b)) (\<lambda>tz.
       let settings = settings_from_config (bc_email b) credentials
       in Inr \<lparr>wk_generator = generator_new tz (bc_close_delay_minutes b),
               wk_email = (if ec_enabled (bc_email b) \<and> settings_complete settings
                           then Some settings else None),
               wk_interval_secs = max (bc_scheduler_interval_secs b) MIN_INTERVAL_SECS,
               wk_instance_id = instance_id\<rparr>)"

definition sends_email :: "worker \<Rightarrow> bool" where
  "sends_email w \<longleftrightarrow> wk_email w \<noteq> None"

section \<open>The state of a tick and the world around it\<close>

text \<open>
  \<open>Mailed\<close> is a send attempt with its outcome and the conversation; the other two are the log lines
  \<open>partner_suspended\<close> and \<open>partner_resumed\<close>.
\<close>

datatype worker_event =
    Mailed i64 "send_error + unit" "smtp_event list"
  | PartnerSuspended string
  | PartnerResumed string

record worker_state =
  ws_db :: db
  ws_tick :: tick
  ws_observed :: "string \<Rightarrow> bool option"
  ws_events :: "worker_event list"

record tick_env =
  te_partners_fault :: fault
  te_anchor_fault :: "string \<Rightarrow> fault"
  te_usage_fault :: "string \<Rightarrow> billing_day \<Rightarrow> fault"
  te_meanwhile :: "string \<Rightarrow> billing_day \<Rightarrow> db \<Rightarrow> db"
  te_write_now :: "string \<Rightarrow> billing_day \<Rightarrow> instant"
  te_write_fault :: "string \<Rightarrow> billing_day \<Rightarrow> fault"
  te_readback_fault :: "string \<Rightarrow> billing_day \<Rightarrow> fault"
  te_claim_fault :: fault
  te_partner_fault :: "i64 \<Rightarrow> fault"
  te_lines_fault :: "i64 \<Rightarrow> fault"
  te_send_now :: "i64 \<Rightarrow> instant"
  te_connect :: "i64 \<Rightarrow> string \<Rightarrow> send_error + wire"
  te_tls :: tls
  te_debug :: "string \<Rightarrow> string"
  te_during_send :: "i64 \<Rightarrow> db \<Rightarrow> db"
  te_record_now :: "i64 \<Rightarrow> instant"
  te_record_fault :: "i64 \<Rightarrow> fault"
  te_status_fault :: fault
  te_overdue_now :: "string \<Rightarrow> instant"
  te_overdue_fault :: "string \<Rightarrow> fault"

text \<open>A world in which nothing goes wrong, the clock stands at \<open>now\<close> and no relay answers.\<close>

definition quiet_env :: "instant \<Rightarrow> tick_env" where
  "quiet_env now =
     \<lparr>te_partners_fault = None, te_anchor_fault = \<lambda>_. None, te_usage_fault = \<lambda>_ _. None,
      te_meanwhile = \<lambda>_ _ s. s, te_write_now = \<lambda>_ _. now, te_write_fault = \<lambda>_ _. None,
      te_readback_fault = \<lambda>_ _. None, te_claim_fault = None, te_partner_fault = \<lambda>_. None,
      te_lines_fault = \<lambda>_. None, te_send_now = \<lambda>_. now,
      te_connect = \<lambda>_ _. Inl (ConnectFailed []), te_tls = upgrade_without_tls, te_debug = id,
      te_during_send = \<lambda>_ s. s, te_record_now = \<lambda>_. now, te_record_fault = \<lambda>_. None,
      te_status_fault = None, te_overdue_now = \<lambda>_. now, te_overdue_fault = \<lambda>_. None\<rparr>"

type_synonym 'a work = "'a run \<times> worker_state"

definition tally :: "(tick \<Rightarrow> tick) \<Rightarrow> worker_state \<Rightarrow> worker_state" where
  "tally f st = st\<lparr>ws_tick := f (ws_tick st)\<rparr>"

definition with_db :: "db \<Rightarrow> worker_state \<Rightarrow> worker_state" where
  "with_db s st = st\<lparr>ws_db := s\<rparr>"

definition log_event :: "worker_event \<Rightarrow> worker_state \<Rightarrow> worker_state" where
  "log_event e st = st\<lparr>ws_events := ws_events st @ [e]\<rparr>"

definition count_failure :: "tick \<Rightarrow> tick" where
  "count_failure t = t\<lparr>tk_failures := tk_failures t + 1\<rparr>"

section \<open>Closing days\<close>

definition count_outcome :: "statement_outcome \<Rightarrow> tick \<Rightarrow> tick" where
  "count_outcome out t =
     (if was_created out
      then t\<lparr>tk_created := tk_created t + 1,
             tk_incomplete := tk_incomplete t
               + (if has_incomplete_usage (outcome_statement out) then 1 else 0)\<rparr>
      else t\<lparr>tk_existing := tk_existing t + 1\<rparr>)"

text \<open>The draft of a day: the cutoff, a reader connection, the aggregate.\<close>

definition day_draft ::
  "time_crate \<Rightarrow> worker \<Rightarrow> tick_env \<Rightarrow> partner \<Rightarrow> billing_day \<Rightarrow> db \<Rightarrow>
   (billing_error + statement_draft) run" where
  "day_draft T w env p day s =
     run_bind (cutoff_for T (wk_generator w) day) (\<lambda>cutoff.
       case te_usage_fault env (p_consumer_id p) day of
         Some e \<Rightarrow> Done (Inl (Database e))
       | None \<Rightarrow> statement_for_day T (wk_generator w) p day cutoff s)"

definition close_day ::
  "time_crate \<Rightarrow> worker \<Rightarrow> tick_env \<Rightarrow> partner \<Rightarrow> billing_day \<Rightarrow> worker_state \<Rightarrow> unit work" where
  "close_day T w env p day st =
     (let c = p_consumer_id p
      in case day_draft T w env p day (ws_db st) of
           Panic \<Rightarrow> (Panic, st)
         | Done (Inl e) \<Rightarrow> (Done (), tally count_failure st)
         | Done (Inr draft) \<Rightarrow>
             (case write_statement T (te_write_now env c day) (te_write_fault env c day)
                     (te_readback_fault env c day) draft (te_meanwhile env c day (ws_db st)) of
                (Inr out, s') \<Rightarrow> (Done (), tally (count_outcome out) (with_db s' st))
              | (Inl e, s') \<Rightarrow> (Done (), tally count_failure (with_db s' st))))"

fun close_each ::
  "time_crate \<Rightarrow> worker \<Rightarrow> tick_env \<Rightarrow> partner \<Rightarrow> billing_day list \<Rightarrow> worker_state \<Rightarrow> unit work" where
  "close_each T w env p [] st = (Done (), st)"
| "close_each T w env p (day # days) st =
     (case close_day T w env p day (tally (\<lambda>t. t\<lparr>tk_days := tk_days t + 1\<rparr>) st) of
        (Panic, st') \<Rightarrow> (Panic, st')
      | (Done _, st') \<Rightarrow> close_each T w env p days st')"

definition anchor_for ::
  "time_crate \<Rightarrow> worker \<Rightarrow> tick_env \<Rightarrow> partner \<Rightarrow> billing_day \<Rightarrow> db \<Rightarrow>
   billing_error + billing_day" where
  "anchor_for T w env p through s =
     res_bind (last_statement_date_for (te_anchor_fault env (p_consumer_id p)) (p_consumer_id p) s)
       (\<lambda>last.
          case Option.bind last (day_parse T) of
            Some day \<Rightarrow> Inr day
          | None \<Rightarrow>
              (case parse_ts T (p_created_at p) of
                 Some created \<Rightarrow> Inr (day_previous (day_of created (gen_timezone (wk_generator w))))
               | None \<Rightarrow> Inr (oldest_closeable through)))"

fun close_partners ::
  "time_crate \<Rightarrow> worker \<Rightarrow> tick_env \<Rightarrow> billing_day \<Rightarrow> partner list \<Rightarrow> worker_state \<Rightarrow>
   (billing_error + unit) work" where
  "close_partners T w env through [] st = (Done (Inr ()), st)"
| "close_partners T w env through (p # ps) st =
     (case anchor_for T w env p through (ws_db st) of
        Inl e \<Rightarrow> (Done (Inl e), st)
      | Inr anchor \<Rightarrow>
          (case close_each T w env p (days_to_close T (Some (day_display T anchor)) through) st of
             (Panic, st') \<Rightarrow> (Panic, st')
           | (Done _, st') \<Rightarrow> close_partners T w env through ps st'))"

definition close_days ::
  "time_crate \<Rightarrow> worker \<Rightarrow> tick_env \<Rightarrow> instant \<Rightarrow> worker_state \<Rightarrow> (billing_error + unit) work" where
  "close_days T w env now st =
     (case closable_through T (wk_generator w) now of
        Panic \<Rightarrow> (Panic, st)
      | Done None \<Rightarrow> (Done (Inr ()), st)
      | Done (Some through) \<Rightarrow>
          (case list_partners (te_partners_fault env) (ws_db st) of
             Inl e \<Rightarrow> (Done (Inl e), st)
           | Inr ps \<Rightarrow> close_partners T w env through ps st))"

section \<open>Sending emails\<close>

text \<open>\<open>attempts.clamp(0, 16)\<close>, the shift, and the cap.\<close>

definition retry_minutes :: "i64 \<Rightarrow> i64" where
  "retry_minutes attempts =
     min (saturating_mul_i64 EMAIL_RETRY_BASE_MINUTES (2 ^ nat (max 0 (min 16 attempts))))
       EMAIL_RETRY_MAX_MINUTES"

definition retry_delay :: "i64 \<Rightarrow> int run" where
  "retry_delay attempts = duration_minutes (retry_minutes attempts)"

definition record_attempt ::
  "time_crate \<Rightarrow> tick_env \<Rightarrow> i64 \<Rightarrow> email_outcome \<Rightarrow> worker_state \<Rightarrow> worker_state" where
  "record_attempt T env i out st =
     with_db (snd (record_email_attempt T (te_record_now env i) (te_record_fault env i) i out
       (te_during_send env i (ws_db st)))) st"

definition deliver ::
  "time_crate \<Rightarrow> settings \<Rightarrow> tick_env \<Rightarrow> partner \<Rightarrow> statement_line list \<Rightarrow> statement \<Rightarrow>
   (send_error + unit) \<times> smtp_event list" where
  "deliver T settings env p ls r =
     (case statement_message r ls (p_name p) (se_from_address settings) (p_billing_email p) of
        Inl e \<Rightarrow> (Inl e, [])
      | Inr m \<Rightarrow> smtp_send T (te_send_now env (st_id r)) (te_debug env) (te_connect env (st_id r))
                   (te_tls env) settings m)"

text \<open>One claimed statement; \<open>now\<close> is the instant of the tick.\<close>

definition send_one ::
  "time_crate \<Rightarrow> settings \<Rightarrow> tick_env \<Rightarrow> instant \<Rightarrow> statement \<Rightarrow> worker_state \<Rightarrow> unit work" where
  "send_one T settings env now r st =
     (let i = st_id r
      in case get_partner (te_partner_fault env i) (st_consumer_id r) (ws_db st) of
           Inl e \<Rightarrow> (Done (), st)
         | Inr None \<Rightarrow>
             (let st = tally (\<lambda>t. t\<lparr>tk_emails_skipped := tk_emails_skipped t + 1\<rparr>) st
              in case run_bind (duration_minutes EMAIL_RETRY_MAX_MINUTES) (instant_add T now) of
                   Panic \<Rightarrow> (Panic, st)
                 | Done retry_at \<Rightarrow>
                     (Done (), record_attempt T env i
                        (EmailFailed ''no partner row for this statement'' retry_at) st))
         | Inr (Some p) \<Rightarrow>
             (case scoped_lines (te_lines_fault env i) i AllConsumers (ws_db st) of
                Inl e \<Rightarrow> (Done (), st)
              | Inr ls \<Rightarrow>
                  (case deliver T settings env p ls r of
                     (Inr _, conversation) \<Rightarrow>
                       (let st = tally (\<lambda>t. t\<lparr>tk_emails_sent := tk_emails_sent t + 1\<rparr>)
                                   (log_event (Mailed i (Inr ()) conversation) st)
                        in (Done (), record_attempt T env i EmailSent st))
                   | (Inl e, conversation) \<Rightarrow>
                       (let st = tally (\<lambda>t. t\<lparr>tk_emails_failed := tk_emails_failed t + 1\<rparr>)
                                   (log_event (Mailed i (Inl e) conversation) st)
                        in case run_bind (retry_delay (st_email_attempts r)) (instant_add T now) of
                             Panic \<Rightarrow> (Panic, st)
                           | Done retry_at \<Rightarrow>
                               (Done (), record_attempt T env i
                                  (EmailFailed (send_error_display e) retry_at) st)))))"

fun send_claimed ::
  "time_crate \<Rightarrow> settings \<Rightarrow> tick_env \<Rightarrow> instant \<Rightarrow> statement list \<Rightarrow> worker_state \<Rightarrow> unit work" where
  "send_claimed T settings env now [] st = (Done (), st)"
| "send_claimed T settings env now (r # rs) st =
     (case send_one T settings env now r st of
        (Panic, st') \<Rightarrow> (Panic, st')
      | (Done _, st') \<Rightarrow> send_claimed T settings env now rs st')"

definition send_emails ::
  "time_crate \<Rightarrow> worker \<Rightarrow> tick_env \<Rightarrow> instant \<Rightarrow> worker_state \<Rightarrow> unit work" where
  "send_emails T w env now st =
     (case wk_email w of
        None \<Rightarrow> (Done (), st)
      | Some settings \<Rightarrow>
          (case claim_emails T (te_claim_fault env) now (wk_instance_id w) EMAIL_BATCH
                  EMAIL_CLAIM_TTL_MINUTES (ws_db st) of
             Panic \<Rightarrow> (Panic, st)
           | Done (Inl e, s') \<Rightarrow> (Done (), with_db s' st)
           | Done (Inr claimed, s') \<Rightarrow> send_claimed T settings env now claimed (with_db s' st)))"

section \<open>Observing the service status\<close>

definition transition :: "string \<Rightarrow> bool option \<Rightarrow> bool \<Rightarrow> worker_event list" where
  "transition c previous suspended =
     (case previous of
        None \<Rightarrow> []
      | Some before \<Rightarrow>
          if \<not> before \<and> suspended then [PartnerSuspended c]
          else if before \<and> \<not> suspended then [PartnerResumed c]
          else [])"

definition observe_partner ::
  "time_crate \<Rightarrow> tick_env \<Rightarrow> instant \<Rightarrow> partner \<Rightarrow> worker_state \<Rightarrow> worker_state" where
  "observe_partner T env now p st =
     (let c = p_consumer_id p
      in case overdue_statements T (te_overdue_now env c) (te_overdue_fault env c) (Some c) (ws_db st) of
           Inl e \<Rightarrow> st
         | Inr rows \<Rightarrow>
             (let suspended = status_is_suspended (status_for T (mode_as_str (p_billing_mode p)) now
                                (map to_overdue_row rows))
              in st\<lparr>ws_observed := (ws_observed st)(c \<mapsto> suspended),
                    ws_events := ws_events st @ transition c (ws_observed st c) suspended\<rparr>))"

definition observe_status ::
  "time_crate \<Rightarrow> tick_env \<Rightarrow> instant \<Rightarrow> worker_state \<Rightarrow> worker_state" where
  "observe_status T env now st =
     (case list_partners (te_status_fault env) (ws_db st) of
        Inl e \<Rightarrow> st
      | Inr ps \<Rightarrow> fold (observe_partner T env now) ps st)"

section \<open>A tick, and the scheduler\<close>

definition run_once ::
  "time_crate \<Rightarrow> worker \<Rightarrow> tick_env \<Rightarrow> instant \<Rightarrow> worker_state \<Rightarrow> (billing_error + tick) work" where
  "run_once T w env now st =
     (case close_days T w env now (st\<lparr>ws_tick := tick_default\<rparr>) of
        (Panic, st) \<Rightarrow> (Panic, st)
      | (Done (Inl e), st) \<Rightarrow> (Done (Inl e), st)
      | (Done (Inr _), st) \<Rightarrow>
          (case send_emails T w env now st of
             (Panic, st) \<Rightarrow> (Panic, st)
           | (Done _, st) \<Rightarrow>
               (let st = observe_status T env now st in (Done (Inr (ws_tick st)), st))))"

text \<open>
  The loop until the stop signal, which is only seen between ticks: one environment and instant per
  tick. A tick that failed or panicked is logged and the next one runs.
\<close>

fun scheduler ::
  "time_crate \<Rightarrow> worker \<Rightarrow> (tick_env \<times> instant) list \<Rightarrow> worker_state \<Rightarrow> worker_state" where
  "scheduler T w [] st = st"
| "scheduler T w ((env, now) # ticks) st = scheduler T w ticks (snd (run_once T w env now st))"

end
