(* ===== verification/Config_Properties.thy ===== *)
theory Config_Properties
  imports Config
begin

text \<open>
  The properties of the configuration: what redaction hides, and what a reload reports.
\<close>

section \<open>Redaction\<close>

text \<open>A text without angle brackets that does not occur in the marker itself.\<close>

definition scrubbable :: "string \<Rightarrow> bool" where
  "scrubbable q \<longleftrightarrow>
     q \<noteq> [] \<and> CHR ''<'' \<notin> set q \<and> CHR ''>'' \<notin> set q \<and> \<not> sublist q ''redacted''"

lemma REDACTED_parts: "REDACTED = CHR ''<'' # ''redacted'' @ [CHR ''>'']"
  by (simp add: REDACTED_def)

lemma replace_all_Nil [simp]: "replace_all p r [] = []"
  by (simp add: replace_all.simps)

lemma prefix_marker: "prefix q (REDACTED @ t) \<Longrightarrow> CHR ''<'' \<notin> set q \<Longrightarrow> q = []"
  by (cases q) (auto simp: REDACTED_parts)

lemma prefix_replace_all:
  "p \<noteq> [] \<Longrightarrow> CHR ''<'' \<notin> set q \<Longrightarrow> prefix q (replace_all p REDACTED s) \<Longrightarrow> prefix q s"
proof (induction p REDACTED s arbitrary: q rule: replace_all.induct)
  case (1 p s)
  show ?case
  proof (cases "s = [] \<or> prefix p s")
    case True
    then show ?thesis
      using 1(3-5) prefix_marker [of q "replace_all p REDACTED (drop (length p) s)"]
      by (subst (asm) replace_all.simps) (auto split: if_splits)
  next
    case False
    then obtain c t where s: "s = c # t" by (cases s) auto
    with False 1(3,5) have "prefix q (c # replace_all p REDACTED t)"
      by (subst (asm) replace_all.simps) simp
    then show ?thesis
      using "1.hyps"(2) False 1(3,4) s by (cases q) auto
  qed
qed

lemma sublist_marker:
  assumes "sublist q (REDACTED @ t)" "scrubbable q"
  shows "sublist q t"
proof -
  have no: "CHR ''<'' \<notin> set q" "CHR ''>'' \<notin> set q" "\<not> sublist q ''redacted''" "q \<noteq> []"
    using assms(2) by (auto simp: scrubbable_def)
  have "sublist q (CHR ''<'' # ''redacted'' @ CHR ''>'' # t)"
    using assms(1) by (simp add: REDACTED_parts)
  then have "sublist q (''redacted'' @ CHR ''>'' # t)"
    using no(1,4) by (cases q) (auto simp: sublist_Cons_right)
  then consider "sublist q ''redacted''" | "sublist q (CHR ''>'' # t)"
    | a b where "q = a @ b" "suffix a ''redacted''" "prefix b (CHR ''>'' # t)"
    unfolding sublist_append by blast
  then show ?thesis
  proof cases
    case 2
    then show ?thesis using no(2,4) by (cases q) (auto simp: sublist_Cons_right)
  next
    case 3
    then have "b = []" using no(2) by (cases b) auto
    then show ?thesis using 3 no(3) by (auto dest: suffix_imp_sublist)
  qed (use no(3) in blast)
qed

lemma sublist_replace_all:
  "p \<noteq> [] \<Longrightarrow> scrubbable q \<Longrightarrow> sublist q (replace_all p REDACTED s) \<Longrightarrow> sublist q s \<and> q \<noteq> p"
proof (induction p REDACTED s rule: replace_all.induct)
  case (1 p s)
  have q: "q \<noteq> []" "CHR ''<'' \<notin> set q" using 1(4) by (auto simp: scrubbable_def)
  show ?case
  proof (cases "s = []")
    case True
    then show ?thesis using 1(5) q by simp
  next
    case False
    show ?thesis
    proof (cases "prefix p s")
      case True
      with False 1(3,5) have "sublist q (REDACTED @ replace_all p REDACTED (drop (length p) s))"
        by (subst (asm) replace_all.simps) simp
      from sublist_marker [OF this 1(4)] show ?thesis
        using "1.hyps"(1) False True 1(3,4) sublist_drop sublist_order.order_trans by blast
    next
      case no: False
      with False obtain c t where s: "s = c # t" by (cases s) auto
      have "sublist q (c # replace_all p REDACTED t)"
        using 1(5) s no 1(3) by (subst (asm) replace_all.simps) simp
      then consider "prefix q (c # replace_all p REDACTED t)"
        | "sublist q (replace_all p REDACTED t)"
        by (auto simp: sublist_Cons_right)
      then show ?thesis
      proof cases
        case 1
        then have "prefix q (replace_all p REDACTED s)"
          using s no \<open>p \<noteq> []\<close> by (subst replace_all.simps) simp
        then have "prefix q s" by (rule prefix_replace_all [OF \<open>p \<noteq> []\<close> q(2)])
        then show ?thesis using no by auto
      next
        case 2
        then show ?thesis
          using "1.hyps"(2) False no 1(3,4) s by (auto simp: sublist_Cons_right)
      qed
    qed
  qed
qed

lemma redact_credentials_clean:
  assumes "scrubbable q" "sublist q (redact_credentials out ss)"
  shows "sublist q out \<and> (MIN_SCRUBBED_SECRET_LEN \<le> length q \<longrightarrow> q \<notin> set ss)"
  using assms(2)
proof (induction ss arbitrary: out)
  case (Cons secret ss)
  let ?hit = "MIN_SCRUBBED_SECRET_LEN \<le> length secret \<and> sublist secret out"
  let ?out = "if ?hit then replace_all secret REDACTED out else out"
  have IH: "sublist q ?out" "MIN_SCRUBBED_SECRET_LEN \<le> length q \<longrightarrow> q \<notin> set ss"
    using Cons by auto
  show ?case
  proof (cases ?hit)
    case True
    then have "secret \<noteq> []" by (auto simp: MIN_SCRUBBED_SECRET_LEN_def)
    then show ?thesis using sublist_replace_all [OF _ assms(1)] IH True by auto
  next
    case False
    then show ?thesis using IH by auto
  qed
qed simp

text \<open>
  no configured credential survives redaction. Whatever the text, after redacting the
  credentials of the configuration neither the upstream key nor the manager password of at least
  eight characters occurs in it, unless the credential has an angle bracket or is part of the word
  redacted; and nothing scrubbable is in the result that was not in the text.
\<close>

theorem redaction_is_complete:
  assumes "scrubbable q" "sublist q (redact_credentials txt (config_credentials c))"
  shows "sublist q txt
    \<and> (8 \<le> length q \<longrightarrow>
        q \<noteq> up_api_key (cf_upstream c) \<and> map_option mg_password (cf_manager c) \<noteq> Some q)"
proof -
  have "sublist q txt" "MIN_SCRUBBED_SECRET_LEN \<le> length q \<longrightarrow> q \<notin> set (config_credentials c)"
    using redact_credentials_clean [OF assms] by blast+
  then show ?thesis
    by (cases "cf_manager c")
      (auto simp: config_credentials_def MIN_SCRUBBED_SECRET_LEN_def split: if_splits)
qed

definition sample_config :: config where
  "sample_config =
     \<lparr>cf_server = server_default,
      cf_upstream = \<lparr>up_base_url = ''https://up.test'', up_api_key = ''sk-12345678'',
        up_timeout_secs = 120, up_connect_timeout_secs = 10\<rparr>,
      cf_database = database_default, cf_manager = Some \<lparr>mg_password = ''hunter2hunter2''\<rparr>,
      cf_billing = billing_default\<rparr>"

theorem redaction_is_complete_witness:
  "redact_credentials ''bad sk-12345678!'' (config_credentials sample_config) = ''bad <redacted>!''
   \<and> \<not> sublist ''sk-12345678'' ''bad <redacted>!''"
proof -
  have r: "redact_credentials ''bad sk-12345678!'' (config_credentials sample_config)
      = ''bad <redacted>!''"
    by (simp add: config_credentials_def sample_config_def MIN_SCRUBBED_SECRET_LEN_def
        REDACTED_def replace_all.simps sublist_code)
  have "scrubbable ''sk-12345678''" by (simp add: scrubbable_def sublist_code)
  from redaction_is_complete [OF this, of "''bad sk-12345678!''" sample_config] r
  show ?thesis by (auto simp: sample_config_def)
qed

section \<open>Reload reports\<close>

lemma report_if_Nil [simp]: "report_if b r = [] \<longleftrightarrow> \<not> b"
  by (simp add: report_if_def)

lemma restart_nat_Nil [simp]: "restart_nat field f old new = [] \<longleftrightarrow> f old = f new"
  by (simp add: restart_nat_def)

lemma manager_eq: "map_option mg_password a = map_option mg_password b \<longleftrightarrow> a = b"
  for a b :: "manager_config option"
  by (cases a; cases b) auto

definition with_secret :: "string \<Rightarrow> config \<Rightarrow> config" where
  "with_secret k c =
     c\<lparr>cf_upstream := (cf_upstream c)\<lparr>up_api_key := k\<rparr>, cf_manager := Some \<lparr>mg_password = k\<rparr>\<rparr>"

text \<open>
  a reload reports every change except the billing block, and no secret. A turn of the watcher
  that swaps the snapshot reports nothing exactly when the files agree outside \<open>billing\<close>, whose
  fields the scheduler captured at start-up; and the reports of a rotated upstream key and manager
  password are the same whatever the values are.
\<close>

theorem reload_reports_all_but_billing:
  assumes "a \<noteq> b" "c \<noteq> d"
  shows "(report_changes old new = [] \<longleftrightarrow> old\<lparr>cf_billing := cf_billing new\<rparr> = new)
    \<and> report_changes (with_secret a old) (with_secret b new)
      = report_changes (with_secret c old) (with_secret d new)"
proof
  show "report_changes old new = [] \<longleftrightarrow> old\<lparr>cf_billing := cf_billing new\<rparr> = new"
    by (cases old; cases new)
      (auto simp: report_changes_def report_live_changes_def report_restart_required_changes_def
        Let_def manager_eq intro!: server_config.equality upstream_config.equality
        database_config.equality)
  show "report_changes (with_secret a old) (with_secret b new)
      = report_changes (with_secret c old) (with_secret d new)"
    using assms
    by (simp add: with_secret_def report_changes_def report_live_changes_def
        report_restart_required_changes_def restart_nat_def)
qed

theorem reload_reports_all_but_billing_witness:
  "report_changes sample_config
     (sample_config\<lparr>cf_billing := billing_default\<lparr>bc_close_delay_minutes := 60\<rparr>\<rparr>) = []"
  using reload_reports_all_but_billing [of "''a''" "''b''" "''a''" "''b''" sample_config
      "sample_config\<lparr>cf_billing := billing_default\<lparr>bc_close_delay_minutes := 60\<rparr>\<rparr>"]
  by simp

end
