(* ===== verification/Worker_Properties.thy ===== *)
theory Worker_Properties
  imports Worker Store_Properties Statement_Properties Config_Properties
begin

text \<open>
  The properties of the scheduler: what every tick keeps, what the walk reaches, that a second tick
  changes nothing, and what the email phase promises.
\<close>

section \<open>Every tick keeps the books\<close>

text \<open>Whatever others commit during a tick, they are operations that keep the billing tables.\<close>

definition others_keep :: "tick_env \<Rightarrow> bool" where
  "others_keep env \<longleftrightarrow>
     (\<forall>c d s. keeps s (te_meanwhile env c d s)) \<and> (\<forall>i s. keeps s (te_during_send env i s))"

lemma others_keepD:
  "others_keep env \<Longrightarrow> keeps s (te_meanwhile env c d s)"
  "others_keep env \<Longrightarrow> keeps s (te_during_send env i s)"
  by (simp_all add: others_keep_def)

lemma quiet_env_keeps [simp]: "others_keep (quiet_env now)"
  by (simp add: others_keep_def quiet_env_def)

lemma quiet_env_simps [simp]:
  "te_partners_fault (quiet_env now) = None" "te_anchor_fault (quiet_env now) c = None"
  "te_usage_fault (quiet_env now) c d = None" "te_meanwhile (quiet_env now) = (\<lambda>_ _ s. s)"
  "te_write_now (quiet_env now) c d = now" "te_write_fault (quiet_env now) c d = None"
  "te_readback_fault (quiet_env now) c d = None" "te_claim_fault (quiet_env now) = None"
  "te_partner_fault (quiet_env now) i = None" "te_lines_fault (quiet_env now) i = None"
  "te_during_send (quiet_env now) = (\<lambda>_ s. s)" "te_record_fault (quiet_env now) i = None"
  by (simp_all add: quiet_env_def)

lemma state_simps [simp]:
  "ws_db (tally f st) = ws_db st" "ws_db (with_db s st) = s" "ws_db (log_event e st) = ws_db st"
  "ws_events (tally f st) = ws_events st" "ws_events (with_db s st) = ws_events st"
  "ws_events (log_event e st) = ws_events st @ [e]"
  "ws_tick (tally f st) = f (ws_tick st)" "ws_tick (with_db s st) = ws_tick st"
  by (simp_all add: tally_def with_db_def log_event_def)

lemma close_day_keeps:
  assumes "others_keep env" "close_day T w env p day st = (r, st')"
  shows "keeps (ws_db st) (ws_db st')"
proof (cases "day_draft T w env p day (ws_db st)")
  case Panic
  then show ?thesis using assms(2) by (simp add: close_day_def)
next
  case (Done d)
  show ?thesis
  proof (cases d)
    case (Inl e)
    then show ?thesis using assms(2) Done by (auto simp: close_day_def)
  next
    case (Inr draft)
    let ?c = "p_consumer_id p"
    let ?s = "te_meanwhile env ?c day (ws_db st)"
    obtain out s' where w: "write_statement T (te_write_now env ?c day) (te_write_fault env ?c day)
        (te_readback_fault env ?c day) draft ?s = (out, s')" by fastforce
    have "keeps (ws_db st) s'"
      by (rule keeps_trans [OF others_keepD(1) [OF assms(1)] write_statement_keeps [OF w]])
    then show ?thesis using assms(2) Done Inr w by (cases out) (auto simp: close_day_def)
  qed
qed

lemma close_each_keeps:
  assumes "others_keep env" "close_each T w env p days st = (r, st')"
  shows "keeps (ws_db st) (ws_db st')"
  using assms(2)
proof (induction days arbitrary: st)
  case (Cons day days)
  let ?st = "tally (\<lambda>t. t\<lparr>tk_days := tk_days t + 1\<rparr>) st"
  obtain r1 st1 where 1: "close_day T w env p day ?st = (r1, st1)" by fastforce
  have "keeps (ws_db st) (ws_db st1)" using close_day_keeps [OF assms(1) 1] by simp
  with Cons 1 show ?case by (cases r1) (auto intro: keeps_trans)
qed simp

lemma close_partners_keeps:
  assumes "others_keep env" "close_partners T w env through ps st = (r, st')"
  shows "keeps (ws_db st) (ws_db st')"
  using assms(2)
proof (induction ps arbitrary: st)
  case (Cons p ps)
  show ?case
  proof (cases "anchor_for T w env p through (ws_db st)")
    case (Inr a)
    obtain r1 st1 where 1: "close_each T w env p
        (days_to_close T (Some (day_display T a)) through) st = (r1, st1)" by fastforce
    have "keeps (ws_db st) (ws_db st1)" by (rule close_each_keeps [OF assms(1) 1])
    with Cons 1 Inr show ?thesis by (cases r1) (auto intro: keeps_trans)
  qed (use Cons in simp)
qed simp

lemma close_days_keeps:
  assumes "others_keep env" "close_days T w env now st = (r, st')"
  shows "keeps (ws_db st) (ws_db st')"
  using assms(2) close_partners_keeps [OF assms(1)]
  by (auto simp: close_days_def split: run.splits option.splits sum.splits)

lemma record_attempt_keeps:
  assumes "others_keep env"
  shows "keeps (ws_db st) (ws_db (record_attempt T env i out st))"
  unfolding record_attempt_def state_simps
  by (rule keeps_trans [OF others_keepD(2) [OF assms] record_email_attempt_keeps])
    (rule surjective_pairing)

lemma send_one_keeps:
  assumes "others_keep env" "send_one T settings env now r st = (res, st')"
  shows "keeps (ws_db st) (ws_db st')"
  using assms(2) record_attempt_keeps [OF assms(1), of "tally f st" for f]
    record_attempt_keeps [OF assms(1), of "tally f (log_event e st)" for f e]
  by (auto simp: send_one_def Let_def split: run.splits option.splits sum.splits prod.splits)

lemma send_claimed_keeps:
  assumes "others_keep env" "send_claimed T settings env now rs st = (res, st')"
  shows "keeps (ws_db st) (ws_db st')"
  using assms(2)
proof (induction rs arbitrary: st)
  case (Cons r rs)
  obtain r1 st1 where 1: "send_one T settings env now r st = (r1, st1)" by fastforce
  with Cons send_one_keeps [OF assms(1) 1] show ?case by (cases r1) (auto intro: keeps_trans)
qed simp

lemma send_emails_keeps:
  assumes "others_keep env" "send_emails T w env now st = (res, st')"
  shows "keeps (ws_db st) (ws_db st')"
proof (cases "wk_email w")
  case (Some settings)
  show ?thesis
  proof (cases "claim_emails T (te_claim_fault env) now (wk_instance_id w) EMAIL_BATCH
      EMAIL_CLAIM_TTL_MINUTES (ws_db st)")
    case (Done c)
    obtain cl s' where c: "c = (cl, s')" by fastforce
    have k: "keeps (ws_db st) s'" using claim_emails_keeps Done c by blast
    show ?thesis
    proof (cases cl)
      case (Inr claimed)
      then have "send_claimed T settings env now claimed (with_db s' st) = (res, st')"
        using assms(2) Some Done c by (simp add: send_emails_def)
      then show ?thesis using send_claimed_keeps [OF assms(1)] k keeps_trans by fastforce
    qed (use assms(2) Some Done c k in \<open>auto simp: send_emails_def\<close>)
  qed (use assms(2) Some in \<open>auto simp: send_emails_def\<close>)
qed (use assms(2) in \<open>auto simp: send_emails_def\<close>)

lemma observe_partner_db [simp]: "ws_db (observe_partner T env now p st) = ws_db st"
  by (simp add: observe_partner_def Let_def split: sum.split)

lemma fold_observe_db [simp]: "ws_db (fold (observe_partner T env now) ps st) = ws_db st"
  by (induction ps arbitrary: st) simp_all

lemma observe_status_db [simp]: "ws_db (observe_status T env now st) = ws_db st"
  by (simp add: observe_status_def split: sum.split)

lemma run_once_keeps:
  assumes "others_keep env" "run_once T w env now st = (r, st')"
  shows "keeps (ws_db st) (ws_db st')"
proof -
  let ?st = "st\<lparr>ws_tick := tick_default\<rparr>"
  obtain r1 st1 where 1: "close_days T w env now ?st = (r1, st1)" by fastforce
  obtain r2 st2 where 2: "send_emails T w env now st1 = (r2, st2)" by fastforce
  have "keeps (ws_db st) (ws_db st1)" using close_days_keeps [OF assms(1) 1] by simp
  moreover have "keeps (ws_db st1) (ws_db st2)" by (rule send_emails_keeps [OF assms(1) 2])
  moreover have "ws_db st' = ws_db st1 \<or> ws_db st' = ws_db st2"
    using assms(2) 1 2 by (auto simp: run_once_def Let_def split: run.splits sum.splits)
  ultimately show ?thesis using keeps_trans by metis
qed


definition sample_worker :: worker where
  "sample_worker =
     \<lparr>wk_generator = generator_new tz_default 5, wk_email = None, wk_interval_secs = 30,
      wk_instance_id = ''a''\<rparr>"

definition start_state :: "db \<Rightarrow> worker_state" where
  "start_state s = \<lparr>ws_db = s, ws_tick = tick_default, ws_observed = \<lambda>_. None, ws_events = []\<rparr>"


section \<open>Where the walk starts\<close>

definition dates_of :: "string \<Rightarrow> db \<Rightarrow> string list" where
  "dates_of c s = map st_billing_date (statements_where (\<lambda>r. st_consumer_id r = c) s)"

text \<open>Every stored date is one the store wrote: the text of a day of a four-digit year.\<close>

definition dated :: "time_crate \<Rightarrow> db \<Rightarrow> bool" where
  "dated T s \<longleftrightarrow>
     (\<forall>r \<in> set (daily_statements s). \<exists>e. four_digit_day (day_date e) \<and> st_billing_date r = day_display T e)"

lemma dates_of_dated:
  "dated T s \<Longrightarrow> x \<in> set (dates_of c s) \<Longrightarrow> \<exists>e. four_digit_day (day_date e) \<and> x = day_display T e"
  by (auto simp: dated_def dates_of_def statements_where_def)

lemma sql_max_eq: "sql_max xs = (if xs = [] then None else Some (Max (set xs)))"
proof (cases xs)
  case (Cons x ys)
  then show ?thesis using Max.set_eq_fold [of x ys] by (simp add: sql_max_def)
qed (simp add: sql_max_def)

lemma anchor_for_dates:
  "anchor_for T w env p through s =
     (case te_anchor_fault env (p_consumer_id p) of
        Some e \<Rightarrow> Inl (Database e)
      | None \<Rightarrow> anchor_for T w (quiet_env 0) p through s)"
  by (simp add: anchor_for_def last_statement_date_for_def db_result_def quiet_env_def
      split: option.split)

lemma anchor_for_frame:
  "dates_of (p_consumer_id p) s = dates_of (p_consumer_id p) s' \<Longrightarrow>
   anchor_for T w env p through s = anchor_for T w env p through s'"
  by (simp add: anchor_for_def last_statement_date_for_def db_result_def dates_of_def pool_read_def
      split: option.split)

lemma anchor_for_total:
  "te_anchor_fault env (p_consumer_id p) = None \<Longrightarrow> \<exists>a. anchor_for T w env p through s = Inr a"
  by (auto simp: anchor_for_def last_statement_date_for_def db_result_def split: option.split)

text \<open>The days after an anchor, none when the anchor is not before the last day.\<close>

lemma days_to_close_after:
  assumes "time_laws T" "four_digit_day (day_date a)"
  shows "days_to_close T (Some (day_display T a)) through
    = map BillingDay [max (day_date a + 1) (day_date through - 30) .. day_date through]"
proof -
  have "max (day_date a + 1) (day_date through - 30)
    = (if day_date a + 1 < day_date through - 30 then day_date through - 30 else day_date a + 1)"
    by simp
  then show ?thesis
    using time_laws.day_parse_display [OF assms]
    by (simp add: days_to_close_def Let_def days_from_upto oldest_closeable_def previous_n_def
        MAX_CATCHUP_DAYS_def less_billing_day_def day_next_def)
qed

lemma anchor_for_last:
  assumes "time_laws T" "dated T s" "day_display T e \<in> set (dates_of (p_consumer_id p) s)"
    and "four_digit_day (day_date e)" "anchor_for T w env p through s = Inr a"
  shows "four_digit_day (day_date a) \<and> e \<le> a"
proof -
  let ?X = "set (dates_of (p_consumer_id p) s)"
  have ne: "dates_of (p_consumer_id p) s \<noteq> []" using assms(3) by auto
  then have "Max ?X \<in> ?X" by (intro Max_in) auto
  then obtain m where m: "four_digit_day (day_date m)" "Max ?X = day_display T m"
    using dates_of_dated [OF assms(2)] by blast
  have "te_anchor_fault env (p_consumer_id p) = None"
    using assms(5) by (subst (asm) anchor_for_dates) (auto split: option.splits)
  then have "last_statement_date_for (te_anchor_fault env (p_consumer_id p)) (p_consumer_id p) s
      = Inr (Some (day_display T m))"
    using ne m(2) sql_max_eq [of "dates_of (p_consumer_id p) s"]
    by (simp add: last_statement_date_for_def db_result_def dates_of_def)
  then have "a = m"
    using assms(5) time_laws.day_parse_display [OF assms(1) m(1)] by (simp add: anchor_for_def)
  moreover have "day_display T e \<le> day_display T m"
    using assms(3) m(2) by (metis List.finite_set Max_ge)
  ultimately show ?thesis
    using time_laws.day_display_le_iff [OF assms(1,4) m(1)] m(1) by simp
qed

text \<open>
  the walk only moves forward. Once a partner has a statement for a day, no tick closes that
  day or an earlier one again for that partner: not a day that was already billed, and not a day
  before it whose own write failed.
\<close>

theorem walk_only_moves_forward:
  assumes "time_laws T" "dated T s" "anchor_for T w env p through s = Inr a"
    and "r \<in> set (daily_statements s)" "st_consumer_id r = p_consumer_id p"
    and "st_billing_date r = day_display T e" "four_digit_day (day_date e)"
  shows "\<forall>day \<in> set (days_to_close T (Some (day_display T a)) through). e < day"
proof
  fix day assume "day \<in> set (days_to_close T (Some (day_display T a)) through)"
  moreover have "day_display T e \<in> set (dates_of (p_consumer_id p) s)"
    using assms(4,5,6) by (auto simp: dates_of_def statements_where_def intro: rev_image_eqI)
  note anchor_for_last [OF assms(1,2) this assms(7,3)]
  ultimately show "e < day"
    using days_to_close_after [OF assms(1), of a through]
    by (auto simp: less_eq_billing_day_def less_billing_day_def)
qed

lemma issued_db_dated: "dated gregorian issued_db"
  using issued_statements
  by (auto simp: dated_def draft_row_def sample_draft_def four_digit_day_def
      intro!: exI [of _ "BillingDay 0"])

theorem walk_only_moves_forward_witness:
  "\<exists>a. anchor_for gregorian sample_worker (quiet_env 0) (row_to_partner sample_partner)
      (BillingDay 9) issued_db = Inr a
    \<and> BillingDay 0 \<notin> set (days_to_close gregorian (Some (day_display gregorian a)) (BillingDay 9))"
proof -
  let ?r = "draft_row gregorian 0 sample_draft (MicroUsd 2450) 1"
  have r: "?r \<in> set (daily_statements issued_db)" "st_consumer_id ?r = ''acme''"
    "st_billing_date ?r = day_display gregorian (BillingDay 0)"
    by (simp_all add: issued_statements draft_row_def sample_draft_def)
  obtain a where a: "anchor_for gregorian sample_worker (quiet_env 0)
      (row_to_partner sample_partner) (BillingDay 9) issued_db = Inr a"
    using anchor_for_total quiet_env_simps(2) by blast
  have "\<forall>day \<in> set (days_to_close gregorian (Some (day_display gregorian a)) (BillingDay 9)).
      BillingDay 0 < day"
    by (rule walk_only_moves_forward [OF greg.time_laws_axioms issued_db_dated a r(1)])
      (simp_all add: r row_to_partner_def sample_partner_def four_digit_day_def)
  with a show ?thesis by blast
qed

section \<open>Closing twice\<close>

definition failures :: "worker_state \<Rightarrow> nat" where
  "failures st = tk_failures (ws_tick st)"

lemma failures_simps [simp]:
  "failures (with_db s st) = failures st"
  "failures (tally count_failure st) = failures st + 1"
  "failures (tally (count_outcome out) st) = failures st"
  "failures (tally (\<lambda>t. t\<lparr>tk_days := f t\<rparr>) st) = failures st"
  by (simp_all add: failures_def count_failure_def count_outcome_def tally_def with_db_def)

text \<open>
  What one partner's closing does to the tables when nobody interferes: the partners stay, the
  statements of other partners stay, and those of the partner only gain days of the walk.
\<close>

definition closes :: "time_crate \<Rightarrow> string \<Rightarrow> billing_day list \<Rightarrow> db \<Rightarrow> db \<Rightarrow> bool" where
  "closes T c days s t \<longleftrightarrow>
     partners t = partners s \<and> (\<forall>c'. c' \<noteq> c \<longrightarrow> dates_of c' t = dates_of c' s)
     \<and> set (map st_billing_date (daily_statements t))
         \<subseteq> set (map st_billing_date (daily_statements s)) \<union> day_display T ` set days
     \<and> set (dates_of c s) \<subseteq> set (dates_of c t)"

lemma closes_refl [simp]: "closes T c days s s"
  by (auto simp: closes_def)

lemma closes_trans:
  assumes "closes T c days s t" "closes T c days' t u"
  shows "closes T c (days @ days') s u"
proof -
  let ?d = "\<lambda>s. set (map st_billing_date (daily_statements s))"
  have "?d t \<subseteq> ?d s \<union> day_display T ` set days" "?d u \<subseteq> ?d t \<union> day_display T ` set days'"
    using assms by (simp_all only: closes_def)
  then have "?d u \<subseteq> ?d s \<union> day_display T ` set (days @ days')"
    by (simp only: set_append image_Un) blast
  moreover have "partners u = partners s" "\<forall>c'. c' \<noteq> c \<longrightarrow> dates_of c' u = dates_of c' s"
    using assms by (simp_all add: closes_def)
  moreover have "set (dates_of c s) \<subseteq> set (dates_of c u)"
    using assms unfolding closes_def by (meson order_trans)
  ultimately show ?thesis by (simp only: closes_def simp_thms)
qed

lemma closes_dated:
  assumes "closes T c days s t" "dated T s" "\<forall>d \<in> set days. four_digit_day (day_date d)"
  shows "dated T t"
  unfolding dated_def
proof
  fix r assume "r \<in> set (daily_statements t)"
  then have "st_billing_date r \<in> set (map st_billing_date (daily_statements s)) \<union> day_display T ` set days"
    using assms(1) unfolding closes_def by auto
  then show "\<exists>e. four_digit_day (day_date e) \<and> st_billing_date r = day_display T e"
    using assms(2,3) by (auto simp: dated_def)
qed

lemma write_statement_closes:
  assumes "write_statement T now wflt rflt d s = (res, t)"
  shows "closes T (sd_consumer_id d) [sd_billing_date d] s t
    \<and> (\<forall>out. res = Inr out \<longrightarrow>
         day_display T (sd_billing_date d) \<in> set (dates_of (sd_consumer_id d) t))"
proof -
  define q where "q = \<lparr>wr_now = now, wr_write_fault = wflt, wr_read_fault = rflt, wr_draft = d\<rparr>"
  have t: "t = issue_request T q s" using assms by (simp add: issue_request_def q_def)
  have "closes T (sd_consumer_id d) [sd_billing_date d] s t"
    unfolding t
  proof (cases rule: issue_request_cases [of T q s])
    case (appended row new)
    then show "closes T (sd_consumer_id d) [sd_billing_date d] s (issue_request T q s)"
      by (auto simp: closes_def dates_of_def statements_where_def statement_key_def draft_key_def q_def)
  qed simp
  moreover have "day_display T (sd_billing_date d) \<in> set (dates_of (sd_consumer_id d) t)"
    if r: "res = Inr out" for out
    using assms unfolding r
  proof (rule write_statement_Inr)
    assume "map_option row_to_statement (issued (draft_key T d) t) = Some (outcome_statement out)"
    then obtain row where "issued (draft_key T d) t = Some row" by auto
    then have "row \<in> set (daily_statements t)" "statement_key row = draft_key T d"
      by (auto simp: issued_def draft_key_def find_statement_def statement_key_def find_Some_iff)
    then show ?thesis
      by (auto simp: dates_of_def statements_where_def statement_key_def draft_key_def
          intro: rev_image_eqI)
  qed
  ultimately show ?thesis by blast
qed

lemma day_draft_Inr:
  "day_draft T w env p day s = Done (Inr d) \<Longrightarrow>
   sd_consumer_id d = p_consumer_id p \<and> sd_billing_date d = day"
  by (auto simp: day_draft_def run_bind_def elim!: statement_for_day_Inr
      split: run.splits option.splits)

definition undisturbed :: "tick_env \<Rightarrow> bool" where
  "undisturbed env \<longleftrightarrow> te_meanwhile env = (\<lambda>_ _ s. s)"

lemma close_day_closes:
  assumes "undisturbed env" "close_day T w env p day st = (Done u, st')"
  shows "closes T (p_consumer_id p) [day] (ws_db st) (ws_db st') \<and> failures st \<le> failures st'
    \<and> (failures st' = failures st \<longrightarrow>
         day_display T day \<in> set (dates_of (p_consumer_id p) (ws_db st')))"
proof (cases "day_draft T w env p day (ws_db st)")
  case (Done d)
  show ?thesis
  proof (cases d)
    case (Inl e)
    then show ?thesis using assms(2) Done by (auto simp: close_day_def)
  next
    case (Inr draft)
    let ?c = "p_consumer_id p"
    obtain out s' where w: "write_statement T (te_write_now env ?c day) (te_write_fault env ?c day)
        (te_readback_fault env ?c day) draft (ws_db st) = (out, s')" by fastforce
    have d: "sd_consumer_id draft = ?c" "sd_billing_date draft = day"
      using day_draft_Inr Done Inr by blast+
    show ?thesis
      using assms Done Inr w write_statement_closes [OF w]
      by (cases out) (auto simp: close_day_def undisturbed_def d)
  qed
qed (use assms(2) in \<open>simp add: close_day_def\<close>)

lemma close_each_closes:
  assumes "undisturbed env" "close_each T w env p days st = (Done u, st')"
  shows "closes T (p_consumer_id p) days (ws_db st) (ws_db st') \<and> failures st \<le> failures st'
    \<and> (failures st' = failures st \<longrightarrow>
         day_display T ` set days \<subseteq> set (dates_of (p_consumer_id p) (ws_db st')))"
  using assms(2)
proof (induction days arbitrary: st)
  case (Cons day days)
  let ?st = "tally (\<lambda>t. t\<lparr>tk_days := tk_days t + 1\<rparr>) st"
  obtain r1 st1 where 1: "close_day T w env p day ?st = (r1, st1)" by fastforce
  with Cons.prems obtain v where r1: "r1 = Done v" by (cases r1) auto
  from Cons.prems 1 r1 have 2: "close_each T w env p days st1 = (Done u, st')" by simp
  from close_day_closes [OF assms(1) 1 [unfolded r1]] Cons.IH [OF 2] show ?case
    using closes_trans [of T "p_consumer_id p" "[day]" "ws_db st" "ws_db st1" days "ws_db st'"]
    by (auto simp: closes_def)
qed simp

lemma close_partners_failures:
  assumes "undisturbed env" "close_partners T w env through ps st = (Done u, st')"
  shows "failures st \<le> failures st'"
  using assms(2)
proof (induction ps arbitrary: st)
  case (Cons p ps)
  show ?case
  proof (cases "anchor_for T w env p through (ws_db st)")
    case (Inr a)
    obtain r1 st1 where 1: "close_each T w env p
        (days_to_close T (Some (day_display T a)) through) st = (r1, st1)" by fastforce
    then obtain v where "r1 = Done v" using Cons.prems Inr by (cases r1) auto
    with 1 close_each_closes [OF assms(1)] have "failures st \<le> failures st1" by blast
    moreover have "failures st1 \<le> failures st'"
      using Cons.IH [of st1] Cons.prems Inr 1 \<open>r1 = Done v\<close> by simp
    ultimately show ?thesis by simp
  qed (use Cons.prems in simp)
qed simp

text \<open>Nothing is left to close for a partner: whatever its anchor reads as, the walk is empty.\<close>

definition settled :: "time_crate \<Rightarrow> worker \<Rightarrow> billing_day \<Rightarrow> partner \<Rightarrow> db \<Rightarrow> bool" where
  "settled T w through p s \<longleftrightarrow>
     (\<forall>env a. anchor_for T w env p through s = Inr a \<longrightarrow>
        days_to_close T (Some (day_display T a)) through = [])"

lemma settled_frame:
  "settled T w through p s \<Longrightarrow> dates_of (p_consumer_id p) t = dates_of (p_consumer_id p) s \<Longrightarrow>
   settled T w through p t"
  unfolding settled_def using anchor_for_frame by metis

lemma walk_settles:
  assumes "time_laws T" "undisturbed env" "dated T (ws_db st)"
    and four: "four_digit_day (day_date through - 30)" "four_digit_day (day_date through)"
    and "anchor_for T w env p through (ws_db st) = Inr a"
    and "close_each T w env p (days_to_close T (Some (day_display T a)) through) st = (Done u, st')"
    and "failures st' = failures st"
  shows "settled T w through p (ws_db st') \<and> dated T (ws_db st')"
proof -
  let ?days = "days_to_close T (Some (day_display T a)) through"
  define lo where "lo = (case Option.bind (Some (day_display T a)) (day_parse T) of
           None \<Rightarrow> day_date through - 30
         | Some d \<Rightarrow> max (day_date d + 1) (day_date through - 30))"
  then have lo: "day_date through - 30 \<le> lo" by (auto split: option.split)
  have days: "?days = map BillingDay [lo .. day_date through]"
    unfolding lo_def by (auto simp: days_to_close_def Let_def days_from_upto oldest_closeable_def previous_n_def
        MAX_CATCHUP_DAYS_def less_billing_day_def split: option.split)
  have c: "closes T (p_consumer_id p) ?days (ws_db st) (ws_db st')"
    and all: "day_display T ` set ?days \<subseteq> set (dates_of (p_consumer_id p) (ws_db st'))"
    using close_each_closes [OF assms(2,7)] assms(8) by blast+
  have "\<forall>d \<in> set ?days. four_digit_day (day_date d)"
    unfolding days using four lo by (auto simp: four_digit_day_def)
  then have dated': "dated T (ws_db st')" by (rule closes_dated [OF c assms(3)])
  have "settled T w through p (ws_db st')"
  proof (cases "?days = []")
    case True
    have same: "a' = a" if "anchor_for T w env' p through (ws_db st) = Inr a'" for env' a'
      using that assms(6) anchor_for_dates [of T w env' p] anchor_for_dates [of T w env p]
      by (auto split: option.splits)
    have "ws_db st' = ws_db st" using assms(7) True by simp
    then show ?thesis unfolding settled_def using same True by auto
  next
    case False
    then have "day_date through \<in> set [lo .. day_date through]" unfolding days by simp
    then have "BillingDay (day_date through) \<in> set ?days" unfolding days set_map by (rule imageI)
    then have t: "day_display T through \<in> set (dates_of (p_consumer_id p) (ws_db st'))"
      using all by auto
    show ?thesis
      unfolding settled_def
    proof (intro allI impI)
      fix env' a' assume "anchor_for T w env' p through (ws_db st') = Inr a'"
      from anchor_for_last [OF assms(1) dated' t four(2) this]
      show "days_to_close T (Some (day_display T a')) through = []"
        using days_to_close_after [OF assms(1)] by (simp add: less_eq_billing_day_def)
    qed
  qed
  with dated' show ?thesis by blast
qed

lemma close_partners_settles:
  assumes "time_laws T" "undisturbed env"
    and "four_digit_day (day_date through - 30)" "four_digit_day (day_date through)"
    and "distinct (map p_consumer_id ps)" "dated T (ws_db st)"
    and "close_partners T w env through ps st = (Done (Inr ()), st')" "failures st' = failures st"
  shows "(\<forall>p \<in> set ps. settled T w through p (ws_db st'))
    \<and> partners (ws_db st') = partners (ws_db st)
    \<and> (\<forall>c. c \<notin> p_consumer_id ` set ps \<longrightarrow> dates_of c (ws_db st') = dates_of c (ws_db st))"
  using assms(5-)
proof (induction ps arbitrary: st)
  case (Cons p ps)
  obtain a where a: "anchor_for T w env p through (ws_db st) = Inr a"
    using Cons.prems(3) by (cases "anchor_for T w env p through (ws_db st)") auto
  obtain r1 st1 where 1: "close_each T w env p
      (days_to_close T (Some (day_display T a)) through) st = (r1, st1)" by fastforce
  with Cons.prems(3) a obtain u where r1: "r1 = Done u" by (cases r1) auto
  have 2: "close_partners T w env through ps st1 = (Done (Inr ()), st')"
    using Cons.prems(3) a 1 r1 by simp
  note closed = close_each_closes [OF assms(2) 1 [unfolded r1]]
  have mono: "failures st1 \<le> failures st'"
    by (rule close_partners_failures [OF assms(2) 2])
  then have f: "failures st1 = failures st" "failures st' = failures st1"
    using closed Cons.prems(4) by auto
  have s: "settled T w through p (ws_db st1)" "dated T (ws_db st1)"
    using walk_settles [OF assms(1,2) Cons.prems(2) assms(3,4) a 1 [unfolded r1] f(1)] by blast+
  note IH = Cons.IH [OF _ s(2) 2 f(2)]
  have d: "distinct (map p_consumer_id ps)" "p_consumer_id p \<notin> p_consumer_id ` set ps"
    using Cons.prems(1) by auto
  have "settled T w through p (ws_db st')"
    using settled_frame [OF s(1)] IH [OF d(1)] d(2) by blast
  then show ?case using IH [OF d(1)] closed by (auto simp: closes_def)
qed simp

lemma close_partners_settled:
  assumes "\<forall>p \<in> set ps. settled T w through p (ws_db st)"
  shows "snd (close_partners T w env through ps st) = st"
  using assms
proof (induction ps)
  case (Cons p ps)
  then show ?case
    by (cases "anchor_for T w env p through (ws_db st)") (auto simp: settled_def)
qed simp

lemma list_partners_Inr:
  "list_partners flt s = Inr ps \<Longrightarrow>
   ps = map row_to_partner (sort_key pr_consumer_id (partners s))"
  by (cases flt) (auto simp: list_partners_def db_result_def)

text \<open>
  closing is idempotent. After a walk in which no statement failed, closing again with the same
  closeable day, whatever the clock and the faults of the second run, changes nothing: no statement
  is written, existing or new, and nothing is counted.
\<close>

theorem second_closing_does_nothing:
  assumes "time_laws T" "billing_invariant (ws_db st)" "dated T (ws_db st)" "undisturbed env"
    and "closable_through T (wk_generator w) now = Done (Some through)"
    and "four_digit_day (day_date through - 30)" "four_digit_day (day_date through)"
    and "close_days T w env now st = (Done (Inr ()), st')"
    and "tk_failures (ws_tick st') = tk_failures (ws_tick st)"
  shows "snd (close_days T w env' now st') = st'"
proof -
  obtain ps where ps: "list_partners (te_partners_fault env) (ws_db st) = Inr ps"
    "close_partners T w env through ps st = (Done (Inr ()), st')"
    using assms(5,8) by (auto simp: close_days_def split: sum.splits)
  have eq: "ps = map row_to_partner (sort_key pr_consumer_id (partners (ws_db st)))"
    by (rule list_partners_Inr [OF ps(1)])
  have "p_consumer_id \<circ> row_to_partner = pr_consumer_id" by (simp add: fun_eq_iff row_to_partner_def)
  then have "distinct (map p_consumer_id ps)"
    using assms(2) by (simp add: eq billing_invariant_def distinct_map)
  from close_partners_settles [OF assms(1,4,6,7) this assms(3) ps(2)] assms(9)
  have s: "\<forall>p \<in> set ps. settled T w through p (ws_db st')" "partners (ws_db st') = partners (ws_db st)"
    by (auto simp: failures_def)
  show ?thesis
  proof (cases "list_partners (te_partners_fault env') (ws_db st')")
    case (Inr qs)
    then have "qs = ps" using list_partners_Inr [OF Inr] eq s(2) by simp
    then show ?thesis
      using close_partners_settled [OF s(1)] Inr assms(5) by (simp add: close_days_def)
  qed (use assms(5) in \<open>simp add: close_days_def\<close>)
qed

text \<open>A reconciliation partner created on day 0, closed shortly after that day.\<close>

definition newcomer_since :: string where
  "newcomer_since = format_ts gregorian 0"

definition newcomer_db :: db where
  "newcomer_db = empty_db\<lparr>partners := [sample_partner\<lparr>pr_billing_mode := ''reconciliation'',
     pr_created_at := newcomer_since\<rparr>]\<rparr>"

definition next_morning :: instant where
  "next_morning = NANOS_PER_DAY + 600000000000"

lemma gregorian_in_range: "four_digit_instant t \<Longrightarrow> tc_min gregorian \<le> t \<and> t \<le> tc_max gregorian"
  using time_laws.instant_in_range [OF greg.time_laws_axioms, of t t t] by blast

lemma next_morning_closable:
  "closable_through gregorian (wk_generator sample_worker) next_morning = Done (Some (BillingDay 0))"
  using gregorian_in_range [of "NANOS_PER_DAY + 300000000000"]
  by (simp add: closable_through_def sample_worker_def generator_new_def next_morning_def day_of_def
      tz_default_def utc_offset_def NANOS_PER_DAY_def day_previous_def cutoff_for_def
      end_exclusive_utc_def start_utc_def day_next_def duration_minutes_def in_i64_def
      instant_add_def instant_checked_add_def four_digit_instant_def four_digit_day_def)

lemma newcomer_closed:
  "\<exists>st'. close_days gregorian sample_worker (quiet_env 0) next_morning (start_state newcomer_db)
     = (Done (Inr ()), st') \<and> tk_failures (ws_tick st') = 0 \<and> tk_created (ws_tick st') = 1"
proof -
  define p where "p = row_to_partner (sample_partner\<lparr>pr_billing_mode := ''reconciliation'',
     pr_created_at := newcomer_since\<rparr>)"
  have p: "p_consumer_id p = ''acme''" "p_billing_mode p = Reconciliation"
    "p_created_at p = newcomer_since"
    by (simp_all add: p_def row_to_partner_def sample_partner_def mode_parse_def)
  have parse: "parse_ts gregorian newcomer_since = Some 0"
    unfolding newcomer_since_def
    by (rule time_laws.parse_ts_format_ts [OF greg.time_laws_axioms])
      (simp add: four_digit_instant_def four_digit_day_def NANOS_PER_DAY_def)
  have a: "anchor_for gregorian sample_worker (quiet_env 0) p (BillingDay 0) newcomer_db
      = Inr (BillingDay (-1))"
    by (simp add: anchor_for_def last_statement_date_for_def db_result_def quiet_env_def
        newcomer_db_def statements_where_def empty_db_def sql_max_def p parse
        day_of_def day_previous_def sample_worker_def generator_new_def tz_default_def
        utc_offset_def NANOS_PER_DAY_def)
  have w: "days_to_close gregorian (Some (day_display gregorian (BillingDay (-1)))) (BillingDay 0)
      = [BillingDay 0]"
    by (subst days_to_close_after [OF greg.time_laws_axioms])
      (simp_all add: four_digit_day_def)
  have l: "list_partners None newcomer_db = Inr [p]"
    by (simp add: list_partners_def db_result_def newcomer_db_def empty_db_def p_def)
  have cut: "\<exists>c. cutoff_for gregorian (wk_generator sample_worker) (BillingDay 0) = Done c"
    using next_morning_closable
    by (auto simp: closable_through_def run_bind_def next_morning_def day_of_def sample_worker_def
        generator_new_def tz_default_def utc_offset_def NANOS_PER_DAY_def day_previous_def Let_def
        split: run.splits)
  then obtain c where c: "cutoff_for gregorian (wk_generator sample_worker) (BillingDay 0) = Done c"
    by blast
  have g: "usage_groups u b newcomer_db = Inr []" for u b
    by (simp add: usage_groups_def window_rows_def newcomer_db_def empty_db_def usage_keys_def)
  obtain d where d: "day_draft gregorian sample_worker (quiet_env 0) p (BillingDay 0) newcomer_db
      = Done (Inr d)" and d': "sd_consumer_id d = ''acme''" "sd_lines d = []" "sd_due_at d = None"
      "sd_billing_mode d = Reconciliation" "sd_incomplete d = 0"
    by (simp add: day_draft_def c statement_for_day_def g Let_def due_at_for_def p)
  have "\<exists>st s'. write_statement gregorian 0 None None d newcomer_db = (Inr (Created st), s')"
    by (simp add: write_statement_def validate_draft_def draft_total_def d' write_statement_tx_def
        draft_row_def statement_check_def find_statement_def newcomer_db_def empty_db_def
        has_partner_def sample_partner_def pool_write_def get_statement_def db_result_def Let_def)
  then obtain st s' where "write_statement gregorian 0 None None d newcomer_db = (Inr (Created st), s')"
    by blast
  then show ?thesis
    by (simp add: close_days_def next_morning_closable start_state_def l a w close_day_def d
        Let_def p count_outcome_def tick_default_def)
qed

lemma newcomer_invariant: "billing_invariant newcomer_db"
  by (simp add: billing_invariant_def newcomer_db_def empty_db_def)

theorem second_closing_does_nothing_witness:
  "\<exists>st'. tk_created (ws_tick st') = 1
    \<and> snd (close_days gregorian sample_worker (quiet_env 7) next_morning st') = st'"
proof -
  obtain st' where st': "close_days gregorian sample_worker (quiet_env 0) next_morning
      (start_state newcomer_db) = (Done (Inr ()), st')"
      "tk_failures (ws_tick st') = 0" "tk_created (ws_tick st') = 1"
    using newcomer_closed by blast
  have "billing_invariant (ws_db (start_state newcomer_db))"
    "dated gregorian (ws_db (start_state newcomer_db))"
    using newcomer_invariant by (simp_all add: start_state_def dated_def newcomer_db_def empty_db_def)
  from second_closing_does_nothing [OF greg.time_laws_axioms this _ next_morning_closable _ _ st'(1)]
  have "snd (close_days gregorian sample_worker (quiet_env 7) next_morning st') = st'"
    by (simp add: undisturbed_def four_digit_day_def st'(2) start_state_def tick_default_def)
  with st'(3) show ?thesis by blast
qed

section \<open>Retries\<close>

lemma pow2_ge: "7 \<le> n \<Longrightarrow> (1920 :: int) \<le> 15 * 2 ^ n"
  using power_increasing [of 7 n "2 :: int"] by simp

lemma retry_minutes_eq:
  "retry_minutes a = (if a \<le> 0 then 15 else if a < 7 then 15 * 2 ^ nat a else 1440)"
proof -
  let ?n = "nat (max 0 (min 16 a))"
  have "saturating_mul_i64 15 e = 15 * e" if "0 \<le> e" "e \<le> 2 ^ 16" for e
    using that by (simp add: saturating_mul_i64_def)
  moreover have "(2 :: int) ^ ?n \<le> 2 ^ 16" by (rule power_increasing) auto
  ultimately have "saturating_mul_i64 15 (2 ^ ?n) = 15 * 2 ^ ?n" by simp
  then have m: "retry_minutes a = min (15 * 2 ^ ?n) 1440"
    by (simp only: retry_minutes_def EMAIL_RETRY_BASE_MINUTES_def EMAIL_RETRY_MAX_MINUTES_def) simp
  show ?thesis
  proof (cases "a < 7")
    case True
    then have "?n = nat a" by simp
    moreover have "(2 :: int) ^ nat a \<le> 2 ^ 6" using True by (intro power_increasing) auto
    ultimately show ?thesis using m True by auto
  next
    case False
    then have "(1920 :: int) \<le> 15 * 2 ^ ?n" by (intro pow2_ge) auto
    then show ?thesis using m False by simp
  qed
qed

text \<open>
  the wait before the next attempt starts at fifteen minutes, doubles with every attempt made
  and stays at one day from the seventh on; it is never negative or a panic, whatever the stored
  count.
\<close>

theorem retry_delay_doubles:
  "retry_delay a = Done ((if a \<le> 0 then 15 else if a < 7 then 15 * 2 ^ nat a else 1440) * 60000000000)
   \<and> 15 \<le> retry_minutes a \<and> retry_minutes a \<le> 1440"
proof -
  have "(2 :: int) ^ nat a \<le> 2 ^ 6" if "a < 7" using that by (intro power_increasing) auto
  then have b: "15 \<le> retry_minutes a" "retry_minutes a \<le> 1440"
    by (auto simp: retry_minutes_eq)
  then have "in_i64 (retry_minutes a * 60)" by (simp add: in_i64_def)
  then have "retry_delay a = Done (retry_minutes a * 60000000000)"
    by (simp add: retry_delay_def duration_minutes_def)
  then show ?thesis using b by (simp only: retry_minutes_eq simp_thms)
qed

section \<open>A validated configuration runs\<close>

lemma validate_billing_Inr:
  assumes "validate_billing b = Inr ()"
  shows "(\<exists>tz. from_offset_minutes (bc_timezone_offset_minutes b) = Inr tz)
    \<and> 0 \<le> bc_close_delay_minutes b
    \<and> (ec_enabled (bc_email b) \<longrightarrow>
         trim (ec_smtp_host (bc_email b)) \<noteq> [] \<and> trim (ec_from_address (bc_email b)) \<noteq> [])"
  using assms by (auto simp: validate_billing_def split: sum.splits if_splits)

text \<open>
  what the loader accepts, the process can run. For a validated configuration the scheduler is
  built, keeps the close delay as written, and sends email exactly when the configuration says so;
  the metering queue and batch are not empty; the upstream is an http or https URL with a host and
  without user information; and the upstream key and the manager password are not empty.
\<close>

theorem validated_config_runs:
  assumes "config_validate U c = Inr ()"
  shows "(\<exists>w. worker_new (cf_billing c) credentials instance_id = Inr w
       \<and> sends_email w = sends_statement_email c
       \<and> gen_close_delay (wk_generator w) = bc_close_delay_minutes (cf_billing c)
       \<and> 1 \<le> wk_interval_secs w)
    \<and> 1 \<le> dc_queue_size (cf_database c) \<and> 1 \<le> dc_batch_size (cf_database c)
    \<and> (\<exists>u. U (up_base_url (cf_upstream c)) = Some u
         \<and> uri_scheme u \<in> {Some ''http'', Some ''https''} \<and> uri_host u \<noteq> []
         \<and> (\<exists>authority. uri_authority u = Some authority \<and> CHR ''@'' \<notin> set authority))
    \<and> up_api_key (cf_upstream c) \<noteq> [] \<and> cf_manager c \<noteq> Some \<lparr>mg_password = []\<rparr>"
proof -
  have b: "validate_billing (cf_billing c) = Inr ()"
    and v: "validate_base_url U (up_base_url (cf_upstream c)) = Inr ()"
    and d: "up_api_key (cf_upstream c) \<noteq> []" "map_option mg_password (cf_manager c) \<noteq> Some []"
      "dc_queue_size (cf_database c) \<noteq> 0" "dc_batch_size (cf_database c) \<noteq> 0"
    using assms by (auto simp: config_validate_def res_bind_Inr_iff split: if_splits)
  from v have u: "\<exists>u. U (up_base_url (cf_upstream c)) = Some u
      \<and> uri_scheme u \<in> {Some ''http'', Some ''https''} \<and> uri_host u \<noteq> []
      \<and> (\<exists>authority. uri_authority u = Some authority \<and> CHR ''@'' \<notin> set authority)"
    by (auto simp: validate_base_url_def split: option.splits if_splits)
  from validate_billing_Inr [OF b] obtain tz where
      "from_offset_minutes (bc_timezone_offset_minutes (cf_billing c)) = Inr tz" by blast
  then have w: "\<exists>w. worker_new (cf_billing c) credentials instance_id = Inr w
       \<and> sends_email w = sends_statement_email c
       \<and> gen_close_delay (wk_generator w) = bc_close_delay_minutes (cf_billing c)
       \<and> 1 \<le> wk_interval_secs w"
    using validate_billing_Inr [OF b]
    by (simp add: worker_new_def sends_email_def sends_statement_email_def settings_complete_def
        settings_from_config_def generator_new_def MIN_INTERVAL_SECS_def Let_def)
  from w u d show ?thesis by (auto simp: Suc_le_eq)
qed

definition sample_uri :: "string \<Rightarrow> uri option" where
  "sample_uri s = Some \<lparr>uri_scheme = Some ''https'', uri_authority = Some ''up.test'',
     uri_host = ''up.test''\<rparr>"

theorem validated_config_runs_witness:
  "\<exists>w. worker_new (cf_billing sample_config) None ''a'' = Inr w \<and> \<not> sends_email w"
proof -
  have "config_validate sample_uri sample_config = Inr ()"
    by (simp add: config_validate_def validate_base_url_def sample_uri_def sample_config_def
        database_default_def validate_billing_def billing_default_def email_default_def
        from_offset_minutes_def MIN_OFFSET_MINUTES_def MAX_OFFSET_MINUTES_def)
  from validated_config_runs [OF this, of None "''a''"]
  show ?thesis
    by (auto simp: sends_statement_email_def sample_config_def billing_default_def email_default_def)
qed

end
