(* ===== verification/Worker_Emails.thy ===== *)
theory Worker_Emails
  imports Worker_Properties
begin

text \<open>
  The email phase over a whole run of the scheduler: a delivery that could be recorded is recorded,
  and a statement whose delivery is recorded is never sent again.
\<close>

section \<open>Deliveries and their records\<close>

definition delivery :: "worker_event \<Rightarrow> i64 option" where
  "delivery e = (case e of Mailed i (Inr _) _ \<Rightarrow> Some i | _ \<Rightarrow> None)"

definition delivered :: "worker_event list \<Rightarrow> i64 list" where
  "delivered es = List.map_filter delivery es"

lemma delivered_append [simp]: "delivered (es @ fs) = delivered es @ delivered fs"
  by (simp add: delivered_def map_filter_def)

lemma delivered_simps [simp]:
  "delivered [] = []" "delivered [Mailed i (Inr u) c] = [i]" "delivered [Mailed i (Inl e) c] = []"
  by (simp_all add: delivered_def delivery_def map_filter_simps)

lemma delivered_transition [simp]: "delivered (transition c before now) = []"
  by (auto simp: transition_def delivered_def delivery_def map_filter_simps split: option.split)

definition stored :: "i64 \<Rightarrow> db \<Rightarrow> bool" where
  "stored i s \<longleftrightarrow> (\<exists>r \<in> set (daily_statements s). st_id r = i)"

definition recorded_sent :: "i64 \<Rightarrow> db \<Rightarrow> bool" where
  "recorded_sent i s \<longleftrightarrow> (\<exists>r \<in> set (daily_statements s). st_id r = i \<and> st_email_sent_at r \<noteq> None)"

lemma evolves_stored: "db_evolves s t \<Longrightarrow> stored i s \<Longrightarrow> stored i t"
  unfolding db_evolves_def stored_def using row_evolves_id by metis

lemma evolves_recorded:
  assumes "db_evolves s t" "recorded_sent i s"
  shows "recorded_sent i t"
proof -
  obtain r where r: "r \<in> set (daily_statements s)" "st_id r = i" "st_email_sent_at r \<noteq> None"
    using assms(2) by (auto simp: recorded_sent_def)
  then obtain q where "q \<in> set (daily_statements t)" "row_evolves r q"
    using assms(1) unfolding db_evolves_def by blast
  then show ?thesis using r unfolding recorded_sent_def row_evolves_def same_terms_def by metis
qed

text \<open>Recording a delivery of a stored statement without a database fault succeeds.\<close>

lemma statement_check_sent:
  "statement_check r \<Longrightarrow> statement_check (attempt_row T now EmailSent r)"
  by (auto simp: attempt_row_def statement_check_def)

lemma record_sent:
  assumes "billing_invariant s" "stored i s"
  shows "recorded_sent i (snd (record_email_attempt T now None i EmailSent s))"
proof -
  let ?f = "attempt_row T (format_ts T now) EmailSent"
  let ?t = "s\<lparr>daily_statements := map (\<lambda>r. if st_id r = i then ?f r else r) (daily_statements s)\<rparr>"
  have "list_all statement_check (map ?f (filter (\<lambda>r. st_id r = i) (daily_statements s)))"
    using assms(1) statement_check_sent by (auto simp: billing_invariant_def list_all_iff)
  then have "snd (record_email_attempt T now None i EmailSent s) = ?t"
    by (simp add: record_email_attempt_def pool_write_def update_statements_def Let_def)
  moreover obtain r where "r \<in> set (daily_statements s)" "st_id r = i"
    using assms(2) by (auto simp: stored_def)
  then have "?f r \<in> set (daily_statements ?t)" by (auto intro: rev_image_eqI)
  moreover have "st_id (?f r) = i" "st_email_sent_at (?f r) \<noteq> None"
    using \<open>st_id r = i\<close> by (auto simp: attempt_row_def split: option.split)
  ultimately show ?thesis unfolding recorded_sent_def by auto
qed

section \<open>The invariant of the email phase\<close>

text \<open>No statement was delivered twice, and every delivery is recorded.\<close>

definition books_agree :: "worker_state \<Rightarrow> bool" where
  "books_agree st \<longleftrightarrow>
     billing_invariant (ws_db st) \<and> distinct (delivered (ws_events st))
     \<and> (\<forall>i \<in> set (delivered (ws_events st)). recorded_sent i (ws_db st))"

lemma books_agree_frame:
  assumes "books_agree st" "keeps (ws_db st) (ws_db st')"
    and "delivered (ws_events st') = delivered (ws_events st)"
  shows "books_agree st'"
  using assms evolves_recorded by (auto simp: books_agree_def keeps_def)

definition reliable :: "tick_env \<Rightarrow> bool" where
  "reliable env \<longleftrightarrow> others_keep env \<and> (\<forall>i. te_record_fault env i = None)"

lemma record_attempt_events [simp]:
  "ws_events (record_attempt T env i out st) = ws_events st"
  by (simp add: record_attempt_def)

lemma record_attempt_sent:
  assumes "reliable env" "billing_invariant (ws_db st)" "stored i (ws_db st)"
  shows "recorded_sent i (ws_db (record_attempt T env i EmailSent st))"
proof -
  let ?s = "te_during_send env i (ws_db st)"
  have "keeps (ws_db st) ?s" using assms(1) others_keepD(2) by (simp add: reliable_def)
  then have "billing_invariant ?s" "stored i ?s"
    using assms(2,3) evolves_stored by (auto simp: keeps_def)
  from record_sent [OF this] show ?thesis
    using assms(1) by (simp add: record_attempt_def reliable_def)
qed

text \<open>What sending one statement adds to the log, and that a delivery is recorded.\<close>

lemma send_one_log:
  assumes "reliable env" "billing_invariant (ws_db st)" "stored (st_id r) (ws_db st)"
    and "send_one T settings env now r st = (res, st')"
  shows "delivered (ws_events st') = delivered (ws_events st)
    \<or> (delivered (ws_events st') = delivered (ws_events st) @ [st_id r]
       \<and> recorded_sent (st_id r) (ws_db st'))"
  using assms(4) record_attempt_sent [OF assms(1), of "tally f (log_event e st)" for f e] assms(2,3)
  by (auto simp: send_one_def Let_def split: run.splits option.splits sum.splits prod.splits)

lemma send_one_agrees:
  assumes "reliable env" "books_agree st" "stored (st_id r) (ws_db st)"
    and "st_id r \<notin> set (delivered (ws_events st))"
    and "send_one T settings env now r st = (res, st')"
  shows "books_agree st' \<and> set (delivered (ws_events st'))
    \<subseteq> insert (st_id r) (set (delivered (ws_events st)))"
proof -
  have inv: "billing_invariant (ws_db st)" using assms(2) by (simp add: books_agree_def)
  have k: "keeps (ws_db st) (ws_db st')"
    using send_one_keeps [OF _ assms(5)] assms(1) by (simp add: reliable_def)
  from send_one_log [OF assms(1) inv assms(3,5)] show ?thesis
  proof
    assume "delivered (ws_events st') = delivered (ws_events st)"
    then show ?thesis using books_agree_frame [OF assms(2) k] by auto
  next
    assume "delivered (ws_events st') = delivered (ws_events st) @ [st_id r]
      \<and> recorded_sent (st_id r) (ws_db st')"
    then show ?thesis
      using assms(2,4) k inv evolves_recorded [of "ws_db st" "ws_db st'"]
      by (auto simp: books_agree_def keeps_def)
  qed
qed

lemma send_claimed_agrees:
  assumes "reliable env" "books_agree st" "distinct (map st_id rs)"
    and "\<forall>r \<in> set rs. stored (st_id r) (ws_db st) \<and> st_id r \<notin> set (delivered (ws_events st))"
    and "send_claimed T settings env now rs st = (res, st')"
  shows "books_agree st'"
  using assms(2-)
proof (induction rs arbitrary: st)
  case (Cons r rs)
  obtain r1 st1 where 1: "send_one T settings env now r st = (r1, st1)" by fastforce
  have a: "books_agree st1" "set (delivered (ws_events st1))
      \<subseteq> insert (st_id r) (set (delivered (ws_events st)))"
    using send_one_agrees [OF assms(1) Cons.prems(1) _ _ 1] Cons.prems(3) by auto
  have ev: "db_evolves (ws_db st) (ws_db st1)"
    using send_one_keeps [OF _ 1] assms(1) Cons.prems(1)
    by (simp add: reliable_def keeps_def books_agree_def)
  have "stored (st_id q) (ws_db st1) \<and> st_id q \<notin> set (delivered (ws_events st1))"
    if q: "q \<in> set rs" for q
  proof -
    have "stored (st_id q) (ws_db st)" "st_id q \<notin> set (delivered (ws_events st))"
      using Cons.prems(3) q by auto
    moreover have "st_id q \<noteq> st_id r" using Cons.prems(2) q by (auto intro: rev_image_eqI)
    ultimately show ?thesis using a(2) evolves_stored [OF ev] by blast
  qed
  then show ?case using Cons.IH [OF a(1)] Cons.prems(2,4) 1 a(1) by (cases r1) auto
qed simp

lemma claimed_fresh:
  assumes "billing_invariant s" "claim_emails T wflt now who limit ttl s = Done (Inr sts, s')"
  shows "distinct (map st_id sts)
    \<and> (\<forall>r \<in> set sts. stored (st_id r) s' \<and> \<not> recorded_sent (st_id r) s)"
proof -
  let ?ids = "set (claimed_ids (format_ts T now) limit s)"
  let ?mine = "filter (\<lambda>r. st_id r \<in> ?ids) (daily_statements s)"
  have d: "distinct (map st_id (daily_statements s))" using assms(1) by (simp add: billing_invariant_def)
  obtain u where "sts = map row_to_statement (map (lease_row who u) ?mine)"
    using claim_emails_Inr [OF assms(2)] by blast
  then have ids: "map st_id sts = map st_id ?mine" by (simp add: comp_def lease_row_def)
  then have "distinct (map st_id sts)" using d by (simp only: distinct_map_filter)
  moreover have "stored (st_id r) s' \<and> \<not> recorded_sent (st_id r) s" if r: "r \<in> set sts" for r
  proof -
    obtain q where q: "q \<in> set (daily_statements s)" "st_id q = st_id r" "claimable (format_ts T now) s q"
      using claimed_statement_eligible [OF assms(2) r] by blast
    have "db_evolves s s'" using claim_emails_keeps [OF assms(2)] assms(1) by (simp add: keeps_def)
    moreover have "stored (st_id r) s" using q(1,2) by (auto simp: stored_def)
    ultimately have "stored (st_id r) s'" by (rule evolves_stored)
    moreover have "st_email_sent_at q = None" using q(3) by (simp add: claimable_def)
    then have "\<not> recorded_sent (st_id r) s"
      using row_of_id [OF d] q(1,2) unfolding recorded_sent_def by metis
    ultimately show ?thesis by blast
  qed
  ultimately show ?thesis by blast
qed

lemma send_emails_agrees:
  assumes "reliable env" "books_agree st" "send_emails T w env now st = (res, st')"
  shows "books_agree st'"
proof (cases "wk_email w")
  case None
  then show ?thesis using assms(2,3) by (simp add: send_emails_def)
next
  case (Some settings)
  have inv: "billing_invariant (ws_db st)" using assms(2) by (simp add: books_agree_def)
  show ?thesis
  proof (cases "claim_emails T (te_claim_fault env) now (wk_instance_id w) EMAIL_BATCH
      EMAIL_CLAIM_TTL_MINUTES (ws_db st)")
    case Panic
    then show ?thesis using assms(2,3) Some by (simp add: send_emails_def)
  next
    case (Done c)
    obtain cl s' where c: "c = (cl, s')" by fastforce
    have k: "keeps (ws_db st) s'" using claim_emails_keeps Done c by blast
    have b: "books_agree (with_db s' st)" by (rule books_agree_frame [OF assms(2)]) (simp_all add: k)
    show ?thesis
    proof (cases cl)
      case (Inl e)
      then show ?thesis using assms(3) Some Done c b by (simp add: send_emails_def)
    next
      case (Inr claimed)
      have f: "distinct (map st_id claimed)"
        "\<forall>r \<in> set claimed. stored (st_id r) s' \<and> \<not> recorded_sent (st_id r) (ws_db st)"
        using claimed_fresh [OF inv] Done c Inr by blast+
      then have "\<forall>r \<in> set claimed. stored (st_id r) (ws_db (with_db s' st))
          \<and> st_id r \<notin> set (delivered (ws_events (with_db s' st)))"
        using assms(2) by (auto simp: books_agree_def)
      moreover have "send_claimed T settings env now claimed (with_db s' st) = (res, st')"
        using assms(3) Some Done c Inr by (simp add: send_emails_def)
      ultimately show ?thesis using send_claimed_agrees [OF assms(1) b f(1)] by blast
    qed
  qed
qed

lemma close_day_events: "close_day T w env p day st = (r, st') \<Longrightarrow> ws_events st' = ws_events st"
  by (auto simp: close_day_def Let_def split: run.splits sum.splits prod.splits)

lemma close_each_events: "close_each T w env p days st = (r, st') \<Longrightarrow> ws_events st' = ws_events st"
  by (induction days arbitrary: st) (auto split: run.splits prod.splits dest!: close_day_events)

lemma close_partners_events:
  "close_partners T w env through ps st = (r, st') \<Longrightarrow> ws_events st' = ws_events st"
  by (induction ps arbitrary: st)
    (auto split: run.splits prod.splits sum.splits dest!: close_each_events)

lemma close_days_events: "close_days T w env now st = (r, st') \<Longrightarrow> ws_events st' = ws_events st"
  by (auto simp: close_days_def dest!: close_partners_events split: run.splits option.splits sum.splits)

lemma observe_status_delivered [simp]:
  "delivered (ws_events (observe_status T env now st)) = delivered (ws_events st)"
proof -
  have "delivered (ws_events (fold (observe_partner T env now) ps st)) = delivered (ws_events st)" for ps
  proof (induction ps arbitrary: st)
    case (Cons p ps)
    have "delivered (ws_events (observe_partner T env now p st)) = delivered (ws_events st)"
      by (simp add: observe_partner_def Let_def split: sum.split)
    with Cons show ?case by simp
  qed simp
  then show ?thesis by (simp add: observe_status_def split: sum.split)
qed

lemma run_once_agrees:
  assumes "reliable env" "books_agree st" "run_once T w env now st = (r, st')"
  shows "books_agree st'"
proof -
  let ?st = "st\<lparr>ws_tick := tick_default\<rparr>"
  obtain r1 st1 where 1: "close_days T w env now ?st = (r1, st1)" by fastforce
  obtain r2 st2 where 2: "send_emails T w env now st1 = (r2, st2)" by fastforce
  have "keeps (ws_db st) (ws_db st1)"
    using close_days_keeps [OF _ 1] assms(1) by (simp add: reliable_def)
  then have a1: "books_agree st1"
    using books_agree_frame [OF assms(2)] close_days_events [OF 1] by simp
  have a2: "books_agree st2" by (rule send_emails_agrees [OF assms(1) a1 2])
  have "books_agree (observe_status T env now st2)"
    by (rule books_agree_frame [OF a2]) simp_all
  then show ?thesis
    using assms(3) 1 2 a1 a2 by (auto simp: run_once_def Let_def split: run.splits sum.splits)
qed



end
