(* ===== verification/Proxy_Client.thy ===== *)
theory Proxy_Client
  imports Config Scope Utf8
begin

text \<open>
  \<^verbatim>\<open>src/src/proxy/client.rs\<close>: which headers cross the proxy, and the request the upstream is sent.
  A \<open>HeaderMap\<close> is the list of its entries in iteration order, names in lower case as the \<^verbatim>\<open>http\<close>
  crate keeps them. The parser of the request URI is a parameter; sending the request is the
  environment of the handler.
\<close>

section \<open>Header maps\<close>

type_synonym headers = "(string \<times> string) list"

definition header_get :: "string \<Rightarrow> headers \<Rightarrow> string option" where
  "header_get name h = map_of h name"

definition header_remove :: "string \<Rightarrow> headers \<Rightarrow> headers" where
  "header_remove name h = filter (\<lambda>(n, v). n \<noteq> name) h"

definition contains_header :: "string \<Rightarrow> headers \<Rightarrow> bool" where
  "contains_header name h \<longleftrightarrow> name \<in> fst ` set h"

definition header_values :: "string \<Rightarrow> headers \<Rightarrow> string list" where
  "header_values name h = map snd (filter (\<lambda>(n, v). n = name) h)"

text \<open>\<open>HeaderValue::to_str\<close>: the text of a value of visible ASCII, spaces and tabs.\<close>

definition header_to_str :: "string \<Rightarrow> string option" where
  "header_to_str v =
     (if \<forall>c \<in> set v. let n = (of_char c :: nat) in (32 \<le> n \<and> n < 127) \<or> n = 9 then Some v else None)"

text \<open>What the crate accepts as a value: no control character but the tab.\<close>

definition valid_header_value :: "string \<Rightarrow> bool" where
  "valid_header_value v \<longleftrightarrow>
     (\<forall>c \<in> set v. let n = (of_char c :: nat) in (32 \<le> n \<and> n \<noteq> 127) \<or> n = 9)"

definition ascii_lower :: "char \<Rightarrow> char" where
  "ascii_lower c =
     (let n = (of_char c :: nat) in if 65 \<le> n \<and> n \<le> 90 then char_of (n + 32) else c)"

definition to_ascii_lowercase :: "string \<Rightarrow> string" where
  "to_ascii_lowercase = map ascii_lower"

section \<open>Hop-by-hop headers\<close>

definition HOP_BY_HOP :: "string list" where
  "HOP_BY_HOP =
     [''connection'', ''keep-alive'', ''proxy-authenticate'', ''proxy-authorization'', ''te'',
      ''trailer'', ''transfer-encoding'', ''upgrade'']"

definition is_hop_by_hop :: "string \<Rightarrow> bool" where
  "is_hop_by_hop name \<longleftrightarrow> to_ascii_lowercase name \<in> set HOP_BY_HOP"

definition connection_tokens :: "headers \<Rightarrow> string list" where
  "connection_tokens h =
     (case Option.bind (header_get ''connection'' h) header_to_str of
        None \<Rightarrow> []
      | Some value \<Rightarrow>
          filter (\<lambda>token. token \<noteq> [])
            (map (\<lambda>token. to_ascii_lowercase (trim token)) (split_on CHR '','' value)))"

definition strip_hop_by_hop :: "headers \<Rightarrow> headers" where
  "strip_hop_by_hop h =
     header_remove ''host'' (fold header_remove (connection_tokens h) (fold header_remove HOP_BY_HOP h))"

section \<open>The upstream request\<close>

record upstream_request =
  uq_method :: string
  uq_uri :: string
  uq_headers :: headers
  uq_body :: string

record proxy_client =
  pc_default_base_url :: string
  pc_default_api_key :: string

definition proxy_client_new :: "upstream_config \<Rightarrow> proxy_client" where
  "proxy_client_new c =
     \<lparr>pc_default_base_url = normalized_base_url c, pc_default_api_key = up_api_key c\<rparr>"

text \<open>
  What the \<^verbatim>\<open>http\<close> crate decides: \<open>Uri::try_from\<close>, with the error of a text that is no URI, and the
  text of the error for a value that cannot stand in a header.
\<close>

record http_crate =
  hc_uri :: "string \<Rightarrow> string + unit"
  hc_invalid_value :: string

definition upstream_uri :: "http_crate \<Rightarrow> string \<Rightarrow> string \<Rightarrow> string + string" where
  "upstream_uri H base_url path =
     (let uri = trim_end_matches CHR ''/'' base_url @ path
      in case hc_uri H uri of Inl e \<Rightarrow> Inl e | Inr _ \<Rightarrow> Inr uri)"

definition forwarded_headers :: "headers \<Rightarrow> headers" where
  "forwarded_headers h =
     header_remove ''accept-encoding'' (header_remove ''authorization''
       (header_remove ''content-length'' (strip_hop_by_hop h)))"

definition request_headers :: "string \<Rightarrow> headers \<Rightarrow> headers" where
  "request_headers api_key h =
     (let h = forwarded_headers h
      in h @ [(''authorization'', ''Bearer '' @ api_key)]
         @ (if contains_header ''content-type'' h then [] else [(''content-type'', ''application/json'')])
         @ (if contains_header ''accept'' h then [] else [(''accept'', ''application/json'')]))"

text \<open>
  The request, or the error that is met before anything is sent: a text that is no URI, or an
  upstream key that cannot stand in a header.
\<close>

definition build_request ::
  "http_crate \<Rightarrow> proxy_client \<Rightarrow> upstream_config option \<Rightarrow> string \<Rightarrow> string \<Rightarrow> string
    \<Rightarrow> headers \<Rightarrow> string + upstream_request" where
  "build_request H client upstream verb path body h =
     (let (base_url, api_key) =
        (case upstream of
           Some cfg \<Rightarrow> (normalized_base_url cfg, up_api_key cfg)
         | None \<Rightarrow> (pc_default_base_url client, pc_default_api_key client))
      in res_bind (upstream_uri H base_url path) (\<lambda>uri.
           if valid_header_value (''Bearer '' @ api_key)
           then Inr \<lparr>uq_method = verb, uq_uri = uri, uq_headers = request_headers api_key h,
                     uq_body = body\<rparr>
           else Inl (hc_invalid_value H)))"

section \<open>The response\<close>

definition forward_response_headers :: "headers \<Rightarrow> headers \<Rightarrow> headers" where
  "forward_response_headers builder h =
     builder @ filter (\<lambda>(n, v). \<not> is_hop_by_hop n \<and> n \<noteq> ''content-length'' \<and> n \<noteq> ''set-cookie'') h"

section \<open>Facts\<close>

lemma header_remove_set [simp]: "set (header_remove n h) = {e \<in> set h. fst e \<noteq> n}"
  by (auto simp: header_remove_def)

lemma fold_header_remove:
  "fold header_remove names h = filter (\<lambda>e. fst e \<notin> set names) h"
  by (induction names arbitrary: h) (auto simp: header_remove_def case_prod_beta intro: filter_cong)

lemma header_remove_filter: "header_remove n h = filter (\<lambda>e. fst e \<noteq> n) h"
  by (auto simp: header_remove_def intro: filter_cong)

lemma forwarded_headers_eq:
  "forwarded_headers h =
     filter (\<lambda>e. fst e \<notin> set HOP_BY_HOP \<and> fst e \<notin> set (connection_tokens h)
       \<and> fst e \<notin> {''host'', ''content-length'', ''authorization'', ''accept-encoding''}) h"
  by (auto simp: forwarded_headers_def strip_hop_by_hop_def fold_header_remove header_remove_filter
      intro: filter_cong)

lemma header_values_append: "header_values n (a @ b) = header_values n a @ header_values n b"
  by (simp add: header_values_def)

lemma header_values_filter:
  "header_values n (filter P h) = map snd (filter (\<lambda>e. P e \<and> fst e = n) h)"
  by (induction h) (auto simp: header_values_def)

lemma header_get_values: "header_get n h = (case header_values n h of [] \<Rightarrow> None | v # _ \<Rightarrow> Some v)"
  by (induction h) (auto simp: header_get_def header_values_def)

end
