(* ===== verification/Usage.thy ===== *)
theory Usage
  imports Ledger_Types
begin

text \<open>
  \<^verbatim>\<open>src/src/proxy/usage.rs\<close>: the token counts a provider reports in a response body or in an
  event of a stream, and the model a request names. The JSON text is read by \<^verbatim>\<open>serde_json\<close>, which
  is a parameter; the value it returns is the datatype below, with the accessors of
  \<^verbatim>\<open>serde_json::Value\<close> the code calls.
\<close>

section \<open>JSON values\<close>

text \<open>
  A number is a non-negative integer, a negative integer or a float; only the first is ever read,
  so a float is carried as its text. The keys of an object are distinct (the parser keeps the last
  of two equal ones).
\<close>

datatype json =
    JNull
  | JBool bool
  | JPosInt u64
  | JNegInt i64
  | JFloat string
  | JString string
  | JArray "json list"
  | JObject "(string \<times> json) list"

record json_lib =
  jl_parse :: "string \<Rightarrow> json option"
  jl_render :: "json \<Rightarrow> string option"

fun as_object :: "json \<Rightarrow> (string \<times> json) list option" where
  "as_object (JObject kvs) = Some kvs"
| "as_object _ = None"

fun as_array :: "json \<Rightarrow> json list option" where
  "as_array (JArray xs) = Some xs"
| "as_array _ = None"

fun as_u64 :: "json \<Rightarrow> u64 option" where
  "as_u64 (JPosInt n) = Some n"
| "as_u64 _ = None"

fun as_str :: "json \<Rightarrow> string option" where
  "as_str (JString s) = Some s"
| "as_str _ = None"

fun as_bool :: "json \<Rightarrow> bool option" where
  "as_bool (JBool b) = Some b"
| "as_bool _ = None"

text \<open>\<open>Value::get\<close> with a key: nothing unless the value is an object that has it.\<close>

definition json_get :: "string \<Rightarrow> json \<Rightarrow> json option" where
  "json_get k v = Option.bind (as_object v) (\<lambda>kvs. map_of kvs k)"

definition or_else :: "'a option \<Rightarrow> 'a option \<Rightarrow> 'a option" where
  "or_else a b = (case a of Some x \<Rightarrow> Some x | None \<Rightarrow> b)"

section \<open>Whole bodies\<close>

definition extract_chat_completions_usage :: "json \<Rightarrow> token_usage" where
  "extract_chat_completions_usage body =
     (case json_get ''usage'' body of
        None \<Rightarrow> usage_default
      | Some u \<Rightarrow>
          usage_new (Option.bind (json_get ''prompt_tokens'' u) as_u64)
            (Option.bind (json_get ''completion_tokens'' u) as_u64)
            (Option.bind (Option.bind (json_get ''prompt_tokens_details'' u)
               (json_get ''cached_tokens'')) as_u64))"

definition extract_responses_usage :: "json \<Rightarrow> token_usage" where
  "extract_responses_usage body =
     (case json_get ''usage'' body of
        None \<Rightarrow> usage_default
      | Some u \<Rightarrow>
          usage_new
            (Option.bind (or_else (json_get ''input_tokens'' u) (json_get ''prompt_tokens'' u)) as_u64)
            (Option.bind (or_else (json_get ''output_tokens'' u) (json_get ''completion_tokens'' u))
               as_u64)
            (Option.bind (Option.bind (json_get ''input_tokens_details'' u)
               (json_get ''cached_tokens'')) as_u64))"

section \<open>Events of a stream\<close>

text \<open>The places that may report usage, in the order they are tried; only objects count.\<close>

definition stream_usage_objects :: "json \<Rightarrow> (string \<times> json) list list" where
  "stream_usage_objects event =
     List.map_filter as_object
       (List.map_filter id
          [json_get ''usage'' event, Option.bind (json_get ''response'' event) (json_get ''usage'')])"

definition observed_usage :: "u64 option \<Rightarrow> u64 option \<Rightarrow> u64 option \<Rightarrow> token_usage option" where
  "observed_usage i out c =
     (if i \<noteq> None \<or> out \<noteq> None \<or> c \<noteq> None then Some (usage_new i out c) else None)"

definition extract_stream_chat_completions_usage :: "json \<Rightarrow> token_usage option" where
  "extract_stream_chat_completions_usage chunk =
     find_map (\<lambda>u. observed_usage
         (Option.bind (map_of u ''prompt_tokens'') as_u64)
         (Option.bind (map_of u ''completion_tokens'') as_u64)
         (Option.bind (Option.bind (map_of u ''prompt_tokens_details'') (json_get ''cached_tokens''))
            as_u64))
       (stream_usage_objects chunk)"

definition extract_stream_responses_usage :: "json \<Rightarrow> token_usage option" where
  "extract_stream_responses_usage event =
     find_map (\<lambda>u. observed_usage
         (Option.bind (or_else (map_of u ''input_tokens'') (map_of u ''prompt_tokens'')) as_u64)
         (Option.bind (or_else (map_of u ''output_tokens'') (map_of u ''completion_tokens'')) as_u64)
         (Option.bind (Option.bind (map_of u ''input_tokens_details'') (json_get ''cached_tokens''))
            as_u64))
       (stream_usage_objects event)"

section \<open>Requests and combinations\<close>

definition extract_model_from_request :: "json \<Rightarrow> string" where
  "extract_model_from_request body =
     (case Option.bind (json_get ''model'' body) as_str of Some m \<Rightarrow> m | None \<Rightarrow> ''unknown'')"

definition extract_responses_model :: "json \<Rightarrow> string" where
  "extract_responses_model body =
     (case Option.bind (json_get ''model'' body) as_str of Some m \<Rightarrow> m | None \<Rightarrow> ''unknown'')"

definition merge_usage :: "token_usage \<Rightarrow> token_usage \<Rightarrow> token_usage" where
  "merge_usage base incoming =
     usage_new (or_else (tu_input incoming) (tu_input base))
       (or_else (tu_output incoming) (tu_output base))
       (or_else (tu_cached incoming) (tu_cached base))"

definition usage_status_never_fabricate :: "token_usage \<Rightarrow> usage_status" where
  "usage_status_never_fabricate u = usage_status_of u"

section \<open>Facts\<close>

text \<open>A number that stands somewhere in a value: what every extracted count is.\<close>

inductive json_mentions :: "json \<Rightarrow> u64 \<Rightarrow> bool" where
  here: "json_mentions (JPosInt n) n"
| in_array: "v \<in> set xs \<Longrightarrow> json_mentions v n \<Longrightarrow> json_mentions (JArray xs) n"
| in_object: "(k, v) \<in> set kvs \<Longrightarrow> json_mentions v n \<Longrightarrow> json_mentions (JObject kvs) n"

text \<open>The counts of a usage all stand in the value.\<close>

definition counts_from :: "json \<Rightarrow> token_usage \<Rightarrow> bool" where
  "counts_from v u \<longleftrightarrow>
     (\<forall>n. tu_input u = Some n \<or> tu_output u = Some n \<or> tu_cached u = Some n \<longrightarrow> json_mentions v n)"

lemma as_u64_mentions: "as_u64 v = Some n \<Longrightarrow> json_mentions v n"
  by (cases v) (auto intro: here)

lemma as_object_SomeD: "as_object v = Some kvs \<Longrightarrow> v = JObject kvs"
  by (cases v) auto

lemma json_get_mentions: "json_get k v = Some w \<Longrightarrow> json_mentions w n \<Longrightarrow> json_mentions v n"
  by (cases v) (auto simp: json_get_def intro: in_object dest: map_of_SomeD)

lemma or_else_SomeD: "or_else a b = Some x \<Longrightarrow> a = Some x \<or> b = Some x"
  by (simp add: or_else_def split: option.splits)

lemma observed_usage_SomeD:
  "observed_usage i out c = Some u \<Longrightarrow>
     u = usage_new i out c \<and> (i \<noteq> None \<or> out \<noteq> None \<or> c \<noteq> None)"
  by (simp add: observed_usage_def split: if_splits)

lemma whole_body_mentions:
  "counts_from body (extract_chat_completions_usage body)"
  "counts_from body (extract_responses_usage body)"
  unfolding counts_from_def extract_chat_completions_usage_def extract_responses_usage_def
  by (auto simp: usage_default_def usage_new_def bind_eq_Some_conv split: option.splits
      dest!: or_else_SomeD) (blast intro: as_u64_mentions json_get_mentions)+

lemma usage_objects_mention:
  assumes "kvs \<in> set (stream_usage_objects event)" "json_mentions (JObject kvs) n"
  shows "json_mentions event n"
proof -
  have "json_get ''usage'' event = Some (JObject kvs)
      \<or> Option.bind (json_get ''response'' event) (json_get ''usage'') = Some (JObject kvs)"
    using assms(1) as_object_SomeD
    by (auto simp: stream_usage_objects_def List.map_filter_simps split: option.splits)
  then show ?thesis
    using assms(2) by (auto simp: bind_eq_Some_conv intro: json_get_mentions)
qed

lemma object_mentions:
  "map_of u k = Some v \<Longrightarrow> json_mentions v n \<Longrightarrow> json_mentions (JObject u) n"
  by (rule in_object [OF map_of_SomeD])

lemma stream_mentions:
  "extract_stream_chat_completions_usage v = Some u \<Longrightarrow> counts_from v u"
  "extract_stream_responses_usage v = Some u \<Longrightarrow> counts_from v u"
  unfolding extract_stream_chat_completions_usage_def extract_stream_responses_usage_def counts_from_def
  by (auto dest!: find_map_SomeD observed_usage_SomeD or_else_SomeD
      simp: bind_eq_Some_conv usage_new_def)
    (blast intro: usage_objects_mention object_mentions as_u64_mentions json_get_mentions)+

lemma stream_observed:
  "extract_stream_chat_completions_usage v = Some u \<Longrightarrow>
     tu_input u \<noteq> None \<or> tu_output u \<noteq> None \<or> tu_cached u \<noteq> None"
  "extract_stream_responses_usage v = Some u \<Longrightarrow>
     tu_input u \<noteq> None \<or> tu_output u \<noteq> None \<or> tu_cached u \<noteq> None"
  unfolding extract_stream_chat_completions_usage_def extract_stream_responses_usage_def
  by (auto dest!: find_map_SomeD observed_usage_SomeD simp: usage_new_def)

end
