(* ===== verification/Proxy_Responses.thy ===== *)
theory Proxy_Responses
  imports Proxy_Client Usage Status
begin

text \<open>
  \<^verbatim>\<open>src/src/proxy/handler.rs\<close>, the parts that hold no state: reading a buffered body under a cap,
  the text that goes into the ledger, the models filter and the responses the proxy makes itself.
\<close>

section \<open>Text for the ledger\<close>

definition MAX_BUFFERED_RESPONSE :: nat where
  "MAX_BUFFERED_RESPONSE = 32 * 1024 * 1024"

definition MAX_STORED_ERROR_BODY :: nat where
  "MAX_STORED_ERROR_BODY = 8 * 1024"

definition MAX_REASON_CHARS :: nat where
  "MAX_REASON_CHARS = 512"

text \<open>An ellipsis (three bytes) and a text.\<close>

definition ERROR_BODY_TRUNCATION_MARKER :: string where
  "ERROR_BODY_TRUNCATION_MARKER = map char_of [0xE2, 0x80, 0xA6 :: nat] @ '' (truncated)''"

fun floor_boundary :: "string \<Rightarrow> nat \<Rightarrow> nat" where
  "floor_boundary s 0 = 0"
| "floor_boundary s (Suc n) = (if is_char_boundary s (Suc n) then Suc n else floor_boundary s n)"

definition truncate_utf8 :: "string \<Rightarrow> nat \<Rightarrow> string" where
  "truncate_utf8 value max_bytes =
     (if length value \<le> max_bytes then value else take (floor_boundary value max_bytes) value)"

definition bounded_error_body :: "string \<Rightarrow> string" where
  "bounded_error_body body =
     (let decoded = utf8_lossy (take (min (length body) MAX_STORED_ERROR_BODY) body);
          truncated = MAX_STORED_ERROR_BODY < length body \<or> MAX_STORED_ERROR_BODY < length decoded;
          limit = (if truncated then MAX_STORED_ERROR_BODY - length ERROR_BODY_TRUNCATION_MARKER
                   else MAX_STORED_ERROR_BODY);
          content = truncate_utf8 decoded limit
      in if truncated then content @ ERROR_BODY_TRUNCATION_MARKER else content)"

text \<open>\<open>char::is_control\<close>: U+0000 to U+001F and U+007F to U+009F.\<close>

definition is_control :: "string \<Rightarrow> bool" where
  "is_control ch \<longleftrightarrow>
     (case map of_char ch of
        [n] \<Rightarrow> (n :: nat) < 32 \<or> n = 127
      | [a, b] \<Rightarrow> a = 0xC2 \<and> 0x80 \<le> b \<and> b < 0xA0
      | _ \<Rightarrow> False)"

fun sanitize_chars :: "nat \<Rightarrow> string list \<Rightarrow> string" where
  "sanitize_chars i [] = []"
| "sanitize_chars i (ch # rest) =
     (if MAX_REASON_CHARS \<le> i then ERROR_BODY_TRUNCATION_MARKER
      else (if is_control ch
            then (if ch = [lf] \<or> ch = [cr] \<or> ch = [CHR 0x09] then '' '' else [])
            else ch) @ sanitize_chars (i + 1) rest)"

definition sanitize_reason :: "string \<Rightarrow> string list \<Rightarrow> string" where
  "sanitize_reason reason credentials =
     sanitize_chars 0 (utf8_chars (redact_credentials reason credentials))"

section \<open>Reading a buffered body\<close>

text \<open>
  What the next read of a body brings: bytes or trailers, with the milliseconds since the request
  arrived, or a failure; a body with nothing left has ended. \<open>Stalled\<close> is a read that waits longer
  than the idle timeout, and where no timeout is applied, for ever.
\<close>

datatype frame = Data u64 string | Trailers | Broken string | Stalled

datatype body_fate = Complete | CapExceeded | BrokenOff string

text \<open>\<^const>\<open>None\<close> is a body that never ends.\<close>

fun collect_from :: "string \<Rightarrow> frame list \<Rightarrow> (string \<times> body_fate) option" where
  "collect_from acc [] = Some (acc, Complete)"
| "collect_from acc (Data ms data # frames) =
     (if MAX_BUFFERED_RESPONSE < length acc + length data
      then Some (acc @ take (MAX_BUFFERED_RESPONSE - length acc) data, CapExceeded)
      else collect_from (acc @ data) frames)"
| "collect_from acc (Trailers # frames) = collect_from acc frames"
| "collect_from acc (Broken e # frames) = Some (acc, BrokenOff e)"
| "collect_from acc (Stalled # frames) = None"

definition collect_capped :: "frame list \<Rightarrow> (string \<times> body_fate) option" where
  "collect_capped frames = collect_from [] frames"

definition extract_usage :: "json_lib \<Rightarrow> string \<Rightarrow> endpoint \<Rightarrow> token_usage" where
  "extract_usage J body ep =
     (case jl_parse J body of
        None \<Rightarrow> usage_default
      | Some v \<Rightarrow>
          (case ep of
             ChatCompletions \<Rightarrow> extract_chat_completions_usage v
           | Responses \<Rightarrow> extract_responses_usage v
           | Models \<Rightarrow> usage_default))"

definition upstream_error_message :: "json_lib \<Rightarrow> string \<Rightarrow> string option" where
  "upstream_error_message J body =
     Option.bind (jl_parse J body) (\<lambda>v.
       Option.bind (Option.bind (json_get ''error'' v) (json_get ''message'')) as_str)"

section \<open>Responses\<close>

record response =
  rs_status :: nat
  rs_headers :: headers
  rs_body :: string

text \<open>\<open>Response::new\<close> with an empty body.\<close>

definition response_empty :: response where
  "response_empty = \<lparr>rs_status = 200, rs_headers = [], rs_body = []\<rparr>"

definition render_error :: "json_lib \<Rightarrow> json \<Rightarrow> string" where
  "render_error J v = (case jl_render J v of Some s \<Rightarrow> s | None \<Rightarrow> ''{\"error\":{}}'')"

definition error_response :: "json_lib \<Rightarrow> string \<Rightarrow> nat \<Rightarrow> string \<Rightarrow> string \<Rightarrow> response" where
  "error_response J request_id status msg kind =
     (if valid_header_value request_id
      then \<lparr>rs_status = status,
            rs_headers = [(''content-type'', ''application/json''), (''x-request-id'', request_id)],
            rs_body = render_error J (JObject [(''error'',
              JObject [(''message'', JString msg), (''type'', JString kind)])])\<rparr>
      else response_empty)"

definition billing_suspended_error :: "json_lib \<Rightarrow> string \<Rightarrow> string \<Rightarrow> response" where
  "billing_suspended_error J request_id msg =
     (if valid_header_value request_id
      then \<lparr>rs_status = 403,
            rs_headers = [(''content-type'', ''application/json''), (''x-request-id'', request_id),
                          (''cache-control'', ''no-store'')],
            rs_body = render_error J (JObject [(''error'',
              JObject [(''message'', JString msg), (''type'', JString ''permission_error''),
                       (''code'', JString ''billing_suspended'')])])\<rparr>
      else response_empty)"

definition model_not_allowed_error :: "json_lib \<Rightarrow> string \<Rightarrow> string \<Rightarrow> response" where
  "model_not_allowed_error J request_id model =
     (if valid_header_value request_id
      then \<lparr>rs_status = 404,
            rs_headers = [(''content-type'', ''application/json''), (''x-request-id'', request_id)],
            rs_body = render_error J (JObject [(''error'',
              JObject [(''message'', JString (''The model '' @ [CHR 0x27] @ model @ [CHR 0x27]
                         @ '' does not exist'')),
                       (''type'', JString ''invalid_request_error''),
                       (''code'', JString ''model_not_found'')])])\<rparr>
      else response_empty)"

text \<open>The upstream's response under the identity of the request, or \<open>fallback\<close>.\<close>

definition relay_response :: "string \<Rightarrow> nat \<Rightarrow> headers \<Rightarrow> string \<Rightarrow> response \<Rightarrow> response" where
  "relay_response request_id status h body fallback =
     (if valid_header_value request_id
      then \<lparr>rs_status = status,
            rs_headers = forward_response_headers [] h @ [(''x-request-id'', request_id)],
            rs_body = body\<rparr>
      else fallback)"

definition forward_upstream_error ::
  "json_lib \<Rightarrow> nat \<Rightarrow> headers \<Rightarrow> string \<Rightarrow> string \<Rightarrow> response" where
  "forward_upstream_error J status h body request_id =
     (let generic = error_response J request_id status ''Upstream error'' ''upstream_error''
      in if body = [] then generic else relay_response request_id status h body generic)"

section \<open>Discovery\<close>

definition model_entry_allowed :: "string list \<Rightarrow> json \<Rightarrow> bool" where
  "model_entry_allowed allowed entry =
     (case Option.bind (json_get ''id'' entry) as_str of
        Some model \<Rightarrow> model \<in> set allowed
      | None \<Rightarrow> False)"

text \<open>\<open>get_mut\<close> of a key and an update of the array it holds.\<close>

definition set_array :: "string \<Rightarrow> json list \<Rightarrow> json \<Rightarrow> json" where
  "set_array key xs v =
     (case v of
        JObject kvs \<Rightarrow> JObject (map (\<lambda>(k, w). if k = key then (k, JArray xs) else (k, w)) kvs)
      | _ \<Rightarrow> v)"

definition filter_models_response :: "json_lib \<Rightarrow> string \<Rightarrow> string list \<Rightarrow> string" where
  "filter_models_response J body allowed =
     (case jl_parse J body of
        None \<Rightarrow> body
      | Some v \<Rightarrow>
          (case Option.bind (json_get ''data'' v) as_array of
             None \<Rightarrow> body
           | Some entries \<Rightarrow>
               (case jl_render J (set_array ''data'' (filter (model_entry_allowed allowed) entries) v) of
                  Some s \<Rightarrow> s
                | None \<Rightarrow> body)))"

end
