(* ===== verification/Sse_Scan.thy ===== *)
theory Sse_Scan
  imports Usage Utf8
begin

text \<open>
  \<^verbatim>\<open>src/src/proxy/sse_scan.rs\<close>: the scanner that reads the token counts out of a stream while the
  stream is forwarded, chunk by chunk, holding at most one event; and a reference reading of a
  whole stream (its lines, then its events), against which the scanner is proved. The JSON parser
  is a parameter.
\<close>

section \<open>The scanner\<close>

definition MAX_EVENT_BYTES :: nat where
  "MAX_EVENT_BYTES = 256 * 1024"

record scan_outcome =
  so_usage :: "token_usage option"
  so_json_events :: nat
  so_truncated :: bool
  so_unparsable_events :: nat

definition outcome_default :: scan_outcome where
  "outcome_default =
     \<lparr>so_usage = None, so_json_events = 0, so_truncated = False, so_unparsable_events = 0\<rparr>"

record scanner =
  sc_endpoint :: endpoint
  sc_line_buf :: string
  sc_pending_data :: string
  sc_event_bytes :: nat
  sc_after_cr :: bool
  sc_outcome :: scan_outcome

definition scanner_new :: "endpoint \<Rightarrow> scanner" where
  "scanner_new ep =
     \<lparr>sc_endpoint = ep, sc_line_buf = [], sc_pending_data = [], sc_event_bytes = 0,
      sc_after_cr = False, sc_outcome = outcome_default\<rparr>"

definition scan_truncate :: "scanner \<Rightarrow> scanner" where
  "scan_truncate s =
     s\<lparr>sc_outcome := (sc_outcome s)\<lparr>so_usage := None, so_truncated := True\<rparr>,
       sc_line_buf := [], sc_pending_data := [], sc_after_cr := False, sc_event_bytes := 0\<rparr>"

text \<open>The addition saturates at the largest \<open>usize\<close>.\<close>

definition scan_reserve :: "nat \<Rightarrow> scanner \<Rightarrow> bool \<times> scanner" where
  "scan_reserve n s =
     (let s = s\<lparr>sc_event_bytes := min (2 ^ 64 - 1) (sc_event_bytes s + n)\<rparr>
      in if MAX_EVENT_BYTES < sc_event_bytes s then (False, scan_truncate s) else (True, s))"

fun event_usage :: "endpoint \<Rightarrow> json \<Rightarrow> token_usage option" where
  "event_usage ChatCompletions v = extract_stream_chat_completions_usage v"
| "event_usage Responses v = extract_stream_responses_usage v"
| "event_usage Models v = None"

text \<open>The counters are \<open>usize\<close> and wrap at 64 bits in a release build.\<close>

definition bump :: "nat \<Rightarrow> nat" where
  "bump n = (n + 1) mod 2 ^ 64"

text \<open>What the payload of one event does to the outcome.\<close>

definition observe_data :: "json_lib \<Rightarrow> endpoint \<Rightarrow> string \<Rightarrow> scan_outcome \<Rightarrow> scan_outcome" where
  "observe_data J ep data out =
     (if data = [] \<or> trim data = ''[DONE]'' then out
      else case jl_parse J data of
        None \<Rightarrow> out\<lparr>so_unparsable_events := bump (so_unparsable_events out)\<rparr>
      | Some v \<Rightarrow>
          (let out = out\<lparr>so_json_events := bump (so_json_events out)\<rparr>
           in case event_usage ep v of None \<Rightarrow> out | Some u \<Rightarrow> out\<lparr>so_usage := Some u\<rparr>))"

definition flush_event :: "json_lib \<Rightarrow> scanner \<Rightarrow> scanner" where
  "flush_event J s =
     s\<lparr>sc_pending_data := [],
       sc_outcome := observe_data J (sc_endpoint s) (sc_pending_data s) (sc_outcome s)\<rparr>"

definition strip_prefix :: "string \<Rightarrow> string \<Rightarrow> string option" where
  "strip_prefix p s = (if take (length p) s = p then Some (drop (length p) s) else None)"

text \<open>The payload of a line, when the line carries one.\<close>

definition data_of_line :: "string \<Rightarrow> string option" where
  "data_of_line line =
     map_option (\<lambda>rest. utf8_lossy (case strip_prefix '' '' rest of Some r \<Rightarrow> r | None \<Rightarrow> rest))
       (strip_prefix ''data:'' line)"

definition push_line :: "string \<Rightarrow> string \<Rightarrow> string" where
  "push_line pending line =
     (case data_of_line line of
        None \<Rightarrow> pending
      | Some payload \<Rightarrow> pending @ (if pending = [] then [] else [lf]) @ payload)"

definition absorb_line :: "json_lib \<Rightarrow> string \<Rightarrow> scanner \<Rightarrow> scanner" where
  "absorb_line J line s =
     (if line = [] then (flush_event J s)\<lparr>sc_event_bytes := 0\<rparr>
      else s\<lparr>sc_pending_data := push_line (sc_pending_data s) line\<rparr>)"

definition ends_line :: "char \<Rightarrow> bool" where
  "ends_line c \<longleftrightarrow> c = lf \<or> c = cr"

lemma dropWhile_length: "dropWhile P xs = y # ys \<Longrightarrow> length ys < length xs"
  using length_dropWhile_le [of P xs] by simp

function feed_loop :: "json_lib \<Rightarrow> string \<Rightarrow> scanner \<Rightarrow> scanner" where
  "feed_loop J rest s =
     (if rest = [] then s
      else if sc_after_cr s \<and> hd rest = lf then feed_loop J (tl rest) (s\<lparr>sc_after_cr := False\<rparr>)
      else
        let s = s\<lparr>sc_after_cr := False\<rparr>; line = takeWhile (\<lambda>c. \<not> ends_line c) rest
        in case dropWhile (\<lambda>c. \<not> ends_line c) rest of
             [] \<Rightarrow>
               (case scan_reserve (length rest) s of
                  (False, s) \<Rightarrow> s
                | (True, s) \<Rightarrow> s\<lparr>sc_line_buf := sc_line_buf s @ rest\<rparr>)
           | terminator # rest' \<Rightarrow>
               (case scan_reserve (length line + 1) s of
                  (False, s) \<Rightarrow> s
                | (True, s) \<Rightarrow>
                    feed_loop J rest'
                      (absorb_line J (sc_line_buf s @ line)
                        (s\<lparr>sc_after_cr := terminator = cr, sc_line_buf := []\<rparr>))))"
  by pat_completeness auto
termination
  by (relation "measure (\<lambda>(J, rest, s). length rest)") (auto dest: dropWhile_length)

declare feed_loop.simps [simp del]

definition feed :: "json_lib \<Rightarrow> string \<Rightarrow> scanner \<Rightarrow> scanner" where
  "feed J chunk s = (if so_truncated (sc_outcome s) then s else feed_loop J chunk s)"

definition finish_leftover :: "json_lib \<Rightarrow> scanner \<Rightarrow> scanner" where
  "finish_leftover J s =
     (if so_truncated (sc_outcome s) then s
      else flush_event J
             (if sc_line_buf s \<noteq> []
              then absorb_line J (sc_line_buf s) (s\<lparr>sc_line_buf := []\<rparr>) else s))"

definition scan_finish :: "json_lib \<Rightarrow> scanner \<Rightarrow> scan_outcome \<times> scanner" where
  "scan_finish J s =
     (let s = finish_leftover J s;
          out = (if so_truncated (sc_outcome s) then (sc_outcome s)\<lparr>so_usage := None\<rparr>
                 else sc_outcome s);
          s = s\<lparr>sc_outcome := out, sc_line_buf := [], sc_pending_data := [], sc_after_cr := False,
                sc_event_bytes := 0\<rparr>
      in (out, s))"

section \<open>A stream as lines and events\<close>

text \<open>
  The reference reads the whole stream at once: the lines, ended by CR, LF or CRLF, each with the
  number of bytes it is charged; then the events, the groups of lines ended by an empty one.
\<close>

definition after_terminator :: "char \<Rightarrow> string \<Rightarrow> string" where
  "after_terminator t rest = (if t = cr \<and> take 1 rest = [lf] then drop 1 rest else rest)"

function sse_lines :: "string \<Rightarrow> (string \<times> nat) list" where
  "sse_lines s =
     (let line = takeWhile (\<lambda>c. \<not> ends_line c) s
      in case dropWhile (\<lambda>c. \<not> ends_line c) s of
           [] \<Rightarrow> if line = [] then [] else [(line, length line)]
         | t # rest \<Rightarrow> (line, length line + 1) # sse_lines (after_terminator t rest))"
  by pat_completeness auto
termination
  by (relation "measure length") (auto simp: after_terminator_def dest: dropWhile_length)

declare sse_lines.simps [simp del]

text \<open>The outcome of the lines: an event whose lines cost more than the cap spoils the stream.\<close>

fun read_events :: "json_lib \<Rightarrow> endpoint \<Rightarrow> nat \<Rightarrow> string \<Rightarrow> (string \<times> nat) list \<Rightarrow> scan_outcome \<Rightarrow>
    scan_outcome" where
  "read_events J ep spent data [] out = observe_data J ep data out"
| "read_events J ep spent data ((line, cost) # lines) out =
     (if MAX_EVENT_BYTES < spent + cost then out\<lparr>so_usage := None, so_truncated := True\<rparr>
      else if line = [] then read_events J ep 0 [] lines (observe_data J ep data out)
      else read_events J ep (spent + cost) (push_line data line) lines out)"

definition scan_stream :: "json_lib \<Rightarrow> endpoint \<Rightarrow> string \<Rightarrow> scan_outcome" where
  "scan_stream J ep stream = read_events J ep 0 [] (sse_lines stream) outcome_default"

end
