(* ===== verification/Handler.thy ===== *)
theory Handler
  imports Proxy_Responses Sse_Scan Writer
begin

text \<open>
  \<^verbatim>\<open>src/src/proxy/handler.rs\<close> and the route in front of it (\<open>proxy_handler\<close> in
  \<^verbatim>\<open>src/src/main.rs\<close>): what happens to one request. The effects of a run are listed in the order the
  code awaits them. What the ledger answers, what the upstream sends and when the client goes away
  is the environment of the run.
\<close>

section \<open>The meter of a stream\<close>

definition CLIENT_DISCONNECT :: string where
  "CLIENT_DISCONNECT = ''client disconnected during streaming''"

datatype meter_latch = Armed | HandedOff

record meter =
  me_record :: request_record
  me_scanner :: scanner
  me_ttft_ms :: "u64 option"
  me_bytes :: u64
  me_latch :: meter_latch
  me_http_status :: nat
  me_credentials :: "string list"

definition meter_new :: "request_record \<Rightarrow> endpoint \<Rightarrow> nat \<Rightarrow> string list \<Rightarrow> meter" where
  "meter_new r ep status credentials =
     \<lparr>me_record = r, me_scanner = scanner_new ep, me_ttft_ms = None, me_bytes = 0,
      me_latch = Armed, me_http_status = status, me_credentials = credentials\<rparr>"

definition arm_once :: "meter \<Rightarrow> bool \<times> meter" where
  "arm_once m =
     (case me_latch m of
        Armed \<Rightarrow> (True, m\<lparr>me_latch := HandedOff\<rparr>)
      | HandedOff \<Rightarrow> (False, m))"

text \<open>\<open>elapsed\<close> is the reading of the clock since the request arrived; the byte count wraps.\<close>

definition observe :: "json_lib \<Rightarrow> u64 \<Rightarrow> string \<Rightarrow> meter \<Rightarrow> meter" where
  "observe J elapsed data m =
     m\<lparr>me_ttft_ms := (case me_ttft_ms m of None \<Rightarrow> Some elapsed | Some t \<Rightarrow> Some t),
       me_bytes := (me_bytes m + int (length data)) mod 2 ^ 64,
       me_scanner := feed J data (me_scanner m)\<rparr>"

definition with_ttft :: "u64 option \<Rightarrow> request_record \<Rightarrow> request_record" where
  "with_ttft ttft r = (case ttft of None \<Rightarrow> r | Some t \<Rightarrow> set_ttft t r)"

definition with_usage :: "token_usage option \<Rightarrow> request_record \<Rightarrow> request_record" where
  "with_usage usage r = (case usage of None \<Rightarrow> r | Some u \<Rightarrow> set_usage u r)"

text \<open>The three ways to resolve the record; each hands one record to the writer, or stands down.\<close>

definition finish_completed :: "json_lib \<Rightarrow> u64 \<Rightarrow> meter \<Rightarrow> request_record option \<times> meter" where
  "finish_completed J elapsed m =
     (case arm_once m of
        (False, m) \<Rightarrow> (None, m)
      | (True, m) \<Rightarrow>
          (case scan_finish J (me_scanner m) of
             (out, sc) \<Rightarrow>
               (let usage = (case so_usage out of Some u \<Rightarrow> u | None \<Rightarrow> usage_default)
                in (Some (with_ttft (me_ttft_ms m)
                      (record_complete (int (me_http_status m)) usage elapsed (me_record m))),
                    m\<lparr>me_scanner := sc\<rparr>))))"

definition finish_broken :: "json_lib \<Rightarrow> u64 \<Rightarrow> string \<Rightarrow> meter \<Rightarrow> request_record option \<times> meter" where
  "finish_broken J elapsed reason m =
     (case arm_once m of
        (False, m) \<Rightarrow> (None, m)
      | (True, m) \<Rightarrow>
          (case scan_finish J (me_scanner m) of
             (out, sc) \<Rightarrow>
               (let why = sanitize_reason
                      (reason @ '' (after '' @ dec_int (me_bytes m) @ '' bytes)'') (me_credentials m)
                in (Some (with_ttft (me_ttft_ms m) (with_usage (so_usage out)
                      (record_fail (Some (int (me_http_status m))) why elapsed (me_record m)))),
                    m\<lparr>me_scanner := sc\<rparr>))))"

definition meter_drop :: "json_lib \<Rightarrow> u64 \<Rightarrow> meter \<Rightarrow> request_record option \<times> meter" where
  "meter_drop J elapsed m =
     (case arm_once m of
        (False, m) \<Rightarrow> (None, m)
      | (True, m) \<Rightarrow>
          (case scan_finish J (me_scanner m) of
             (out, sc) \<Rightarrow>
               (Some (with_ttft (me_ttft_ms m) (with_usage (so_usage out)
                  (record_interrupt CLIENT_DISCONNECT elapsed (me_record m)))),
                m\<lparr>me_scanner := sc\<rparr>)))"

section \<open>The body of a streamed response\<close>

text \<open>
  How a streamed body went on after the frames that were read: the upstream ended it, or the client
  was gone (which can happen at any frame). A broken or stalled frame ends it by itself.
\<close>

datatype stream_end = UpstreamEnded | ClientGone

fun stream_frames :: "json_lib \<Rightarrow> nat \<Rightarrow> u64 \<Rightarrow> stream_end \<Rightarrow> frame list \<Rightarrow> meter \<Rightarrow>
    string list \<times> request_record list \<times> meter" where
  "stream_frames J idle elapsed fin [] m =
     (case fin of
        ClientGone \<Rightarrow> ([], [], m)
      | UpstreamEnded \<Rightarrow>
          (case finish_completed J elapsed m of (r, m) \<Rightarrow> ([], (case r of None \<Rightarrow> [] | Some r \<Rightarrow> [r]), m)))"
| "stream_frames J idle elapsed fin (Data ms data # frames) m =
     (if data = [] then stream_frames J idle elapsed fin frames m
      else case stream_frames J idle elapsed fin frames (observe J ms data m) of
             (chunks, handed, m) \<Rightarrow> (data # chunks, handed, m))"
| "stream_frames J idle elapsed fin (Trailers # frames) m = stream_frames J idle elapsed fin frames m"
| "stream_frames J idle elapsed fin (Broken e # frames) m =
     (case finish_broken J elapsed (''upstream stream broke: '' @ e) m of
        (r, m) \<Rightarrow> ([], (case r of None \<Rightarrow> [] | Some r \<Rightarrow> [r]), m))"
| "stream_frames J idle elapsed fin (Stalled # frames) m =
     (case finish_broken J elapsed (''upstream sent no data for '' @ dec idle @ ''s mid-stream'') m of
        (r, m) \<Rightarrow> ([], (case r of None \<Rightarrow> [] | Some r \<Rightarrow> [r]), m))"

text \<open>The body, and then the drop of the meter: what the client got and what the writer was handed.\<close>

definition stream_body :: "json_lib \<Rightarrow> nat \<Rightarrow> u64 \<Rightarrow> stream_end \<Rightarrow> frame list \<Rightarrow> meter \<Rightarrow>
    string list \<times> request_record list" where
  "stream_body J idle elapsed fin frames m =
     (case stream_frames J idle elapsed fin frames m of
        (chunks, handed, m) \<Rightarrow>
          (chunks, handed @ (case fst (meter_drop J elapsed m) of None \<Rightarrow> [] | Some r \<Rightarrow> [r])))"

section \<open>One request\<close>

text \<open>What a run does to the outside, in order; \<open>Contact\<close> is the request the upstream receives.\<close>

datatype effect =
    LedgerAccept request_record
  | Contact upstream_request
  | LedgerFinalize request_record
  | LedgerDetach request_record
  | LedgerUnhealthy

text \<open>
  A buffered response, a streamed one with the chunks the client got, or no answer: the body of
  the upstream never ends.
\<close>

datatype answer = Answered response | Streaming response "string list" | NoAnswer

record upstream_response =
  ur_status :: nat
  ur_headers :: headers
  ur_frames :: "frame list"

datatype upstream_reply = TimedOut | Unreachable string | Replied upstream_response

text \<open>
  \<open>pe_upstream\<close> and \<open>pe_credentials\<close> are read from the live configuration during the request;
  \<open>pe_elapsed\<close> is the duration recorded at the end. The texts of statuses are the \<^verbatim>\<open>http\<close> crate's.
\<close>

record proxy_env =
  pe_request_id :: string
  pe_now :: instant
  pe_upstream :: upstream_config
  pe_credentials :: "string list"
  pe_accept_fault :: "write_error option"
  pe_finalize_fault :: "write_error option"
  pe_elapsed :: u64
  pe_reply :: "upstream_request \<Rightarrow> upstream_reply"
  pe_stream_end :: stream_end
  pe_status_text :: "nat \<Rightarrow> string"

record client_request =
  cr_method :: string
  cr_path :: string
  cr_headers :: headers
  cr_body :: string

definition is_success :: "nat \<Rightarrow> bool" where
  "is_success status \<longleftrightarrow> 200 \<le> status \<and> status < 300"

definition timeout_of :: "proxy_env \<Rightarrow> nat" where
  "timeout_of env = max (up_timeout_secs (pe_upstream env)) 1"

text \<open>The upstream call: nothing is sent when the request cannot be built.\<close>

definition call_upstream ::
  "http_crate \<Rightarrow> proxy_client \<Rightarrow> proxy_env \<Rightarrow> client_request \<Rightarrow> effect list \<times> upstream_reply" where
  "call_upstream H client env req =
     (case build_request H client (Some (pe_upstream env)) (cr_method req) (cr_path req) (cr_body req)
             (cr_headers req) of
        Inl e \<Rightarrow> ([], Unreachable e)
      | Inr q \<Rightarrow> ([Contact q], pe_reply env q))"

definition finalize_effects :: "proxy_env \<Rightarrow> request_record \<Rightarrow> effect list" where
  "finalize_effects env r =
     LedgerFinalize r # (if pe_finalize_fault env = None then [] else [LedgerUnhealthy])"

definition failed_record ::
  "proxy_env \<Rightarrow> nat \<Rightarrow> string \<Rightarrow> token_usage \<Rightarrow> string option \<Rightarrow> request_record \<Rightarrow> request_record" where
  "failed_record env status reason usage error_body r =
     (set_usage usage (record_fail (Some (int status)) reason (pe_elapsed env) r))
       \<lparr>rr_error_body := error_body, rr_streaming := False\<rparr>"

definition finalize_and_respond ::
  "proxy_env \<Rightarrow> request_record \<Rightarrow> nat \<Rightarrow> string \<Rightarrow> token_usage \<Rightarrow> string option \<Rightarrow> response \<Rightarrow>
   effect list \<times> answer" where
  "finalize_and_respond env r status reason usage error_body resp =
     (finalize_effects env (failed_record env status reason usage error_body r), Answered resp)"

definition upstream_is_sse :: "headers \<Rightarrow> bool" where
  "upstream_is_sse h =
     (case Option.bind (header_get ''content-type'' h) header_to_str of
        None \<Rightarrow> False
      | Some v \<Rightarrow> sublist ''text/event-stream'' (to_ascii_lowercase v))"

definition scrub :: "proxy_env \<Rightarrow> string \<Rightarrow> string" where
  "scrub env reason = sanitize_reason reason (pe_credentials env)"

text \<open>An upstream that answered with an error status.\<close>

definition relay_failure ::
  "json_lib \<Rightarrow> proxy_env \<Rightarrow> endpoint \<Rightarrow> request_record \<Rightarrow> upstream_response \<Rightarrow> effect list \<times> answer" where
  "relay_failure J env ep r up =
     (case collect_capped (ur_frames up) of
        None \<Rightarrow> ([], NoAnswer)
      | Some (body, fate) \<Rightarrow>
          (let status = ur_status up; status_text = pe_status_text env status;
               reason = scrub env
                 (case fate of
                    Complete \<Rightarrow>
                      (case upstream_error_message J body of
                         Some m \<Rightarrow> m
                       | None \<Rightarrow> ''upstream returned '' @ status_text)
                  | CapExceeded \<Rightarrow> ''upstream returned '' @ status_text @ '' with an error body above ''
                      @ dec MAX_BUFFERED_RESPONSE @ '' bytes''
                  | BrokenOff e \<Rightarrow> ''upstream returned '' @ status_text
                      @ '' and its error body broke mid-read: '' @ e)
           in finalize_and_respond env r status reason (extract_usage J body ep)
                (Some (bounded_error_body body))
                (forward_upstream_error J status (ur_headers up) body (pe_request_id env))))"

text \<open>
  A streamed response. A response that cannot be built drops the stream before its first read.
\<close>

definition stream_response ::
  "json_lib \<Rightarrow> proxy_env \<Rightarrow> endpoint \<Rightarrow> request_record \<Rightarrow> upstream_response \<Rightarrow> effect list \<times> answer" where
  "stream_response J env ep r up =
     (let m = meter_new (r\<lparr>rr_streaming := True\<rparr>) ep (ur_status up) (pe_credentials env);
          id = pe_request_id env; idle = timeout_of env
      in if valid_header_value id
         then case stream_body J idle (pe_elapsed env) (pe_stream_end env) (ur_frames up) m of
                (chunks, handed) \<Rightarrow>
                  (map LedgerDetach handed,
                   Streaming \<lparr>rs_status = ur_status up,
                     rs_headers = forward_response_headers [] (ur_headers up) @ [(''x-request-id'', id)],
                     rs_body = []\<rparr> chunks)
         else (map LedgerDetach (snd (stream_body J idle (pe_elapsed env) ClientGone [] m)),
               Answered (error_response J id 500 ''Failed to build streaming response'' ''proxy_error'')))"

text \<open>A response that is read whole before it is sent on.\<close>

definition buffered_response ::
  "json_lib \<Rightarrow> proxy_env \<Rightarrow> endpoint \<Rightarrow> request_record \<Rightarrow> upstream_response \<Rightarrow> effect list \<times> answer" where
  "buffered_response J env ep r up =
     (let id = pe_request_id env;
          unread = error_response J id 502 ''Upstream response could not be read in full'' ''upstream_error''
      in case collect_capped (ur_frames up) of
           None \<Rightarrow> ([], NoAnswer)
         | Some (body, CapExceeded) \<Rightarrow>
             finalize_and_respond env r 502
               (''upstream response exceeded the '' @ dec MAX_BUFFERED_RESPONSE @ ''-byte buffering cap'')
               usage_default None unread
         | Some (body, BrokenOff e) \<Rightarrow>
             finalize_and_respond env r 502 (''upstream response body broke mid-read: '' @ e)
               usage_default None unread
         | Some (body, Complete) \<Rightarrow>
             (finalize_effects env (record_complete (int (ur_status up)) (extract_usage J body ep)
                (pe_elapsed env) (r\<lparr>rr_streaming := False\<rparr>)),
              Answered (relay_response id (ur_status up) (ur_headers up) body
                (error_response J id 500 ''Failed to build response'' ''proxy_error''))))"

definition relay_reply ::
  "json_lib \<Rightarrow> proxy_env \<Rightarrow> endpoint \<Rightarrow> bool \<Rightarrow> request_record \<Rightarrow> upstream_reply \<Rightarrow>
   effect list \<times> answer" where
  "relay_reply J env ep wants_stream r reply =
     (case reply of
        TimedOut \<Rightarrow>
          finalize_and_respond env r 504
            (scrub env (''upstream did not respond within '' @ dec (timeout_of env) @ ''s''))
            usage_default None
            (error_response J (pe_request_id env) 504 ''Upstream timeout'' ''upstream_timeout'')
      | Unreachable e \<Rightarrow>
          finalize_and_respond env r 502 (scrub env (''upstream connection failed: '' @ e))
            usage_default None
            (error_response J (pe_request_id env) 502 ''Upstream connection failed'' ''upstream_error'')
      | Replied up \<Rightarrow>
          if \<not> is_success (ur_status up) then relay_failure J env ep r up
          else if wants_stream \<or> upstream_is_sse (ur_headers up) then stream_response J env ep r up
          else buffered_response J env ep r up)"

definition proxy_unmetered ::
  "json_lib \<Rightarrow> http_crate \<Rightarrow> proxy_client \<Rightarrow> proxy_env \<Rightarrow> consumer_context \<Rightarrow> client_request \<Rightarrow>
   effect list \<times> answer" where
  "proxy_unmetered J H client env consumer req =
     (let id = pe_request_id env; (sent, reply) = call_upstream H client env req
      in case reply of
           TimedOut \<Rightarrow>
             (sent, Answered (error_response J id 504 ''Upstream timeout'' ''upstream_timeout''))
         | Unreachable e \<Rightarrow>
             (sent, Answered (error_response J id 502 (''Upstream connection failed: '' @ e)
                ''upstream_error''))
         | Replied up \<Rightarrow>
             (case collect_capped (ur_frames up) of
                None \<Rightarrow> (sent, NoAnswer)
              | Some (body, Complete) \<Rightarrow>
                  (sent, Answered (relay_response id (ur_status up) (ur_headers up)
                     (filter_models_response J body (context_allowed_models consumer))
                     (error_response J id 500 ''Failed to build response'' ''proxy_error'')))
              | Some (body, _) \<Rightarrow>
                  (sent, Answered (error_response J id 502
                     ''Upstream response could not be read in full'' ''upstream_error''))))"

text \<open>The JSON of a request body; an empty body, or one that is no JSON, has none.\<close>

definition request_value :: "json_lib \<Rightarrow> string \<Rightarrow> json option" where
  "request_value J body = (if body = [] then None else jl_parse J body)"

definition request_model :: "json_lib \<Rightarrow> endpoint \<Rightarrow> string \<Rightarrow> string" where
  "request_model J ep body =
     (case request_value J body of
        None \<Rightarrow> ''unknown''
      | Some v \<Rightarrow>
          (case ep of
             ChatCompletions \<Rightarrow> extract_model_from_request v
           | Responses \<Rightarrow> extract_responses_model v
           | Models \<Rightarrow> ''unknown''))"

definition wants_stream :: "json_lib \<Rightarrow> string \<Rightarrow> bool" where
  "wants_stream J body =
     (case Option.bind (Option.bind (request_value J body) (json_get ''stream'')) as_bool of
        Some b \<Rightarrow> b
      | None \<Rightarrow> False)"

definition accepted_record ::
  "json_lib \<Rightarrow> proxy_env \<Rightarrow> consumer_context \<Rightarrow> endpoint \<Rightarrow> client_request \<Rightarrow> pricing_snapshot \<Rightarrow>
   request_record" where
  "accepted_record J env consumer ep req prices =
     with_pricing prices
       (record_new (pe_now env) (pe_request_id env) (context_consumer_id consumer)
          (request_model J ep (cr_body req)) ep (wants_stream J (cr_body req)))"

definition handle_proxy ::
  "json_lib \<Rightarrow> http_crate \<Rightarrow> proxy_client \<Rightarrow> proxy_env \<Rightarrow> consumer_context \<Rightarrow> client_request \<Rightarrow>
   effect list \<times> answer" where
  "handle_proxy J H client env consumer req =
     (let id = pe_request_id env
      in case endpoint_from_path (cr_path req) of
           None \<Rightarrow> ([], Answered (error_response J id 404 ''Not Found'' ''invalid_request_error''))
         | Some ep \<Rightarrow>
             (case suspension_message (context_service_status consumer) of
                Some msg \<Rightarrow> ([], Answered (billing_suspended_error J id msg))
              | None \<Rightarrow>
                  if ep = Models then proxy_unmetered J H client env consumer req
                  else (case context_pricing_for consumer (request_model J ep (cr_body req)) of
                          None \<Rightarrow>
                            ([], Answered (model_not_allowed_error J id
                               (request_model J ep (cr_body req))))
                        | Some prices \<Rightarrow>
                            (let r = accepted_record J env consumer ep req prices
                             in if pe_accept_fault env \<noteq> None
                                then ([LedgerAccept r, LedgerUnhealthy],
                                      Answered (error_response J id 503
                                        ''Metering unavailable; request not forwarded''
                                        ''metering_error''))
                                else case call_upstream H client env req of
                                       (sent, reply) \<Rightarrow>
                                         (case relay_reply J env ep
                                                 (wants_stream J (cr_body req)) r reply of
                                            (done, ans) \<Rightarrow> ([LedgerAccept r] @ sent @ done, ans))))))"

text \<open>
  The route: a manager is refused, and the body is read up to the limit, unless the client broke off.
  \<open>minted_id\<close> names a response that never reaches the handler.
\<close>

definition proxy_handler ::
  "json_lib \<Rightarrow> http_crate \<Rightarrow> proxy_client \<Rightarrow> proxy_env \<Rightarrow> string \<Rightarrow> nat \<Rightarrow> bool \<Rightarrow>
   consumer_context \<Rightarrow> client_request \<Rightarrow> effect list \<times> answer" where
  "proxy_handler J H client env minted_id limit arrived consumer req =
     (if is_manager consumer
      then ([], Answered (error_response J minted_id 403
             (''The manager credential is a dashboard credential and cannot be used to proxy ''
              @ ''requests'') ''invalid_request_error''))
      else if \<not> arrived \<or> limit < length (cr_body req)
      then ([], Answered (error_response J minted_id 413 ''Request body could not be read''
             ''invalid_request_error''))
      else handle_proxy J H client env consumer req)"

end
