(* ===== verification/Scan_Properties.thy ===== *)
theory Scan_Properties
  imports Sse_Scan
begin

text \<open>
  The stream scanner: it may be fed in any pieces, and what it reports of a stream is what the
  reference reading of the whole stream reports; the usage is the last one an event carries, and
  never one that no event carries.
\<close>

section \<open>Consumers that may be fed in pieces\<close>

text \<open>
  The contract between a producer that cuts a stream as it likes and a consumer that must not care.
\<close>

locale incremental =
  fixes take_in :: "'a list \<Rightarrow> 's \<Rightarrow> 's"
  assumes take_in_Nil: "take_in [] s = s"
    and take_in_append: "take_in (xs @ ys) s = take_in ys (take_in xs s)"
begin

lemma pieces: "fold take_in chunks s = take_in (concat chunks) s"
  by (induction chunks arbitrary: s) (simp_all add: take_in_Nil take_in_append)

lemma framing: "concat a = concat b \<Longrightarrow> fold take_in a s = fold take_in b s"
  by (simp add: pieces)

end

section \<open>The scanner as a machine over bytes\<close>

lemma scan_truncate_simps [simp]:
  "so_truncated (sc_outcome (scan_truncate s))"
  "scan_truncate (s\<lparr>sc_event_bytes := n\<rparr>) = scan_truncate s"
  "scan_truncate (s\<lparr>sc_after_cr := b\<rparr>) = scan_truncate s"
  "scan_truncate (s\<lparr>sc_line_buf := l\<rparr>) = scan_truncate s"
  by (simp_all add: scan_truncate_def)

text \<open>The cap is far below the bound at which the count saturates.\<close>

lemma scan_reserve_eq:
  "scan_reserve n s =
     (if MAX_EVENT_BYTES < sc_event_bytes s + n then (False, scan_truncate s)
      else (True, s\<lparr>sc_event_bytes := sc_event_bytes s + n\<rparr>))"
  by (auto simp: scan_reserve_def Let_def MAX_EVENT_BYTES_def min_def)

definition byte_step :: "json_lib \<Rightarrow> char \<Rightarrow> scanner \<Rightarrow> scanner" where
  "byte_step J b s =
     (if so_truncated (sc_outcome s) then s
      else if sc_after_cr s \<and> b = lf then s\<lparr>sc_after_cr := False\<rparr>
      else case scan_reserve 1 (s\<lparr>sc_after_cr := False\<rparr>) of
             (False, s) \<Rightarrow> s
           | (True, s) \<Rightarrow>
               if ends_line b
               then absorb_line J (sc_line_buf s) (s\<lparr>sc_after_cr := b = cr, sc_line_buf := []\<rparr>)
               else s\<lparr>sc_line_buf := sc_line_buf s @ [b]\<rparr>)"

lemma truncated_stays:
  "so_truncated (sc_outcome s) \<Longrightarrow> fold (byte_step J) xs s = s"
  by (induction xs) (simp_all add: byte_step_def)

lemma fold_partial_line:
  assumes "\<not> so_truncated (sc_outcome s)" "\<not> (sc_after_cr s \<and> hd xs = lf)"
    and "\<forall>c \<in> set xs. \<not> ends_line c" "xs \<noteq> []"
  shows "fold (byte_step J) xs s =
    (if MAX_EVENT_BYTES < sc_event_bytes s + length xs then scan_truncate s
     else s\<lparr>sc_after_cr := False, sc_event_bytes := sc_event_bytes s + length xs,
            sc_line_buf := sc_line_buf s @ xs\<rparr>)"
  using assms
proof (induction xs rule: rev_induct)
  case Nil
  then show ?case by simp
next
  case (snoc x xs)
  show ?case
  proof (cases "xs = []")
    case True
    with snoc.prems show ?thesis
      by (auto simp: byte_step_def scan_reserve_eq)
  next
    case False
    with snoc.prems have "\<not> (sc_after_cr s \<and> hd xs = lf)"
      by simp
    with snoc False show ?thesis
      by (simp add: byte_step_def scan_reserve_eq)
  qed
qed

lemma ends_line_simps [simp]: "ends_line lf" "ends_line cr"
  by (simp_all add: ends_line_def)

lemma absorb_keeps [simp]:
  "so_truncated (sc_outcome (absorb_line J line s)) = so_truncated (sc_outcome s)"
  "sc_line_buf (absorb_line J line s) = sc_line_buf s"
  "sc_after_cr (absorb_line J line s) = sc_after_cr s"
  "sc_endpoint (absorb_line J line s) = sc_endpoint s"
  by (simp_all add: absorb_line_def flush_event_def observe_data_def Let_def split: option.split)

lemma fold_line:
  assumes "\<not> so_truncated (sc_outcome s)" "\<not> (sc_after_cr s \<and> hd (line @ [t]) = lf)"
    and "\<forall>c \<in> set line. \<not> ends_line c" "ends_line t"
  shows "fold (byte_step J) (line @ [t]) s =
    (if MAX_EVENT_BYTES < sc_event_bytes s + (length line + 1) then scan_truncate s
     else absorb_line J (sc_line_buf s @ line)
            (s\<lparr>sc_event_bytes := sc_event_bytes s + (length line + 1), sc_after_cr := t = cr,
               sc_line_buf := []\<rparr>))"
proof (cases "line = []")
  case True
  with assms show ?thesis
    by (auto simp: byte_step_def scan_reserve_eq)
next
  case False
  with assms have "\<not> (sc_after_cr s \<and> hd line = lf)"
    by simp
  with assms False show ?thesis
    by (auto simp: fold_partial_line byte_step_def scan_reserve_eq)
qed

lemma dropWhile_Cons_parts:
  assumes "dropWhile (\<lambda>c. \<not> P c) xs = t # rest"
  shows "xs = (takeWhile (\<lambda>c. \<not> P c) xs @ [t]) @ rest" "P t"
proof -
  show "xs = (takeWhile (\<lambda>c. \<not> P c) xs @ [t]) @ rest"
    using assms takeWhile_dropWhile_id [of "\<lambda>c. \<not> P c" xs] by simp
  show "P t"
    using hd_dropWhile [of "\<lambda>c. \<not> P c" xs] assms by simp
qed

text \<open>The four ways an iteration of the loop of \<^const>\<open>feed_loop\<close> goes.\<close>

lemma rest_cases [case_names empty newline partial_line full_line]:
  fixes s :: scanner
  assumes "rest = [] \<Longrightarrow> P"
    and "\<And>xs. sc_after_cr s \<Longrightarrow> rest = lf # xs \<Longrightarrow> P"
    and "rest \<noteq> [] \<Longrightarrow> \<not> (sc_after_cr s \<and> hd rest = lf) \<Longrightarrow> \<forall>c \<in> set rest. \<not> ends_line c \<Longrightarrow> P"
    and "\<And>t rest'. rest \<noteq> [] \<Longrightarrow> \<not> (sc_after_cr s \<and> hd rest = lf) \<Longrightarrow>
      dropWhile (\<lambda>c. \<not> ends_line c) rest = t # rest' \<Longrightarrow> P"
  shows P
proof (cases "dropWhile (\<lambda>c. \<not> ends_line c) rest")
  case Nil
  then have "\<forall>c \<in> set rest. \<not> ends_line c"
    by simp
  then show ?thesis
    using assms(1-3) by (cases rest) auto
next
  case (Cons t rest')
  then show ?thesis
    using assms(2,4) by (cases rest) auto
qed

lemma feed_loop_steps:
  "feed_loop J [] s = s"
  "sc_after_cr s \<Longrightarrow> feed_loop J (lf # xs) s = feed_loop J xs (s\<lparr>sc_after_cr := False\<rparr>)"
  by (simp_all add: feed_loop.simps [of J "[]"] feed_loop.simps [of J "lf # xs"])

lemma feed_loop_partial:
  assumes "rest \<noteq> []" "\<not> (sc_after_cr s \<and> hd rest = lf)" "\<forall>c \<in> set rest. \<not> ends_line c"
  shows "feed_loop J rest s =
    (if MAX_EVENT_BYTES < sc_event_bytes s + length rest then scan_truncate s
     else s\<lparr>sc_after_cr := False, sc_event_bytes := sc_event_bytes s + length rest,
            sc_line_buf := sc_line_buf s @ rest\<rparr>)"
proof -
  from assms(3) have none: "dropWhile (\<lambda>c. \<not> ends_line c) rest = []"
    by simp
  show ?thesis
    using assms(1,2) by (subst feed_loop.simps) (auto simp: none Let_def scan_reserve_eq)
qed

lemma feed_loop_full:
  assumes "rest \<noteq> []" "\<not> (sc_after_cr s \<and> hd rest = lf)"
    and "dropWhile (\<lambda>c. \<not> ends_line c) rest = t # rest'"
    and "line = takeWhile (\<lambda>c. \<not> ends_line c) rest"
  shows "feed_loop J rest s =
    (if MAX_EVENT_BYTES < sc_event_bytes s + (length line + 1) then scan_truncate s
     else feed_loop J rest' (absorb_line J (sc_line_buf s @ line)
            (s\<lparr>sc_event_bytes := sc_event_bytes s + (length line + 1), sc_after_cr := t = cr,
               sc_line_buf := []\<rparr>)))"
  using assms by (subst feed_loop.simps) (auto simp: Let_def scan_reserve_eq)

lemma feed_loop_fold:
  "\<not> so_truncated (sc_outcome s) \<Longrightarrow> feed_loop J rest s = fold (byte_step J) rest s"
proof (induction "length rest" arbitrary: rest s rule: less_induct)
  case less
  show ?case
  proof (cases rule: rest_cases [where rest = rest and s = s])
    case empty
    then show ?thesis by (simp add: feed_loop_steps)
  next
    case (newline xs)
    with less show ?thesis
      by (simp add: feed_loop_steps byte_step_def [of J lf s])
  next
    case partial_line
    with less.prems show ?thesis
      by (simp add: feed_loop_partial fold_partial_line)
  next
    case (full_line t rest')
    let ?line = "takeWhile (\<lambda>c. \<not> ends_line c) rest"
    note parts = dropWhile_Cons_parts [OF full_line(3)]
    have fed: "fold (byte_step J) rest s = fold (byte_step J) rest' (fold (byte_step J) (?line @ [t]) s)"
      by (subst parts(1)) (simp only: fold_append comp_apply)
    have line: "\<not> (sc_after_cr s \<and> hd (?line @ [t]) = lf)"
      using full_line(2) parts(1) by (metis append_is_Nil_conv hd_append2 not_Cons_self2)
    have body: "\<forall>c \<in> set ?line. \<not> ends_line c"
      by (auto dest: set_takeWhileD)
    show ?thesis
      unfolding fed fold_line [OF less.prems line body parts(2)]
      using feed_loop_full [OF full_line refl] less dropWhile_length [OF full_line(3)]
      by (simp add: truncated_stays)
  qed
qed

lemma feed_fold: "feed J chunk s = fold (byte_step J) chunk s"
  by (simp add: feed_def feed_loop_fold truncated_stays)

interpretation stream: incremental "feed J" for J
  by unfold_locales (simp_all add: feed_fold)

section \<open>The scanner against the reference\<close>

lemma observe_data_truncated [simp]:
  "so_truncated (observe_data J ep data out) = so_truncated out"
  by (simp add: observe_data_def Let_def split: option.split)

lemma observe_data_Nil [simp]: "observe_data J ep [] out = out"
  by (simp add: observe_data_def)

lemma scan_finish_truncated:
  "so_truncated (sc_outcome s) \<Longrightarrow> fst (scan_finish J s) = (sc_outcome s)\<lparr>so_usage := None\<rparr>"
  by (simp add: scan_finish_def finish_leftover_def Let_def)

lemma scan_finish_open:
  assumes "\<not> so_truncated (sc_outcome s)"
  shows "fst (scan_finish J s) =
    observe_data J (sc_endpoint s)
      (if sc_line_buf s = [] then sc_pending_data s
       else push_line (sc_pending_data s) (sc_line_buf s)) (sc_outcome s)"
  using assms
  by (auto simp: scan_finish_def finish_leftover_def flush_event_def absorb_line_def Let_def)

text \<open>What the LF of a CRLF leaves to be read at the start of a line.\<close>

definition line_start :: "scanner \<Rightarrow> string \<Rightarrow> string" where
  "line_start s rest = (if sc_after_cr s \<and> take 1 rest = [lf] then drop 1 rest else rest)"

lemma line_start_simps:
  "line_start s [] = []"
  "sc_after_cr s \<Longrightarrow> line_start s (lf # rest) = rest"
  "\<not> (sc_after_cr s \<and> hd rest = lf) \<Longrightarrow> line_start s rest = rest"
  "sc_after_cr s = (t = cr) \<Longrightarrow> line_start s rest = after_terminator t rest"
  by (cases rest; simp add: line_start_def after_terminator_def)+

lemma line_start_after_cr:
  "sc_after_cr s \<Longrightarrow> line_start s (lf # xs) = line_start (s\<lparr>sc_after_cr := False\<rparr>) xs"
  by (simp add: line_start_def)

lemma sse_lines_partial:
  assumes "rest \<noteq> []" "\<forall>c \<in> set rest. \<not> ends_line c"
  shows "sse_lines rest = [(rest, length rest)]"
proof -
  have none: "dropWhile (\<lambda>c. \<not> ends_line c) rest = []"
    and whole: "takeWhile (\<lambda>c. \<not> ends_line c) rest = rest"
    using assms(2) by simp_all
  show ?thesis
    using assms(1) by (simp add: sse_lines.simps [of rest] none whole)
qed

lemma loop_reads_events:
  "\<not> so_truncated (sc_outcome s) \<Longrightarrow> sc_line_buf s = [] \<Longrightarrow>
   fst (scan_finish J (feed_loop J rest s)) =
     read_events J (sc_endpoint s) (sc_event_bytes s) (sc_pending_data s)
       (sse_lines (line_start s rest)) (sc_outcome s)"
proof (induction "length rest" arbitrary: rest s rule: less_induct)
  case less
  show ?case
  proof (cases rule: rest_cases [where rest = rest and s = s])
    case empty
    with less.prems show ?thesis
      by (simp add: feed_loop_steps line_start_simps sse_lines.simps [of "[]"] scan_finish_open)
  next
    case (newline xs)
    with less show ?thesis
      by (simp add: feed_loop_steps line_start_after_cr)
  next
    case partial_line
    with less.prems show ?thesis
      by (simp add: feed_loop_partial line_start_simps sse_lines_partial scan_finish_open
          scan_finish_truncated) (simp add: scan_truncate_def)
  next
    case (full_line t rest')
    define line where "line = takeWhile (\<lambda>c. \<not> ends_line c) rest"
    define s' where "s' = s\<lparr>sc_event_bytes := sc_event_bytes s + (length line + 1),
      sc_after_cr := t = cr, sc_line_buf := []\<rparr>"
    have lines: "sse_lines (line_start s rest) = (line, length line + 1)
        # sse_lines (line_start (absorb_line J line s') rest')"
      using full_line
      by (simp add: line_start_simps sse_lines.simps [of rest] Let_def line_def s'_def)
    have "fst (scan_finish J (feed_loop J rest' (absorb_line J line s'))) =
      read_events J (sc_endpoint s) (sc_event_bytes (absorb_line J line s'))
        (sc_pending_data (absorb_line J line s')) (sse_lines (line_start (absorb_line J line s') rest'))
        (sc_outcome (absorb_line J line s'))"
      using less dropWhile_length [OF full_line(3)] by (simp add: s'_def)
    then show ?thesis
      using less.prems
      by (simp add: lines feed_loop_full [OF full_line line_def] scan_finish_truncated
          flip: s'_def) (auto simp: scan_truncate_def absorb_line_def flush_event_def s'_def)
  qed
qed

lemma scan_reference:
  "fst (scan_finish J (fold (feed J) chunks (scanner_new ep))) = scan_stream J ep (concat chunks)"
  unfolding stream.pieces scan_stream_def
  by (simp add: feed_def loop_reads_events scanner_new_def outcome_default_def line_start_def)

text \<open>
  C12: what the scanner reports does not depend on where the writes of the upstream land. Fed in any
  pieces, byte by byte or as a whole, it reports of a stream exactly what the reference reads in it:
  the same usage, the same counts of events, and the same verdict that the stream was truncated.
\<close>

theorem scan_ignores_framing:
  "fst (scan_finish J (fold (feed J) chunks (scanner_new ep))) = scan_stream J ep (concat chunks)
   \<and> fold (feed J) chunks (scanner_new ep) = fold (\<lambda>b. feed J [b]) (concat chunks) (scanner_new ep)"
proof
  show "fst (scan_finish J (fold (feed J) chunks (scanner_new ep))) = scan_stream J ep (concat chunks)"
    by (rule scan_reference)
  show "fold (feed J) chunks (scanner_new ep) = fold (\<lambda>b. feed J [b]) (concat chunks) (scanner_new ep)"
    using stream.framing [of chunks "map (\<lambda>b. [b]) (concat chunks)"]
    by (simp add: fold_map comp_def concat_map_singleton)
qed

section \<open>Where a usage comes from\<close>

text \<open>The payloads of the events of a stream, and what each event is charged.\<close>

fun event_payloads :: "string \<Rightarrow> (string \<times> nat) list \<Rightarrow> string list" where
  "event_payloads data [] = [data]"
| "event_payloads data ((line, cost) # lines) =
     (if line = [] then data # event_payloads [] lines
      else event_payloads (push_line data line) lines)"

fun event_costs :: "nat \<Rightarrow> (string \<times> nat) list \<Rightarrow> nat list" where
  "event_costs spent [] = [spent]"
| "event_costs spent ((line, cost) # lines) =
     (if line = [] then (spent + cost) # event_costs 0 lines
      else event_costs (spent + cost) lines)"

definition payload_usage :: "json_lib \<Rightarrow> endpoint \<Rightarrow> string \<Rightarrow> token_usage option" where
  "payload_usage J ep data =
     (if data = [] \<or> trim data = ''[DONE]'' then None
      else Option.bind (jl_parse J data) (event_usage ep))"

lemma find_map_append: "find_map f (xs @ ys) = or_else (find_map f xs) (find_map f ys)"
  by (induction xs) (simp_all add: or_else_def split: option.split)

lemma find_map_single [simp]: "find_map f [x] = f x"
  by (simp split: option.split)

lemma or_else_simps [simp]:
  "or_else (Some x) b = Some x" "or_else None b = b" "or_else a None = a"
  by (simp_all add: or_else_def split: option.split)

lemma or_else_assoc: "or_else (or_else a b) c = or_else a (or_else b c)"
  by (cases a) simp_all

lemma observe_data_usage:
  "so_usage (observe_data J ep data out) = or_else (payload_usage J ep data) (so_usage out)"
  by (simp add: observe_data_def payload_usage_def Let_def split: option.split)

lemma event_costs_grow: "\<exists>c \<in> set (event_costs spent lines). spent \<le> c"
proof (induction lines arbitrary: spent)
  case (Cons l lines)
  obtain line cost where l: "l = (line, cost)" by (cases l)
  from Cons [of "spent + cost"] obtain c where "c \<in> set (event_costs (spent + cost) lines)" "spent + cost \<le> c"
    by blast
  then show ?case
    by (cases "line = []") (auto simp: l intro!: bexI [of _ c])
qed simp

lemma read_events_truncated:
  "spent \<le> MAX_EVENT_BYTES \<Longrightarrow>
   so_truncated (read_events J ep spent data lines out) \<longleftrightarrow>
     so_truncated out \<or> (\<exists>c \<in> set (event_costs spent lines). MAX_EVENT_BYTES < c)"
proof (induction J ep spent data lines out rule: read_events.induct)
  case (2 J ep spent data line cost lines out)
  show ?case
  proof (cases "MAX_EVENT_BYTES < spent + cost")
    case True
    with event_costs_grow [of "spent + cost" lines] show ?thesis
      by (cases "line = []") (auto intro: order.strict_trans2)
  next
    case False
    with 2 show ?thesis
      by (cases "line = []") (auto simp: MAX_EVENT_BYTES_def)
  qed
qed auto

lemma read_events_usage:
  "\<not> so_truncated (read_events J ep spent data lines out) \<Longrightarrow>
   so_usage (read_events J ep spent data lines out) =
     or_else (find_map (payload_usage J ep) (rev (event_payloads data lines))) (so_usage out)"
  by (induction J ep spent data lines out rule: read_events.induct)
    (auto simp: observe_data_usage find_map_append or_else_assoc
      simp del: find_map.simps split: if_splits)

lemma read_events_spoiled:
  "so_truncated (read_events J ep spent data lines out) \<Longrightarrow> \<not> so_truncated out \<Longrightarrow>
   so_usage (read_events J ep spent data lines out) = None"
  by (induction J ep spent data lines out rule: read_events.induct) (auto split: if_splits)

lemma payload_usage_SomeD:
  assumes "payload_usage J ep data = Some u"
  obtains v where "jl_parse J data = Some v" "counts_from v u"
    "tu_input u \<noteq> None \<or> tu_output u \<noteq> None \<or> tu_cached u \<noteq> None"
proof -
  from assms obtain v where v: "jl_parse J data = Some v" "event_usage ep v = Some u"
    by (auto simp: payload_usage_def bind_eq_Some_conv split: if_splits)
  then show thesis
    using that [of v] stream_mentions [of v u] stream_observed [of v u]
    by (cases ep) auto
qed

text \<open>
  C13: the usage of a stream is the last one its events report, and never an invented one. A stream
  with an event above 256 KiB reports none; otherwise it is what the last event with a usable count
  says, each count is a number that stands in the JSON of an event of the stream, and there is one.
\<close>

theorem usage_is_last_reported:
  assumes "out = fst (scan_finish J (fold (feed J) chunks (scanner_new ep)))"
    and "lines = sse_lines (concat chunks)"
  shows "(so_truncated out \<longleftrightarrow> (\<exists>c \<in> set (event_costs 0 lines). MAX_EVENT_BYTES < c))
    \<and> so_usage out = (if so_truncated out then None
        else find_map (payload_usage J ep) (rev (event_payloads [] lines)))
    \<and> (\<forall>u. so_usage out = Some u \<longrightarrow>
        (\<exists>payload \<in> set (event_payloads [] lines). \<exists>v. jl_parse J payload = Some v \<and> counts_from v u
           \<and> (tu_input u \<noteq> None \<or> tu_output u \<noteq> None \<or> tu_cached u \<noteq> None)))"
    (is "?cap \<and> ?usage \<and> ?origin")
proof -
  have out: "out = read_events J ep 0 [] lines outcome_default"
    unfolding assms scan_reference scan_stream_def ..
  have ?cap
    by (simp add: out read_events_truncated outcome_default_def)
  moreover have usage: ?usage
    by (simp add: out read_events_usage read_events_spoiled outcome_default_def)
  moreover have ?origin
  proof (intro allI impI)
    fix u assume "so_usage out = Some u"
    with usage have "find_map (payload_usage J ep) (rev (event_payloads [] lines)) = Some u"
      by (simp split: if_splits)
    then obtain payload where "payload \<in> set (event_payloads [] lines)"
        "payload_usage J ep payload = Some u"
      by (auto dest: find_map_SomeD)
    then show "\<exists>payload \<in> set (event_payloads [] lines). \<exists>v. jl_parse J payload = Some v
        \<and> counts_from v u \<and> (tu_input u \<noteq> None \<or> tu_output u \<noteq> None \<or> tu_cached u \<noteq> None)"
      by (metis payload_usage_SomeD)
  qed
  ultimately show ?thesis by blast
qed

text \<open>A stream in three pieces, cut inside a CRLF, whose first event carries the counts.\<close>

definition sample_json :: json_lib where
  "sample_json =
     \<lparr>jl_parse = (\<lambda>s. if s = ''{u}''
                     then Some (JObject [(''usage'', JObject [(''prompt_tokens'', JPosInt 12),
                                                       (''completion_tokens'', JPosInt 30)])])
                     else None),
      jl_render = (\<lambda>v. None)\<rparr>"

lemma usage_is_last_reported_witness:
  "so_usage (fst (scan_finish sample_json (fold (feed sample_json)
       [''data:'', '' {u}'' @ [cr], [lf, cr, lf] @ ''data: [DONE]''] (scanner_new ChatCompletions))))
     = Some (usage_new (Some 12) (Some 30) None)"
proof -
  let ?chunks = "[''data:'', '' {u}'' @ [cr], [lf, cr, lf] @ ''data: [DONE]'']"
  have lines: "sse_lines (concat ?chunks) = [(''data: {u}'', 10), ([], 1), (''data: [DONE]'', 12)]"
    by (simp add: sse_lines.simps ends_line_def lf_def cr_def after_terminator_def)
  have payloads: "event_payloads [] (sse_lines (concat ?chunks)) = [''{u}'', ''[DONE]'']"
    unfolding lines by (simp add: push_line_def data_of_line_def strip_prefix_def utf8_lossy_ascii ascii_def)
  have costs: "\<not> (\<exists>c \<in> set (event_costs 0 (sse_lines (concat ?chunks))). MAX_EVENT_BYTES < c)"
    unfolding lines by (simp add: MAX_EVENT_BYTES_def)
  have done_text: "trim ''[DONE]'' = ''[DONE]''" "trim ''{u}'' = ''{u}''"
    by (simp_all add: trim_visible visible_def)
  have last: "find_map (payload_usage sample_json ChatCompletions) (rev [''{u}'', ''[DONE]'']) =
      Some (usage_new (Some 12) (Some 30) None)"
    by (simp add: payload_usage_def done_text sample_json_def extract_stream_chat_completions_usage_def
        stream_usage_objects_def json_get_def observed_usage_def List.map_filter_simps)
  show ?thesis
    using usage_is_last_reported [OF refl refl, of sample_json ?chunks ChatCompletions]
    unfolding payloads last using costs by (simp only: if_False)
qed

end
