(* ===== verification/Stream_Properties.thy ===== *)
theory Stream_Properties
  imports Handler Scan_Properties
begin

text \<open>
  The meter of a streamed response: whatever the upstream sends and whenever the client leaves, it
  hands exactly one terminal record to the writer, with the usage the reference reads in the bytes
  that were forwarded.
\<close>

section \<open>What a run of a stream observes\<close>

text \<open>The data frames the loop passes on: the non-empty ones before the first failure.\<close>

fun passed_on :: "frame list \<Rightarrow> string list" where
  "passed_on [] = []"
| "passed_on (Data ms data # frames) = (if data = [] then [] else [data]) @ passed_on frames"
| "passed_on (Trailers # frames) = passed_on frames"
| "passed_on (_ # frames) = []"

definition fails :: "frame list \<Rightarrow> bool" where
  "fails frames \<longleftrightarrow> (\<exists>f \<in> set frames. f = Stalled \<or> (\<exists>e. f = Broken e))"

text \<open>How a streamed request ended.\<close>

definition stream_verdict :: "stream_end \<Rightarrow> frame list \<Rightarrow> request_status" where
  "stream_verdict fin frames =
     (if fails frames then Failed
      else case fin of UpstreamEnded \<Rightarrow> Completed | ClientGone \<Rightarrow> Interrupted)"

text \<open>A terminal record of the same request.\<close>

definition resolves :: "request_record \<Rightarrow> request_record \<Rightarrow> bool" where
  "resolves r r' \<longleftrightarrow>
     record_is_terminal r' \<and> rr_request_id r' = rr_request_id r \<and> rr_created_at r' = rr_created_at r
     \<and> rr_consumer_id r' = rr_consumer_id r \<and> rr_model r' = rr_model r
     \<and> rr_endpoint r' = rr_endpoint r \<and> rr_pricing r' = rr_pricing r"

definition usage_of :: "scan_outcome \<Rightarrow> token_usage" where
  "usage_of out = (case so_usage out of Some u \<Rightarrow> u | None \<Rightarrow> usage_default)"

definition recorded_as :: "meter \<Rightarrow> request_status \<Rightarrow> json_lib \<Rightarrow> request_record \<Rightarrow> bool" where
  "recorded_as m st J r' \<longleftrightarrow>
     resolves (me_record m) r' \<and> rr_request_status r' = st \<and> rr_streaming r' = rr_streaming (me_record m)
     \<and> rr_error_body r' = rr_error_body (me_record m)
     \<and> rr_usage r' = usage_of (fst (scan_finish J (me_scanner m)))"

lemmas record_updates =
  record_complete_def record_fail_def record_interrupt_def set_usage_def set_ttft_def
  with_usage_def with_ttft_def record_is_terminal_def Let_def

text \<open>Each way to resolve an armed meter hands over one record and disarms it.\<close>

lemma finish_completed_armed:
  assumes "me_latch m = Armed"
  obtains r' m' where "finish_completed J el m = (Some r', m')" "me_latch m' = HandedOff"
    "recorded_as m Completed J r'"
  using assms
  by (auto simp: finish_completed_def arm_once_def recorded_as_def resolves_def usage_of_def
      record_updates case_prod_beta split: option.split)

lemma finish_broken_armed:
  assumes "me_latch m = Armed" "rr_usage (me_record m) = usage_default"
  obtains r' m' where "finish_broken J el why m = (Some r', m')" "me_latch m' = HandedOff"
    "recorded_as m Failed J r'"
  using assms
  by (auto simp: finish_broken_def arm_once_def recorded_as_def resolves_def usage_of_def
      record_updates case_prod_beta split: option.split)

lemma meter_drop_armed:
  assumes "me_latch m = Armed" "rr_usage (me_record m) = usage_default"
  obtains r' m' where "meter_drop J el m = (Some r', m')" "me_latch m' = HandedOff"
    "recorded_as m Interrupted J r'"
  using assms
  by (auto simp: meter_drop_def arm_once_def recorded_as_def resolves_def usage_of_def
      record_updates case_prod_beta split: option.split)

lemma meter_drop_handed_off: "me_latch m = HandedOff \<Longrightarrow> meter_drop J el m = (None, m)"
  by (simp add: meter_drop_def arm_once_def)

lemma observe_simps [simp]:
  "me_latch (observe J el data m) = me_latch m"
  "me_record (observe J el data m) = me_record m"
  "me_scanner (observe J el data m) = feed J data (me_scanner m)"
  by (simp_all add: observe_def)

section \<open>The whole stream\<close>

definition after_chunks :: "json_lib \<Rightarrow> string list \<Rightarrow> meter \<Rightarrow> meter" where
  "after_chunks J chunks m = m\<lparr>me_scanner := fold (feed J) chunks (me_scanner m)\<rparr>"

lemma recorded_as_cong:
  "me_record m = me_record m' \<Longrightarrow> me_scanner m = me_scanner m' \<Longrightarrow>
   recorded_as m st J r = recorded_as m' st J r"
  by (simp add: recorded_as_def)

lemma stream_body_records:
  assumes "me_latch m = Armed" "rr_usage (me_record m) = usage_default"
  shows "\<exists>r'. stream_body J idle el fin frames m = (passed_on frames, [r'])
    \<and> recorded_as (after_chunks J (passed_on frames) m) (stream_verdict fin frames) J r'"
  using assms
proof (induction frames arbitrary: m)
  case Nil
  then show ?case
  proof (cases fin)
    case UpstreamEnded
    from Nil(1) obtain r' m' where "finish_completed J el m = (Some r', m')" "me_latch m' = HandedOff"
        "recorded_as m Completed J r'"
      by (rule finish_completed_armed)
    with UpstreamEnded show ?thesis
      by (simp add: stream_body_def meter_drop_handed_off stream_verdict_def fails_def
          after_chunks_def)
  next
    case ClientGone
    from Nil obtain r' m' where "meter_drop J el m = (Some r', m')" "recorded_as m Interrupted J r'"
      by (rule meter_drop_armed)
    with ClientGone show ?thesis
      by (simp add: stream_body_def stream_verdict_def fails_def after_chunks_def)
  qed
next
  case (Cons f frames)
  show ?case
  proof (cases f)
    case (Data ms data)
    show ?thesis
    proof (cases "data = []")
      case True
      with Cons.IH [OF Cons.prems] show ?thesis
        by (simp add: Data stream_body_def stream_verdict_def fails_def)
    next
      case False
      have "me_latch (observe J ms data m) = Armed"
        "rr_usage (me_record (observe J ms data m)) = usage_default"
        using Cons.prems by simp_all
      from Cons.IH [OF this] obtain r' where r':
        "stream_body J idle el fin frames (observe J ms data m) = (passed_on frames, [r'])"
        "recorded_as (after_chunks J (passed_on frames) (observe J ms data m))
           (stream_verdict fin frames) J r'"
        by blast
      have "stream_verdict fin (f # frames) = stream_verdict fin frames"
        by (simp add: Data stream_verdict_def fails_def)
      moreover have "recorded_as (after_chunks J (passed_on (f # frames)) m) st J r'
          = recorded_as (after_chunks J (passed_on frames) (observe J ms data m)) st J r'" for st
        by (rule recorded_as_cong) (simp_all add: after_chunks_def Data False)
      ultimately show ?thesis
        using r' False by (auto simp: Data stream_body_def split: prod.splits)
    qed
  next
    case Trailers
    with Cons.IH [OF Cons.prems] show ?thesis
      by (simp add: stream_body_def stream_verdict_def fails_def)
  next
    case (Broken e)
    from Cons.prems obtain r' m' where
      "finish_broken J el (''upstream stream broke: '' @ e) m = (Some r', m')"
      "me_latch m' = HandedOff" "recorded_as m Failed J r'"
      by (rule finish_broken_armed)
    then show ?thesis
      by (simp add: Broken stream_body_def meter_drop_handed_off stream_verdict_def fails_def
          after_chunks_def)
  next
    case Stalled
    from Cons.prems obtain r' m' where
      "finish_broken J el (''upstream sent no data for '' @ dec idle @ ''s mid-stream'') m = (Some r', m')"
      "me_latch m' = HandedOff" "recorded_as m Failed J r'"
      by (rule finish_broken_armed)
    then show ?thesis
      by (simp add: Stalled stream_body_def meter_drop_handed_off stream_verdict_def fails_def
          after_chunks_def)
  qed
qed

text \<open>
  C11: a streamed request is metered exactly once. Whatever frames the upstream sends, and whether it
  ends the stream, breaks it, falls silent or the client goes away, the writer is handed exactly one
  record: a terminal one of the same request, at the same prices, completed only if the upstream
  ended the stream; and its usage is the one the reference reads in the bytes the client was sent.
\<close>

theorem stream_metered_exactly_once:
  assumes "rr_usage r = usage_default"
  shows "\<exists>r'. stream_body J idle el fin frames (meter_new r ep status credentials)
        = (passed_on frames, [r'])
    \<and> resolves r r' \<and> rr_request_status r' = stream_verdict fin frames
    \<and> rr_usage r' = usage_of (scan_stream J ep (concat (passed_on frames)))"
proof -
  let ?m = "meter_new r ep status credentials"
  have "me_latch ?m = Armed" "rr_usage (me_record ?m) = usage_default"
    using assms by (simp_all add: meter_new_def)
  from stream_body_records [OF this, of J idle el fin frames] obtain r' where
    r': "stream_body J idle el fin frames ?m = (passed_on frames, [r'])"
    and rec: "recorded_as (after_chunks J (passed_on frames) ?m) (stream_verdict fin frames) J r'"
    by blast
  from rec have "resolves r r'" "rr_request_status r' = stream_verdict fin frames"
    "rr_usage r' = usage_of (scan_stream J ep (concat (passed_on frames)))"
    by (simp_all add: recorded_as_def after_chunks_def meter_new_def scan_reference)
  with r' show ?thesis by blast
qed

definition sample_request :: request_record where
  "sample_request =
     record_new 0 ''req-1'' ''acme'' ''m'' ChatCompletions True"

lemma stream_metered_exactly_once_witness:
  "\<exists>r'. stream_body sample_json 120 40 ClientGone [Data 7 ''data: {u}'', Trailers, Data 9 [lf]]
          (meter_new sample_request ChatCompletions 200 [])
        = ([''data: {u}'', [lf]], [r'])
      \<and> resolves sample_request r' \<and> rr_request_status r' = Interrupted
      \<and> rr_usage r' = usage_of (scan_stream sample_json ChatCompletions (''data: {u}'' @ [lf]))"
  using stream_metered_exactly_once [of sample_request sample_json 120 40 ClientGone
      "[Data 7 ''data: {u}'', Trailers, Data 9 [lf]]" ChatCompletions 200 "[]"]
  by (simp add: sample_request_def record_new_def stream_verdict_def fails_def)

end
