(* ===== verification/Handler_Properties.thy ===== *)
theory Handler_Properties
  imports Stream_Properties Config_Properties
begin

text \<open>
  One request through the proxy: who reaches the upstream, what the ledger is told and in which
  order, and what the client and the upstream see of each other's headers.
\<close>

section \<open>The records a run resolves\<close>

definition terminals :: "effect list \<Rightarrow> request_record list" where
  "terminals effs =
     List.map_filter (\<lambda>e. case e of LedgerFinalize r \<Rightarrow> Some r | LedgerDetach r \<Rightarrow> Some r | _ \<Rightarrow> None) effs"

definition opens :: "effect \<Rightarrow> bool" where
  "opens e \<longleftrightarrow> (case e of LedgerAccept r \<Rightarrow> True | Contact q \<Rightarrow> True | _ \<Rightarrow> False)"

lemma terminals_simps [simp]:
  "terminals [] = []"
  "terminals (LedgerAccept r # effs) = terminals effs"
  "terminals (Contact q # effs) = terminals effs"
  "terminals (LedgerFinalize r # effs) = r # terminals effs"
  "terminals (LedgerDetach r # effs) = r # terminals effs"
  "terminals (LedgerUnhealthy # effs) = terminals effs"
  by (simp_all add: terminals_def List.map_filter_simps)

lemma terminals_append [simp]: "terminals (a @ b) = terminals a @ terminals b"
  by (simp add: terminals_def List.map_filter_def)

lemma opens_simps [simp]:
  "opens (LedgerAccept r)" "opens (Contact q)" "\<not> opens (LedgerFinalize r)"
  "\<not> opens (LedgerDetach r)" "\<not> opens LedgerUnhealthy"
  by (simp_all add: opens_def)

text \<open>
  What the part of a run after the upstream call does: it resolves the record once, or never
  answers and does nothing.
\<close>

definition settles :: "request_record \<Rightarrow> effect list \<times> answer \<Rightarrow> bool" where
  "settles r run \<longleftrightarrow>
     (case run of (effs, ans) \<Rightarrow>
        filter opens effs = []
        \<and> (if ans = NoAnswer then effs = []
           else \<exists>r'. terminals effs = [r'] \<and> resolves r r'))"

lemma finalize_effects_simps [simp]:
  "terminals (finalize_effects env r) = [r]" "filter opens (finalize_effects env r) = []"
  by (simp_all add: finalize_effects_def)

lemma failed_record_resolves: "resolves r (failed_record env st why u body r)"
  by (simp add: failed_record_def resolves_def record_updates)

lemma finalize_and_respond_settles: "settles r (finalize_and_respond env r st why u body resp)"
  by (simp add: settles_def finalize_and_respond_def failed_record_resolves)

lemma relay_failure_settles: "settles r (relay_failure J env ep r up)"
  by (auto simp: relay_failure_def Let_def finalize_and_respond_settles split: option.split)
    (simp add: settles_def)

lemma buffered_response_settles: "settles r (buffered_response J env ep r up)"
  by (auto simp: buffered_response_def Let_def finalize_and_respond_settles
      split: option.split body_fate.split)
    (simp_all add: settles_def resolves_def record_complete_def record_is_terminal_def)

lemma stream_response_settles:
  assumes "rr_usage r = usage_default"
  shows "settles r (stream_response J env ep r up)"
proof -
  let ?m = "meter_new (r\<lparr>rr_streaming := True\<rparr>) ep (ur_status up) (pe_credentials env)"
  have armed: "me_latch ?m = Armed" "rr_usage (me_record ?m) = usage_default"
    using assms by (simp_all add: meter_new_def)
  have body: "\<exists>r'. stream_body J (timeout_of env) (pe_elapsed env) fin frames ?m
      = (passed_on frames, [r']) \<and> resolves r r'" for fin frames
    using stream_body_records [OF armed, of J "timeout_of env" "pe_elapsed env" fin frames]
    by (auto simp: recorded_as_def after_chunks_def meter_new_def resolves_def)
  from body [of "pe_stream_end env" "ur_frames up"] body [of ClientGone "[]"] show ?thesis
    by (cases "valid_header_value (pe_request_id env)")
      (auto simp: stream_response_def settles_def Let_def)
qed

lemma relay_reply_settles:
  "rr_usage r = usage_default \<Longrightarrow> settles r (relay_reply J env ep stream r reply)"
  by (simp add: relay_reply_def finalize_and_respond_settles relay_failure_settles
      buffered_response_settles stream_response_settles split: upstream_reply.split)

lemma accepted_record_simps [simp]:
  "rr_usage (accepted_record J env c ep req prices) = usage_default"
  "rr_request_status (accepted_record J env c ep req prices) = InFlight"
  "rr_consumer_id (accepted_record J env c ep req prices) = context_consumer_id c"
  "rr_pricing (accepted_record J env c ep req prices) = Some prices"
  "rr_request_id (accepted_record J env c ep req prices) = pe_request_id env"
  "rr_model (accepted_record J env c ep req prices) = request_model J ep (cr_body req)"
  "rr_endpoint (accepted_record J env c ep req prices) = ep"
  by (simp_all add: accepted_record_def with_pricing_def record_new_def)

text \<open>The four ways a run goes.\<close>

lemma call_upstream_cases:
  obtains (unsent) e where "call_upstream H client env req = ([], Unreachable e)"
  | (sent) q where "call_upstream H client env req = ([Contact q], pe_reply env q)"
    "build_request H client (Some (pe_upstream env)) (cr_method req) (cr_path req) (cr_body req)
       (cr_headers req) = Inr q"
  by (cases "build_request H client (Some (pe_upstream env)) (cr_method req) (cr_path req)
      (cr_body req) (cr_headers req)") (simp_all add: call_upstream_def)

lemma handle_proxy_cases:
  obtains (refused) ans where "handle_proxy J H client env c req = ([], Answered ans)"
  | (discovery) "endpoint_from_path (cr_path req) = Some Models" "context_service_status c = Active"
      "handle_proxy J H client env c req = proxy_unmetered J H client env c req"
  | (unmetered) ans r where "pe_accept_fault env \<noteq> None"
      "handle_proxy J H client env c req = ([LedgerAccept r, LedgerUnhealthy], Answered ans)"
  | (metered) ep prices r sent reply effs ans where
      "endpoint_from_path (cr_path req) = Some ep" "ep \<noteq> Models"
      "context_service_status c = Active" "pe_accept_fault env = None"
      "context_pricing_for c (request_model J ep (cr_body req)) = Some prices"
      "r = accepted_record J env c ep req prices"
      "call_upstream H client env req = (sent, reply)"
      "relay_reply J env ep (wants_stream J (cr_body req)) r reply = (effs, ans)"
      "handle_proxy J H client env c req = (LedgerAccept r # sent @ effs, ans)"
proof (cases "endpoint_from_path (cr_path req)")
  case None
  then show ?thesis
    using refused by (simp add: handle_proxy_def)
next
  case (Some ep)
  show ?thesis
  proof (cases "context_service_status c")
    case (Suspended why)
    with Some show ?thesis
      using refused by (simp add: handle_proxy_def)
  next
    case Active
    show ?thesis
    proof (cases "ep = Models")
      case True
      with Some Active show ?thesis
        using discovery by (simp add: handle_proxy_def)
    next
      case False
      show ?thesis
      proof (cases "context_pricing_for c (request_model J ep (cr_body req))")
        case None
        with Some Active False show ?thesis
          using refused by (simp add: handle_proxy_def)
      next
        case (Some prices)
        obtain sent reply where call: "call_upstream H client env req = (sent, reply)"
          by fastforce
        obtain effs ans where relay: "relay_reply J env ep (wants_stream J (cr_body req))
            (accepted_record J env c ep req prices) reply = (effs, ans)"
          by fastforce
        show ?thesis
        proof (cases "pe_accept_fault env")
          case None
          then show ?thesis
            using metered [OF _ False Active None Some refl call relay]
              \<open>endpoint_from_path (cr_path req) = Some ep\<close> Active False Some call relay
            by (simp add: handle_proxy_def Let_def)
        next
          case Some
          then show ?thesis
            using unmetered \<open>endpoint_from_path (cr_path req) = Some ep\<close> Active False
              \<open>context_pricing_for c (request_model J ep (cr_body req)) = Some prices\<close>
            by (simp add: handle_proxy_def Let_def)
        qed
      qed
    qed
  qed
qed

lemma proxy_unmetered_effects:
  assumes "proxy_unmetered J H client env c req = (effs, ans)"
  shows "effs = fst (call_upstream H client env req)"
proof -
  have "fst (proxy_unmetered J H client env c req) = fst (call_upstream H client env req)"
    by (simp add: proxy_unmetered_def Let_def case_prod_beta
        split: upstream_reply.split option.split body_fate.split)
  with assms show ?thesis by simp
qed

lemma proxy_handler_cases:
  assumes "proxy_handler J H client env minted_id limit arrived c req = (effs, ans)" "effs \<noteq> []"
  shows "\<not> is_manager c \<and> handle_proxy J H client env c req = (effs, ans)"
  using assms by (auto simp: proxy_handler_def split: if_splits)

lemma unopened: "filter opens effs = [] \<Longrightarrow> Contact q \<notin> set effs \<and> LedgerAccept r \<notin> set effs"
  by (auto simp: filter_empty_conv)

section \<open>Nothing reaches the upstream unaccounted\<close>

text \<open>
  C5: no inference request reaches the upstream before its acceptance is recorded. In every run of
  the route, complete or cut off at any point because the client left, a request the upstream
  receives is one of an active partner and either the unmetered discovery of models or an inference
  request for a model that partner has a price for, preceded by the acknowledged acceptance of a
  record in flight with that partner, that model and that price; and it is sent once.
\<close>

theorem upstream_only_after_accept:
  assumes "proxy_handler J H client env minted_id limit arrived c req = (effs, ans)"
    and "prefix run effs" "Contact q \<in> set run"
  shows "\<not> is_manager c \<and> context_service_status c = Active
    \<and> (endpoint_from_path (cr_path req) = Some Models \<and> run = [Contact q]
       \<or> pe_accept_fault env = None
         \<and> (\<exists>r prices rest. run = LedgerAccept r # Contact q # rest
              \<and> (\<forall>q'. Contact q' \<notin> set rest)
              \<and> rr_request_status r = InFlight \<and> rr_consumer_id r = context_consumer_id c
              \<and> rr_pricing r = Some prices \<and> context_pricing_for c (rr_model r) = Some prices))"
proof -
  from assms(2,3) have "effs \<noteq> []"
    by auto
  with assms(1) have client_run: "\<not> is_manager c" "handle_proxy J H client env c req = (effs, ans)"
    using proxy_handler_cases by blast+
  have "Contact q \<in> set effs"
    using assms(2,3) set_mono_prefix by blast
  then show ?thesis
  proof (cases rule: handle_proxy_cases [of J H client env c req, case_names refused discovery unmetered metered])
    case (refused a)
    with client_run \<open>effs \<noteq> []\<close> show ?thesis by simp
  next
    case discovery
    then have effs: "effs = fst (call_upstream H client env req)"
      using client_run(2) by (metis proxy_unmetered_effects)
    have "effs = [Contact q]"
      using \<open>Contact q \<in> set effs\<close> unfolding effs
      by (cases rule: call_upstream_cases [of H client env req]) auto
    moreover from this have "run = [Contact q]"
      using assms(2,3) by (auto simp: prefix_Cons)
    ultimately show ?thesis
      using discovery client_run(1) by blast
  next
    case (unmetered a r)
    with client_run \<open>Contact q \<in> set effs\<close> show ?thesis by auto
  next
    case (metered ep prices r sent reply effs' a)
    then have effs: "effs = LedgerAccept r # sent @ effs'"
      using client_run(2) by simp
    have closed: "filter opens effs' = []"
      using relay_reply_settles [of r J env ep "wants_stream J (cr_body req)" reply] metered
      by (simp add: settles_def)
    with \<open>Contact q \<in> set effs\<close> have "Contact q \<in> set sent"
      using unopened by (auto simp: effs)
    then have "sent = [Contact q]"
      using metered(7) by (cases rule: call_upstream_cases [of H client env req]) auto
    then obtain rest where "run = LedgerAccept r # Contact q # rest" "prefix rest effs'"
      using assms(2,3) by (auto simp: effs prefix_Cons)
    moreover have "\<forall>q'. Contact q' \<notin> set rest"
      using calculation(2) closed unopened set_mono_prefix by blast
    ultimately show ?thesis
      using metered client_run(1) by auto
  qed
qed

text \<open>A request without a body, whose model is therefore called unknown, answered in one piece.\<close>

definition sample_http :: http_crate where
  "sample_http = \<lparr>hc_uri = (\<lambda>s. Inr ()), hc_invalid_value = ''bad value''\<rparr>"

definition sample_consumer :: consumer_context where
  "sample_consumer =
     context_new (config_new ''acme'' ''main'' Invoice [] Active
       [(''unknown'', \<lparr>ps_input = PricePerMillion 2500000, ps_cached_input = PricePerMillion 1250000,
                       ps_output = PricePerMillion 10000000\<rparr>)])"

definition sample_env :: "frame list \<Rightarrow> proxy_env" where
  "sample_env frames =
     \<lparr>pe_request_id = ''req-1'', pe_now = 0, pe_upstream = cf_upstream sample_config,
      pe_credentials = config_credentials sample_config, pe_accept_fault = None,
      pe_finalize_fault = None, pe_elapsed = 40,
      pe_reply = (\<lambda>q. Replied \<lparr>ur_status = 200, ur_headers = [], ur_frames = frames\<rparr>),
      pe_stream_end = UpstreamEnded, pe_status_text = (\<lambda>n. dec n)\<rparr>"

definition sample_post :: client_request where
  "sample_post =
     \<lparr>cr_method = ''POST'', cr_path = ''/v1/responses'', cr_headers = [], cr_body = []\<rparr>"

abbreviation sample_run :: "frame list \<Rightarrow> effect list \<times> answer" where
  "sample_run frames \<equiv>
     handle_proxy sample_json sample_http (proxy_client_new (cf_upstream sample_config))
       (sample_env frames) sample_consumer sample_post"

lemma sample_gates:
  "endpoint_from_path (cr_path sample_post) = Some Responses"
  "context_service_status sample_consumer = Active"
  "\<exists>prices. context_pricing_for sample_consumer (request_model sample_json ep (cr_body sample_post))
     = Some prices"
  "\<exists>q. build_request sample_http client (Some (cf_upstream sample_config)) v p b h = Inr q"
  "\<not> is_manager sample_consumer"
  by (simp_all add: endpoint_from_path_def sample_post_def sample_consumer_def context_new_def
      config_new_def context_service_status_def context_pricing_for_def config_pricing_for_def
      request_model_def request_value_def build_request_def upstream_uri_def sample_http_def
      sample_config_def valid_header_value_def is_manager_def Let_def)

lemma sample_env_simps [simp]:
  "pe_accept_fault (sample_env frames) = None" "pe_finalize_fault (sample_env frames) = None"
  "pe_upstream (sample_env frames) = cf_upstream sample_config"
  "pe_reply (sample_env frames) q = Replied \<lparr>ur_status = 200, ur_headers = [], ur_frames = frames\<rparr>"
  by (simp_all add: sample_env_def)

text \<open>It is accepted, sent, and then whatever the body makes of it.\<close>

lemma sample_run_effects:
  "\<exists>r q effs ans. sample_run frames = (LedgerAccept r # Contact q # effs, ans)
     \<and> buffered_response sample_json (sample_env frames) Responses r
         \<lparr>ur_status = 200, ur_headers = [], ur_frames = frames\<rparr> = (effs, ans)"
proof -
  let ?env = "sample_env frames"
  obtain prices where prices: "context_pricing_for sample_consumer
      (request_model sample_json Responses (cr_body sample_post)) = Some prices"
    using sample_gates(3) by blast
  obtain q where q: "call_upstream sample_http (proxy_client_new (cf_upstream sample_config)) ?env
      sample_post = ([Contact q], pe_reply ?env q)"
    using sample_gates(4) [of "proxy_client_new (cf_upstream sample_config)" "cr_method sample_post"
        "cr_path sample_post" "cr_body sample_post" "cr_headers sample_post"]
    by (auto simp: call_upstream_def)
  have "\<not> wants_stream sample_json (cr_body sample_post)" "is_success 200" "\<not> upstream_is_sse []"
    by (simp_all add: wants_stream_def request_value_def sample_post_def is_success_def
        upstream_is_sse_def header_get_def)
  then show ?thesis
    by (intro exI [of _ "accepted_record sample_json ?env sample_consumer Responses sample_post prices"]
        exI [of _ q])
      (simp add: handle_proxy_def sample_gates(1,2) prices q relay_reply_def Let_def split: prod.split)
qed

lemma upstream_only_after_accept_witness:
  "\<exists>effs ans q r prices rest.
     proxy_handler sample_json sample_http (proxy_client_new (cf_upstream sample_config))
       (sample_env []) ''req-2'' 1000 True sample_consumer sample_post = (effs, ans)
     \<and> effs = LedgerAccept r # Contact q # rest \<and> rr_pricing r = Some prices"
proof -
  let ?run = "proxy_handler sample_json sample_http (proxy_client_new (cf_upstream sample_config))
       (sample_env []) ''req-2'' 1000 True sample_consumer sample_post"
  have run: "?run = sample_run []"
    using sample_gates(5) by (simp add: proxy_handler_def) (simp add: sample_post_def)
  obtain effs ans where eff: "?run = (effs, ans)"
    by fastforce
  moreover obtain r q rest where "effs = LedgerAccept r # Contact q # rest"
    using sample_run_effects [of "[]"] eff unfolding run by (metis Pair_inject)
  moreover from this have q: "Contact q \<in> set effs"
    by simp
  ultimately show ?thesis
    using upstream_only_after_accept [OF eff prefix_order.refl q] sample_gates(1) by auto
qed

section \<open>Every accepted request is resolved\<close>

lemma collect_from_None: "collect_from acc frames = None \<Longrightarrow> Stalled \<in> set frames"
  by (induction acc frames rule: collect_from.induct) (auto split: if_splits)

lemma relay_reply_NoAnswer:
  assumes "relay_reply J env ep stream r reply = (effs, NoAnswer)"
  shows "\<exists>up. reply = Replied up \<and> Stalled \<in> set (ur_frames up)"
  using assms
  by (auto simp: relay_reply_def relay_failure_def buffered_response_def stream_response_def
      finalize_and_respond_def collect_capped_def Let_def
      split: upstream_reply.splits if_splits option.splits body_fate.splits prod.splits
      dest: collect_from_None)

lemma terminals_prefix: "prefix run effs \<Longrightarrow> length (terminals run) \<le> length (terminals effs)"
  by (auto simp: prefix_def)

lemma resolved_once:
  assumes "handle_proxy J H client env c req = (effs, ans)" "LedgerAccept r \<in> set effs"
  shows "(\<forall>run. prefix run effs \<longrightarrow> length (terminals run) \<le> 1)
    \<and> (pe_accept_fault env \<noteq> None \<longrightarrow> effs = [LedgerAccept r, LedgerUnhealthy])
    \<and> (pe_accept_fault env = None \<and> ans \<noteq> NoAnswer \<longrightarrow> (\<exists>r'. terminals effs = [r'] \<and> resolves r r'))
    \<and> (ans = NoAnswer \<longrightarrow> terminals effs = []
        \<and> (\<exists>q up. Contact q \<in> set effs \<and> pe_reply env q = Replied up \<and> Stalled \<in> set (ur_frames up)))"
proof (cases rule: handle_proxy_cases [of J H client env c req, case_names refused discovery unmetered metered])
  case (refused a)
  with assms show ?thesis by simp
next
  case discovery
  then have "effs = fst (call_upstream H client env req)"
    using assms(1) by (metis proxy_unmetered_effects)
  with assms(2) show ?thesis
    by (cases rule: call_upstream_cases [of H client env req]) auto
next
  case (unmetered a r0)
  with assms show ?thesis by (auto dest: terminals_prefix)
next
  case (metered ep prices r0 sent reply effs' a)
  then have effs: "effs = LedgerAccept r0 # sent @ effs'" "ans = a"
    using assms(1) by simp_all
  have settled: "settles r0 (effs', a)"
    using relay_reply_settles [of r0 J env ep "wants_stream J (cr_body req)" reply] metered by simp
  have sent: "(\<exists>e. sent = [] \<and> reply = Unreachable e) \<or> (\<exists>q. sent = [Contact q] \<and> reply = pe_reply env q)"
    using metered(7) by (cases rule: call_upstream_cases [of H client env req]) auto
  have "r = r0"
    using assms(2) settled sent unopened unfolding effs by (auto simp: settles_def)
  have stalls: "\<exists>up. reply = Replied up \<and> Stalled \<in> set (ur_frames up)" if "a = NoAnswer"
    using relay_reply_NoAnswer metered(8) that by blast
  have none: "terminals (sent @ effs') = terminals effs'"
    using sent by auto
  have asked: "\<exists>q up. Contact q \<in> set effs \<and> pe_reply env q = Replied up \<and> Stalled \<in> set (ur_frames up)"
    if "a = NoAnswer"
  proof -
    from stalls [OF that] obtain up where up: "reply = Replied up" "Stalled \<in> set (ur_frames up)"
      by blast
    with sent obtain q where "sent = [Contact q]" "reply = pe_reply env q"
      by auto
    with up show ?thesis
      unfolding effs by (intro exI [of _ q] exI [of _ up]) simp
  qed
  show ?thesis
    using settled sent asked metered(4) none
    by (auto simp: effs \<open>r = r0\<close> settles_def split: if_splits dest!: terminals_prefix)
qed

lemma terminals_cut:
  assumes "length (terminals effs) \<le> 1"
  shows "terminals (take n effs) = [] \<or> terminals (take n effs) = terminals effs"
proof -
  have "terminals effs = terminals (take n effs) @ terminals (drop n effs)"
    by (metis append_take_drop_id terminals_append)
  with assms show ?thesis by (cases "terminals (take n effs)") auto
qed

text \<open>
  A client that goes away before it is answered: the server drops the future of the handler, which
  stops at the \<open>await\<close> it has reached, after the first \<open>n\<close> effects. (From the first frame of a
  streamed response on, the meter of the stream takes over: \<^const>\<open>ClientGone\<close>.)
\<close>

definition client_leaves :: "nat \<Rightarrow> effect list \<times> answer \<Rightarrow> effect list \<times> answer" where
  "client_leaves n run = (take n (fst run), NoAnswer)"



text \<open>
  A request whose client goes away while the handler waits for the upstream's headers, or reads a
  body it relays whole, hands nothing over: its row stays in flight although the process lives on.
\<close>

lemma disconnect_leaves_in_flight:
  "\<exists>r q. client_leaves 2 (sample_run [Data 3 ''{u}'']) = ([LedgerAccept r, Contact q], NoAnswer)
     \<and> terminals (fst (client_leaves 2 (sample_run [Data 3 ''{u}'']))) = []"
proof -
  obtain r q effs ans where "sample_run [Data 3 ''{u}''] = (LedgerAccept r # Contact q # effs, ans)"
    using sample_run_effects [of "[Data 3 ''{u}'']"] by blast
  then show ?thesis by (simp add: client_leaves_def numeral_2_eq_2)
qed

end
