(* ===== verification/Proxy_Properties.thy ===== *)
theory Proxy_Properties
  imports Proxy_Responses Config_Properties
begin

text \<open>
  What crosses the proxy: the headers of the upstream request and of the relayed response, the
  models a partner is shown, and the text that is stored of an upstream's failure.
\<close>

section \<open>Headers\<close>

lemma header_values_Cons:
  "header_values n ((k, v) # h) = (if n = k then [v] else []) @ header_values n h"
  by (simp add: header_values_def)

lemma header_values_Nil [simp]: "header_values n [] = []"
  by (simp add: header_values_def)

lemma contains_header_values: "contains_header n h \<longleftrightarrow> header_values n h \<noteq> []"
  by (force simp: contains_header_def header_values_def filter_empty_conv)

lemma header_values_by_name:
  "header_values n (filter (\<lambda>e. P (fst e)) h) = (if P n then header_values n h else [])"
  by (induction h) (auto simp: header_values_def)

text \<open>What of the client's headers stops at the proxy.\<close>

definition stops_here :: "headers \<Rightarrow> string \<Rightarrow> bool" where
  "stops_here h n \<longleftrightarrow>
     n \<in> set HOP_BY_HOP \<or> n \<in> set (connection_tokens h)
     \<or> n \<in> {''host'', ''content-length'', ''authorization'', ''accept-encoding''}"

lemma forwarded_headers_stop: "forwarded_headers h = filter (\<lambda>e. \<not> stops_here h (fst e)) h"
  unfolding forwarded_headers_eq stops_here_def by (rule filter_cong) blast+

lemma forwarded_values:
  "header_values n (forwarded_headers h) = (if stops_here h n then [] else header_values n h)"
  unfolding forwarded_headers_stop header_values_by_name [where P = "\<lambda>n. \<not> stops_here h n"] by simp

lemma authorization_stops: "stops_here h ''authorization''"
  by (simp add: stops_here_def)

lemma request_headers_values:
  "header_values n (request_headers key h) =
     (let kept = (if stops_here h n then [] else header_values n h)
      in if n = ''authorization'' then [''Bearer '' @ key]
         else if kept = [] \<and> n \<in> {''content-type'', ''accept''} then [''application/json'']
         else kept)"
proof -
  consider "n = ''authorization''" | "n = ''content-type''" | "n = ''accept''"
    | "n \<notin> {''authorization'', ''content-type'', ''accept''}"
    by blast
  then show ?thesis
    by cases (simp_all add: request_headers_def header_values_append header_values_Cons
        forwarded_values contains_header_values authorization_stops Let_def)
qed

text \<open>
  the upstream gets exactly the headers it should. The client's own credential never reaches it:
  the only authorization is the upstream key. No header of the connection itself, none that the
  first \<open>Connection\<close> header names, no host, length or accepted encoding crosses; the content type
  and the accepted type are JSON where the client gave none; every other header arrives unchanged.
\<close>

theorem upstream_headers_exact:
  assumes "build_request H client (Some cfg) verb path body h = Inr q"
  shows "header_values ''authorization'' (uq_headers q) = [''Bearer '' @ up_api_key cfg]
    \<and> (\<forall>n. stops_here h n \<and> n \<notin> {''authorization'', ''content-type'', ''accept''} \<longrightarrow>
         header_values n (uq_headers q) = [])
    \<and> (\<forall>n. n \<in> {''content-type'', ''accept''} \<and> (stops_here h n \<or> header_values n h = []) \<longrightarrow>
         header_values n (uq_headers q) = [''application/json''])
    \<and> (\<forall>n. \<not> stops_here h n \<and> header_values n h \<noteq> [] \<longrightarrow>
         header_values n (uq_headers q) = header_values n h)
    \<and> uq_method q = verb \<and> uq_body q = body"
proof -
  have q: "uq_headers q = request_headers (up_api_key cfg) h" "uq_method q = verb" "uq_body q = body"
    using assms by (auto simp: build_request_def res_bind_Inr_iff split: if_splits)
  show ?thesis
    unfolding q request_headers_values Let_def using authorization_stops by auto
qed

lemma upstream_headers_exact_witness:
  "\<exists>q. build_request \<lparr>hc_uri = (\<lambda>s. Inr ()), hc_invalid_value = ''bad''\<rparr>
        (proxy_client_new (cf_upstream sample_config)) (Some (cf_upstream sample_config)) ''POST''
        ''/v1/responses'' ''{}'' [(''authorization'', ''Bearer local''), (''connection'', ''X-Trace''),
          (''x-trace'', ''1''), (''x-tag'', ''a'')] = Inr q
      \<and> header_values ''authorization'' (uq_headers q) = [''Bearer sk-12345678'']"
proof -
  let ?h = "[(''authorization'', ''Bearer local''), (''connection'', ''X-Trace''),
          (''x-trace'', ''1''), (''x-tag'', ''a'')]"
  obtain q where q: "build_request \<lparr>hc_uri = (\<lambda>s. Inr ()), hc_invalid_value = ''bad''\<rparr>
        (proxy_client_new (cf_upstream sample_config)) (Some (cf_upstream sample_config)) ''POST''
        ''/v1/responses'' ''{}'' ?h = Inr q"
    by (simp add: build_request_def upstream_uri_def sample_config_def valid_header_value_def Let_def)
  show ?thesis
    using q upstream_headers_exact [OF q] by (auto simp: sample_config_def)
qed

text \<open>
  what a relayed response carries. The headers of the upstream arrive, but for those of its
  connection, its length and its cookies; and the identity of the request is added after them, so
  when the upstream sends an \<open>x-request-id\<close> of its own the response carries both and a client that
  reads the first one reads the upstream's.
\<close>

theorem relayed_headers_exact:
  assumes "valid_header_value rid"
  shows "header_values n (rs_headers (relay_response rid status h body fallback)) =
      (if is_hop_by_hop n \<or> n = ''content-length'' \<or> n = ''set-cookie'' then []
       else if n = ''x-request-id'' then header_values n h @ [rid] else header_values n h)
    \<and> header_get ''x-request-id'' (rs_headers (relay_response rid status h body fallback)) =
        Some (case header_get ''x-request-id'' h of Some theirs \<Rightarrow> theirs | None \<Rightarrow> rid)"
proof -
  have own: "\<not> is_hop_by_hop ''x-request-id''"
    by (simp add: is_hop_by_hop_def HOP_BY_HOP_def to_ascii_lowercase_def ascii_lower_def)
  have "filter (\<lambda>(k, v). \<not> is_hop_by_hop k \<and> k \<noteq> ''content-length'' \<and> k \<noteq> ''set-cookie'') h
      = filter (\<lambda>e. \<not> is_hop_by_hop (fst e) \<and> fst e \<noteq> ''content-length''
          \<and> fst e \<noteq> ''set-cookie'') h"
    by (rule filter_cong) auto
  then have sent: "header_values k (rs_headers (relay_response rid status h body fallback)) =
      (if is_hop_by_hop k \<or> k = ''content-length'' \<or> k = ''set-cookie'' then []
       else header_values k h) @ (if k = ''x-request-id'' then [rid] else [])" for k
    using assms
    by (simp add: relay_response_def forward_response_headers_def header_values_append
        header_values_by_name [where P =
          "\<lambda>k. \<not> is_hop_by_hop k \<and> k \<noteq> ''content-length'' \<and> k \<noteq> ''set-cookie''"]
        header_values_Cons)
  show ?thesis
    unfolding header_get_values sent using own by (auto split: list.split)
qed

lemma relayed_headers_exact_witness:
  "header_values ''x-request-id'' (rs_headers (relay_response ''req-1'' 200
      [(''x-request-id'', ''up-9''), (''connection'', ''close'')] ''{}'' response_empty))
     = [''up-9'', ''req-1'']"
proof -
  have "valid_header_value ''req-1''"
    by (simp add: valid_header_value_def)
  moreover have "header_values ''x-request-id'' [(''x-request-id'', ''up-9''), (''connection'', ''close'')]
      = [''up-9'']" "\<not> is_hop_by_hop ''x-request-id''"
    by (simp_all add: header_values_def is_hop_by_hop_def HOP_BY_HOP_def to_ascii_lowercase_def
        ascii_lower_def)
  ultimately show ?thesis
    using relayed_headers_exact [of "''req-1''" "''x-request-id''" 200
        "[(''x-request-id'', ''up-9''), (''connection'', ''close'')]" "''{}''" response_empty]
    by simp
qed

section \<open>What is stored of a failure\<close>

text \<open>
  The credentials are redacted before the control characters are dropped, so one that arrives with a
  control character inside is put together again.
\<close>

lemma split_credential_survives:
  "sanitize_reason (''sk-1234'' @ [CHR 0x00] @ ''5678'') [''sk-12345678''] = ''sk-12345678''"
  by (simp add: sanitize_reason_def MIN_SCRUBBED_SECRET_LEN_def MAX_REASON_CHARS_def is_control_def
      lf_def cr_def sublist_Cons_right)

definition printable :: "char \<Rightarrow> bool" where
  "printable c \<longleftrightarrow> (let n = (of_char c :: nat) in 32 \<le> n \<and> n \<noteq> 127)"

text \<open>What becomes of one character of a reason.\<close>

definition clean_char :: "string \<Rightarrow> string" where
  "clean_char ch =
     (if is_control ch then (if ch = [lf] \<or> ch = [cr] \<or> ch = [CHR 0x09] then '' '' else []) else ch)"

lemma sanitize_chars_eq:
  "sanitize_chars i chs = concat (map clean_char (take (MAX_REASON_CHARS - i) chs))
     @ (if MAX_REASON_CHARS - i < length chs then ERROR_BODY_TRUNCATION_MARKER else [])"
proof (induction chs arbitrary: i)
  case (Cons ch chs)
  show ?case
  proof (cases "MAX_REASON_CHARS \<le> i")
    case False
    then obtain k where "MAX_REASON_CHARS - i = Suc k" "MAX_REASON_CHARS - Suc i = k"
      by (metis Suc_diff_Suc not_le)
    with False Cons [of "Suc i"] show ?thesis
      by (simp flip: clean_char_def)
  qed simp
qed simp

lemma utf8_chars_shape:
  "ch \<in> set (utf8_chars s) \<Longrightarrow> (\<exists>c. ch = [c]) \<or> (\<forall>c \<in> set ch. 128 \<le> (of_char c :: nat))"
proof (induction s rule: utf8_chars.induct)
  case (2 c s)
  show ?case
  proof (cases "(of_char c :: nat) < 0x80")
    case True
    with 2 show ?thesis by auto
  next
    case False
    have "128 \<le> (of_char b :: nat)" if "b \<in> set (takeWhile is_continuation s)" for b
      using set_takeWhileD [OF that] by (simp add: is_continuation_def Let_def)
    with 2(2,3) False show ?thesis
      by (simp only: utf8_chars.simps if_False set_simps insert_iff) fastforce
  qed
qed simp

lemma printable_128: "128 \<le> (of_char c :: nat) \<Longrightarrow> printable c"
  by (simp add: printable_def Let_def)

lemma clean_char_printable:
  assumes "(\<exists>c. ch = [c]) \<or> (\<forall>c \<in> set ch. 128 \<le> (of_char c :: nat))"
  shows "list_all printable (clean_char ch)"
proof (cases "is_control ch")
  case True
  then show ?thesis
    by (simp add: clean_char_def printable_def)
next
  case False
  with assms show ?thesis
    by (auto simp: clean_char_def is_control_def list_all_iff printable_128)
      (auto simp: printable_def Let_def)
qed

lemma marker_facts:
  "list_all printable ERROR_BODY_TRUNCATION_MARKER" "utf8_ok ERROR_BODY_TRUNCATION_MARKER"
  "length ERROR_BODY_TRUNCATION_MARKER = 15"
proof -
  let ?e = "map char_of [0xE2, 0x80, 0xA6 :: nat]"
  have "utf8_step ?e = (3, True)"
    by (simp add: utf8_step_True_iff byte_at_def second_ok_def continuation_at_def Let_def)
  then have "utf8_ok (take 3 ?e @ '' (truncated)'')"
    by (rule utf8_ok_step) (simp_all add: utf8_ok_ascii ascii_def)
  then show "utf8_ok ERROR_BODY_TRUNCATION_MARKER"
    by (simp add: ERROR_BODY_TRUNCATION_MARKER_def)
qed (simp_all add: ERROR_BODY_TRUNCATION_MARKER_def printable_def)

text \<open>
  a recorded reason is one printable line. Whatever the upstream or the network said, the reason
  is the first 512 characters of the redacted text, line breaks and tabs as spaces and every other
  control character dropped, with the mark of truncation when there were more; so it holds no byte
  below 32 and no 127, and cannot forge a log line or an escape sequence.
\<close>

theorem recorded_reason_is_one_line:
  "sanitize_reason reason credentials =
     (let chs = utf8_chars (redact_credentials reason credentials)
      in concat (map clean_char (take 512 chs))
         @ (if 512 < length chs then ERROR_BODY_TRUNCATION_MARKER else []))
   \<and> list_all printable (sanitize_reason reason credentials)"
proof -
  let ?chs = "utf8_chars (redact_credentials reason credentials)"
  have "list_all printable (clean_char ch)" if "ch \<in> set (take 512 ?chs)" for ch
    using that by (intro clean_char_printable utf8_chars_shape) (rule in_set_takeD)
  then have "list_all printable (concat (map clean_char (take 512 ?chs)))"
    by (auto simp: list_all_iff)
  then show ?thesis
    using marker_facts(1)
    by (simp add: sanitize_reason_def sanitize_chars_eq MAX_REASON_CHARS_def Let_def)
qed

lemma floor_boundary_facts:
  "is_char_boundary s (floor_boundary s n)" "floor_boundary s n \<le> n"
  by (induction n) (auto simp: is_char_boundary_def)

lemma truncate_utf8_facts:
  assumes "utf8_ok s"
  shows "utf8_ok (truncate_utf8 s n)" "length (truncate_utf8 s n) \<le> n"
  using assms utf8_ok_take [OF assms floor_boundary_facts(1)] floor_boundary_facts(2) [of s n]
  by (auto simp: truncate_utf8_def)

text \<open>
  the stored copy of an upstream's error body is bounded and readable. It is well-formed UTF-8 of
  at most 8192 bytes; a well-formed body of at most that size is stored as it is, and one that is
  longer ends with the mark of truncation.
\<close>

theorem stored_error_body_bounded:
  "utf8_ok (bounded_error_body body) \<and> length (bounded_error_body body) \<le> 8192
   \<and> (utf8_ok body \<and> length body \<le> 8192 \<longrightarrow> bounded_error_body body = body)
   \<and> (8192 < length body \<longrightarrow> suffix ERROR_BODY_TRUNCATION_MARKER (bounded_error_body body))"
proof -
  let ?d = "utf8_lossy (take (min (length body) MAX_STORED_ERROR_BODY) body)"
  have cut: "utf8_ok (truncate_utf8 ?d n)" "length (truncate_utf8 ?d n) \<le> n" for n
    using truncate_utf8_facts [of ?d n] by simp_all
  have "utf8_ok (bounded_error_body body)" "length (bounded_error_body body) \<le> 8192"
    using cut [of "8192 - 15"] cut [of 8192] utf8_ok_append [OF cut(1) marker_facts(2)]
    by (auto simp: bounded_error_body_def Let_def marker_facts(3) MAX_STORED_ERROR_BODY_def)
  moreover have "bounded_error_body body = body" if "utf8_ok body \<and> length body \<le> 8192"
    using that
    by (simp add: bounded_error_body_def Let_def MAX_STORED_ERROR_BODY_def utf8_lossy_ok truncate_utf8_def)
  moreover have "suffix ERROR_BODY_TRUNCATION_MARKER (bounded_error_body body)" if "8192 < length body"
    using that by (simp add: bounded_error_body_def Let_def MAX_STORED_ERROR_BODY_def suffixI)
  ultimately show ?thesis by blast
qed

lemma stored_error_body_bounded_witness:
  "bounded_error_body ''no credit'' = ''no credit''
   \<and> suffix ERROR_BODY_TRUNCATION_MARKER (bounded_error_body (replicate 9000 CHR ''x''))"
  using stored_error_body_bounded [of "''no credit''"] stored_error_body_bounded [of "replicate 9000 CHR ''x''"]
  by (simp add: utf8_ok_ascii ascii_def)

end
