(* ===== verification/Crypto.thy ===== *)
theory Crypto
  imports Portal_Prelude "HOL-Library.Word"
begin

text \<open>
  \<^verbatim>\<open>src/src/crypto.rs\<close>: HMAC-SHA256 over the hash of the \<^verbatim>\<open>sha2\<close> crate, which is a parameter, the
  comparison without an early exit, and unpadded URL-safe base64. Bytes are characters.
\<close>

unbundle bit_operations_syntax

section \<open>HMAC\<close>

definition SHA256_OUTPUT :: nat where
  "SHA256_OUTPUT = 32"

definition SHA256_BLOCK :: nat where
  "SHA256_BLOCK = 64"

definition xor_byte :: "char \<Rightarrow> nat \<Rightarrow> char" where
  "xor_byte b n = char_of ((of_char b :: nat) XOR n)"

text \<open>The key in a block of zeros, hashed down first when it does not fit.\<close>

definition hmac_block :: "(string \<Rightarrow> string) \<Rightarrow> string \<Rightarrow> string" where
  "hmac_block sha key =
     (let short = (if SHA256_BLOCK < length key then sha key else key)
      in short @ replicate (SHA256_BLOCK - length short) (char_of (0 :: nat)))"

definition hmac_sha256 :: "(string \<Rightarrow> string) \<Rightarrow> string \<Rightarrow> string \<Rightarrow> string" where
  "hmac_sha256 sha key msg =
     (let block = hmac_block sha key
      in sha (map (\<lambda>b. xor_byte b 0x5C) block @ sha (map (\<lambda>b. xor_byte b 0x36) block @ msg)))"

section \<open>Comparison\<close>

text \<open>The differences of all bytes are gathered in \<open>diff\<close> before it is looked at.\<close>

fun gather_diff :: "8 word \<Rightarrow> string \<Rightarrow> string \<Rightarrow> 8 word" where
  "gather_diff diff (x # xs) (y # ys) = gather_diff (diff OR (of_char x XOR of_char y)) xs ys"
| "gather_diff diff _ _ = diff"

definition constant_time_eq :: "string \<Rightarrow> string \<Rightarrow> bool" where
  "constant_time_eq a b = (if length a \<noteq> length b then False else gather_diff 0 a b = 0)"

section \<open>URL-safe base64\<close>

definition B64_ALPHABET :: string where
  "B64_ALPHABET = ''ABCDEFGHIJKLMNOPQRSTUVWXYZabcdefghijklmnopqrstuvwxyz0123456789-_''"

text \<open>A group of up to three bytes as one big-endian number, zero-padded on the right.\<close>

definition group_bits :: "string \<Rightarrow> 32 word" where
  "group_bits chunk =
     (let byte = (\<lambda>i. if i < length chunk then of_char (chunk ! i) else 0)
      in push_bit 16 (byte 0) OR push_bit 8 (byte 1) OR byte 2)"

definition encode_group :: "string \<Rightarrow> string" where
  "encode_group chunk =
     map (\<lambda>shift. B64_ALPHABET ! unat (drop_bit shift (group_bits chunk) AND 63))
       (take (length chunk + 1) [18, 12, 6, 0])"

fun base64url_encode :: "string \<Rightarrow> string" where
  "base64url_encode (a # b # c # rest) = encode_group [a, b, c] @ base64url_encode rest"
| "base64url_encode [] = []"
| "base64url_encode chunk = encode_group chunk"

text \<open>\<open>Iterator::position\<close> of a character of the alphabet.\<close>

definition alphabet_position :: "char \<Rightarrow> nat option" where
  "alphabet_position c = map_option fst (List.find (\<lambda>(i, a). a = c) (enumerate 0 B64_ALPHABET))"

fun decode_from :: "32 word \<Rightarrow> nat \<Rightarrow> string \<Rightarrow> string \<Rightarrow> string option" where
  "decode_from acc bits out [] =
     (if 6 \<le> bits \<or> acc AND (push_bit bits 1 - 1) \<noteq> 0 then None else Some out)"
| "decode_from acc bits out (c # cs) =
     (case alphabet_position c of
        None \<Rightarrow> None
      | Some v \<Rightarrow>
          (let acc = push_bit 6 acc OR of_nat v; bits = bits + 6
           in if 8 \<le> bits
              then decode_from acc (bits - 8) (out @ [char_of (unat (drop_bit (bits - 8) acc))]) cs
              else decode_from acc bits out cs))"

definition base64url_decode :: "string \<Rightarrow> string option" where
  "base64url_decode txt = decode_from 0 0 [] txt"

section \<open>Facts\<close>

lemma unat_of_char [simp]: "unat (of_char c :: 8 word) = of_char c"
proof -
  have "(of_char c :: 8 word) = of_nat (of_char c)"
    by (simp add: of_nat_of_char)
  then show ?thesis
    by (simp add: unat_of_nat)
qed

lemma word_xor_zero: "(a :: 8 word) XOR b = 0 \<longleftrightarrow> a = b"
  by (auto simp: bit_eq_iff bit_xor_iff)

lemma char_xor_zero: "(of_char x :: 8 word) XOR of_char y = 0 \<longleftrightarrow> x = y"
  unfolding word_xor_zero by (metis unat_of_char of_char_eq_iff)

lemma gather_diff_zero:
  "length a = length b \<Longrightarrow> gather_diff diff a b = 0 \<longleftrightarrow> diff = 0 \<and> a = b"
  by (induction a b arbitrary: diff rule: list_induct2) (auto simp: or_eq_0_iff char_xor_zero)

lemma constant_time_eq_iff: "constant_time_eq a b \<longleftrightarrow> a = b"
  by (auto simp: constant_time_eq_def gather_diff_zero)

end
