(* ===== verification/Api_Keys.thy ===== *)
theory Api_Keys
  imports Crypto Statement_Store
begin

text \<open>
  \<^verbatim>\<open>src/src/apikeys\<close>: the partner API keys. The table \<open>api_keys\<close> is the list of its rows with
  its two unique keys (the hash, and one active key per consumer); a key is looked up by its hash in
  a snapshot that is reloaded after every change and on a timer. SHA-256, the hex rendering of the
  \<^verbatim>\<open>hex\<close> crate, the random bytes of the system and the faults of the database are parameters.
\<close>

section \<open>Keys and their hashes\<close>

definition KEY_PREFIX :: string where
  "KEY_PREFIX = ''pp_''"

definition KEY_PREFIX_LEN :: nat where
  "KEY_PREFIX_LEN = 12"

definition MIN_SECRET_LEN :: nat where
  "MIN_SECRET_LEN = 32"

datatype secret_error = SecretMissing | SecretTooShort nat

record key_crypto =
  kc_sha256 :: "string \<Rightarrow> string"
  kc_hex :: "string \<Rightarrow> string"

definition derive_key_hash :: "key_crypto \<Rightarrow> string \<Rightarrow> string \<Rightarrow> string" where
  "derive_key_hash K secret plaintext = kc_hex K (hmac_sha256 (kc_sha256 K) secret plaintext)"

definition key_prefix_of :: "string \<Rightarrow> string" where
  "key_prefix_of plaintext = take_chars KEY_PREFIX_LEN plaintext"

text \<open>\<open>value\<close> is the environment variable; an unset one is an empty one.\<close>

definition load_secret :: "string option \<Rightarrow> secret_error + string" where
  "load_secret var =
     (let bytes = (case var of None \<Rightarrow> [] | Some v \<Rightarrow> v)
      in if bytes = [] then Inl SecretMissing
         else if length bytes < MIN_SECRET_LEN then Inl (SecretTooShort (length bytes))
         else Inr bytes)"

text \<open>\<open>entropy\<close> is what reading 32 bytes of \<^verbatim>\<open>/dev/urandom\<close> gave.\<close>

definition generate_plaintext :: "string + string \<Rightarrow> string + string" where
  "generate_plaintext entropy = res_bind entropy (\<lambda>bytes. Inr (KEY_PREFIX @ base64url_encode bytes))"

section \<open>Rows, views and errors\<close>

text \<open>The \<open>CHECK\<close> of the column admits the texts of these two only.\<close>

datatype key_status = KeyActive | KeyRevoked

definition key_status_parse :: "string \<Rightarrow> key_status option" where
  "key_status_parse s =
     (if s = ''active'' then Some KeyActive else if s = ''revoked'' then Some KeyRevoked else None)"

record api_key_row =
  ak_id :: i64
  ak_name :: string
  ak_consumer_id :: string
  ak_key_prefix :: string
  ak_status :: key_status
  ak_created_at :: string
  ak_updated_at :: string
  ak_expires_at :: "string option"
  ak_revoked_at :: "string option"

record key_row = api_key_row +
  ak_key_hash :: string

definition row_to_api_key :: "key_row \<Rightarrow> api_key_row" where
  "row_to_api_key r = api_key_row.truncate r"

datatype api_key_error =
    KeyDatabase rusqlite_error
  | KeyNotFound i64
  | KeyNotActive i64
  | AlreadyActive string
  | KeyInvalid string

definition require_text :: "string \<Rightarrow> string \<Rightarrow> api_key_error + string" where
  "require_text field txt =
     (let trimmed = trim txt
      in if trimmed = [] then Inl (KeyInvalid (field @ '' must not be empty'')) else Inr trimmed)"

section \<open>Statements on the table\<close>

text \<open>A key of \<open>insert_key\<close>, which fills in the status.\<close>

record new_key =
  nk_name :: string
  nk_consumer_id :: string
  nk_prefix :: string
  nk_hash :: string
  nk_now :: string
  nk_expires_at :: "string option"

definition fetch_row :: "key_row list \<Rightarrow> i64 \<Rightarrow> key_row option" where
  "fetch_row keys i = find (\<lambda>r. ak_id r = i) keys"

definition unique_violation :: "rusqlite_error \<Rightarrow> bool" where
  "unique_violation e = (case e of SqliteFailure c \<Rightarrow> c = SQLITE_CONSTRAINT_UNIQUE | _ \<Rightarrow> False)"

definition active_key_exists :: "key_row list \<Rightarrow> string \<Rightarrow> bool" where
  "active_key_exists keys c \<longleftrightarrow> (\<exists>r \<in> set keys. ak_consumer_id r = c \<and> ak_status r = KeyActive)"

text \<open>The new row, under both unique keys; the answer is its id, the last one of the table.\<close>

definition new_row :: "new_key \<Rightarrow> i64 \<Rightarrow> key_row" where
  "new_row k i =
     \<lparr>ak_id = i, ak_name = nk_name k, ak_consumer_id = nk_consumer_id k,
      ak_key_prefix = nk_prefix k, ak_status = KeyActive, ak_created_at = nk_now k,
      ak_updated_at = nk_now k, ak_expires_at = nk_expires_at k, ak_revoked_at = None,
      ak_key_hash = nk_hash k\<rparr>"

definition insert_key :: "new_key \<Rightarrow> key_row list \<Rightarrow> rusqlite_error + (i64 \<times> key_row list)" where
  "insert_key k keys =
     (if nk_hash k \<in> ak_key_hash ` set keys \<or> active_key_exists keys (nk_consumer_id k)
      then Inl (SqliteFailure SQLITE_CONSTRAINT_UNIQUE)
      else let i = fresh_id (map ak_id keys) in Inr (i, keys @ [new_row k i]))"

definition fetch_written_row :: "key_row list \<Rightarrow> i64 \<Rightarrow> rusqlite_error + key_row" where
  "fetch_written_row keys i =
     (case fetch_row keys i of None \<Rightarrow> Inl QueryReturnedNoRows | Some r \<Rightarrow> Inr r)"

definition update_key :: "i64 \<Rightarrow> (key_row \<Rightarrow> key_row) \<Rightarrow> key_row list \<Rightarrow> key_row list" where
  "update_key i f keys = map (\<lambda>r. if ak_id r = i then f r else r) keys"

definition revoked :: "string \<Rightarrow> key_row \<Rightarrow> key_row" where
  "revoked now r = r\<lparr>ak_status := KeyRevoked, ak_revoked_at := Some now, ak_updated_at := now\<rparr>"

definition renamed :: "string \<Rightarrow> string \<Rightarrow> key_row \<Rightarrow> key_row" where
  "renamed name now r = r\<lparr>ak_name := name, ak_updated_at := now\<rparr>"

section \<open>The snapshot\<close>

type_synonym key_snapshot = "string \<Rightarrow> runtime_config option"

text \<open>
  The models of a consumer with their prices, in the order of the names (a \<open>BTreeMap\<close>); the table
  has one row for each consumer and model.
\<close>

definition models_of :: "db \<Rightarrow> string \<Rightarrow> (string \<times> pricing_snapshot) list" where
  "models_of s c =
     sort_key fst
       (map (\<lambda>m. (mr_model m, \<lparr>ps_input = PricePerMillion (mr_input m),
                              ps_cached_input = PricePerMillion (mr_cached_input m),
                              ps_output = PricePerMillion (mr_output m)\<rparr>))
          (filter (\<lambda>m. mr_consumer_id m = c) (partner_models s)))"

text \<open>The subquery of the join: the oldest complete, non-zero, unpaid invoice past its due date.\<close>

definition overdue_invoice :: "string \<Rightarrow> string \<Rightarrow> db \<Rightarrow> statement_row option" where
  "overdue_invoice now_text c s =
     (case sort_key (\<lambda>d. (st_due_at d, st_id d))
             (statements_where (\<lambda>d. st_consumer_id d = c \<and> st_billing_mode d = ''invoice''
                \<and> st_paid_at d = None \<and> st_incomplete d = 0 \<and> 0 < st_total d
                \<and> (case st_due_at d of None \<Rightarrow> False | Some due \<Rightarrow> due \<le> now_text)) s) of
        [] \<Rightarrow> None
      | d # _ \<Rightarrow> Some d)"

definition overdue_row_of :: "statement_row \<Rightarrow> overdue_row" where
  "overdue_row_of d =
     \<lparr>or_billing_mode = ''invoice'', or_id = st_id d, or_billing_date = st_billing_date d,
      or_due_at = (case st_due_at d of None \<Rightarrow> [] | Some due \<Rightarrow> due), or_total = st_total d,
      or_incomplete = st_incomplete d\<rparr>"

text \<open>One row of the query; \<open>models\<close> is what is left of the map the models were collected in.\<close>

definition load_row ::
  "time_crate \<Rightarrow> instant \<Rightarrow> db \<Rightarrow> (string \<times> pricing_snapshot) list \<Rightarrow> key_row \<Rightarrow>
   string \<times> runtime_config" where
  "load_row T now s models k =
     (let c = ak_consumer_id k;
          partner = find (\<lambda>p. pr_consumer_id p = c) (partners s);
          mode_text = (case partner of None \<Rightarrow> ''invoice'' | Some p \<Rightarrow> pr_billing_mode p);
          email = (case partner of None \<Rightarrow> [] | Some p \<Rightarrow> pr_billing_email p);
          mode = (case mode_parse mode_text of None \<Rightarrow> Invoice | Some m \<Rightarrow> m);
          overdue = (case overdue_invoice (format_ts T now) c s of
                       None \<Rightarrow> [] | Some d \<Rightarrow> [overdue_row_of d])
      in (ak_key_hash k,
          config_new c (ak_name k) mode email (status_for T mode_text now overdue) models))"

fun load_rows ::
  "time_crate \<Rightarrow> instant \<Rightarrow> db \<Rightarrow> string list \<Rightarrow> key_row list \<Rightarrow> (string \<times> runtime_config) list" where
  "load_rows T now s taken [] = []"
| "load_rows T now s taken (k # ks) =
     load_row T now s (if ak_consumer_id k \<in> set taken then [] else models_of s (ak_consumer_id k)) k
     # load_rows T now s (ak_consumer_id k # taken) ks"

definition usable :: "string \<Rightarrow> key_row \<Rightarrow> bool" where
  "usable now_text k \<longleftrightarrow>
     ak_status k = KeyActive
     \<and> (case ak_expires_at k of None \<Rightarrow> True | Some expires \<Rightarrow> now_text < expires)"

definition load_active ::
  "time_crate \<Rightarrow> instant \<Rightarrow> fault \<Rightarrow> key_row list \<Rightarrow> db \<Rightarrow>
   rusqlite_error + (string \<times> runtime_config) list" where
  "load_active T now flt keys s =
     pool_read flt (\<lambda>s. Inr (load_rows T now s []
       (sort_key ak_consumer_id (filter (usable (format_ts T now)) keys)))) s"

text \<open>What a reload says of a partner that was in the previous snapshot under the same hash.\<close>

datatype transition = ServiceLost | ServiceResumed

definition service_transition :: "runtime_config option \<Rightarrow> runtime_config \<Rightarrow> transition option" where
  "service_transition before config =
     (if (case before of Some old \<Rightarrow> config_is_suspended old = config_is_suspended config
                       | None \<Rightarrow> False) then None
      else case (config_is_suspended config, map_option config_is_suspended before) of
             (True, Some False) \<Rightarrow> Some ServiceLost
           | (True, None) \<Rightarrow> Some ServiceLost
           | (False, Some True) \<Rightarrow> Some ServiceResumed
           | _ \<Rightarrow> None)"

definition log_service_transitions ::
  "key_snapshot \<Rightarrow> (string \<times> runtime_config) list \<Rightarrow> (string \<times> transition) list" where
  "log_service_transitions previous rows =
     List.map_filter (\<lambda>(h, c). map_option (\<lambda>t. (rc_consumer_id c, t)) (service_transition (previous h) c))
       rows"

text \<open>
  The two halves of a reload are not serialised with those of another task: \<open>load_active\<close> reads the
  tables \<open>keys\<close> and \<open>s\<close> in one transaction, and \<open>swap_snapshot\<close> later replaces the snapshot that is
  there by then, \<open>snap\<close>, by what was read.
\<close>

definition swap_snapshot ::
  "rusqlite_error + (string \<times> runtime_config) list \<Rightarrow> key_snapshot \<Rightarrow>
   (api_key_error + nat) \<times> key_snapshot" where
  "swap_snapshot loaded snap =
     (case loaded of
        Inl e \<Rightarrow> (Inl (KeyDatabase e), snap)
      | Inr rows \<Rightarrow> (Inr (length rows), snapshot_from_rows rows))"

definition refresh ::
  "time_crate \<Rightarrow> instant \<Rightarrow> fault \<Rightarrow> key_row list \<Rightarrow> db \<Rightarrow> key_snapshot \<Rightarrow>
   (api_key_error + nat) \<times> key_snapshot" where
  "refresh T now flt keys s snap = swap_snapshot (load_active T now flt keys s) snap"

text \<open>A hash and a lookup; the tables are not read.\<close>

definition authenticate_key :: "key_crypto \<Rightarrow> string \<Rightarrow> key_snapshot \<Rightarrow> string \<Rightarrow> runtime_config option" where
  "authenticate_key K secret snap plaintext = snap (derive_key_hash K secret plaintext)"

section \<open>Mutations\<close>

text \<open>
  The table as the database has it, and the snapshot of this instance. \<open>key_env\<close> is what surrounds
  one mutation: the instant its texts are made at, the failure of beginning or of a statement, the
  failure of the commit, and the instant, the failure and the other tables of the reload behind it.
  \<open>ke_before_load\<close> and \<open>ke_before_swap\<close> are what other tasks and other instances do to the table and to
  this snapshot between the commit and the load, and between the load and the swap.
\<close>

record key_store =
  ks_keys :: "key_row list"
  ks_snapshot :: key_snapshot

record key_env =
  ke_now :: instant
  ke_begin_fault :: fault
  ke_commit_fault :: fault
  ke_refresh_now :: instant
  ke_refresh_fault :: fault
  ke_db :: db
  ke_before_load :: "key_store \<Rightarrow> key_store"
  ke_before_swap :: "key_store \<Rightarrow> key_store"

definition reload_between ::
  "time_crate \<Rightarrow> instant \<Rightarrow> fault \<Rightarrow> db \<Rightarrow> (key_store \<Rightarrow> key_store) \<Rightarrow> key_store \<Rightarrow>
   (api_key_error + nat) \<times> key_store" where
  "reload_between T now flt s meanwhile st =
     (let loaded = load_active T now flt (ks_keys st) s;
          found = meanwhile st;
          (res, snap) = swap_snapshot loaded (ks_snapshot found)
      in (res, found\<lparr>ks_snapshot := snap\<rparr>))"

datatype mutation = MutSqlite rusqlite_error | MutDomain api_key_error

datatype 'a key_outcome = OutDone 'a | OutMissing | OutUnchanged 'a

definition outcome_result ::
  "i64 \<Rightarrow> ('a \<Rightarrow> api_key_error + unit) \<Rightarrow> 'a key_outcome \<Rightarrow> api_key_error + 'a" where
  "outcome_result i check out =
     (case out of
        OutDone v \<Rightarrow> res_bind (check v) (\<lambda>_. Inr v)
      | OutUnchanged v \<Rightarrow> res_bind (check v) (\<lambda>_. Inr v)
      | OutMissing \<Rightarrow> Inl (KeyNotFound i))"

definition done_or_missing :: "'a key_outcome \<Rightarrow> api_key_error + 'a" where
  "done_or_missing out =
     (case out of OutDone v \<Rightarrow> Inr v | OutUnchanged v \<Rightarrow> Inr v | OutMissing \<Rightarrow> Inl (KeyNotFound 0))"

definition require_active :: "key_row \<Rightarrow> api_key_error + unit" where
  "require_active r = (if ak_status r = KeyActive then Inr () else Inl (KeyNotActive (ak_id r)))"

definition mutate_domain ::
  "time_crate \<Rightarrow> key_env \<Rightarrow> (key_row list \<Rightarrow> mutation + ('a key_outcome \<times> key_row list)) \<Rightarrow>
   key_store \<Rightarrow> (api_key_error + 'a key_outcome) \<times> key_store" where
  "mutate_domain T env f st =
     (case ke_begin_fault env of
        Some e \<Rightarrow> (Inl (KeyDatabase e), st)
      | None \<Rightarrow>
          (case f (ks_keys st) of
             Inl (MutDomain refused) \<Rightarrow> (Inl refused, st)
           | Inl (MutSqlite e) \<Rightarrow> (Inl (KeyDatabase e), st)
           | Inr (out, keys) \<Rightarrow>
               (case ke_commit_fault env of
                  Some e \<Rightarrow> (Inl (KeyDatabase e), st)
                | None \<Rightarrow>
                    (Inr out,
                     snd (reload_between T (ke_refresh_now env) (ke_refresh_fault env) (ke_db env)
                       (ke_before_swap env) (ke_before_load env (st\<lparr>ks_keys := keys\<rparr>)))))))"

definition mutate ::
  "time_crate \<Rightarrow> key_env \<Rightarrow> (key_row list \<Rightarrow> rusqlite_error + ('a key_outcome \<times> key_row list)) \<Rightarrow>
   key_store \<Rightarrow> (api_key_error + 'a key_outcome) \<times> key_store" where
  "mutate T env f = mutate_domain T env (\<lambda>keys. case f keys of Inl e \<Rightarrow> Inl (MutSqlite e) | Inr x \<Rightarrow> Inr x)"

section \<open>Operations of the store\<close>

definition create_tx :: "new_key \<Rightarrow> key_row list \<Rightarrow> mutation + (key_row key_outcome \<times> key_row list)" where
  "create_tx k keys =
     (case insert_key k keys of
        Inl e \<Rightarrow> Inl (if unique_violation e \<and> active_key_exists keys (nk_consumer_id k)
                       then MutDomain (AlreadyActive (nk_consumer_id k)) else MutSqlite e)
      | Inr (i, keys') \<Rightarrow>
          (case fetch_written_row keys' i of
             Inl e \<Rightarrow> Inl (MutSqlite e)
           | Inr r \<Rightarrow> Inr (OutDone r, keys')))"

definition create_with_plaintext ::
  "key_crypto \<Rightarrow> time_crate \<Rightarrow> string \<Rightarrow> key_env \<Rightarrow> string \<Rightarrow> string \<Rightarrow> instant option \<Rightarrow> string \<Rightarrow>
   key_store \<Rightarrow> (api_key_error + api_key_row) \<times> key_store" where
  "create_with_plaintext K T secret env name consumer expires_at plaintext st =
     (case require_text ''name'' name of
        Inl e \<Rightarrow> (Inl e, st)
      | Inr name' \<Rightarrow>
          (case require_text ''consumer_id'' consumer of
             Inl e \<Rightarrow> (Inl e, st)
           | Inr consumer' \<Rightarrow>
               if trim plaintext = [] then (Inl (KeyInvalid ''plaintext must not be empty''), st)
               else
                 (let k = \<lparr>nk_name = name', nk_consumer_id = consumer',
                           nk_prefix = key_prefix_of plaintext,
                           nk_hash = derive_key_hash K secret plaintext,
                           nk_now = format_ts T (ke_now env),
                           nk_expires_at = map_option (format_ts T) expires_at\<rparr>;
                      (res, st') = mutate_domain T env (create_tx k) st
                  in (res_bind res (\<lambda>out. res_bind (done_or_missing out) (\<lambda>r. Inr (row_to_api_key r))),
                      st'))))"

definition entropy_error :: "string \<Rightarrow> api_key_error" where
  "entropy_error e = KeyInvalid (''could not read system entropy: '' @ e)"

definition create_key ::
  "key_crypto \<Rightarrow> time_crate \<Rightarrow> string \<Rightarrow> string + string \<Rightarrow> key_env \<Rightarrow> string \<Rightarrow> string \<Rightarrow>
   instant option \<Rightarrow> key_store \<Rightarrow> (api_key_error + (api_key_row \<times> string)) \<times> key_store" where
  "create_key K T secret entropy env name consumer expires_at st =
     (case generate_plaintext entropy of
        Inl e \<Rightarrow> (Inl (entropy_error e), st)
      | Inr plaintext \<Rightarrow>
          (let (res, st') = create_with_plaintext K T secret env name consumer expires_at plaintext st
           in (res_bind res (\<lambda>r. Inr (r, plaintext)), st')))"

text \<open>Reads open a connection of their own.\<close>

definition key_read :: "fault \<Rightarrow> 'a \<Rightarrow> api_key_error + 'a" where
  "key_read flt v = (case flt of Some e \<Rightarrow> Inl (KeyDatabase e) | None \<Rightarrow> Inr v)"

definition get_key :: "fault \<Rightarrow> i64 \<Rightarrow> key_store \<Rightarrow> api_key_error + api_key_row option" where
  "get_key flt i st = key_read flt (map_option row_to_api_key (fetch_row (ks_keys st) i))"

definition list_keys :: "fault \<Rightarrow> key_store \<Rightarrow> api_key_error + api_key_row list" where
  "list_keys flt st = key_read flt (map row_to_api_key (rev (sort_key ak_id (ks_keys st))))"

definition update_tx ::
  "i64 \<Rightarrow> string option \<Rightarrow> string \<Rightarrow> key_row list \<Rightarrow> rusqlite_error + (key_row key_outcome \<times> key_row list)" where
  "update_tx i name now keys =
     (case fetch_row keys i of
        None \<Rightarrow> Inr (OutMissing, keys)
      | Some current \<Rightarrow>
          if ak_status current \<noteq> KeyActive then Inr (OutUnchanged current, keys)
          else
            (let new_name = (case name of None \<Rightarrow> ak_name current | Some n \<Rightarrow> n);
                 keys' = update_key i (renamed new_name now) keys
             in res_bind (fetch_written_row keys' i) (\<lambda>r. Inr (OutDone r, keys'))))"

text \<open>The name is checked trimmed and stored as it is.\<close>

definition update_name ::
  "time_crate \<Rightarrow> key_env \<Rightarrow> i64 \<Rightarrow> string option \<Rightarrow> key_store \<Rightarrow> (api_key_error + api_key_row) \<times> key_store" where
  "update_name T env i name st =
     (case (case name of None \<Rightarrow> Inr [] | Some n \<Rightarrow> require_text ''name'' n) of
        Inl e \<Rightarrow> (Inl e, st)
      | Inr _ \<Rightarrow>
          (let (res, st') = mutate T env (update_tx i name (format_ts T (ke_now env))) st
           in (res_bind res (\<lambda>out. res_bind (outcome_result i require_active out)
                 (\<lambda>r. Inr (row_to_api_key r))), st')))"

definition revoke_tx ::
  "i64 \<Rightarrow> string \<Rightarrow> key_row list \<Rightarrow> rusqlite_error + (key_row key_outcome \<times> key_row list)" where
  "revoke_tx i now keys =
     (case fetch_row keys i of
        None \<Rightarrow> Inr (OutMissing, keys)
      | Some current \<Rightarrow>
          if ak_status current = KeyActive
          then (let keys' = update_key i (revoked now) keys
                in res_bind (fetch_written_row keys' i) (\<lambda>r. Inr (OutDone r, keys')))
          else Inr (OutUnchanged current, keys))"

definition revoke_key ::
  "time_crate \<Rightarrow> key_env \<Rightarrow> i64 \<Rightarrow> key_store \<Rightarrow> (api_key_error + api_key_row) \<times> key_store" where
  "revoke_key T env i st =
     (let (res, st') = mutate T env (revoke_tx i (format_ts T (ke_now env))) st
      in (res_bind res (\<lambda>out. res_bind (outcome_result i (\<lambda>_. Inr ()) out)
            (\<lambda>r. Inr (row_to_api_key r))), st'))"

definition rotate_tx ::
  "i64 \<Rightarrow> string \<Rightarrow> string \<Rightarrow> string \<Rightarrow> key_row list \<Rightarrow>
   rusqlite_error + ((key_row \<times> key_row option) key_outcome \<times> key_row list)" where
  "rotate_tx i prefix hash now keys =
     (case fetch_row keys i of
        None \<Rightarrow> Inr (OutMissing, keys)
      | Some current \<Rightarrow>
          if ak_status current \<noteq> KeyActive then Inr (OutUnchanged (current, None), keys)
          else
            res_bind
              (insert_key
                 \<lparr>nk_name = ak_name current, nk_consumer_id = ak_consumer_id current,
                  nk_prefix = prefix, nk_hash = hash, nk_now = now,
                  nk_expires_at = ak_expires_at current\<rparr>
                 (update_key i (revoked now) keys))
              (\<lambda>(j, keys'). res_bind (fetch_written_row keys' j)
                 (\<lambda>created. Inr (OutDone (current, Some created), keys'))))"

definition rotate_key ::
  "key_crypto \<Rightarrow> time_crate \<Rightarrow> string \<Rightarrow> string + string \<Rightarrow> key_env \<Rightarrow> i64 \<Rightarrow> key_store \<Rightarrow>
   (api_key_error + (api_key_row \<times> string)) \<times> key_store" where
  "rotate_key K T secret entropy env i st =
     (case generate_plaintext entropy of
        Inl e \<Rightarrow> (Inl (entropy_error e), st)
      | Inr plaintext \<Rightarrow>
          (let (res, st') =
                 mutate T env
                   (rotate_tx i (key_prefix_of plaintext) (derive_key_hash K secret plaintext)
                      (format_ts T (ke_now env))) st
           in (res_bind res (\<lambda>out.
                 res_bind (outcome_result i (\<lambda>(previous, _). require_active previous) out)
                   (\<lambda>(_, replacement). case replacement of
                      None \<Rightarrow> Inl (KeyNotActive i)
                    | Some r \<Rightarrow> Inr (row_to_api_key r, plaintext))), st')))"

section \<open>The refresher\<close>

text \<open>
  \<^verbatim>\<open>src/src/apikeys/refresher.rs\<close>: the first load is fatal when it fails, a later one keeps the
  last snapshot.
\<close>

definition MIN_REFRESH_INTERVAL_MS :: nat where
  "MIN_REFRESH_INTERVAL_MS = 1"

record refresher =
  rf_interval_ms :: nat
  rf_initial_keys :: nat

definition refresher_new ::
  "time_crate \<Rightarrow> instant \<Rightarrow> fault \<Rightarrow> db \<Rightarrow> nat \<Rightarrow> key_store \<Rightarrow>
   (api_key_error + refresher) \<times> key_store" where
  "refresher_new T now flt s interval_ms st =
     (let (res, snap) = refresh T now flt (ks_keys st) s (ks_snapshot st)
      in (res_bind res (\<lambda>n. Inr \<lparr>rf_interval_ms = max interval_ms MIN_REFRESH_INTERVAL_MS,
                               rf_initial_keys = n\<rparr>),
          st\<lparr>ks_snapshot := snap\<rparr>))"

definition reload ::
  "time_crate \<Rightarrow> instant \<Rightarrow> fault \<Rightarrow> db \<Rightarrow> (key_store \<Rightarrow> key_store) \<Rightarrow> key_store \<Rightarrow> key_store" where
  "reload T now flt s meanwhile st = snd (reload_between T now flt s meanwhile st)"

end
