(* ===== verification/Key_Table.thy ===== *)
theory Key_Table
  imports Api_Keys
begin

text \<open>
  The integrity of the key table: what every operation of the key store keeps of it, whichever
  instance runs it, with any arguments, at any instant, and whatever fails.
\<close>

section \<open>The invariant\<close>

definition live :: "key_row \<Rightarrow> bool" where
  "live r \<longleftrightarrow> ak_status r = KeyActive"

text \<open>
  The unique columns, a revocation date exactly on revoked keys, and one live key for a consumer.
\<close>

definition keys_ok :: "key_row list \<Rightarrow> bool" where
  "keys_ok keys \<longleftrightarrow>
     distinct (map ak_id keys) \<and> distinct (map ak_key_hash keys)
     \<and> (\<forall>r \<in> set keys. live r \<longleftrightarrow> ak_revoked_at r = None)
     \<and> distinct (map ak_consumer_id (filter live keys))"

text \<open>What may happen to a row: it is renamed or revoked while it is live, and never again.\<close>

definition key_evolves :: "key_row \<Rightarrow> key_row \<Rightarrow> bool" where
  "key_evolves r q \<longleftrightarrow>
     ak_id q = ak_id r \<and> ak_key_hash q = ak_key_hash r \<and> ak_consumer_id q = ak_consumer_id r
     \<and> ak_key_prefix q = ak_key_prefix r \<and> ak_created_at q = ak_created_at r
     \<and> ak_expires_at q = ak_expires_at r \<and> (\<not> live r \<longrightarrow> q = r)"

definition table_evolves :: "key_row list \<Rightarrow> key_row list \<Rightarrow> bool" where
  "table_evolves keys keys' \<longleftrightarrow> (\<forall>r \<in> set keys. \<exists>q \<in> set keys'. key_evolves r q)"

definition keeps_table :: "key_row list \<Rightarrow> key_row list \<Rightarrow> bool" where
  "keeps_table keys keys' \<longleftrightarrow> (keys_ok keys \<longrightarrow> keys_ok keys' \<and> table_evolves keys keys')"

lemma key_evolves_refl [simp]: "key_evolves r r"
  by (simp add: key_evolves_def)

lemma key_evolves_trans: "key_evolves r q \<Longrightarrow> key_evolves q p \<Longrightarrow> key_evolves r p"
  by (auto simp: key_evolves_def)

lemma table_evolves_trans: "table_evolves a b \<Longrightarrow> table_evolves b c \<Longrightarrow> table_evolves a c"
  unfolding table_evolves_def by (meson key_evolves_trans)

lemma table_evolves_refl [simp]: "table_evolves keys keys"
  unfolding table_evolves_def using key_evolves_refl by blast

lemma table_evolves_append [simp]: "table_evolves keys (keys @ new)"
  unfolding table_evolves_def using key_evolves_refl by fastforce

lemma keeps_table_refl [simp]: "keeps_table keys keys"
  by (simp add: keeps_table_def)

lemma keeps_table_trans: "keeps_table a b \<Longrightarrow> keeps_table b c \<Longrightarrow> keeps_table a c"
  by (auto simp: keeps_table_def intro: table_evolves_trans)

lemma keys_ok_Nil [simp]: "keys_ok []"
  by (simp add: keys_ok_def)

section \<open>Statements\<close>

lemma active_key_exists_iff: "active_key_exists keys c \<longleftrightarrow> c \<in> ak_consumer_id ` set (filter live keys)"
  by (auto simp: active_key_exists_def live_def)

lemma new_row_simps [simp]:
  "ak_id (new_row k i) = i" "ak_key_hash (new_row k i) = nk_hash k"
  "ak_consumer_id (new_row k i) = nk_consumer_id k" "live (new_row k i)"
  "ak_revoked_at (new_row k i) = None" "ak_name (new_row k i) = nk_name k"
  "ak_expires_at (new_row k i) = nk_expires_at k" "ak_key_prefix (new_row k i) = nk_prefix k"
  by (simp_all add: new_row_def live_def)

lemma row_change_simps [simp]:
  "ak_id (revoked now r) = ak_id r" "ak_key_hash (revoked now r) = ak_key_hash r"
  "ak_consumer_id (revoked now r) = ak_consumer_id r" "\<not> live (revoked now r)"
  "ak_revoked_at (revoked now r) = Some now" "ak_expires_at (revoked now r) = ak_expires_at r"
  "ak_id (renamed n now r) = ak_id r" "ak_key_hash (renamed n now r) = ak_key_hash r"
  "ak_consumer_id (renamed n now r) = ak_consumer_id r" "live (renamed n now r) = live r"
  "ak_revoked_at (renamed n now r) = ak_revoked_at r" "ak_expires_at (renamed n now r) = ak_expires_at r"
  by (simp_all add: revoked_def renamed_def live_def)

lemma insert_key_cases:
  assumes "insert_key k keys = Inr (i, keys')"
  obtains "i = fresh_id (map ak_id keys)" "keys' = keys @ [new_row k i]"
    "nk_hash k \<notin> ak_key_hash ` set keys" "\<not> active_key_exists keys (nk_consumer_id k)"
  using assms by (auto simp: insert_key_def Let_def split: if_splits)

lemma insert_key_keeps:
  assumes "insert_key k keys = Inr (i, keys')"
  shows "keeps_table keys keys'"
  using assms
proof (cases rule: insert_key_cases)
  case 1
  have "i \<notin> ak_id ` set keys"
    using fresh_id_notin [of "map ak_id keys"] 1(1) by simp
  with 1 have "keys_ok keys \<longrightarrow> keys_ok keys'"
    by (auto simp: keys_ok_def active_key_exists_iff)
  with 1(2) show ?thesis by (simp add: keeps_table_def)
qed

lemma fetch_row_Some: "fetch_row keys i = Some r \<Longrightarrow> r \<in> set keys \<and> ak_id r = i"
  by (auto simp: fetch_row_def find_Some_iff)

lemma same_id: "distinct (map ak_id keys) \<Longrightarrow> r \<in> set keys \<Longrightarrow> q \<in> set keys \<Longrightarrow> ak_id r = ak_id q \<Longrightarrow> r = q"
  by (auto simp: distinct_map dest: inj_onD)

lemma fetch_row_mem:
  "distinct (map ak_id keys) \<Longrightarrow> fetch_row keys i = Some r \<longleftrightarrow> r \<in> set keys \<and> ak_id r = i"
proof
  assume d: "distinct (map ak_id keys)" and r: "r \<in> set keys \<and> ak_id r = i"
  then have "fetch_row keys i \<noteq> None"
    by (auto simp: fetch_row_def find_None_iff)
  then show "fetch_row keys i = Some r"
    using d r fetch_row_Some same_id by blast
qed (rule fetch_row_Some)

lemma set_update_key: "set (update_key i f keys) = (\<lambda>r. if ak_id r = i then f r else r) ` set keys"
  by (simp add: update_key_def)

lemma update_key_evolves:
  assumes "\<And>r. r \<in> set keys \<Longrightarrow> ak_id r = i \<Longrightarrow> key_evolves r (f r)"
  shows "table_evolves keys (update_key i f keys)"
  unfolding table_evolves_def set_update_key bex_simps
  by (auto simp: assms intro!: bexI)

lemma update_key_maps:
  assumes "\<And>r. ak_id (f r) = ak_id r" "\<And>r. ak_key_hash (f r) = ak_key_hash r"
  shows "map ak_id (update_key i f keys) = map ak_id keys"
    "map ak_key_hash (update_key i f keys) = map ak_key_hash keys"
  using assms by (simp_all add: update_key_def)

lemma live_after_revocation:
  "filter live (update_key i (revoked now) keys) = filter (\<lambda>r. ak_id r \<noteq> i) (filter live keys)"
  by (induction keys) (auto simp: update_key_def)

lemma live_after_renaming:
  "filter live (update_key i (renamed n now) keys) = update_key i (renamed n now) (filter live keys)"
  by (induction keys) (auto simp: update_key_def)

lemma found_is_only:
  "keys_ok keys \<Longrightarrow> fetch_row keys i = Some current \<Longrightarrow> r \<in> set keys \<Longrightarrow> ak_id r = i \<Longrightarrow> r = current"
  using fetch_row_mem [of keys i r] by (simp add: keys_ok_def)

lemma distinct_filtered_map: "distinct (map f xs) \<Longrightarrow> distinct (map f (filter P xs))"
  by (rule distinct_map_filter)

lemma revocation_keeps:
  assumes "fetch_row keys i = Some current" "live current"
  shows "keeps_table keys (update_key i (revoked now) keys)"
proof -
  have "keys_ok (update_key i (revoked now) keys)" if "keys_ok keys"
    using that unfolding keys_ok_def live_after_revocation
    by (auto simp: update_key_maps set_update_key simp del: filter_filter intro: distinct_filtered_map)
  moreover have "table_evolves keys (update_key i (revoked now) keys)" if "keys_ok keys"
    by (rule update_key_evolves)
      (use found_is_only [OF that assms(1)] assms(2) in \<open>auto simp: key_evolves_def revoked_def\<close>)
  ultimately show ?thesis by (simp add: keeps_table_def)
qed

lemma renaming_keeps:
  assumes "fetch_row keys i = Some current" "live current"
  shows "keeps_table keys (update_key i (renamed n now) keys)"
proof -
  have "map ak_consumer_id (update_key i (renamed n now) rows) = map ak_consumer_id rows" for rows
    by (simp add: update_key_def)
  then have "keys_ok (update_key i (renamed n now) keys)" if "keys_ok keys"
    using that unfolding keys_ok_def live_after_renaming
    by (auto simp: update_key_maps set_update_key)
  moreover have "table_evolves keys (update_key i (renamed n now) keys)" if "keys_ok keys"
    by (rule update_key_evolves)
      (use found_is_only [OF that assms(1)] assms(2) in \<open>auto simp: key_evolves_def renamed_def\<close>)
  ultimately show ?thesis by (simp add: keeps_table_def)
qed

text \<open>What the live keys are after the two statements of a rotation.\<close>

lemma live_of_consumer:
  assumes "keys_ok keys" "fetch_row keys i = Some current" "live current"
  shows "filter (\<lambda>r. live r \<and> ak_consumer_id r = ak_consumer_id current)
    (update_key i (revoked now) keys) = []"
proof -
  have "ak_id r = i" if "r \<in> set keys" "live r" "ak_consumer_id r = ak_consumer_id current" for r
    using that assms fetch_row_Some [OF assms(2)]
    by (auto simp: keys_ok_def distinct_map dest: inj_onD [where x = r and y = current])
  then show ?thesis
    by (auto simp: filter_empty_conv set_update_key split: if_splits)
qed

section \<open>Transactions\<close>

text \<open>
  What the store relies on of the body of a transaction: the table it leaves keeps the integrity of
  the one it found. The wrapper around it then keeps it too, whatever fails.
\<close>

definition reloads :: "time_crate \<Rightarrow> key_store \<Rightarrow> key_store \<Rightarrow> bool" where
  "reloads T st st' \<longleftrightarrow>
     ks_snapshot st' = ks_snapshot st
     \<or> (\<exists>now flt s. ks_snapshot st' = snd (refresh T now flt (ks_keys st') s (ks_snapshot st)))"

lemma reloads_simps [simp]:
  "reloads T st \<lparr>ks_keys = keys, ks_snapshot = snd (refresh T now flt keys s (ks_snapshot st))\<rparr>"
  "reloads T st (st\<lparr>ks_snapshot := snd (refresh T now flt (ks_keys st) s (ks_snapshot st))\<rparr>)"
  unfolding reloads_def by (rule disjI2, intro exI, simp)+

text \<open>A call that runs with no other task between its commit, its load and its swap.\<close>

definition alone :: "key_env \<Rightarrow> bool" where
  "alone env \<longleftrightarrow> (\<forall>st. ke_before_load env st = st \<and> ke_before_swap env st = st)"

lemma reload_alone:
  "reload_between T now flt s (\<lambda>st. st) st =
     (fst (refresh T now flt (ks_keys st) s (ks_snapshot st)),
      st\<lparr>ks_snapshot := snd (refresh T now flt (ks_keys st) s (ks_snapshot st))\<rparr>)"
  by (simp add: reload_between_def refresh_def Let_def split: prod.split)

lemma alone_hooks: "alone env \<Longrightarrow> ke_before_load env = (\<lambda>st. st) \<and> ke_before_swap env = (\<lambda>st. st)"
  by (simp add: alone_def fun_eq_iff)

lemma mutate_domain_alone:
  assumes "alone env"
  shows "mutate_domain T env f st =
     (case ke_begin_fault env of
        Some e \<Rightarrow> (Inl (KeyDatabase e), st)
      | None \<Rightarrow>
          (case f (ks_keys st) of
             Inl (MutDomain refused) \<Rightarrow> (Inl refused, st)
           | Inl (MutSqlite e) \<Rightarrow> (Inl (KeyDatabase e), st)
           | Inr (out, keys) \<Rightarrow>
               (case ke_commit_fault env of
                  Some e \<Rightarrow> (Inl (KeyDatabase e), st)
                | None \<Rightarrow>
                    (Inr out,
                     \<lparr>ks_keys = keys,
                      ks_snapshot = snd (refresh T (ke_refresh_now env) (ke_refresh_fault env) keys
                                           (ke_db env) (ks_snapshot st))\<rparr>))))"
  using alone_hooks [OF assms]
  by (cases st)
    (simp add: mutate_domain_def reload_alone split: option.split sum.split mutation.split prod.split)

lemma reloads_refl [simp]: "reloads T st st"
  by (simp add: reloads_def)

locale key_transaction =
  fixes tx :: "key_row list \<Rightarrow> mutation + ('a key_outcome \<times> key_row list)"
  assumes body_keeps: "tx keys = Inr (out, keys') \<Longrightarrow> keeps_table keys keys'"
begin

lemma mutation_keeps:
  assumes "mutate_domain T env tx st = (res, st')" "alone env"
  shows "keeps_table (ks_keys st) (ks_keys st')"
proof (cases "ke_begin_fault env = None \<and> ke_commit_fault env = None")
  case True
  with assms(1) show ?thesis unfolding mutate_domain_alone [OF assms(2)]
    by (auto split: sum.splits mutation.splits dest: body_keeps)
next
  case False
  with assms(1) show ?thesis unfolding mutate_domain_alone [OF assms(2)]
    by (auto split: sum.splits mutation.splits option.splits)
qed

lemma mutation_snapshot:
  assumes "mutate_domain T env tx st = (res, st')" "alone env"
  shows "reloads T st st'"
  using assms(1) unfolding mutate_domain_alone [OF assms(2)]
  by (auto split: option.splits sum.splits mutation.splits)

lemma failed_mutation_changes_nothing:
  "mutate_domain T env tx st = (Inl e, st') \<Longrightarrow> st' = st"
  by (auto simp: mutate_domain_def split: sum.splits mutation.splits option.splits)

end

text \<open>The wrapper for a transaction that can only fail in SQLite.\<close>

definition sqlite_tx ::
  "(key_row list \<Rightarrow> rusqlite_error + ('a key_outcome \<times> key_row list)) \<Rightarrow>
   key_row list \<Rightarrow> mutation + ('a key_outcome \<times> key_row list)" where
  "sqlite_tx f keys = (case f keys of Inl e \<Rightarrow> Inl (MutSqlite e) | Inr x \<Rightarrow> Inr x)"

lemma mutate_sqlite: "mutate T env f = mutate_domain T env (sqlite_tx f)"
  by (simp add: mutate_def sqlite_tx_def [abs_def])

lemma sqlite_tx_Inr [simp]: "sqlite_tx f keys = Inr x \<longleftrightarrow> f keys = Inr x"
  by (simp add: sqlite_tx_def split: sum.split)

lemma create_tx_Inr:
  assumes "create_tx k keys = Inr (out, keys')"
  obtains i r where "insert_key k keys = Inr (i, keys')" "fetch_row keys' i = Some r" "out = OutDone r"
  using assms
  by (auto simp: create_tx_def fetch_written_row_def split: sum.splits option.splits)

lemma update_tx_Inr:
  assumes "update_tx i name now keys = Inr (out, keys')"
  obtains (same) "keys' = keys"
  | (renamed) n current where "fetch_row keys i = Some current" "live current"
      "keys' = update_key i (renamed n now) keys"
  using assms
  by (auto simp: update_tx_def live_def Let_def res_bind_Inr_iff split: option.splits if_splits)

lemma revoke_tx_Inr:
  assumes "revoke_tx i now keys = Inr (out, keys')"
  obtains (same) "keys' = keys" "\<And>r. fetch_row keys i = Some r \<Longrightarrow> \<not> live r"
  | (revoked) current where "fetch_row keys i = Some current" "live current"
      "keys' = update_key i (revoked now) keys"
  using assms
  by (auto simp: revoke_tx_def live_def Let_def res_bind_Inr_iff split: option.splits if_splits)

lemma fetch_inserted:
  "insert_key k keys = Inr (i, keys') \<Longrightarrow> fetch_row keys' i = Some (new_row k i)"
proof (elim insert_key_cases)
  assume i: "i = fresh_id (map ak_id keys)" "keys' = keys @ [new_row k i]"
  then have "find (\<lambda>r. ak_id r = i) keys = None"
    using fresh_id_greater [of _ "map ak_id keys"] by (fastforce simp: find_None_iff)
  with i(2) show ?thesis by (simp add: fetch_row_def find_append)
qed

lemma rotate_tx_Inr:
  assumes "rotate_tx i prefix hash now keys = Inr (out, keys')"
  obtains (missing) "keys' = keys" "out = OutMissing"
  | (dead) current where "keys' = keys" "out = OutUnchanged (current, None)" "\<not> live current"
  | (rotated) current k j where "fetch_row keys i = Some current" "live current"
      "k = \<lparr>nk_name = ak_name current, nk_consumer_id = ak_consumer_id current, nk_prefix = prefix,
            nk_hash = hash, nk_now = now, nk_expires_at = ak_expires_at current\<rparr>"
      "insert_key k (update_key i (revoked now) keys) = Inr (j, keys')"
      "out = OutDone (current, Some (new_row k j))"
  using assms
  by (auto simp: rotate_tx_def live_def res_bind_Inr_iff fetch_written_row_def fetch_inserted
      split: option.splits if_splits)

interpretation create: key_transaction "create_tx k" for k
  by unfold_locales (auto elim!: create_tx_Inr intro: insert_key_keeps)

interpretation update: key_transaction "sqlite_tx (update_tx i name now)" for i name now
  by unfold_locales (auto elim!: update_tx_Inr intro: renaming_keeps)

interpretation revoke: key_transaction "sqlite_tx (revoke_tx i now)" for i now
  by unfold_locales (auto elim!: revoke_tx_Inr intro: revocation_keeps)

interpretation rotate: key_transaction "sqlite_tx (rotate_tx i prefix hash now)" for i prefix hash now
  by unfold_locales
    (auto elim!: rotate_tx_Inr intro: keeps_table_trans [OF revocation_keeps insert_key_keeps])

end
