(* ===== verification/Auth.thy ===== *)
theory Auth
  imports Api_Keys Handler
begin

text \<open>
  \<^verbatim>\<open>src/src/auth/middleware.rs\<close>: the identity of a request, read from its bearer token alone. A
  partner key is looked up in the snapshot; the manager password is compared with the configured one.
\<close>

section \<open>Bearer tokens\<close>

datatype auth_error = MissingAuthorization | InvalidFormat | InvalidKey

fun auth_message :: "auth_error \<Rightarrow> string" where
  "auth_message MissingAuthorization = ''Missing Authorization header''"
| "auth_message InvalidFormat = 
     ''Invalid Authorization header format; expected '' @ [CHR 0x27] @ ''Bearer <key>'' @ [CHR 0x27]"
| "auth_message InvalidKey = ''Invalid API key''"

definition auth_response :: "json_lib \<Rightarrow> auth_error \<Rightarrow> response" where
  "auth_response J e =
     \<lparr>rs_status = 401,
      rs_headers = [(''content-type'', ''application/json''), (''cache-control'', ''no-store'')],
      rs_body = render_error J (JObject [(''error'',
        JObject [(''message'', JString (auth_message e)), (''type'', JString ''invalid_request_error''),
                 (''code'', JString ''invalid_api_key'')])])\<rparr>"

definition eq_ignore_ascii_case :: "string \<Rightarrow> string \<Rightarrow> bool" where
  "eq_ignore_ascii_case a b \<longleftrightarrow> to_ascii_lowercase a = to_ascii_lowercase b"

definition extract_bearer_token :: "headers \<Rightarrow> auth_error + string" where
  "extract_bearer_token h =
     (case Option.bind (header_get ''authorization'' h) header_to_str of
        None \<Rightarrow> Inl MissingAuthorization
      | Some header \<Rightarrow>
          (case split_once CHR '' '' header of
             None \<Rightarrow> Inl InvalidFormat
           | Some (scheme, rest) \<Rightarrow>
               if \<not> eq_ignore_ascii_case scheme ''bearer'' then Inl InvalidFormat
               else (let token = trim rest
                     in if token = [] then Inl InvalidFormat else Inr token)))"

section \<open>Identities\<close>

definition find_manager :: "config \<Rightarrow> string \<Rightarrow> manager_config option" where
  "find_manager c token =
     (case cf_manager c of
        None \<Rightarrow> None
      | Some m \<Rightarrow>
          if mg_password m \<noteq> [] \<and> constant_time_eq (mg_password m) token then Some m else None)"

definition authenticated ::
  "key_crypto \<Rightarrow> string \<Rightarrow> key_snapshot \<Rightarrow> config \<Rightarrow> headers \<Rightarrow> auth_error + consumer_context" where
  "authenticated K secret snap c h =
     res_bind (extract_bearer_token h) (\<lambda>token.
       case authenticate_key K secret snap token of
         Some partner \<Rightarrow> Inr (context_new partner)
       | None \<Rightarrow> if find_manager c token \<noteq> None then Inr context_manager else Inl InvalidKey)"

text \<open>The route: the handler runs only for a request that has an identity.\<close>

definition proxy_route ::
  "key_crypto \<Rightarrow> string \<Rightarrow> key_snapshot \<Rightarrow> config \<Rightarrow> json_lib \<Rightarrow> http_crate \<Rightarrow> proxy_client \<Rightarrow>
   proxy_env \<Rightarrow> string \<Rightarrow> bool \<Rightarrow> client_request \<Rightarrow> effect list \<times> answer" where
  "proxy_route K secret snap c J H client env minted_id arrived req =
     (case authenticated K secret snap c (cr_headers req) of
        Inl e \<Rightarrow> ([], Answered (auth_response J e))
      | Inr consumer \<Rightarrow>
          proxy_handler J H client env minted_id (sv_max_body_size (cf_server c)) arrived consumer req)"

section \<open>Facts\<close>

lemma find_manager_iff:
  "find_manager c token \<noteq> None \<longleftrightarrow>
     (\<exists>m. cf_manager c = Some m \<and> mg_password m \<noteq> [] \<and> token = mg_password m)"
  by (auto simp: find_manager_def constant_time_eq_iff split: option.split)

lemma authenticated_cases:
  assumes "authenticated K secret snap c h = Inr who"
  obtains token where "extract_bearer_token h = Inr token"
    "(\<exists>partner. authenticate_key K secret snap token = Some partner \<and> who = context_new partner)
     \<or> authenticate_key K secret snap token = None \<and> find_manager c token \<noteq> None
       \<and> who = context_manager"
  using assms
  by (cases "extract_bearer_token h")
    (auto simp: authenticated_def split: option.splits if_splits)

end
