(* ===== verification/Key_Properties.thy ===== *)
theory Key_Properties
  imports Key_Table Auth Handler_Properties Store_Properties
begin

text \<open>
  The partner keys: the table keeps its integrity, a rotation replaces a key in one step, the
  snapshot is the picture of the tables, and a request is served to the holder of a live key only.
\<close>

section \<open>Runs of the key store\<close>

text \<open>
  One step: an operation of this instance, a reload, or an operation of another instance on the same
  table, which has a snapshot of its own; each undisturbed from its commit to its swap.
\<close>

inductive key_step ::
  "key_crypto \<Rightarrow> time_crate \<Rightarrow> string \<Rightarrow> key_store \<Rightarrow> key_store \<Rightarrow> bool" for K T secret where
  created: "create_key K T secret entropy env name consumer expires st = (res, st') \<Longrightarrow> alone env \<Longrightarrow>
    key_step K T secret st st'"
| imported: "create_with_plaintext K T secret env name consumer expires plaintext st = (res, st') \<Longrightarrow>
    alone env \<Longrightarrow> key_step K T secret st st'"
| named: "update_name T env i name st = (res, st') \<Longrightarrow> alone env \<Longrightarrow> key_step K T secret st st'"
| withdrawn: "revoke_key T env i st = (res, st') \<Longrightarrow> alone env \<Longrightarrow> key_step K T secret st st'"
| rotated: "rotate_key K T secret entropy env i st = (res, st') \<Longrightarrow> alone env \<Longrightarrow>
    key_step K T secret st st'"
| reloaded: "reload T now flt s (\<lambda>st. st) st = st' \<Longrightarrow> key_step K T secret st st'"
| sibling: "key_step K T secret (st\<lparr>ks_snapshot := theirs\<rparr>) st' \<Longrightarrow>
    key_step K T secret st (st'\<lparr>ks_snapshot := ks_snapshot st\<rparr>)"

text \<open>
  The same operations with their parts interleaved: the commit of any of them, on this or another
  instance; the load of a reload, whose rows wait for their swap; and the swap of any reload that has
  loaded. A reload whose load fails, or whose task ends before its swap, takes no step.
\<close>

record key_tasks =
  kt_store :: key_store
  kt_loaded :: "(string \<times> runtime_config) list list"

inductive swap_step :: "key_tasks \<Rightarrow> key_tasks \<Rightarrow> bool" where
  swapped: "rows \<in> set (kt_loaded x) \<Longrightarrow> swap_snapshot (Inr rows) (ks_snapshot (kt_store x)) = (res, snap) \<Longrightarrow>
    swap_step x \<lparr>kt_store = (kt_store x)\<lparr>ks_snapshot := snap\<rparr>, kt_loaded = remove1 rows (kt_loaded x)\<rparr>"

inductive task_step ::
  "key_crypto \<Rightarrow> time_crate \<Rightarrow> string \<Rightarrow> key_tasks \<Rightarrow> key_tasks \<Rightarrow> bool" for K T secret where
  committed: "key_step K T secret (kt_store x) st' \<Longrightarrow>
    task_step K T secret x (x\<lparr>kt_store := (kt_store x)\<lparr>ks_keys := ks_keys st'\<rparr>\<rparr>)"
| loaded: "load_active T now flt (ks_keys (kt_store x)) s = Inr rows \<Longrightarrow>
    task_step K T secret x (x\<lparr>kt_loaded := kt_loaded x @ [rows]\<rparr>)"
| swap: "swap_step x y \<Longrightarrow> task_step K T secret x y"

lemma create_with_plaintext_keeps:
  assumes "create_with_plaintext K T secret env name consumer expires plaintext st = (res, st')" "alone env"
  shows "keeps_table (ks_keys st) (ks_keys st')"
  using assms
  by (auto simp: create_with_plaintext_def Let_def split: sum.splits if_splits prod.splits
      dest: create.mutation_keeps)

lemma create_key_keeps:
  assumes "create_key K T secret entropy env name consumer expires st = (res, st')" "alone env"
  shows "keeps_table (ks_keys st) (ks_keys st')"
  using assms
  by (auto simp: create_key_def split: sum.splits prod.splits dest: create_with_plaintext_keeps)

lemma update_name_keeps:
  "update_name T env i name st = (res, st') \<Longrightarrow> alone env \<Longrightarrow>
   keeps_table (ks_keys st) (ks_keys st')"
  by (auto simp: update_name_def mutate_sqlite split: sum.splits prod.splits dest: update.mutation_keeps)

lemma revoke_key_keeps:
  "revoke_key T env i st = (res, st') \<Longrightarrow> alone env \<Longrightarrow> keeps_table (ks_keys st) (ks_keys st')"
  by (auto simp: revoke_key_def mutate_sqlite split: prod.splits dest: revoke.mutation_keeps)

lemma rotate_key_keeps:
  "rotate_key K T secret entropy env i st = (res, st') \<Longrightarrow> alone env \<Longrightarrow>
   keeps_table (ks_keys st) (ks_keys st')"
  by (auto simp: rotate_key_def mutate_sqlite split: sum.splits prod.splits dest: rotate.mutation_keeps)

lemmas key_ops_keep =
  create_key_keeps create_with_plaintext_keeps update_name_keeps revoke_key_keeps rotate_key_keeps

lemma key_step_keeps: "key_step K T secret st st' \<Longrightarrow> keeps_table (ks_keys st) (ks_keys st')"
  by (induction rule: key_step.induct) (auto simp: reload_def reload_alone dest: key_ops_keep)

lemma key_steps_keep: "(key_step K T secret)\<^sup>*\<^sup>* st st' \<Longrightarrow> keeps_table (ks_keys st) (ks_keys st')"
  by (induction rule: rtranclp_induct) (auto intro: keeps_table_trans key_step_keeps)

lemma task_step_keeps:
  "task_step K T secret x y \<Longrightarrow> keeps_table (ks_keys (kt_store x)) (ks_keys (kt_store y))"
  by (induction rule: task_step.induct) (auto simp: key_step_keeps elim: swap_step.cases)

lemma task_steps_keep:
  "(task_step K T secret)\<^sup>*\<^sup>* x y \<Longrightarrow> keeps_table (ks_keys (kt_store x)) (ks_keys (kt_store y))"
  by (induction rule: rtranclp_induct) (auto intro: keeps_table_trans task_step_keeps)

text \<open>A table with one key, whose hash is that of a plaintext chosen by the operator.\<close>

definition plain_crypto :: key_crypto where
  "plain_crypto = \<lparr>kc_sha256 = drop 64, kc_hex = (\<lambda>b. b)\<rparr>"

definition sample_new_key :: new_key where
  "sample_new_key =
     \<lparr>nk_name = ''main'', nk_consumer_id = ''acme'', nk_prefix = ''dev-key'',
      nk_hash = derive_key_hash plain_crypto [] ''dev-key'', nk_now = ''t'', nk_expires_at = None\<rparr>"

definition sample_keys :: "key_row list" where
  "sample_keys = [new_row sample_new_key 1]"

definition sample_store :: key_store where
  "sample_store = \<lparr>ks_keys = sample_keys, ks_snapshot = (\<lambda>_. None)\<rparr>"

definition calm_env :: "db \<Rightarrow> key_env" where
  "calm_env s =
     \<lparr>ke_now = 0, ke_begin_fault = None, ke_commit_fault = None, ke_refresh_now = 0,
      ke_refresh_fault = None, ke_db = s, ke_before_load = (\<lambda>st. st), ke_before_swap = (\<lambda>st. st)\<rparr>"

lemma calm_env_alone [simp]: "alone (calm_env s)"
  by (simp add: alone_def calm_env_def)

lemma sample_keys_ok [simp]: "keys_ok sample_keys"
  by (simp add: keys_ok_def sample_keys_def)

lemma calm_env_now: "ke_now (calm_env s) = 0"
  by (simp add: calm_env_def)

lemma mutate_domain_calm:
  "tx (ks_keys st) = Inr (out, keys) \<Longrightarrow>
   mutate_domain T (calm_env s) tx st =
     (Inr out, \<lparr>ks_keys = keys, ks_snapshot = snd (refresh T 0 None keys s (ks_snapshot st))\<rparr>)"
  by (simp add: mutate_domain_alone) (simp add: calm_env_def)

lemma sample_revocation:
  "\<exists>view. fst (revoke_key gregorian (calm_env empty_db) 1 sample_store) = Inr view"
  "ks_keys (snd (revoke_key gregorian (calm_env empty_db) 1 sample_store))
     = [revoked (format_ts gregorian 0) (new_row sample_new_key 1)]"
proof -
  have "ak_status (new_row sample_new_key 1) = KeyActive"
    by (simp add: new_row_def)
  then have "revoke_tx 1 (format_ts gregorian 0) sample_keys
      = Inr (OutDone (revoked (format_ts gregorian 0) (new_row sample_new_key 1)),
             [revoked (format_ts gregorian 0) (new_row sample_new_key 1)])"
    by (simp add: revoke_tx_def sample_keys_def fetch_row_def update_key_def fetch_written_row_def Let_def
        del: render_gregorian)
  then have "sqlite_tx (revoke_tx 1 (format_ts gregorian 0)) (ks_keys sample_store)
      = Inr (OutDone (revoked (format_ts gregorian 0) (new_row sample_new_key 1)),
             [revoked (format_ts gregorian 0) (new_row sample_new_key 1)])"
    by (simp add: sample_store_def)
  from mutate_domain_calm [where tx = "sqlite_tx (revoke_tx 1 (format_ts gregorian 0))" and
      st = sample_store, OF this, of gregorian empty_db]
  show "\<exists>view. fst (revoke_key gregorian (calm_env empty_db) 1 sample_store) = Inr view"
    "ks_keys (snd (revoke_key gregorian (calm_env empty_db) 1 sample_store))
       = [revoked (format_ts gregorian 0) (new_row sample_new_key 1)]"
    by (simp_all add: revoke_key_def mutate_sqlite calm_env_now outcome_result_def del: render_gregorian)
qed

text \<open>
  C9: the key table keeps its integrity. Whatever operations two instances run on the table, in any
  order, with any arguments and any failures, their commits interleaved with the loads and swaps of any
  reloads: ids and hashes stay unique, a key carries a revocation date exactly when it is revoked, no
  consumer has two live keys, no row disappears, and a row keeps its hash, its consumer and its expiry;
  a revoked one never changes again.
\<close>

theorem key_table_integrity:
  assumes "(task_step K T secret)\<^sup>*\<^sup>* x y" "keys_ok (ks_keys (kt_store x))"
  shows "keys_ok (ks_keys (kt_store y)) \<and> table_evolves (ks_keys (kt_store x)) (ks_keys (kt_store y))"
  using task_steps_keep [OF assms(1)] assms(2) by (simp add: keeps_table_def)

abbreviation revoked_store :: key_store where
  "revoked_store \<equiv> snd (revoke_key gregorian (calm_env empty_db) 1 sample_store)"

lemma sample_commit:
  "task_step plain_crypto gregorian [] \<lparr>kt_store = sample_store, kt_loaded = ls\<rparr>
     \<lparr>kt_store = sample_store\<lparr>ks_keys := ks_keys revoked_store\<rparr>, kt_loaded = ls\<rparr>"
proof -
  have "key_step plain_crypto gregorian [] sample_store revoked_store"
    by (rule withdrawn [OF prod.collapse [symmetric]]) simp
  then show ?thesis
    using committed [of plain_crypto gregorian "[]" "\<lparr>kt_store = sample_store, kt_loaded = ls\<rparr>"] by simp
qed

theorem key_table_integrity_witness:
  "\<exists>y. (task_step plain_crypto gregorian [])\<^sup>*\<^sup>* \<lparr>kt_store = sample_store, kt_loaded = []\<rparr> y
     \<and> keys_ok (ks_keys (kt_store y)) \<and> table_evolves sample_keys (ks_keys (kt_store y))
     \<and> filter live (ks_keys (kt_store y)) = []"
proof -
  note run = r_into_rtranclp [of "task_step plain_crypto gregorian []", OF sample_commit [of "[]"]]
  have "ks_keys sample_store = sample_keys"
    by (simp add: sample_store_def)
  with key_table_integrity [OF run] sample_revocation(2)
  have "keys_ok (ks_keys revoked_store) \<and> table_evolves sample_keys (ks_keys revoked_store)
      \<and> filter live (ks_keys revoked_store) = []"
    by simp
  then show ?thesis
    by (intro exI [of _ "\<lparr>kt_store = sample_store\<lparr>ks_keys := ks_keys revoked_store\<rparr>, kt_loaded = []\<rparr>"])
      (simp add: run)
qed

section \<open>Rotation\<close>

text \<open>
  a rotation replaces a key in one step. When it succeeds, the table is the old one with the old
  key revoked and one live key appended, of the same consumer, name and expiry and with the hash of
  the plaintext that is returned, and no other key of that consumer is live; when it fails, in the
  database or because the key is gone, revoked or the new one collides, the table is as before.
\<close>

theorem rotation_is_atomic:
  assumes "rotate_key K T secret entropy env i st = (res, st')" "keys_ok (ks_keys st)" "alone env"
  shows "(\<forall>e. res = Inl e \<longrightarrow> ks_keys st' = ks_keys st)
    \<and> (\<forall>view plaintext. res = Inr (view, plaintext) \<longrightarrow>
        (\<exists>old new. old \<in> set (ks_keys st) \<and> ak_id old = i \<and> live old
          \<and> ks_keys st' = update_key i (revoked (format_ts T (ke_now env))) (ks_keys st) @ [new]
          \<and> live new \<and> view = row_to_api_key new \<and> ak_key_hash new = derive_key_hash K secret plaintext
          \<and> ak_consumer_id new = ak_consumer_id old \<and> ak_name new = ak_name old
          \<and> ak_expires_at new = ak_expires_at old
          \<and> filter (\<lambda>r. live r \<and> ak_consumer_id r = ak_consumer_id old) (ks_keys st') = [new]))"
proof -
  show ?thesis
  proof (cases "generate_plaintext entropy")
    case (Inl e)
    with assms(1) show ?thesis by (auto simp: rotate_key_def)
  next
    case (Inr p)
    let ?now = "format_ts T (ke_now env)"
    let ?tx = "rotate_tx i (key_prefix_of p) (derive_key_hash K secret p) ?now"
    obtain out where run: "mutate_domain T env (sqlite_tx ?tx) st = (out, st')"
      and res: "res = res_bind out (\<lambda>out.
         res_bind (outcome_result i (\<lambda>(previous, _). require_active previous) out)
           (\<lambda>(_, replacement). case replacement of
              None \<Rightarrow> Inl (KeyNotActive i) | Some r \<Rightarrow> Inr (row_to_api_key r, p)))"
      using assms(1) Inr by (auto simp: rotate_key_def mutate_sqlite split: prod.splits)
    show ?thesis
    proof (cases out)
      case (Inl e)
      then have "st' = st" using run rotate.failed_mutation_changes_nothing by blast
      with res Inl show ?thesis by simp
    next
      case (Inr found)
      then have "?tx (ks_keys st) = Inr (found, ks_keys st')"
        using run unfolding mutate_domain_alone [OF assms(3)]
        by (auto split: option.splits sum.splits mutation.splits)
      then show ?thesis
      proof (cases rule: rotate_tx_Inr)
        case (rotated current k j)
        from rotated(4) have keys': "ks_keys st' = update_key i (revoked ?now) (ks_keys st) @ [new_row k j]"
          by (cases rule: insert_key_cases) simp
        have "filter (\<lambda>r. live r \<and> ak_consumer_id r = ak_consumer_id current) (ks_keys st') = [new_row k j]"
          using live_of_consumer [OF assms(2) rotated(1,2)] rotated(3) by (simp add: keys')
        moreover have "res = Inr (row_to_api_key (new_row k j), p)"
          using rotated(2,5) res Inr by (simp add: outcome_result_def require_active_def live_def)
        ultimately show ?thesis
          using rotated(2,3) keys' fetch_row_Some [OF rotated(1)] by auto
      qed (use res Inr in \<open>auto simp: outcome_result_def require_active_def live_def\<close>)
    qed
  qed
qed

lemma plain_hash: "derive_key_hash plain_crypto [] p = p"
  by (simp add: derive_key_hash_def plain_crypto_def hmac_sha256_def hmac_block_def SHA256_BLOCK_def)

lemma sample_rotation:
  fixes p :: string
  assumes "p \<noteq> ''dev-key''"
  shows "\<exists>out keys. sqlite_tx (rotate_tx 1 (key_prefix_of p) (derive_key_hash plain_crypto [] p) now)
    (ks_keys sample_store) = Inr (OutDone (new_row sample_new_key 1, Some out), keys)"
proof -
  let ?old = "new_row sample_new_key 1"
  let ?k = "\<lparr>nk_name = ak_name ?old, nk_consumer_id = ak_consumer_id ?old,
     nk_prefix = key_prefix_of p, nk_hash = p, nk_now = now, nk_expires_at = ak_expires_at ?old\<rparr>"
  have "ak_key_hash ?old = ''dev-key''" "ak_status (revoked now ?old) \<noteq> KeyActive"
    by (simp_all add: sample_new_key_def plain_hash revoked_def)
  then have "insert_key ?k [revoked now ?old] = Inr (2, [revoked now ?old, new_row ?k 2])"
    using assms by (simp add: insert_key_def active_key_exists_def fresh_id_def)
  moreover have "ak_status ?old = KeyActive"
    by (simp add: new_row_def)
  ultimately show ?thesis
    by (simp add: rotate_tx_def sample_store_def sample_keys_def fetch_row_def update_key_def
        fetch_written_row_def plain_hash)
qed

theorem rotation_is_atomic_witness:
  "\<exists>view plaintext st'. rotate_key plain_crypto gregorian [] (Inr ''fresh'') (calm_env empty_db) 1 sample_store
       = (Inr (view, plaintext), st')
     \<and> filter (\<lambda>r. live r \<and> ak_consumer_id r = ''acme'') (ks_keys st') \<noteq> []"
proof -
  let ?p = "KEY_PREFIX @ base64url_encode ''fresh''"
  let ?now = "format_ts gregorian 0"
  let ?tx = "sqlite_tx (rotate_tx 1 (key_prefix_of ?p) (derive_key_hash plain_crypto [] ?p) ?now)"
  have "?p \<noteq> ''dev-key''"
    by (simp add: KEY_PREFIX_def)
  then obtain out keys where
    "?tx (ks_keys sample_store) = Inr (OutDone (new_row sample_new_key 1, Some out), keys)"
    using sample_rotation by blast
  from mutate_domain_calm [where tx = ?tx and st = sample_store, OF this, of gregorian empty_db]
  obtain st' where run: "rotate_key plain_crypto gregorian [] (Inr ''fresh'') (calm_env empty_db) 1 sample_store
      = (Inr (row_to_api_key out, ?p), st')"
    by (simp add: rotate_key_def generate_plaintext_def mutate_sqlite calm_env_now outcome_result_def
        require_active_def new_row_def del: render_gregorian)
  have "keys_ok (ks_keys sample_store)"
    by (simp add: sample_store_def)
  from rotation_is_atomic [OF run this calm_env_alone] obtain old new where
    "old \<in> set (ks_keys sample_store)"
    "filter (\<lambda>r. live r \<and> ak_consumer_id r = ak_consumer_id old) (ks_keys st') = [new]"
    by blast
  then have "filter (\<lambda>r. live r \<and> ak_consumer_id r = ''acme'') (ks_keys st') \<noteq> []"
    by (simp add: sample_store_def sample_keys_def sample_new_key_def)
  with run show ?thesis by blast
qed

section \<open>The snapshot\<close>

text \<open>What the texts of the table mean: an expiry is the text of an instant.\<close>

definition key_texts :: "time_crate \<Rightarrow> key_row list \<Rightarrow> bool" where
  "key_texts T keys \<longleftrightarrow>
     (\<forall>r \<in> set keys. \<forall>t. ak_expires_at r = Some t \<longrightarrow> (\<exists>d. four_digit_instant d \<and> t = format_ts T d))"

definition serves :: "time_crate \<Rightarrow> instant \<Rightarrow> key_row \<Rightarrow> bool" where
  "serves T now r \<longleftrightarrow>
     live r \<and> (\<forall>d. four_digit_instant d \<and> ak_expires_at r = Some (format_ts T d) \<longrightarrow> now < d)"

definition models_unique :: "db \<Rightarrow> bool" where
  "models_unique s \<longleftrightarrow> distinct (map (\<lambda>m. (mr_consumer_id m, mr_model m)) (partner_models s))"

definition prices_of :: "model_row \<Rightarrow> pricing_snapshot" where
  "prices_of m = \<lparr>ps_input = PricePerMillion (mr_input m),
     ps_cached_input = PricePerMillion (mr_cached_input m), ps_output = PricePerMillion (mr_output m)\<rparr>"

definition mode_text_of :: "db \<Rightarrow> string \<Rightarrow> string" where
  "mode_text_of s c =
     (case find (\<lambda>p. pr_consumer_id p = c) (partners s) of
        None \<Rightarrow> ''invoice'' | Some p \<Rightarrow> pr_billing_mode p)"

lemma usable_iff_serves:
  assumes "time_laws T" "four_digit_instant now" "key_texts T keys" "r \<in> set keys"
  shows "usable (format_ts T now) r \<longleftrightarrow> serves T now r"
proof (cases "ak_expires_at r")
  case None
  then show ?thesis by (simp add: usable_def serves_def live_def)
next
  case (Some t)
  then obtain d where d: "four_digit_instant d" "t = format_ts T d"
    using assms(3,4) by (auto simp: key_texts_def)
  have "format_ts T now < format_ts T d \<longleftrightarrow> now < d"
    using time_laws.format_ts_less_iff [OF assms(1,2) d(1)] .
  moreover have "e = d" if "four_digit_instant e" "format_ts T d = format_ts T e" for e
    using time_laws.format_ts_le_iff [OF assms(1) that(1) d(1)]
      time_laws.format_ts_le_iff [OF assms(1) d(1) that(1)] that(2) by simp
  ultimately have "(\<forall>e. four_digit_instant e \<and> format_ts T d = format_ts T e \<longrightarrow> now < e)
      \<longleftrightarrow> format_ts T now < format_ts T d"
    using d(1) by blast
  then show ?thesis
    using Some d(2) by (simp add: usable_def serves_def live_def)
qed

lemma models_of_lookup:
  assumes "models_unique s"
  shows "map_of (models_of s c) m = Some p \<longleftrightarrow>
    (\<exists>row \<in> set (partner_models s). mr_consumer_id row = c \<and> mr_model row = m \<and> prices_of row = p)"
proof -
  let ?rows = "filter (\<lambda>m. mr_consumer_id m = c) (partner_models s)"
  have "distinct (map mr_model ?rows)"
    using assms unfolding models_unique_def by (auto simp: distinct_map inj_on_def)
  then have "distinct (map fst (models_of s c))"
    unfolding models_of_def by (simp add: distinct_map inj_on_def image_iff) blast
  then show ?thesis
    by (auto simp: map_of_eq_Some_iff models_of_def prices_of_def image_iff)
qed

text \<open>The queries give every key its own models because no two rows share a consumer.\<close>

lemma load_rows_each:
  "distinct (map ak_consumer_id ks) \<Longrightarrow> ak_consumer_id ` set ks \<inter> set taken = {} \<Longrightarrow>
   load_rows T now s taken ks = map (\<lambda>k. load_row T now s (models_of s (ak_consumer_id k)) k) ks"
proof (induction ks arbitrary: taken)
  case (Cons k ks)
  moreover have "ak_consumer_id ` set ks \<inter> set (ak_consumer_id k # taken) = {}"
    using Cons.prems by auto
  ultimately show ?case by simp
qed simp

lemma fst_load_row [simp]: "fst (load_row T now s models k) = ak_key_hash k"
  by (simp add: load_row_def Let_def)

definition loaded :: "time_crate \<Rightarrow> instant \<Rightarrow> db \<Rightarrow> key_row \<Rightarrow> runtime_config" where
  "loaded T now s k = snd (load_row T now s (models_of s (ak_consumer_id k)) k)"

lemma load_row_loaded:
  "load_row T now s (models_of s (ak_consumer_id k)) k = (ak_key_hash k, loaded T now s k)"
  by (simp add: loaded_def prod_eq_iff)

lemma refresh_snapshot:
  assumes "keys_ok keys" "refresh T now flt keys s snap = (Inr n, snap')"
  shows "n = length (filter (usable (format_ts T now)) keys)"
    and "snap' h = Some c \<longleftrightarrow>
      (\<exists>k \<in> set keys. usable (format_ts T now) k \<and> ak_key_hash k = h \<and> c = loaded T now s k)"
proof -
  let ?use = "filter (usable (format_ts T now)) keys"
  let ?ks = "sort_key ak_consumer_id ?use"
  let ?rows = "map (\<lambda>k. (ak_key_hash k, loaded T now s k)) ?ks"
  have use: "?use = filter (usable (format_ts T now)) (filter live keys)"
    unfolding filter_filter by (rule filter_cong) (auto simp: usable_def live_def)
  have "distinct (map ak_consumer_id ?use)"
    unfolding use by (rule distinct_filtered_map) (use assms(1) in \<open>simp add: keys_ok_def\<close>)
  then have "distinct (map ak_consumer_id ?ks)"
    by (simp add: distinct_map)
  then have rows: "load_rows T now s [] ?ks = ?rows"
    by (simp add: load_rows_each load_row_loaded)
  have "flt = None"
    using assms(2) by (cases flt) (auto simp: refresh_def swap_snapshot_def load_active_def)
  with assms(2) rows show "n = length ?use"
    by (auto simp: refresh_def swap_snapshot_def load_active_def)
  have hashes: "distinct (map fst (rev ?rows))"
  proof -
    have "distinct (map ak_key_hash ?use)"
      by (rule distinct_filtered_map) (use assms(1) in \<open>simp add: keys_ok_def\<close>)
    then show ?thesis
      by (simp add: distinct_map o_def rev_map [symmetric])
  qed
  have "snap' = map_of (rev ?rows)"
    using \<open>flt = None\<close> assms(2) rows by (auto simp: refresh_def swap_snapshot_def load_active_def snapshot_from_rows_def)
  moreover have "(h, c) \<in> set (rev ?rows) \<longleftrightarrow>
      (\<exists>k \<in> set keys. usable (format_ts T now) k \<and> ak_key_hash k = h \<and> c = loaded T now s k)"
    by auto
  moreover note map_of_eq_Some_iff [OF hashes, of h c]
  ultimately show "snap' h = Some c \<longleftrightarrow>
      (\<exists>k \<in> set keys. usable (format_ts T now) k \<and> ak_key_hash k = h \<and> c = loaded T now s k)"
    by simp
qed

text \<open>
  The subquery of the join picks the statement the billing store derives the status from.
\<close>

lemma sort_key_filter: "find P (sort_key k xs) = (case sort_key k (filter P xs) of [] \<Rightarrow> None | x # _ \<Rightarrow> Some x)"
  by (simp add: find_hd_filter filter_sort)

lemma overdue_invoice_is_first:
  assumes "time_laws T" "four_digit_instant now" "billing_invariant s" "due_texts T s"
  shows "overdue_invoice (format_ts T now) c s =
    find (\<lambda>r. row_suspends T now (to_overdue_row r))
      (sort_key (\<lambda>r. (st_due_at r, st_id r)) (statements_where (overdue_where (format_ts T now) (Some c)) s))"
proof -
  let ?strict = "\<lambda>d. st_consumer_id d = c \<and> st_billing_mode d = ''invoice'' \<and> st_paid_at d = None
     \<and> st_incomplete d = 0 \<and> 0 < st_total d
     \<and> (case st_due_at d of None \<Rightarrow> False | Some due \<Rightarrow> due \<le> format_ts T now)"
  have "?strict r \<longleftrightarrow> overdue_where (format_ts T now) (Some c) r \<and> row_suspends T now (to_overdue_row r)"
    if mem: "r \<in> set (daily_statements s)" for r
  proof
    assume strict: "?strict r"
    then obtain t where t: "st_due_at r = Some t" "t \<le> format_ts T now"
      by (auto split: option.splits)
    obtain d where d: "four_digit_instant d" "t = format_ts T d"
      using assms(4) mem t(1) unfolding due_texts_def by blast
    have "d \<le> now"
      using t(2) d time_laws.format_ts_le_iff [OF assms(1) d(1) assms(2)] by simp
    moreover have "parse_ts T t = Some d"
      using time_laws.parse_ts_format_ts [OF assms(1) d(1)] d(2) by simp
    ultimately show "overdue_where (format_ts T now) (Some c) r \<and> row_suspends T now (to_overdue_row r)"
      using strict t(1) by (simp add: overdue_where_def unpaid_invoice_def row_suspends_def to_overdue_row_def)
  next
    assume "overdue_where (format_ts T now) (Some c) r \<and> row_suspends T now (to_overdue_row r)"
    then show "?strict r"
      by (auto simp: overdue_where_def unpaid_invoice_def row_suspends_def to_overdue_row_def)
  qed
  then have "filter ?strict (daily_statements s)
      = filter (\<lambda>r. row_suspends T now (to_overdue_row r))
          (filter (overdue_where (format_ts T now) (Some c)) (daily_statements s))"
    by (simp cong: filter_cong)
  then show ?thesis
    by (simp add: overdue_invoice_def statements_where_def sort_key_filter)
qed

lemma overdue_row_of_row:
  "row_suspends T now (to_overdue_row r) \<Longrightarrow> st_billing_mode r = ''invoice'' \<Longrightarrow>
   overdue_verdict T now (overdue_row_of r) = overdue_verdict T now (to_overdue_row r)
   \<and> row_suspends T now (overdue_row_of r)"
  by (auto simp: overdue_row_of_def to_overdue_row_def row_suspends_def overdue_verdict_def
      split: option.splits)

lemma loaded_status:
  assumes "time_laws T" "four_digit_instant now" "billing_invariant s" "due_texts T s"
  shows "derived_status T now (mode_text_of s (ak_consumer_id k)) (ak_consumer_id k) s
    = Inr (rc_service_status (loaded T now s k))"
proof -
  let ?c = "ak_consumer_id k" and ?mode = "mode_text_of s (ak_consumer_id k)"
  let ?rows = "sort_key (\<lambda>r. (st_due_at r, st_id r))
    (statements_where (overdue_where (format_ts T now) (Some ?c)) s)"
  have loaded: "rc_service_status (loaded T now s k) = status_for T ?mode now
      (case find (\<lambda>r. row_suspends T now (to_overdue_row r)) ?rows of
         None \<Rightarrow> [] | Some d \<Rightarrow> [overdue_row_of d])"
    using overdue_invoice_is_first [OF assms, of ?c]
    by (simp add: loaded_def load_row_def Let_def config_new_def mode_text_of_def)
  show ?thesis
  proof (cases "?mode = ''invoice''")
    case False
    then show ?thesis
      by (simp add: loaded status_for_reconciliation derived_status_def overdue_statements_def db_result_def)
  next
    case True
    show ?thesis
    proof (cases "find (\<lambda>r. row_suspends T now (to_overdue_row r)) ?rows")
      case None
      with True show ?thesis by (simp add: loaded derived_status_eq)
    next
      case (Some d)
      then have d: "row_suspends T now (to_overdue_row d)" "d \<in> set ?rows"
        using find_SomeD [OF Some] by simp_all
      then have "st_billing_mode d = ''invoice''"
        by (simp add: statements_where_def overdue_where_def unpaid_invoice_def)
      with overdue_row_of_row [OF d(1)] True Some show ?thesis
        by (simp add: loaded derived_status_eq status_for_first)
    qed
  qed
qed

lemma loaded_fields [simp]:
  "rc_consumer_id (loaded T now s k) = ak_consumer_id k" "rc_key_name (loaded T now s k) = ak_name k"
  "rc_models (loaded T now s k) = models_of s (ak_consumer_id k)"
  by (simp_all add: loaded_def load_row_def Let_def config_new_def)

text \<open>
  C8: the snapshot is the picture of the tables. After a reload that succeeds, a hash is in it exactly
  when a live key of the table has it and that key has not expired; its configuration names the
  consumer of the key, prices exactly the models of that consumer's price list, at those prices, and
  carries the status the billing store derives from the statements at that instant.
\<close>

theorem snapshot_matches_tables:
  assumes "time_laws T" "four_digit_instant now" "keys_ok keys" "key_texts T keys"
    and "billing_invariant s" "due_texts T s" "models_unique s"
    and "refresh T now flt keys s snap = (Inr n, snap')"
  shows "n = length (filter (serves T now) keys)
    \<and> (snap' h = None \<longleftrightarrow> \<not> (\<exists>k \<in> set keys. serves T now k \<and> ak_key_hash k = h))
    \<and> (\<forall>c. snap' h = Some c \<longrightarrow>
        (\<exists>k \<in> set keys. serves T now k \<and> ak_key_hash k = h
          \<and> rc_consumer_id c = ak_consumer_id k \<and> rc_key_name c = ak_name k
          \<and> (\<forall>m p. config_pricing_for c m = Some p \<longleftrightarrow>
               (\<exists>row \<in> set (partner_models s). mr_consumer_id row = ak_consumer_id k
                  \<and> mr_model row = m \<and> prices_of row = p))
          \<and> derived_status T now (mode_text_of s (ak_consumer_id k)) (ak_consumer_id k) s
            = Inr (rc_service_status c)))"
proof -
  note use = usable_iff_serves [OF assms(1,2,4)]
  have count: "n = length (filter (serves T now) keys)"
    using refresh_snapshot(1) [OF assms(3,8)] use by (simp cong: filter_cong)
  have found: "snap' h = Some c \<longleftrightarrow>
      (\<exists>k \<in> set keys. serves T now k \<and> ak_key_hash k = h \<and> c = loaded T now s k)" for c
    using refresh_snapshot(2) [OF assms(3,8), of h c] use by (simp cong: bex_cong)
  have absent: "snap' h = None \<longleftrightarrow> \<not> (\<exists>k \<in> set keys. serves T now k \<and> ak_key_hash k = h)"
    using found by (metis not_None_eq)
  have present: "\<exists>k \<in> set keys. serves T now k \<and> ak_key_hash k = h
      \<and> rc_consumer_id c = ak_consumer_id k \<and> rc_key_name c = ak_name k
      \<and> (\<forall>m p. config_pricing_for c m = Some p \<longleftrightarrow>
           (\<exists>row \<in> set (partner_models s). mr_consumer_id row = ak_consumer_id k
              \<and> mr_model row = m \<and> prices_of row = p))
      \<and> derived_status T now (mode_text_of s (ak_consumer_id k)) (ak_consumer_id k) s
        = Inr (rc_service_status c)" if seen: "snap' h = Some c" for c
  proof -
    obtain k where k: "k \<in> set keys" "serves T now k" "ak_key_hash k = h" "c = loaded T now s k"
      using found [THEN iffD1, OF seen] by (elim bexE conjE) blast
    have "\<forall>m p. config_pricing_for c m = Some p \<longleftrightarrow>
        (\<exists>row \<in> set (partner_models s). mr_consumer_id row = ak_consumer_id k
           \<and> mr_model row = m \<and> prices_of row = p)"
      by (simp add: k(4) config_pricing_for_def models_of_lookup [OF assms(7)])
    moreover have "derived_status T now (mode_text_of s (ak_consumer_id k)) (ak_consumer_id k) s
        = Inr (rc_service_status c)"
      using loaded_status [OF assms(1,2,5,6)] by (simp only: k(4))
    ultimately show ?thesis
      using k(1-3) by (intro bexI [of _ k] conjI) (simp_all only: k(4) loaded_fields simp_thms)
  qed
  show ?thesis
    by (intro conjI allI impI count absent present)
qed

text \<open>A partner with one model, its key, and no statement yet.\<close>

definition priced_db :: db where
  "priced_db = sample_db\<lparr>partner_models :=
     [\<lparr>mr_consumer_id = ''acme'', mr_model = ''unknown'', mr_input = 1, mr_cached_input = 1,
       mr_output = 1, mr_created_at = ''t'', mr_updated_at = ''t''\<rparr>]\<rparr>"

lemma priced_db_ok [simp]:
  "billing_invariant priced_db" "due_texts gregorian priced_db" "models_unique priced_db"
  "key_texts gregorian sample_keys"
  by (simp_all add: billing_invariant_def due_texts_def models_unique_def key_texts_def priced_db_def
      sample_db_def empty_db_def has_partner_def sample_partner_def sample_keys_def sample_new_key_def)

lemma sample_serves: "serves gregorian now (new_row sample_new_key 1)"
  by (simp add: serves_def sample_new_key_def)

lemma refresh_succeeds: "\<exists>n snap'. refresh T now None keys s snap = (Inr n, snap')"
  by (simp add: refresh_def swap_snapshot_def load_active_def)

theorem snapshot_matches_tables_witness:
  "\<exists>n snap c. refresh gregorian 0 None sample_keys priced_db (\<lambda>_. None) = (Inr n, snap)
     \<and> snap (derive_key_hash plain_crypto [] ''dev-key'') = Some c
     \<and> rc_consumer_id c = ''acme'' \<and> config_pricing_for c ''unknown'' \<noteq> None"
proof -
  obtain n snap where run: "refresh gregorian 0 None sample_keys priced_db (\<lambda>_. None) = (Inr n, snap)"
    using refresh_succeeds by blast
  let ?h = "derive_key_hash plain_crypto [] ''dev-key''"
  note pic = snapshot_matches_tables [OF greg.time_laws_axioms four_digit_epoch(1) sample_keys_ok
      priced_db_ok(4,1,2,3) run, of ?h]
  have "snap ?h \<noteq> None"
    using pic sample_serves by (auto simp: sample_keys_def sample_new_key_def)
  then obtain c where c: "snap ?h = Some c" by blast
  with pic obtain k where "k \<in> set sample_keys" "rc_consumer_id c = ak_consumer_id k"
    "\<And>m p. config_pricing_for c m = Some p \<longleftrightarrow>
       (\<exists>row \<in> set (partner_models priced_db). mr_consumer_id row = ak_consumer_id k
          \<and> mr_model row = m \<and> prices_of row = p)"
    by blast
  with run c show ?thesis
    by (auto simp: sample_keys_def sample_new_key_def priced_db_def)
qed

section \<open>Revocation\<close>

lemma refresh_hides:
  assumes "keys_ok keys" "r \<in> set keys" "\<not> live r" "flt = None \<or> snap (ak_key_hash r) = None"
  shows "snd (refresh T now flt keys s snap) (ak_key_hash r) = None"
proof (cases "fst (refresh T now flt keys s snap)")
  case (Inl e)
  with assms(4) show ?thesis by (auto simp: refresh_def swap_snapshot_def load_active_def split: sum.splits)
next
  case (Inr n)
  then have "refresh T now flt keys s snap = (Inr n, snd (refresh T now flt keys s snap))"
    by (metis prod.collapse)
  note found = refresh_snapshot(2) [OF assms(1) this]
  have "k = r" if "k \<in> set keys" "ak_key_hash k = ak_key_hash r" for k
    using assms(1,2) that by (auto simp: keys_ok_def distinct_map dest: inj_onD)
  with assms(3) have "\<not> (\<exists>k \<in> set keys. usable (format_ts T now) k \<and> ak_key_hash k = ak_key_hash r)"
    by (auto simp: usable_def live_def)
  with found show ?thesis by (metis not_None_eq)
qed

lemma loaded_rows:
  assumes "load_active T now flt keys s = Inr rows"
  shows "snapshot_from_rows rows = snd (refresh T now None keys s (\<lambda>_. None))"
proof -
  have "flt = None" using assms by (cases flt) (simp_all add: load_active_def)
  with assms show ?thesis by (simp add: refresh_def swap_snapshot_def)
qed

text \<open>
  The table has revoked the key with the hash \<open>h\<close>, and no reload under way carries it. What a reload
  loads from then on does not carry it either.
\<close>

definition carries :: "string \<Rightarrow> (string \<times> runtime_config) list \<Rightarrow> bool" where
  "carries h rows \<longleftrightarrow> snapshot_from_rows rows h \<noteq> None"

definition revoked_in :: "string \<Rightarrow> key_store \<Rightarrow> bool" where
  "revoked_in h st \<longleftrightarrow> keys_ok (ks_keys st) \<and> (\<exists>r \<in> set (ks_keys st). ak_key_hash r = h \<and> \<not> live r)"

definition leaving :: "string \<Rightarrow> key_tasks \<Rightarrow> bool" where
  "leaving h x \<longleftrightarrow> revoked_in h (kt_store x) \<and> (\<forall>rows \<in> set (kt_loaded x). \<not> carries h rows)"

definition gone :: "string \<Rightarrow> key_tasks \<Rightarrow> bool" where
  "gone h x \<longleftrightarrow> leaving h x \<and> ks_snapshot (kt_store x) h = None"

lemma revoked_in_kept:
  "revoked_in h st \<Longrightarrow> keeps_table (ks_keys st) (ks_keys st') \<Longrightarrow> revoked_in h st'"
  by (fastforce simp: revoked_in_def keeps_table_def table_evolves_def key_evolves_def)

lemma load_does_not_carry:
  assumes "revoked_in h st" "load_active T now flt (ks_keys st) s = Inr rows"
  shows "\<not> carries h rows"
  using assms refresh_hides [of "ks_keys st"] loaded_rows [OF assms(2)]
  by (auto simp: carries_def revoked_in_def)

lemma swap_step_cases:
  assumes "swap_step x y"
  obtains rows where "rows \<in> set (kt_loaded x)"
    "y = \<lparr>kt_store = (kt_store x)\<lparr>ks_snapshot := snapshot_from_rows rows\<rparr>,
          kt_loaded = remove1 rows (kt_loaded x)\<rparr>"
  using assms by cases (auto simp: swap_snapshot_def)

lemma swap_makes_gone: "leaving h x \<Longrightarrow> swap_step x y \<Longrightarrow> gone h y"
  by (erule swap_step_cases)
    (auto simp: gone_def leaving_def carries_def revoked_in_def dest: set_remove1_subset [THEN subsetD])

lemma leaving_step:
  assumes "task_step K T secret x y" "leaving h x"
  shows "leaving h y"
  using assms
proof cases
  case (committed st')
  have "revoked_in h (kt_store x)" using assms(2) by (simp add: leaving_def)
  from revoked_in_kept [OF this key_step_keeps [OF committed(2)]] assms(2) show ?thesis
    by (simp add: committed(1) leaving_def revoked_in_def)
next
  case (loaded now flt s rows)
  with assms(2) load_does_not_carry [OF _ loaded(2)] show ?thesis by (auto simp: leaving_def)
next
  case swap
  from swap_makes_gone [OF assms(2) this] show ?thesis by (simp add: gone_def)
qed

lemma gone_step:
  assumes "task_step K T secret x y" "gone h x"
  shows "gone h y"
  using assms(1)
proof cases
  case swap
  have "leaving h x" using assms(2) by (simp add: gone_def)
  from swap_makes_gone [OF this swap] show ?thesis .
qed (use leaving_step [OF assms(1)] assms(2) in \<open>auto simp: gone_def\<close>)

lemma gone_steps: "(task_step K T secret)\<^sup>*\<^sup>* x y \<Longrightarrow> gone h x \<Longrightarrow> gone h y"
  by (induction rule: rtranclp_induct) (auto intro: gone_step)

lemma revocation_commits:
  assumes "keys_ok (ks_keys st)" "revoke_key T env i st = (Inr view, st')" "alone env"
    and "r \<in> set (ks_keys st)" "ak_id r = i"
  shows "revoked_in (ak_key_hash r) st'"
proof -
  let ?tx = "revoke_tx i (format_ts T (ke_now env))"
  obtain res where res: "mutate_domain T env (sqlite_tx ?tx) st = (res, st')"
      "res_bind res (\<lambda>out. res_bind (outcome_result i (\<lambda>_. Inr ()) out) (\<lambda>r. Inr (row_to_api_key r))) = Inr view"
    using assms(2) unfolding revoke_key_def mutate_sqlite by (simp split: prod.splits)
  then obtain out where run: "mutate_domain T env (sqlite_tx ?tx) st = (Inr out, st')" and "out \<noteq> OutMissing"
    by (cases res) (auto simp: outcome_result_def split: key_outcome.splits)
  then have tx: "?tx (ks_keys st) = Inr (out, ks_keys st')"
    unfolding mutate_domain_alone [OF assms(3)] by (auto split: option.splits sum.splits mutation.splits)
  have ok: "keys_ok (ks_keys st')"
    using revoke_key_keeps [OF assms(2,3)] assms(1) by (simp add: keeps_table_def)
  have found: "fetch_row (ks_keys st) i = Some r"
    using assms(1,4,5) fetch_row_mem by (simp add: keys_ok_def)
  from tx have "\<exists>q \<in> set (ks_keys st'). \<not> live q \<and> ak_key_hash q = ak_key_hash r"
  proof (cases rule: revoke_tx_Inr)
    case same
    with found assms(4) show ?thesis by auto
  next
    case (revoked current)
    with assms(4,5) have "revoked (format_ts T (ke_now env)) r \<in> set (ks_keys st')"
      by (auto simp: set_update_key)
    then show ?thesis by (rule bexI [rotated]) simp
  qed
  with ok show ?thesis by (auto simp: revoked_in_def)
qed



text \<open>
  A reload that read the table before a revocation and is swapped in after the revocation's own reload
  puts the revoked key back into the snapshot, although the revocation has been answered.
\<close>

lemma stale_reload_restores_key:
  assumes "rows \<in> set (kt_loaded x)" "carries h rows"
  shows "\<exists>y. swap_step x y \<and> ks_snapshot (kt_store y) h \<noteq> None"
proof (intro exI conjI)
  show "swap_step x \<lparr>kt_store = (kt_store x)\<lparr>ks_snapshot := snapshot_from_rows rows\<rparr>,
      kt_loaded = remove1 rows (kt_loaded x)\<rparr>"
    by (rule swapped [OF assms(1)]) (simp add: swap_snapshot_def)
qed (use assms(2) in \<open>simp add: carries_def\<close>)

section \<open>Who is served\<close>

lemma extract_bearer_token_trimmed:
  "extract_bearer_token h = Inr token \<Longrightarrow> token \<noteq> [] \<and> trim token = token"
  by (auto simp: extract_bearer_token_def Let_def split: option.splits if_splits)

lemma proxy_route_run:
  assumes "proxy_route K secret snap c J H client env minted_id arrived req = (effs, ans)" "effs \<noteq> []"
  obtains token partner where "extract_bearer_token (cr_headers req) = Inr token"
    "authenticate_key K secret snap token = Some partner"
    "proxy_handler J H client env minted_id (sv_max_body_size (cf_server c)) arrived
       (context_new partner) req = (effs, ans)"
proof -
  obtain who where who: "authenticated K secret snap c (cr_headers req) = Inr who"
    and run: "proxy_handler J H client env minted_id (sv_max_body_size (cf_server c)) arrived who req
      = (effs, ans)"
    using assms by (cases "authenticated K secret snap c (cr_headers req)") (auto simp: proxy_route_def)
  have "\<not> is_manager who"
    using run assms(2) by (auto simp: proxy_handler_def split: if_splits)
  with who run that show ?thesis
    by (elim authenticated_cases) (auto simp: is_manager_def context_manager_def)
qed

lemma suspension_message_None: "suspension_message st = None \<longleftrightarrow> st = Active"
  by (cases st) simp_all

lemma handle_proxy_accepts:
  assumes run: "handle_proxy J H client env c req = (effs, ans)" and "effs \<noteq> []"
  shows "context_service_status c = Active
    \<and> (\<forall>r. LedgerAccept r \<in> set effs \<longrightarrow> rr_consumer_id r = context_consumer_id c
        \<and> (\<exists>prices. rr_pricing r = Some prices \<and> context_pricing_for c (rr_model r) = Some prices))"
proof (cases "endpoint_from_path (cr_path req)")
  case None
  with assms show ?thesis by (simp add: handle_proxy_def)
next
  case (Some ep)
  have active: "context_service_status c = Active"
    using assms Some
    by (cases "context_service_status c") (auto simp: handle_proxy_def)
  have sent: "LedgerAccept r \<notin> set (fst (call_upstream H client env req))" for r
    by (cases rule: call_upstream_cases [of H client env req]) simp_all
  show ?thesis
  proof (cases "ep = Models")
    case True
    then have "effs = fst (call_upstream H client env req)"
      using run Some active by (simp add: handle_proxy_def) (metis proxy_unmetered_effects)
    with sent active show ?thesis by simp
  next
    case False
    then obtain prices where prices: "context_pricing_for c (request_model J ep (cr_body req)) = Some prices"
      using assms Some active by (cases "context_pricing_for c (request_model J ep (cr_body req))")
        (auto simp: handle_proxy_def)
    let ?r = "accepted_record J env c ep req prices"
    obtain up reply where up: "call_upstream H client env req = (up, reply)"
      by fastforce
    obtain rest a where rest: "relay_reply J env ep (wants_stream J (cr_body req)) ?r reply = (rest, a)"
      by fastforce
    have "LedgerAccept r \<notin> set rest" for r
      using relay_reply_settles [of ?r J env ep "wants_stream J (cr_body req)" reply] rest unopened
      by (fastforce simp: settles_def)
    moreover have "effs = [LedgerAccept ?r, LedgerUnhealthy] \<or> effs = LedgerAccept ?r # up @ rest"
      using run Some active False prices up rest by (auto simp: handle_proxy_def Let_def split: if_splits)
    ultimately have only: "LedgerAccept r \<in> set effs \<Longrightarrow> r = ?r" for r
      using sent up by auto
    show ?thesis
      using active prices by (auto dest!: only)
  qed
qed

lemma active_has_no_overdue:
  assumes "time_laws T" "four_digit_instant now" "billing_invariant s" "due_texts T s"
    and "derived_status T now ''invoice'' c s = Inr Active"
  shows "\<not> (\<exists>r \<in> set (daily_statements s). \<exists>due. overdue_at T now c r due)"
proof -
  let ?P = "\<lambda>r. row_suspends T now (to_overdue_row r)"
  let ?rows = "sort_key (\<lambda>r. (st_due_at r, st_id r))
    (statements_where (overdue_where (format_ts T now) (Some c)) s)"
  have "find ?P ?rows = None"
  proof (cases "find ?P ?rows")
    case (Some r)
    have "overdue_verdict T now (to_overdue_row r) \<noteq> Some Active"
      by (auto simp: overdue_verdict_def split: option.splits if_splits)
    moreover obtain v where "overdue_verdict T now (to_overdue_row r) = Some v"
      using row_suspends_verdict find_SomeD [OF Some] by blast
    ultimately show ?thesis using assms(5) Some derived_status_eq [of T now c s] by simp
  qed simp
  then show ?thesis
    using overdue_candidate_iff [OF assms(1-4)] by (auto simp: find_None_iff statements_where_def)
qed


definition bearer_post :: client_request where
  "bearer_post = sample_post\<lparr>cr_headers := [(''authorization'', ''Bearer dev-key'')]\<rparr>"

lemma bearer_post_token: "extract_bearer_token (cr_headers bearer_post) = Inr ''dev-key''"
proof -
  have "trim ''dev-key'' = ''dev-key''"
    by (rule trim_visible) (simp_all add: visible_def)
  moreover have "eq_ignore_ascii_case ''Bearer'' ''bearer''"
    by code_simp
  ultimately show ?thesis
    by (simp add: extract_bearer_token_def bearer_post_def header_get_def header_to_str_def Let_def split_once_def)
qed


section \<open>Keys that cannot be used\<close>

text \<open>
  The middleware trims the token; a key may be registered with blanks around its plaintext, and then
  no header presents it.
\<close>

lemma padded_key_never_presented:
  "trim plaintext \<noteq> plaintext \<Longrightarrow> extract_bearer_token h \<noteq> Inr plaintext"
  using extract_bearer_token_trimmed by blast

text \<open>A plaintext issued twice is reported as a second live key whenever the consumer has one.\<close>

lemma duplicate_plaintext_misreported:
  "nk_hash k \<in> ak_key_hash ` set keys \<Longrightarrow> active_key_exists keys (nk_consumer_id k) \<Longrightarrow>
   create_tx k keys = Inl (MutDomain (AlreadyActive (nk_consumer_id k)))"
  by (simp add: create_tx_def insert_key_def unique_violation_def)

text \<open>The replacement of an expired key has expired.\<close>

lemma rotation_keeps_expiry:
  assumes "rotate_tx i head hash now keys = Inr (OutDone (old, Some new), keys')" "\<not> serves T t old"
  shows "\<not> serves T t new"
  using assms(1)
proof (cases rule: rotate_tx_Inr)
  case (rotated current k j)
  with assms(2) show ?thesis by (simp add: serves_def)
qed simp_all

end
