(* ===== verification/Recovery.thy ===== *)
theory Recovery
  imports Ledger_Rows
begin

text \<open>
  \<^verbatim>\<open>src/src/ledger/recovery.rs\<close> and \<^verbatim>\<open>src/src/ledger/instance.rs\<close>: what a pass does to requests
  left in flight by a process that is gone. The advisory locks of the operating system are the
  environment: \<open>locks\<close> is what opening and locking the file of an instance would give.
\<close>

section \<open>Liveness\<close>

datatype liveness = Alive | Dead | Unknown

definition is_recoverable_now :: "liveness \<Rightarrow> bool" where
  "is_recoverable_now l \<longleftrightarrow> l = Dead"

definition is_recoverable_when_old :: "liveness \<Rightarrow> bool" where
  "is_recoverable_when_old l \<longleftrightarrow> l = Unknown"

text \<open>A lock file: absent, not to be opened, or opened with what \<open>flock\<close> answered.\<close>

datatype lock_file = NoFile | OpenFailed | Opened "bool option"

definition probe :: "(string \<Rightarrow> lock_file) \<Rightarrow> string \<Rightarrow> liveness" where
  "probe locks i =
     (case locks i of
        NoFile \<Rightarrow> Dead
      | OpenFailed \<Rightarrow> Unknown
      | Opened (Some True) \<Rightarrow> Dead
      | Opened (Some False) \<Rightarrow> Alive
      | Opened None \<Rightarrow> Unknown)"

section \<open>The state of a pass\<close>

text \<open>The tables, the registered instances, and the entries of \<open>ledger_meta\<close>.\<close>

record ledger =
  lg_db :: db
  lg_instances :: "string list"
  lg_meta :: "string \<Rightarrow> string option"

text \<open>
  The registration of an instance, which is an upsert on its id, and its removal at a graceful exit.
\<close>

definition register_instance :: "string \<Rightarrow> ledger \<Rightarrow> ledger" where
  "register_instance i g =
     (if i \<in> set (lg_instances g) then g else g\<lparr>lg_instances := lg_instances g @ [i]\<rparr>)"

definition release_instance :: "string \<Rightarrow> ledger \<Rightarrow> ledger" where
  "release_instance i g = g\<lparr>lg_instances := filter (\<lambda>j. j \<noteq> i) (lg_instances g)\<rparr>"

record recovery_report =
  rp_recovered :: nat
  rp_instances_swept :: nat

definition report_is_empty :: "recovery_report \<Rightarrow> bool" where
  "report_is_empty r \<longleftrightarrow> rp_recovered r = 0 \<and> rp_instances_swept r = 0"

definition INTERRUPT_REASON :: string where
  "INTERRUPT_REASON = ''owning process is gone; request was in flight''"

definition DEFAULT_UNKNOWN_OWNER_GRACE :: int where
  "DEFAULT_UNKNOWN_OWNER_GRACE = 30"

record recovery_context =
  rx_instance_id :: string
  rx_unknown_owner_grace :: int
  rx_now :: instant

definition context_new_recovery :: "string \<Rightarrow> instant \<Rightarrow> recovery_context" where
  "context_new_recovery i now =
     \<lparr>rx_instance_id = i, rx_unknown_owner_grace = DEFAULT_UNKNOWN_OWNER_GRACE, rx_now = now\<rparr>"

definition old_before :: "time_crate \<Rightarrow> recovery_context \<Rightarrow> string" where
  "old_before T ctx = format_ts T (rx_now ctx - rx_unknown_owner_grace ctx * 1000000000)"

section \<open>A pass\<close>

record dead_instances =
  di_confirmed :: "string list"
  di_unknown :: "string list"

text \<open>\<open>UNION\<close> keeps one of equal rows.\<close>

definition owners_in_flight :: "usage_row list \<Rightarrow> string list" where
  "owners_in_flight rows =
     List.map_filter (\<lambda>r. if ur_request_status r = ''in_flight'' then ur_instance_id r else None) rows"

definition candidates :: "recovery_context \<Rightarrow> ledger \<Rightarrow> string list" where
  "candidates ctx g =
     remdups (filter (\<lambda>i. i \<noteq> rx_instance_id ctx)
       (lg_instances g @ owners_in_flight (usage_records (lg_db g))))"

definition classify_candidates ::
  "(string \<Rightarrow> lock_file) \<Rightarrow> recovery_context \<Rightarrow> ledger \<Rightarrow> dead_instances" where
  "classify_candidates locks ctx g =
     \<lparr>di_confirmed = filter (\<lambda>i. probe locks i = Dead) (candidates ctx g),
      di_unknown = filter (\<lambda>i. probe locks i = Unknown) (candidates ctx g)\<rparr>"

text \<open>The temporary table: \<open>require_old\<close> of each recoverable owner.\<close>

definition stage_recoverable :: "dead_instances \<Rightarrow> string \<Rightarrow> bool option" where
  "stage_recoverable dead =
     fold (\<lambda>i m. m(i \<mapsto> True)) (di_unknown dead)
       (fold (\<lambda>i m. m(i \<mapsto> False)) (di_confirmed dead) (\<lambda>_. None))"

definition stranded_predicate :: "(string \<Rightarrow> bool option) \<Rightarrow> string \<Rightarrow> usage_row \<Rightarrow> bool" where
  "stranded_predicate staged old r \<longleftrightarrow>
     ur_request_status r = ''in_flight''
     \<and> (case ur_instance_id r of
          Some i \<Rightarrow> (case staged i of
                        None \<Rightarrow> False
                      | Some require_old \<Rightarrow> \<not> require_old \<or> ur_created_at r < old)
        | None \<Rightarrow> ur_created_at r < old)"

definition select_stranded :: "(string \<Rightarrow> bool option) \<Rightarrow> string \<Rightarrow> db \<Rightarrow> usage_row list" where
  "select_stranded staged old s = filter (stranded_predicate staged old) (usage_records s)"

definition interrupted_contribution :: "time_crate \<Rightarrow> usage_row \<Rightarrow> contribution" where
  "interrupted_contribution T r =
     \<lparr>cb_key = \<lparr>bk_hour = format_hour_str T (ur_created_at r), bk_consumer_id = ur_consumer_id r,
                bk_model = ur_model r, bk_endpoint = ur_endpoint r, bk_streaming = ur_streaming r\<rparr>,
      cb_metrics = interrupted (ur_duration_ms r)\<rparr>"

definition interrupt_row :: "usage_row \<Rightarrow> usage_row" where
  "interrupt_row r =
     r\<lparr>ur_request_status := ''interrupted'', ur_usage_status := ''unavailable'',
       ur_error_message := Some INTERRUPT_REASON, ur_error_body := None\<rparr>"

definition sweep_registrations :: "dead_instances \<Rightarrow> string list \<Rightarrow> nat \<times> string list" where
  "sweep_registrations dead instances =
     (let gone = set (di_confirmed dead)
      in (length (filter (\<lambda>i. i \<in> gone) instances), filter (\<lambda>i. i \<notin> gone) instances))"

definition recover_in_tx ::
  "time_crate \<Rightarrow> (string \<Rightarrow> lock_file) \<Rightarrow> recovery_context \<Rightarrow> ledger \<Rightarrow>
   (recovery_report \<times> string list) \<times> ledger" where
  "recover_in_tx T locks ctx g =
     (let dead = classify_candidates locks ctx g;
          staged = stage_recoverable dead;
          old = old_before T ctx;
          stranded = select_stranded staged old (lg_db g);
          hourly = fold (\<lambda>r. contribution_add (interrupted_contribution T r)) stranded
                     (usage_hourly (lg_db g));
          rows = map (\<lambda>r. if stranded_predicate staged old r then interrupt_row r else r)
                   (usage_records (lg_db g));
          recovered = length (filter (stranded_predicate staged old) (usage_records (lg_db g)));
          (swept, instances) = sweep_registrations dead (lg_instances g)
      in ((\<lparr>rp_recovered = recovered, rp_instances_swept = swept\<rparr>, di_confirmed dead),
          g\<lparr>lg_db := (lg_db g)\<lparr>usage_records := rows, usage_hourly := hourly\<rparr>,
            lg_instances := instances\<rparr>))"

text \<open>
  The transaction, and the lock files removed behind its commit. A failure anywhere in it, the commit
  included, leaves the tables and the files as they were.
\<close>

definition recover_in_flight ::
  "time_crate \<Rightarrow> (string \<Rightarrow> lock_file) \<Rightarrow> fault \<Rightarrow> recovery_context \<Rightarrow> ledger \<Rightarrow>
   (rusqlite_error + (recovery_report \<times> string list)) \<times> ledger" where
  "recover_in_flight T locks flt ctx g =
     (case flt of
        Some e \<Rightarrow> (Inl e, g)
      | None \<Rightarrow>
          (case recover_in_tx T locks ctx g of
             ((report, swept), g') \<Rightarrow>
               (Inr (report, swept),
                if report_is_empty report then g'
                else g'\<lparr>lg_meta := (lg_meta g')(''last_recovery_run'' \<mapsto> format_ts T (rx_now ctx))\<rparr>)))"

section \<open>Checks\<close>

definition count_in_flight :: "db \<Rightarrow> nat" where
  "count_in_flight s = length (filter (\<lambda>r. ur_request_status r = ''in_flight'') (usage_records s))"

text \<open>
  The number of terminal rows and the sum of the bucket counts; \<open>buckets\<close> are the keys of the table.
\<close>

definition check_raw_rollup_consistency :: "bucket_key list \<Rightarrow> db \<Rightarrow> int \<times> int" where
  "check_raw_rollup_consistency buckets s =
     (int (length (filter (\<lambda>r. ur_request_status r \<noteq> ''in_flight'') (usage_records s))),
      \<Sum>k\<leftarrow>buckets. (case usage_hourly s k of None \<Rightarrow> 0 | Some row \<Rightarrow> hr_request_count row))"

end
