(* ===== verification/Recovery_Properties.thy ===== *)
theory Recovery_Properties
  imports Recovery
begin

text \<open>
  The properties of recovery: it resolves exactly the requests whose owner is gone, keeps the rollup
  in step, never touches a live peer's, and has nothing left to do when it is run again.
\<close>

section \<open>Which rows a pass resolves\<close>

text \<open>The specification: the owner is gone, or cannot be asked and the row is old enough.\<close>

definition abandoned :: "(string \<Rightarrow> lock_file) \<Rightarrow> recovery_context \<Rightarrow> string \<Rightarrow> usage_row \<Rightarrow> bool" where
  "abandoned locks ctx old r \<longleftrightarrow>
     ur_request_status r = ''in_flight''
     \<and> (case ur_instance_id r of
          None \<Rightarrow> ur_created_at r < old
        | Some i \<Rightarrow> i \<noteq> rx_instance_id ctx
            \<and> (probe locks i = Dead \<or> probe locks i = Unknown \<and> ur_created_at r < old))"

lemma fold_upd: "fold (\<lambda>i m. m(i \<mapsto> v)) xs m j = (if j \<in> set xs then Some v else m j)"
  by (induction xs arbitrary: m) auto

lemma stage_recoverable_lookup:
  "stage_recoverable dead i =
     (if i \<in> set (di_unknown dead) then Some True
      else if i \<in> set (di_confirmed dead) then Some False else None)"
  by (simp add: stage_recoverable_def fold_upd)

lemma classified:
  "i \<in> set (di_confirmed (classify_candidates locks ctx g))
     \<longleftrightarrow> i \<in> set (candidates ctx g) \<and> probe locks i = Dead"
  "i \<in> set (di_unknown (classify_candidates locks ctx g))
     \<longleftrightarrow> i \<in> set (candidates ctx g) \<and> probe locks i = Unknown"
  by (auto simp: classify_candidates_def)

lemma owner_is_candidate:
  assumes "r \<in> set (usage_records (lg_db g))" "ur_request_status r = ''in_flight''"
    "ur_instance_id r = Some i"
  shows "i \<in> set (candidates ctx g) \<longleftrightarrow> i \<noteq> rx_instance_id ctx"
proof -
  have "i \<in> set (owners_in_flight (usage_records (lg_db g)))"
    using assms by (force simp: owners_in_flight_def List.map_filter_def)
  then show ?thesis by (auto simp: candidates_def)
qed

lemma stranded_iff_abandoned:
  assumes "r \<in> set (usage_records (lg_db g))"
  shows "stranded_predicate (stage_recoverable (classify_candidates locks ctx g)) old r
    \<longleftrightarrow> abandoned locks ctx old r"
  using owner_is_candidate [OF assms, of _ ctx]
  by (auto simp: stranded_predicate_def abandoned_def stage_recoverable_lookup classified
      split: option.split)

lemma recover_rows:
  assumes "recover_in_flight T locks None ctx g = (Inr (report, swept), g')"
  defines "P \<equiv> abandoned locks ctx (old_before T ctx)"
  shows "usage_records (lg_db g')
      = map (\<lambda>r. if P r then interrupt_row r else r) (usage_records (lg_db g))"
    and "usage_hourly (lg_db g')
      = fold (\<lambda>r. contribution_add (interrupted_contribution T r)) (filter P (usage_records (lg_db g)))
          (usage_hourly (lg_db g))"
    and "rp_recovered report = length (filter P (usage_records (lg_db g)))"
    and "swept = filter (\<lambda>i. probe locks i = Dead) (candidates ctx g)"
    and "lg_instances g' = filter (\<lambda>i. i \<notin> set swept) (lg_instances g)"
    and "rp_instances_swept report = length (filter (\<lambda>i. i \<in> set swept) (lg_instances g))"
    and "lg_db g' = (lg_db g)\<lparr>usage_records := usage_records (lg_db g'), usage_hourly := usage_hourly (lg_db g')\<rparr>"
    and "report_is_empty report \<Longrightarrow> lg_meta g' = lg_meta g"
proof -
  let ?staged = "stage_recoverable (classify_candidates locks ctx g)"
  have f: "filter (stranded_predicate ?staged (old_before T ctx)) (usage_records (lg_db g))
      = filter P (usage_records (lg_db g))"
    unfolding P_def by (rule filter_cong) (simp_all add: stranded_iff_abandoned)
  have m: "map (\<lambda>r. if stranded_predicate ?staged (old_before T ctx) r then interrupt_row r else r)
      (usage_records (lg_db g)) = map (\<lambda>r. if P r then interrupt_row r else r) (usage_records (lg_db g))"
    unfolding P_def by (rule map_cong) (simp_all add: stranded_iff_abandoned)
  note run = assms(1) [unfolded recover_in_flight_def recover_in_tx_def Let_def select_stranded_def f m
      sweep_registrations_def, simplified]
  show "usage_records (lg_db g') = map (\<lambda>r. if P r then interrupt_row r else r) (usage_records (lg_db g))"
    "usage_hourly (lg_db g')
      = fold (\<lambda>r. contribution_add (interrupted_contribution T r)) (filter P (usage_records (lg_db g)))
          (usage_hourly (lg_db g))"
    "rp_recovered report = length (filter P (usage_records (lg_db g)))"
    "swept = filter (\<lambda>i. probe locks i = Dead) (candidates ctx g)"
    "lg_instances g' = filter (\<lambda>i. i \<notin> set swept) (lg_instances g)"
    "rp_instances_swept report = length (filter (\<lambda>i. i \<in> set swept) (lg_instances g))"
    "lg_db g' = (lg_db g)\<lparr>usage_records := usage_records (lg_db g'), usage_hourly := usage_hourly (lg_db g')\<rparr>"
    using run by (auto simp: classify_candidates_def split: if_splits)
  show "lg_meta g' = lg_meta g" if "report_is_empty report"
    using run that by auto
qed

section \<open>The books\<close>

text \<open>A row in flight has observed nothing yet: what an accept stores, and no finalize undoes.\<close>

definition inflight_clean :: "db \<Rightarrow> bool" where
  "inflight_clean s \<longleftrightarrow>
     list_all (\<lambda>r. ur_request_status r = ''in_flight'' \<longrightarrow>
        ur_input_tokens r = None \<and> ur_output_tokens r = None \<and> ur_cached_tokens r = None
        \<and> ur_ttft_ms r = None \<and> ur_duration_ms r = 0) (usage_records s)"

lemma inflight_clean_empty [simp]: "inflight_clean empty_db"
  by (simp add: inflight_clean_def empty_db_def)

lemma insert_accept_clean: "insert_accept T r inst s = Inr s' \<Longrightarrow> inflight_clean s \<Longrightarrow> inflight_clean s'"
  by (auto simp: insert_accept_def inflight_clean_def accept_row_def Let_def split: if_splits prod.splits)

lemma terminal_row_resolved:
  assumes "record_is_terminal r"
  shows "ur_request_status (updated_row r v row) \<noteq> ''in_flight''"
    "ur_request_status (terminal_row T inst r v n) \<noteq> ''in_flight''"
  using assms
  by (cases "rr_request_status r"; simp add: record_is_terminal_def updated_row_def terminal_row_def
      split: prod.split)+

lemma finalize_record_clean:
  assumes "finalize_record T B r inst s = Inr s'" "record_is_terminal r" "inflight_clean s"
  shows "inflight_clean s'"
  using assms
  by (auto simp: finalize_record_def inflight_clean_def list_all_iff terminal_row_resolved
      res_bind_Inr_iff Let_def split: option.splits if_splits)

lemma fold_add_reflects:
  assumes "hourly_reflects h M" "\<And>r. r \<in> set rs \<Longrightarrow> every_total (\<lambda>n. n = 0) (cb_metrics (c r))"
  shows "hourly_reflects (fold (\<lambda>r. contribution_add (c r)) rs h) (mset (map c rs) + M)"
  using assms
proof (induction rs arbitrary: h M)
  case (Cons r rs)
  from Cons.IH [OF reflects_add_zero [OF Cons.prems(1), of "c r"]] Cons.prems(2) show ?case by simp
qed simp

lemma interrupt_contribution:
  assumes "ur_request_status r = ''in_flight''"
    "ur_input_tokens r = None" "ur_output_tokens r = None" "ur_cached_tokens r = None"
    "ur_ttft_ms r = None"
  shows "row_contribution T r = {#}"
    "row_contribution T (interrupt_row r) = {#interrupted_contribution T r#}"
  using assms
  by (simp_all add: row_contribution_def stored_contribution_def stored_of_row_def interrupt_row_def
      from_str_lossy_def interrupted_contribution_def interrupted_def or_zero_def Let_def)

lemma interrupted_contributions:
  assumes "\<And>r. r \<in> set rows \<Longrightarrow> P r \<Longrightarrow> ur_request_status r = ''in_flight''
      \<and> ur_input_tokens r = None \<and> ur_output_tokens r = None \<and> ur_cached_tokens r = None
      \<and> ur_ttft_ms r = None"
  shows "row_contributions T (map (\<lambda>r. if P r then interrupt_row r else r) rows)
    = mset (map (interrupted_contribution T) (filter P rows)) + row_contributions T rows"
  using assms
proof (induction rows)
  case (Cons r rows)
  then have "row_contributions T (map (\<lambda>r. if P r then interrupt_row r else r) rows)
      = mset (map (interrupted_contribution T) (filter P rows)) + row_contributions T rows"
    by simp
  with Cons.prems [of r] show ?case
    by (simp add: interrupt_contribution)
qed simp

lemma interrupt_row_simps [simp]:
  "ur_request_id (interrupt_row r) = ur_request_id r" "ur_request_status (interrupt_row r) = ''interrupted''"
  "ur_created_at (interrupt_row r) = ur_created_at r" "ur_instance_id (interrupt_row r) = ur_instance_id r"
  by (simp_all add: interrupt_row_def)

lemma recovered_contributions:
  assumes "inflight_clean (lg_db g)" "recover_in_flight T locks None ctx g = (Inr (report, swept), g')"
  obtains rs where "row_contributions T (usage_records (lg_db g'))
      = mset (map (interrupted_contribution T) rs) + row_contributions T (usage_records (lg_db g))"
    "usage_hourly (lg_db g')
      = fold (\<lambda>r. contribution_add (interrupted_contribution T r)) rs (usage_hourly (lg_db g))"
    "\<And>r. r \<in> set rs \<Longrightarrow> every_total (\<lambda>n. n = 0) (cb_metrics (interrupted_contribution T r))"
proof
  let ?P = "abandoned locks ctx (old_before T ctx)" and ?rows = "usage_records (lg_db g)"
  note r = recover_rows [OF assms(2)]
  show "row_contributions T (usage_records (lg_db g'))
      = mset (map (interrupted_contribution T) (filter ?P ?rows)) + row_contributions T ?rows"
    unfolding r(1)
    by (rule interrupted_contributions)
      (use assms(1) in \<open>auto simp: inflight_clean_def list_all_iff abandoned_def\<close>)
  show "usage_hourly (lg_db g') = fold (\<lambda>r. contribution_add (interrupted_contribution T r))
      (filter ?P ?rows) (usage_hourly (lg_db g))"
    by (rule r(2))
  show "every_total (\<lambda>n. n = 0) (cb_metrics (interrupted_contribution T r))"
    if "r \<in> set (filter ?P ?rows)" for r
    using assms(1) that
    by (auto simp: inflight_clean_def list_all_iff abandoned_def every_total_def
        interrupted_contribution_def interrupted_def)
qed

lemma recovered_fits:
  assumes "totals_fit (N + row_contributions T (usage_records (lg_db g)))" "inflight_clean (lg_db g)"
    and "recover_in_flight T locks None ctx g = (Inr (report, swept), g')"
  shows "totals_fit (N + row_contributions T (usage_records (lg_db g')))"
proof -
  obtain rs where rs: "row_contributions T (usage_records (lg_db g'))
      = mset (map (interrupted_contribution T) rs) + row_contributions T (usage_records (lg_db g))"
    "\<And>r. r \<in> set rs \<Longrightarrow> every_total (\<lambda>n. n = 0) (cb_metrics (interrupted_contribution T r))"
    using recovered_contributions [OF assms(2,3)] by metis
  have "totals_fit (mset (map (interrupted_contribution T) rs)
      + (N + row_contributions T (usage_records (lg_db g))))"
    using rs(2) by (induction rs) (simp_all add: assms(1) totals_fit_zero)
  then show ?thesis by (simp add: rs(1) ac_simps)
qed

lemma recovered_consistent:
  assumes "rollup_consistent T (lg_db g)" "inflight_clean (lg_db g)"
    and "recover_in_flight T locks None ctx g = (Inr (report, swept), g')"
  shows "rollup_consistent T (lg_db g') \<and> inflight_clean (lg_db g')"
proof -
  let ?rows = "usage_records (lg_db g)"
  note r = recover_rows [OF assms(3)]
  obtain rs where rs: "row_contributions T (usage_records (lg_db g'))
      = mset (map (interrupted_contribution T) rs) + row_contributions T ?rows"
    "usage_hourly (lg_db g')
      = fold (\<lambda>r. contribution_add (interrupted_contribution T r)) rs (usage_hourly (lg_db g))"
    "\<And>r. r \<in> set rs \<Longrightarrow> every_total (\<lambda>n. n = 0) (cb_metrics (interrupted_contribution T r))"
    using recovered_contributions [OF assms(2,3)] by metis
  have "hourly_reflects (usage_hourly (lg_db g')) (row_contributions T (usage_records (lg_db g')))"
    unfolding rs(1,2) using assms(1) rs(3)
    by (intro fold_add_reflects) (simp_all add: rollup_consistent_def)
  moreover have "map ur_request_id (usage_records (lg_db g')) = map ur_request_id ?rows"
    unfolding r(1) by simp
  ultimately have "rollup_consistent T (lg_db g')"
    using assms(1) unfolding rollup_consistent_def by metis
  moreover have "inflight_clean (lg_db g')"
    using assms(2) unfolding inflight_clean_def r(1) by (auto simp: list_all_iff)
  ultimately show ?thesis by simp
qed

lemma recovery_commits:
  "\<exists>report swept g'. recover_in_flight T locks None ctx g = (Inr (report, swept), g')"
  by (cases "recover_in_tx T locks ctx g") (auto simp: recover_in_flight_def)

lemma recovery_without_fault:
  assumes "recover_in_flight T locks flt ctx g = (res, g')"
  shows "(\<exists>e. res = Inl e \<and> g' = g)
    \<or> (\<exists>report swept. res = Inr (report, swept)
        \<and> recover_in_flight T locks None ctx g = (Inr (report, swept), g'))"
  using assms by (cases flt) (auto simp: recover_in_flight_def split: prod.splits)

text \<open>
  C15: a recovery pass resolves exactly the abandoned requests and keeps the books. Whatever fails, the
  hourly rollup stays the sum of the terminal rows. A pass that commits turns a row into an interrupted
  one exactly when it is in flight and its owner is gone, or cannot be asked and the row is older than
  the grace period; it reports their number, and changes no other row, no statement and no price. In
  particular it never touches a row of the instance that runs it or of one that holds its lock.
\<close>

theorem recovery_keeps_the_books:
  assumes "rollup_consistent T (lg_db g)" "inflight_clean (lg_db g)"
    and "recover_in_flight T locks flt ctx g = (res, g')"
  shows "rollup_consistent T (lg_db g') \<and> inflight_clean (lg_db g')
    \<and> (\<forall>e. res = Inl e \<longrightarrow> g' = g)
    \<and> (\<forall>report swept. res = Inr (report, swept) \<longrightarrow>
        lg_db g' = (lg_db g)\<lparr>usage_records := usage_records (lg_db g'), usage_hourly := usage_hourly (lg_db g')\<rparr>
        \<and> usage_records (lg_db g') =
            map (\<lambda>r. if abandoned locks ctx (old_before T ctx) r then interrupt_row r else r)
              (usage_records (lg_db g))
        \<and> rp_recovered report
            = length (filter (abandoned locks ctx (old_before T ctx)) (usage_records (lg_db g))))"
  using recovery_without_fault [OF assms(3)]
proof (elim disjE exE conjE)
  fix e assume "res = Inl e" "g' = g"
  with assms(1,2) show ?thesis by simp
next
  fix report swept assume res: "res = Inr (report, swept)"
    and run: "recover_in_flight T locks None ctx g = (Inr (report, swept), g')"
  from recovered_consistent [OF assms(1,2) run] res recover_rows(1,3,7) [OF run]
  show ?thesis by simp
qed

section \<open>Nothing left to do\<close>

lemma abandoned_probe: "(\<And>i. probe locks' i = probe locks i) \<Longrightarrow> abandoned locks' ctx = abandoned locks ctx"
  by (simp add: abandoned_def fun_eq_iff cong: option.case_cong)

lemma interrupted_not_abandoned [simp]: "\<not> abandoned locks ctx old (interrupt_row r)"
  by (simp add: abandoned_def)

text \<open>
  C16: recovery settles. When a pass has committed and the lock files of the instances it swept are
  gone, a second pass with the same cutoff finds nothing: it reports no request and no instance, and
  leaves every table as it is.
\<close>

theorem recovery_settles:
  assumes "recover_in_flight T locks None ctx g = (Inr (report, swept), g')"
    and "recover_in_flight T (\<lambda>i. if i \<in> set swept then NoFile else locks i) None ctx g'
      = (Inr (report', swept'), g'')"
  shows "rp_recovered report' = 0 \<and> rp_instances_swept report' = 0 \<and> g'' = g'"
proof -
  let ?locks = "\<lambda>i. if i \<in> set swept then NoFile else locks i"
  let ?P = "abandoned locks ctx (old_before T ctx)" and ?rows = "usage_records (lg_db g)"
  note first = recover_rows [OF assms(1)] and second = recover_rows [OF assms(2)]
  have probes: "probe ?locks i = probe locks i" for i
    using first(4) by (simp add: probe_def)
  then have P: "abandoned ?locks ctx = abandoned locks ctx"
    by (rule abandoned_probe)
  have none: "filter ?P (usage_records (lg_db g')) = []"
    unfolding first(1) filter_empty_conv by auto
  have "i \<notin> set (candidates ctx g')" if dead: "probe locks i = Dead" for i
  proof
    assume i: "i \<in> set (candidates ctx g')"
    then have other: "i \<noteq> rx_instance_id ctx" by (auto simp: candidates_def)
    from i consider (registered) "i \<in> set (lg_instances g')"
      | (owner) r where "r \<in> set (usage_records (lg_db g'))" "ur_request_status r = ''in_flight''"
          "ur_instance_id r = Some i"
      by (auto simp: candidates_def owners_in_flight_def List.map_filter_def split: if_splits)
    then show False
    proof cases
      case registered
      then have "i \<in> set (candidates ctx g)" "i \<notin> set swept"
        using first(5) other by (simp_all add: candidates_def)
      with dead first(4) show False by simp
    next
      case owner
      then have "?P r"
        using dead other by (simp add: abandoned_def)
      with owner(1) none show False by (auto simp: filter_empty_conv)
    qed
  qed
  then have swept': "swept' = []"
    using second(4) probes by (auto simp: filter_empty_conv)
  have "filter (abandoned ?locks ctx (old_before T ctx)) (usage_records (lg_db g')) = []"
    using none P by simp
  with second(3) swept' second(6) have empty: "rp_recovered report' = 0" "rp_instances_swept report' = 0"
    by simp_all
  have rows: "usage_records (lg_db g'') = usage_records (lg_db g')"
    unfolding second(1) P by (rule map_idI) (use none in \<open>auto simp: filter_empty_conv\<close>)
  have "usage_hourly (lg_db g'') = usage_hourly (lg_db g')"
    using second(2) none P by simp
  with rows second(7) have "lg_db g'' = lg_db g'"
    by simp
  moreover have "lg_meta g'' = lg_meta g'"
    using second(8) empty by (simp add: report_is_empty_def)
  ultimately have "g'' = g'"
    using second(5) swept' by (simp add: ledger.equality)
  with empty show ?thesis by simp
qed

section \<open>A recovery that was wrong\<close>

lemma updated_interrupted: "updated_row r v (interrupt_row row) = updated_row r v row"
  by (simp add: updated_row_def interrupt_row_def split: prod.split)

lemma find_map_keep:
  "(\<And>r. ur_request_id (u r) = ur_request_id r) \<Longrightarrow>
   find (\<lambda>r. ur_request_id r = x) (map u rows) = map_option u (find (\<lambda>r. ur_request_id r = x) rows)"
  by (induction rows) auto

text \<open>The row a finalize leaves, when the request has one.\<close>

lemma finalized_row:
  assumes "finalize_record T B r inst s = Inr s'"
    and "find (\<lambda>x. ur_request_id x = rr_request_id r) (usage_records s) = Some row"
  shows "\<exists>v. bind_usage B r = Inr v
    \<and> find (\<lambda>x. ur_request_id x = rr_request_id r) (usage_records s') = Some (updated_row r v row)"
proof -
  from assms obtain v where v: "bind_usage B r = Inr v" "usage_records s' =
      map (\<lambda>x. if ur_request_id x = rr_request_id r then updated_row r v x else x) (usage_records s)"
    by (auto simp: finalize_record_def stored_load_def res_bind_Inr_iff Let_def split: if_splits)
  have "find (\<lambda>x. ur_request_id x = rr_request_id r) (usage_records s') =
      map_option (\<lambda>x. if ur_request_id x = rr_request_id r then updated_row r v x else x) (Some row)"
    unfolding v(2) assms(2) [symmetric] by (rule find_map_keep) simp
  moreover have "ur_request_id row = rr_request_id r"
    using find_SomeD [OF assms(2)] by simp
  ultimately show ?thesis using v(1) by simp
qed

text \<open>
  a request that was recovered although its owner was alive loses nothing. When its owner
  finalizes it after the pass, the row of the request is the one it would have become without the
  pass, and the rollup is the sum of the terminal rows again.
\<close>

theorem late_finalize_corrects:
  assumes "time_laws T" "rusqlite_binding B" "rollup_consistent T (lg_db g)" "inflight_clean (lg_db g)"
    and "wf_record r" "record_is_terminal r" "accepted_as T r (lg_db g)"
    and "has_request (rr_request_id r) (usage_records (lg_db g))"
    and "finalize_record T B r inst (lg_db g) = Inr untouched"
    and "recover_in_flight T locks flt ctx g = (res, g')"
    and "finalize_record T B r inst' (lg_db g') = Inr corrected"
    and "rollup_fits T (lg_db g')" "rollup_fits T corrected"
  shows "rollup_consistent T corrected
    \<and> find (\<lambda>x. ur_request_id x = rr_request_id r) (usage_records corrected)
      = find (\<lambda>x. ur_request_id x = rr_request_id r) (usage_records untouched)"
proof -
  let ?is = "\<lambda>x. ur_request_id x = rr_request_id r"
  obtain row where row: "find ?is (usage_records (lg_db g)) = Some row"
    using assms(8) by (cases "find ?is (usage_records (lg_db g))") (auto simp: has_request_def find_None_iff)
  obtain u where rows: "usage_records (lg_db g') = map u (usage_records (lg_db g))"
    and u: "\<And>x. u x = x \<or> u x = interrupt_row x"
    using recovery_without_fault [OF assms(10)]
  proof (elim disjE exE conjE)
    fix e assume "g' = g"
    then show thesis using that [of "\<lambda>x. x"] by simp
  next
    fix report swept assume "recover_in_flight T locks None ctx g = (Inr (report, swept), g')"
    from recover_rows(1) [OF this] show thesis
      by (rule that) simp
  qed
  have kept: "ur_request_id (u x) = ur_request_id x" "same_request T r x \<Longrightarrow> same_request T r (u x)" for x
    using u [of x] by (auto simp: same_request_def interrupt_row_def)
  have "find ?is (usage_records (lg_db g')) = Some (u row)"
    unfolding rows using find_map_keep [of u, OF kept(1)] row by simp
  from finalized_row [OF assms(11) this] finalized_row [OF assms(9) row]
  have "find ?is (usage_records corrected) = find ?is (usage_records untouched)"
    using u [of row] updated_interrupted by auto
  moreover have "accepted_as T r (lg_db g')"
    using assms(7) kept by (auto simp: accepted_as_def rows list_all_iff)
  moreover have "rollup_consistent T (lg_db g')"
    using recovery_without_fault [OF assms(10)] recovered_consistent [OF assms(3,4)] assms(3) by blast
  ultimately show ?thesis
    using ledger_env.finalize_record_consistent [OF ledger_env.intro [OF assms(1,2)] assms(11)] assms(5,6,12,13)
    by blast
qed

section \<open>Witnesses\<close>

text \<open>One accepted request of the instance \<open>a\<close>, which is gone.\<close>

definition crashed_ledger :: ledger where
  "crashed_ledger =
     \<lparr>lg_db = empty_db\<lparr>usage_records := [accept_row gregorian (Some ''a'') sample_record 1]\<rparr>,
      lg_instances = [''a'', ''b''], lg_meta = (\<lambda>_. None)\<rparr>"

abbreviation "crashed_pass \<equiv>
  recover_in_flight gregorian (\<lambda>i. if i = ''b'' then Opened (Some False) else NoFile) None
    (context_new_recovery ''b'' 36000000000001)"

lemma crashed_ledger_ok [simp]:
  "rollup_consistent gregorian (lg_db crashed_ledger)" "inflight_clean (lg_db crashed_ledger)"
  by (simp_all add: rollup_consistent_def crashed_ledger_def empty_db_def)
    (simp add: inflight_clean_def accept_row_def split: prod.split)

theorem recovery_keeps_the_books_witness:
  "\<exists>report swept g'. crashed_pass crashed_ledger = (Inr (report, swept), g')
     \<and> rp_recovered report = 1 \<and> rollup_consistent gregorian (lg_db g')"
proof -
  obtain report swept g' where run: "crashed_pass crashed_ledger = (Inr (report, swept), g')"
    using recovery_commits by blast
  have "abandoned (\<lambda>i. if i = ''b'' then Opened (Some False) else NoFile)
      (context_new_recovery ''b'' 36000000000001) old (accept_row gregorian (Some ''a'') sample_record 1)" for old
    by (simp add: abandoned_def accept_row_def probe_def context_new_recovery_def split: prod.split)
  with recovery_keeps_the_books [OF crashed_ledger_ok run] run show ?thesis
    by (simp add: crashed_ledger_def)
qed

theorem recovery_settles_witness:
  "\<exists>report swept g' report' swept'. crashed_pass crashed_ledger = (Inr (report, swept), g')
     \<and> recover_in_flight gregorian
         (\<lambda>i. if i \<in> set swept then NoFile else if i = ''b'' then Opened (Some False) else NoFile) None
         (context_new_recovery ''b'' 36000000000001) g' = (Inr (report', swept'), g')"
proof -
  obtain report swept g' where run: "crashed_pass crashed_ledger = (Inr (report, swept), g')"
    using recovery_commits by blast
  obtain report' swept' g'' where again: "recover_in_flight gregorian
      (\<lambda>i. if i \<in> set swept then NoFile else if i = ''b'' then Opened (Some False) else NoFile) None
      (context_new_recovery ''b'' 36000000000001) g' = (Inr (report', swept'), g'')"
    using recovery_commits by blast
  from recovery_settles [OF run again] run again show ?thesis by auto
qed

lemma finalize_sample:
  assumes "find (\<lambda>x. ur_request_id x = rr_request_id sample_record) (usage_records s) = Some row"
    and "\<And>x. x \<in> set (usage_records s) \<Longrightarrow> ur_endpoint x = ''chat_completions''
      \<and> absent_or_nonneg (ur_input_price x) \<and> absent_or_nonneg (ur_cached_price x)
      \<and> absent_or_nonneg (ur_output_price x)"
  shows "\<exists>s'. finalize_record gregorian exact_binding sample_record inst s = Inr s'"
proof -
  have "usage_row_check (updated_row sample_record (Some 1000, Some 20, Some 200, None) x)"
    if "x \<in> set (usage_records s)" for x
    using assms(2) [OF that]
    by (simp add: usage_row_check_def updated_row_def sample_record_def record_complete_def
        with_pricing_def record_new_def usage_new_def snapshot_columns_def as_tuple_def coalesce_def
        absent_or_nonneg_def record_usage_status_def usage_status_of_def)
  moreover have "bind_usage exact_binding sample_record = Inr (Some 1000, Some 20, Some 200, None)"
    by (simp add: bind_usage_def bind_opt_def exact_binding_def sample_record_def record_complete_def
        with_pricing_def record_new_def usage_new_def)
  ultimately show ?thesis
    using assms(1)
    by (auto simp: finalize_record_def stored_load_def list_all_iff)
qed

theorem late_finalize_corrects_witness:
  "\<exists>res g' s1 s2. crashed_pass crashed_ledger = (res, g')
     \<and> finalize_record gregorian exact_binding sample_record None (lg_db crashed_ledger) = Inr s1
     \<and> finalize_record gregorian exact_binding sample_record None (lg_db g') = Inr s2
     \<and> rollup_consistent gregorian s2"
proof -
  let ?row = "accept_row gregorian (Some ''a'') sample_record 1"
  obtain report swept g' where run: "crashed_pass crashed_ledger = (Inr (report, swept), g')"
    using recovery_commits by blast
  have rows: "usage_records (lg_db crashed_ledger) = [?row]"
    by (simp add: crashed_ledger_def)
  have "usage_records (lg_db g') \<in> {[?row], [interrupt_row ?row]}"
    using recover_rows(1) [OF run] by (simp add: rows)
  moreover have "ur_endpoint ?row = ''chat_completions'' \<and> absent_or_nonneg (ur_input_price ?row)
      \<and> absent_or_nonneg (ur_cached_price ?row) \<and> absent_or_nonneg (ur_output_price ?row)"
    by (simp add: accept_row_def snapshot_columns_def as_tuple_def sample_record_def record_complete_def
        with_pricing_def record_new_def absent_or_nonneg_def)
  ultimately obtain s1 s2 where s1: "finalize_record gregorian exact_binding sample_record None
      (lg_db crashed_ledger) = Inr s1"
    and s2: "finalize_record gregorian exact_binding sample_record None (lg_db g') = Inr s2"
    using finalize_sample [of "lg_db crashed_ledger" ?row None]
      finalize_sample [of "lg_db g'" "hd (usage_records (lg_db g'))" None]
    by (auto simp: rows interrupt_row_def)
  have accepted: "accepted_as gregorian sample_record (lg_db crashed_ledger)"
    by (simp add: accepted_as_def rows same_request_def accept_row_def split: prod.split)
  moreover have "has_request (rr_request_id sample_record) (usage_records (lg_db crashed_ledger))"
    by (simp add: rows has_request_def)
  moreover have fits: "rollup_fits gregorian (lg_db g')"
      "totals_fit (add_mset (terminal sample_record (from_record gregorian sample_record))
         (row_contributions gregorian (usage_records (lg_db g'))))"
    using recovered_fits [OF _ crashed_ledger_ok(2) run, of "{#}"]
      recovered_fits [OF _ crashed_ledger_ok(2) run,
        of "{#terminal sample_record (from_record gregorian sample_record)#}"] sample_room
    by (simp_all add: rows rollup_fits_def)
  moreover have "accepted_as gregorian sample_record (lg_db g')"
    using accepted recover_rows(1) [OF run] by (simp add: accepted_as_def same_request_def rows interrupt_row_def)
  then have "rollup_fits gregorian s2"
    using env.finalize_fits [OF s2 _ sample_record_wf _ fits(2)]
      recovered_consistent [OF crashed_ledger_ok run] by blast
  ultimately have "rollup_consistent gregorian s2"
    using late_finalize_corrects [OF greg.time_laws_axioms exact.rusqlite_binding_axioms crashed_ledger_ok
        sample_record_wf _ _ s1 run s2] accepted by blast
  with run s1 s2 show ?thesis by blast
qed

end
