(* ===== verification/Retention.thy ===== *)
theory Retention
  imports Recovery
begin

text \<open>
  \<^verbatim>\<open>src/src/ledger/retention.rs\<close>: one sweep removes raw rows and rollup buckets older than the
  window, in slices that commit one by one. The environment of a sweep is the failure of each slice and
  what other writers commit between two slices. The rows of \<open>usage_hourly\<close> have ids the model leaves
  out; their order is the argument \<open>order\<close>. Giving free pages back to the file system changes no
  row: a statement of it is the number of pages it yields, or its failure. The duration of a sweep is
  only logged and is left out.
\<close>

definition DEFAULT_BATCH_SIZE :: nat where
  "DEFAULT_BATCH_SIZE = 2000"

definition DEFAULT_MAX_BATCHES :: nat where
  "DEFAULT_MAX_BATCHES = 500"

definition VACUUM_PAGES_PER_STATEMENT :: nat where
  "VACUUM_PAGES_PER_STATEMENT = 64"

definition MAX_VACUUM_STATEMENTS :: nat where
  "MAX_VACUUM_STATEMENTS = 128"

record retention_stats =
  rs_raw_deleted :: nat
  rs_hourly_deleted :: nat
  rs_batches :: nat
  rs_hit_budget :: bool
  rs_pages_reclaimed :: nat
  rs_page_size :: nat

definition bytes_reclaimed :: "retention_stats \<Rightarrow> nat" where
  "bytes_reclaimed st = rs_pages_reclaimed st * rs_page_size st"

definition total_deleted :: "retention_stats \<Rightarrow> nat" where
  "total_deleted st = rs_raw_deleted st + rs_hourly_deleted st"

text \<open>The subtraction panics when the cutoff is before the first instant of the calendar.\<close>

definition retention_cutoff :: "time_crate \<Rightarrow> instant \<Rightarrow> nat \<Rightarrow> string run" where
  "retention_cutoff T now days =
     run_bind (instant_add T (truncate_now now) (- (int (max days 1) * NANOS_PER_DAY)))
       (\<lambda>t. Done (format_ts T t))"

section \<open>Slices\<close>

text \<open>The ids of the oldest rows before the cutoff, at most a slice of them, and their removal.\<close>

definition raw_slice :: "string \<Rightarrow> nat \<Rightarrow> db \<Rightarrow> nat \<times> db" where
  "raw_slice cutoff n s =
     (let ids = take n (sort (map ur_id (filter (\<lambda>r. ur_created_at r < cutoff) (usage_records s))))
      in (length (filter (\<lambda>r. ur_id r \<in> set ids) (usage_records s)),
          s\<lparr>usage_records := filter (\<lambda>r. ur_id r \<notin> set ids) (usage_records s)\<rparr>))"

definition hourly_slice :: "bucket_key list \<Rightarrow> string \<Rightarrow> nat \<Rightarrow> db \<Rightarrow> nat \<times> db" where
  "hourly_slice order cutoff n s =
     (let keys = take n (filter (\<lambda>k. usage_hourly s k \<noteq> None \<and> bk_hour k < cutoff) order)
      in (length keys,
          s\<lparr>usage_hourly := (\<lambda>k. if k \<in> set keys then None else usage_hourly s k)\<rparr>))"

section \<open>A sweep\<close>

record sweep_env =
  sw_fault :: "nat \<Rightarrow> fault"
  sw_between :: "nat \<Rightarrow> db \<Rightarrow> db"
  sw_order :: "nat \<Rightarrow> db \<Rightarrow> bucket_key list"
  sw_page_size :: "nat option"
  sw_vacuum :: "nat \<Rightarrow> rusqlite_error + nat"

text \<open>
  The two loops, for a given slice; \<open>left\<close> is what remains of the budget of slices, and \<open>tally\<close> adds
  what a slice deleted to the statistics.
\<close>

fun slice_loop ::
  "sweep_env \<Rightarrow> nat \<Rightarrow> (nat \<Rightarrow> db \<Rightarrow> nat \<times> db) \<Rightarrow> (nat \<Rightarrow> retention_stats \<Rightarrow> retention_stats) \<Rightarrow>
   nat \<Rightarrow> retention_stats \<Rightarrow> db \<Rightarrow> (rusqlite_error + retention_stats) \<times> db" where
  "slice_loop env n slice tally 0 st s = (Inr (st\<lparr>rs_hit_budget := True\<rparr>), s)"
| "slice_loop env n slice tally (Suc left) st s =
     (case sw_fault env (rs_batches st) of
        Some e \<Rightarrow> (Inl e, s)
      | None \<Rightarrow>
          (let (deleted, s') = slice (rs_batches st) s;
               st' = (tally deleted st)\<lparr>rs_batches := rs_batches st + 1\<rparr>
           in if deleted < n then (Inr st', s')
              else slice_loop env n slice tally left st' (sw_between env (rs_batches st) s')))"

definition count_raw :: "nat \<Rightarrow> retention_stats \<Rightarrow> retention_stats" where
  "count_raw d st = st\<lparr>rs_raw_deleted := rs_raw_deleted st + d\<rparr>"

definition count_hourly :: "nat \<Rightarrow> retention_stats \<Rightarrow> retention_stats" where
  "count_hourly d st = st\<lparr>rs_hourly_deleted := rs_hourly_deleted st + d\<rparr>"

text \<open>The page size is read from the file; when that fails it is taken to be 4096.\<close>

definition stats_of_page_size :: "nat option \<Rightarrow> retention_stats" where
  "stats_of_page_size page_size =
     \<lparr>rs_raw_deleted = 0, rs_hourly_deleted = 0, rs_batches = 0, rs_hit_budget = False,
      rs_pages_reclaimed = 0, rs_page_size = (case page_size of None \<Rightarrow> 4096 | Some n \<Rightarrow> n)\<rparr>"

definition sweep_tables ::
  "sweep_env \<Rightarrow> string \<Rightarrow> nat \<Rightarrow> nat \<Rightarrow> db \<Rightarrow> (rusqlite_error + retention_stats) \<times> db" where
  "sweep_tables env cutoff batch_size max_batches s =
     (let n = max batch_size 1
      in case slice_loop env n (\<lambda>i. raw_slice cutoff n) count_raw max_batches
                (stats_of_page_size (sw_page_size env)) s of
           (Inl e, s') \<Rightarrow> (Inl e, s')
         | (Inr st, s') \<Rightarrow>
             slice_loop env n (\<lambda>i s. hourly_slice (sw_order env i s) cutoff n s) count_hourly
               (max_batches - rs_batches st) st s')"

text \<open>
  The statements that give pages back, in order: each yields its pages or fails, and one that yields
  fewer than it was asked for is the last. What was counted before a failure stays counted.
\<close>

fun reclaim_pages :: "(nat \<Rightarrow> rusqlite_error + nat) \<Rightarrow> nat \<Rightarrow> nat \<Rightarrow> retention_stats \<Rightarrow> retention_stats" where
  "reclaim_pages vacuum i 0 st = st"
| "reclaim_pages vacuum i (Suc left) st =
     (case vacuum i of
        Inl e \<Rightarrow> st
      | Inr reclaimed \<Rightarrow>
          (let st' = st\<lparr>rs_pages_reclaimed := rs_pages_reclaimed st + reclaimed\<rparr>
           in if reclaimed < VACUUM_PAGES_PER_STATEMENT then st'
              else reclaim_pages vacuum (Suc i) left st'))"

definition reclaim_free_pages :: "(nat \<Rightarrow> rusqlite_error + nat) \<Rightarrow> retention_stats \<Rightarrow> retention_stats" where
  "reclaim_free_pages vacuum st = reclaim_pages vacuum 0 MAX_VACUUM_STATEMENTS st"

text \<open>
  The whole sweep. The entry of \<open>ledger_meta\<close> is written when something was deleted, and a failure of
  that write is ignored.
\<close>

definition run_retention ::
  "time_crate \<Rightarrow> instant \<Rightarrow> instant \<Rightarrow> fault \<Rightarrow> sweep_env \<Rightarrow> nat \<Rightarrow> nat \<Rightarrow> nat \<Rightarrow> ledger \<Rightarrow>
   ((rusqlite_error + retention_stats) \<times> ledger) run" where
  "run_retention T now ended mflt env days batch_size max_batches g =
     run_bind (retention_cutoff T now days) (\<lambda>cutoff. Done
       (case sweep_tables env cutoff batch_size max_batches (lg_db g) of
          (Inl e, s) \<Rightarrow> (Inl e, g\<lparr>lg_db := s\<rparr>)
        | (Inr st, s) \<Rightarrow>
            if 0 < total_deleted st
            then (Inr (reclaim_free_pages (sw_vacuum env) st),
                  if mflt = None
                  then g\<lparr>lg_db := s,
                         lg_meta := (lg_meta g)(''last_retention_run'' \<mapsto> format_ts T (truncate_now ended))\<rparr>
                  else g\<lparr>lg_db := s\<rparr>)
            else (Inr st, g\<lparr>lg_db := s\<rparr>)))"

end
