(* ===== verification/Retention_Properties.thy ===== *)
theory Retention_Properties
  imports Retention Recovery_Properties
begin

text \<open>
  The properties of retention: what a sweep removes and what it keeps, with any budget and any
  failure, and how the rollup and the raw rows agree afterwards.
\<close>

section \<open>Slices\<close>

text \<open>
  The contract of a slice: it prunes what is eligible, and one that comes back short has left nothing.
  The loop over it then prunes too, within its budget, and is complete unless it ran out of it.
\<close>

locale sliced_delete =
  fixes n :: nat and slice :: "nat \<Rightarrow> db \<Rightarrow> nat \<times> db"
    and tally :: "nat \<Rightarrow> retention_stats \<Rightarrow> retention_stats"
    and pruned :: "db \<Rightarrow> db \<Rightarrow> bool" and finished :: "db \<Rightarrow> bool"
  assumes pruned_refl: "pruned s s"
    and pruned_trans: "pruned s t \<Longrightarrow> pruned t u \<Longrightarrow> pruned s u"
    and slice_prunes: "slice i s = (d, s') \<Longrightarrow> pruned s s'"
    and slice_finishes: "slice i s = (d, s') \<Longrightarrow> d < n \<Longrightarrow> finished s'"
    and tally_frame: "rs_hit_budget (tally d st) = rs_hit_budget st" "rs_batches (tally d st) = rs_batches st"
begin

lemma loop_keeps:
  assumes "\<And>s s'. J s \<Longrightarrow> pruned s s' \<Longrightarrow> J s'" "\<And>i s. J s \<Longrightarrow> J (sw_between env i s)"
    and "slice_loop env n slice tally left st s = (res, s')" "J s"
  shows "J s'"
  using assms(3,4)
proof (induction left arbitrary: st s)
  case (Suc left)
  obtain d t where t: "slice (rs_batches st) s = (d, t)" by fastforce
  have "J t" using assms(1) slice_prunes [OF t] Suc.prems(2) by blast
  with Suc t assms(2) show ?case
    by (auto simp: Let_def split: option.splits if_splits)
qed simp

lemma loop_stats:
  assumes "slice_loop env n slice tally left st s = (Inr st', s')"
  shows "rs_batches st' \<le> rs_batches st + left
    \<and> (rs_hit_budget st \<longrightarrow> rs_hit_budget st') \<and> (\<not> rs_hit_budget st' \<longrightarrow> finished s')"
  using assms
proof (induction left arbitrary: st s)
  case (Suc left)
  obtain d t where t: "slice (rs_batches st) s = (d, t)" by fastforce
  show ?case
  proof (cases "d < n")
    case True
    with Suc.prems t slice_finishes [OF t] show ?thesis
      by (auto simp: Let_def tally_frame split: option.splits)
  next
    case False
    let ?st = "(tally d st)\<lparr>rs_batches := rs_batches st + 1\<rparr>"
    have "slice_loop env n slice tally left ?st (sw_between env (rs_batches st) t) = (Inr st', s')"
      using Suc.prems t False by (auto simp: Let_def split: option.splits)
    from Suc.IH [OF this] show ?thesis by (simp add: tally_frame)
  qed
qed auto

end

definition raw_pruned :: "string \<Rightarrow> db \<Rightarrow> db \<Rightarrow> bool" where
  "raw_pruned cutoff s s' \<longleftrightarrow>
     (distinct (map ur_id (usage_records s)) \<longrightarrow>
        (\<exists>P. (\<forall>r. P r \<or> ur_created_at r < cutoff)
           \<and> s' = s\<lparr>usage_records := filter P (usage_records s)\<rparr>))"

definition raw_finished :: "string \<Rightarrow> db \<Rightarrow> bool" where
  "raw_finished cutoff s \<longleftrightarrow> (\<forall>r \<in> set (usage_records s). \<not> ur_created_at r < cutoff)"

definition hourly_pruned :: "string \<Rightarrow> db \<Rightarrow> db \<Rightarrow> bool" where
  "hourly_pruned cutoff s s' \<longleftrightarrow>
     (\<exists>K. (\<forall>k \<in> K. bk_hour k < cutoff)
        \<and> s' = s\<lparr>usage_hourly := (\<lambda>k. if k \<in> K then None else usage_hourly s k)\<rparr>)"

text \<open>The buckets that have an id whenever they are in the table.\<close>

definition listed :: "sweep_env \<Rightarrow> bucket_key set" where
  "listed env = {k. \<forall>i s. usage_hourly s k \<noteq> None \<longrightarrow> k \<in> set (sw_order env i s)}"

definition hourly_finished :: "sweep_env \<Rightarrow> string \<Rightarrow> db \<Rightarrow> bool" where
  "hourly_finished env cutoff s \<longleftrightarrow>
     (\<forall>k \<in> listed env. usage_hourly s k \<noteq> None \<longrightarrow> \<not> bk_hour k < cutoff)"

lemma raw_pruned_refl: "raw_pruned cutoff s s"
  unfolding raw_pruned_def by (intro impI exI [of _ "\<lambda>_. True"]) simp

lemma raw_pruned_trans:
  assumes "raw_pruned cutoff s t" "raw_pruned cutoff t u" shows "raw_pruned cutoff s u"
  unfolding raw_pruned_def
proof
  assume d: "distinct (map ur_id (usage_records s))"
  obtain P where P: "\<forall>r. P r \<or> ur_created_at r < cutoff"
      "t = s\<lparr>usage_records := filter P (usage_records s)\<rparr>"
    using assms(1) d by (auto simp: raw_pruned_def)
  have "distinct (map ur_id (usage_records t))"
    using d P(2) by (simp add: distinct_map_filter)
  then obtain Q where Q: "\<forall>r. Q r \<or> ur_created_at r < cutoff"
      "u = t\<lparr>usage_records := filter Q (usage_records t)\<rparr>"
    using assms(2) by (auto simp: raw_pruned_def)
  have "u = s\<lparr>usage_records := filter (\<lambda>r. P r \<and> Q r) (usage_records s)\<rparr>"
    using P(2) Q(2) by (simp add: conj_commute)
  with P(1) Q(1) show "\<exists>P. (\<forall>r. P r \<or> ur_created_at r < cutoff)
      \<and> u = s\<lparr>usage_records := filter P (usage_records s)\<rparr>"
    by (intro exI [of _ "\<lambda>r. P r \<and> Q r"]) auto
qed

lemma raw_slice_prunes:
  assumes "raw_slice cutoff n s = (d, s')" shows "raw_pruned cutoff s s'"
  unfolding raw_pruned_def
proof
  let ?old = "filter (\<lambda>r. ur_created_at r < cutoff) (usage_records s)"
  let ?ids = "take n (sort (map ur_id ?old))"
  assume d: "distinct (map ur_id (usage_records s))"
  have ids: "set ?ids \<subseteq> ur_id ` set ?old"
    by (metis (no_types) list.set_map set_sort set_take_subset)
  have "ur_created_at r < cutoff" if mem: "r \<in> set (usage_records s)" "ur_id r \<in> set ?ids" for r
  proof -
    obtain q where "q \<in> set ?old" "ur_id q = ur_id r" using mem(2) ids by force
    moreover from this have "q = r" using d mem(1) by (auto simp: distinct_map dest: inj_onD)
    ultimately show ?thesis by simp
  qed
  note old = this
  have "filter (\<lambda>r. ur_id r \<notin> set ?ids) (usage_records s)
      = filter (\<lambda>r. ur_id r \<notin> set ?ids \<or> \<not> ur_created_at r < cutoff) (usage_records s)"
    by (rule filter_cong [OF refl]) (use old in metis)
  then show "\<exists>P. (\<forall>r. P r \<or> ur_created_at r < cutoff)
      \<and> s' = s\<lparr>usage_records := filter P (usage_records s)\<rparr>"
    using assms by (intro exI [of _ "\<lambda>r. ur_id r \<notin> set ?ids \<or> \<not> ur_created_at r < cutoff"])
      (auto simp: raw_slice_def Let_def)
qed

lemma raw_slice_finishes:
  assumes "raw_slice cutoff n s = (d, s')" "d < n"
  shows "raw_finished cutoff s'"
proof -
  let ?old = "map ur_id (filter (\<lambda>r. ur_created_at r < cutoff) (usage_records s))"
  let ?ids = "take n (sort ?old)"
  have "mset ?ids \<subseteq># mset ?old"
    by (metis append_take_drop_id mset_append mset_sort mset_subset_eq_add_left)
  also have "mset ?old \<subseteq># mset (map ur_id (usage_records s))"
    by (simp add: image_mset_subseteq_mono)
  finally have "filter_mset (\<lambda>i. i \<in> set ?ids) (mset ?ids)
      \<subseteq># filter_mset (\<lambda>i. i \<in> set ?ids) (mset (map ur_id (usage_records s)))"
    by (rule multiset_filter_mono)
  moreover have "filter_mset (\<lambda>i. i \<in> set ?ids) (mset ?ids) = mset ?ids"
    by (simp add: filter_mset_eq_conv)
  ultimately have "length ?ids \<le> size (filter_mset (\<lambda>i. i \<in> set ?ids) (mset (map ur_id (usage_records s))))"
    by (metis size_mset size_mset_mono)
  also have "\<dots> = d"
    using assms(1) by (simp add: raw_slice_def Let_def filter_mset_image_mset flip: mset_filter)
  finally have "length ?ids < n" using assms(2) by simp
  then have "?ids = sort ?old" by simp
  then have "set ?ids = set ?old" by (metis set_sort)
  with assms(1) show ?thesis
    by (auto simp: raw_slice_def raw_finished_def Let_def)
qed

lemma tally_frames [simp]:
  "rs_hit_budget (count_raw d st) = rs_hit_budget st" "rs_batches (count_raw d st) = rs_batches st"
  "rs_hit_budget (count_hourly d st) = rs_hit_budget st" "rs_batches (count_hourly d st) = rs_batches st"
  by (simp_all add: count_raw_def count_hourly_def)

interpretation raw: sliced_delete n "\<lambda>i. raw_slice cutoff n" count_raw "raw_pruned cutoff" "raw_finished cutoff"
  for n cutoff
  by unfold_locales
    (auto intro: raw_pruned_refl raw_pruned_trans raw_slice_prunes raw_slice_finishes)

lemma hourly_slice_prunes: "hourly_slice order cutoff n s = (d, s') \<Longrightarrow> hourly_pruned cutoff s s'"
  unfolding hourly_pruned_def hourly_slice_def Let_def
  by (intro exI [of _ "set (take n (filter (\<lambda>k. usage_hourly s k \<noteq> None \<and> bk_hour k < cutoff) order))"])
    (auto dest: in_set_takeD)

lemma hourly_pruned_trans:
  assumes "hourly_pruned cutoff s t" "hourly_pruned cutoff t u" shows "hourly_pruned cutoff s u"
proof -
  obtain K where K: "\<forall>k \<in> K. bk_hour k < cutoff"
      "t = s\<lparr>usage_hourly := (\<lambda>k. if k \<in> K then None else usage_hourly s k)\<rparr>"
    using assms(1) by (auto simp: hourly_pruned_def)
  obtain L where L: "\<forall>k \<in> L. bk_hour k < cutoff"
      "u = t\<lparr>usage_hourly := (\<lambda>k. if k \<in> L then None else usage_hourly t k)\<rparr>"
    using assms(2) by (auto simp: hourly_pruned_def)
  have "u = s\<lparr>usage_hourly := (\<lambda>k. if k \<in> K \<union> L then None else usage_hourly s k)\<rparr>"
    unfolding L(2) K(2) by (simp add: fun_eq_iff)
  with K(1) L(1) show ?thesis
    unfolding hourly_pruned_def by (intro exI [of _ "K \<union> L"]) auto
qed

lemma hourly_slice_finishes:
  assumes "hourly_slice (sw_order env i s) cutoff n s = (d, s')" "d < n"
  shows "hourly_finished env cutoff s'"
proof -
  let ?keys = "filter (\<lambda>k. usage_hourly s k \<noteq> None \<and> bk_hour k < cutoff) (sw_order env i s)"
  have "take n ?keys = ?keys"
    using assms by (auto simp: hourly_slice_def Let_def)
  with assms(1) show ?thesis
    by (auto simp: hourly_slice_def hourly_finished_def listed_def Let_def split: if_splits)
qed

lemma hourly_pruned_refl: "hourly_pruned cutoff s s"
  unfolding hourly_pruned_def by (intro exI [of _ "{}"]) simp

interpretation hourly_part: sliced_delete n "\<lambda>i s. hourly_slice (sw_order env i s) cutoff n s" count_hourly
  "hourly_pruned cutoff" "hourly_finished env cutoff"
  for n cutoff env
  by unfold_locales
    (auto intro: hourly_pruned_refl hourly_pruned_trans hourly_slice_prunes hourly_slice_finishes)

section \<open>A sweep\<close>

text \<open>What one slice, of either table, does to the database: it removes old rows, or old buckets.\<close>

definition removes_old :: "string \<Rightarrow> db \<Rightarrow> db \<Rightarrow> bool" where
  "removes_old cutoff s s' \<longleftrightarrow>
     (\<exists>P K. (\<forall>r. P r \<or> ur_created_at r < cutoff) \<and> (\<forall>k \<in> K. bk_hour k < cutoff)
        \<and> s' = s\<lparr>usage_records := filter P (usage_records s),
                usage_hourly := (\<lambda>k. if k \<in> K then None else usage_hourly s k)\<rparr>)"

definition unique_ids :: "db \<Rightarrow> bool" where
  "unique_ids s \<longleftrightarrow> distinct (map ur_id (usage_records s))"

lemma raw_removes_old: "unique_ids s \<Longrightarrow> raw_pruned cutoff s s' \<Longrightarrow> removes_old cutoff s s'"
  unfolding raw_pruned_def removes_old_def unique_ids_def
  by (elim impE exE conjE) (assumption, intro exI [of _ "{}"] exI conjI, assumption, auto)

lemma hourly_removes_old: "hourly_pruned cutoff s s' \<Longrightarrow> removes_old cutoff s s'"
  unfolding hourly_pruned_def removes_old_def
  by (elim exE conjE) (rule exI [of _ "\<lambda>_. True"], rule exI, intro conjI, simp, assumption, simp)

lemma removes_old_unique: "removes_old cutoff s s' \<Longrightarrow> unique_ids s \<Longrightarrow> unique_ids s'"
  by (auto simp: removes_old_def unique_ids_def distinct_map_filter)

text \<open>
  A sweep is a run of such removals between the commits of the other writers: whatever both keep
  holds of the tables it leaves.
\<close>

lemma sweep_keeps:
  assumes others: "\<And>i s. unique_ids s \<Longrightarrow> J s \<Longrightarrow> unique_ids (sw_between env i s) \<and> J (sw_between env i s)"
    and prune: "\<And>s s'. J s \<Longrightarrow> removes_old cutoff s s' \<Longrightarrow> J s'"
    and run: "sweep_tables env cutoff bs mb s = (res, s')" and start: "unique_ids s" "J s"
  shows "J s'"
proof -
  let ?J = "\<lambda>s. unique_ids s \<and> J s" and ?n = "max bs 1"
  let ?slice = "\<lambda>i s. hourly_slice (sw_order env i s) cutoff ?n s"
  obtain r t where raw: "slice_loop env ?n (\<lambda>i. raw_slice cutoff ?n) count_raw mb
      (stats_of_page_size (sw_page_size env)) s = (r, t)"
    by fastforce
  have "?J t"
    by (rule raw.loop_keeps [of ?J, OF _ _ raw])
      (use others prune start raw_removes_old removes_old_unique in blast)+
  moreover have "?J u" if "slice_loop env ?n ?slice count_hourly left st t = (q, u)" for left st q u
    by (rule hourly_part.loop_keeps [of ?J, OF _ _ that])
      (use others prune \<open>?J t\<close> hourly_removes_old removes_old_unique in blast)+
  ultimately have "?J s'"
    using run raw by (auto simp: sweep_tables_def Let_def split: sum.splits)
  then show ?thesis by simp
qed

lemma sweep_finishes:
  assumes "sweep_tables env cutoff bs mb s = (Inr st, s')"
  shows "rs_batches st \<le> mb
    \<and> (\<not> rs_hit_budget st \<longrightarrow> hourly_finished env cutoff s'
        \<and> ((\<forall>i s. raw_finished cutoff s \<longrightarrow> raw_finished cutoff (sw_between env i s)) \<longrightarrow>
            raw_finished cutoff s'))"
proof -
  let ?n = "max bs 1" and ?slice = "\<lambda>i s. hourly_slice (sw_order env i s) cutoff (max bs 1) s"
  obtain st1 t where raw: "slice_loop env ?n (\<lambda>i. raw_slice cutoff ?n) count_raw mb
      (stats_of_page_size (sw_page_size env)) s = (Inr st1, t)"
    and hourly: "slice_loop env ?n ?slice count_hourly (mb - rs_batches st1) st1 t = (Inr st, s')"
    using assms by (auto simp: sweep_tables_def Let_def split: sum.splits prod.splits)
  have "raw_finished cutoff s'"
    if "raw_finished cutoff t" "\<forall>i s. raw_finished cutoff s \<longrightarrow> raw_finished cutoff (sw_between env i s)"
    by (rule hourly_part.loop_keeps [of "raw_finished cutoff", OF _ _ hourly])
      (use that in \<open>auto simp: hourly_pruned_def raw_finished_def\<close>)
  then show ?thesis
    using raw.loop_stats [OF raw] hourly_part.loop_stats [OF hourly]
    by (auto simp: stats_of_page_size_def)
qed

text \<open>Giving pages back changes no count, and is bounded when a statement keeps to its ceiling.\<close>

lemma reclaim_pages_simps [simp]:
  "rs_batches (reclaim_pages vacuum i left st) = rs_batches st"
  "rs_hit_budget (reclaim_pages vacuum i left st) = rs_hit_budget st"
  "total_deleted (reclaim_pages vacuum i left st) = total_deleted st"
  by (induction vacuum i left st rule: reclaim_pages.induct)
    (simp_all add: total_deleted_def Let_def split: sum.splits)

lemma reclaim_bounded:
  assumes "\<forall>i n. vacuum i = Inr n \<longrightarrow> n \<le> VACUUM_PAGES_PER_STATEMENT"
  shows "rs_pages_reclaimed (reclaim_pages vacuum i left st)
    \<le> rs_pages_reclaimed st + left * VACUUM_PAGES_PER_STATEMENT"
  using assms
proof (induction vacuum i left st rule: reclaim_pages.induct)
  case (2 vacuum i left st)
  show ?case
  proof (cases "vacuum i")
    case (Inr n)
    with "2.prems" have "n \<le> VACUUM_PAGES_PER_STATEMENT" by blast
    with Inr show ?thesis
      using "2.IH" [OF Inr refl _ "2.prems"] by (cases "n = VACUUM_PAGES_PER_STATEMENT") (simp_all add: Let_def)
  qed simp
qed simp

lemma run_retention_tables:
  assumes "run_retention T now ended mflt env days bs mb g = Done (res, g')"
    and "retention_cutoff T now days = Done cutoff"
  obtains res' where "sweep_tables env cutoff bs mb (lg_db g) = (res', lg_db g')"
    "\<And>st. res = Inr st \<Longrightarrow> \<exists>st'. res' = Inr st' \<and> rs_batches st' = rs_batches st \<and> rs_hit_budget st' = rs_hit_budget st"
proof -
  obtain res' s where swept: "sweep_tables env cutoff bs mb (lg_db g) = (res', s)"
    by fastforce
  with assms show thesis
    by (intro that [of res'])
      (auto simp: run_retention_def reclaim_free_pages_def split: sum.splits if_splits)
qed

text \<open>
  What a sweep relies on of the writers that commit between its slices: a row has an id of its own, no
  row appears that is older than the cutoff, and the order of the buckets lists every one of them.
\<close>

definition others_sound :: "string \<Rightarrow> sweep_env \<Rightarrow> bool" where
  "others_sound cutoff env \<longleftrightarrow>
     (\<forall>i s. (unique_ids s \<longrightarrow> unique_ids (sw_between env i s))
        \<and> (raw_finished cutoff s \<longrightarrow> raw_finished cutoff (sw_between env i s))
        \<and> (dom (usage_hourly s) \<subseteq> listed env \<longrightarrow> dom (usage_hourly (sw_between env i s)) \<subseteq> listed env))"

text \<open>The tables that are never pruned.\<close>

definition bills :: "db \<Rightarrow> partner_row list \<times> model_row list \<times> statement_row list \<times> statement_line list" where
  "bills s = (partners s, partner_models s, daily_statements s, statement_lines s)"


section \<open>The rollup after a sweep\<close>

lemma take_le: "take n xs \<le> (xs :: 'a :: order list)"
  by (induction xs arbitrary: n) (auto simp: take_Cons split: nat.split)

lemma take_less: "n < length xs \<Longrightarrow> take n xs < (xs :: 'a :: order list)"
  by (induction xs arbitrary: n) (auto simp: take_Cons split: nat.split)

lemma hour_before_time: "time_laws T \<Longrightarrow> four_digit_instant t \<Longrightarrow> format_hour T t < format_ts T t"
  using time_laws.format_hour_prefix [of T t] time_laws.format_ts_length [of T t] take_less [of 13 "format_ts T t"]
  by simp

text \<open>What the writer stores: the creation text of a row is the text of an instant.\<close>

definition created_texts :: "time_crate \<Rightarrow> db \<Rightarrow> bool" where
  "created_texts T s \<longleftrightarrow>
     (\<forall>r \<in> set (usage_records s). \<exists>t. four_digit_instant t \<and> ur_created_at r = format_ts T t)"

lemma row_contribution_hour:
  assumes "time_laws T" "four_digit_instant t" "ur_created_at r = format_ts T t" "c \<in># row_contribution T r"
  shows "bk_hour (cb_key c) = format_hour T t"
  using assms time_laws.format_hour_str_format_ts [OF assms(1,2)]
  by (auto simp: row_contribution_def stored_contribution_def stored_of_row_def Let_def
      split: option.splits if_splits)

lemma old_rows_in_old_buckets:
  assumes "time_laws T" "created_texts T s" "r \<in> set (usage_records s)" "ur_created_at r < cutoff"
    "c \<in># row_contribution T r"
  shows "bk_hour (cb_key c) < cutoff"
proof -
  obtain t where t: "four_digit_instant t" "ur_created_at r = format_ts T t"
    using assms(2,3) unfolding created_texts_def by blast
  have "bk_hour (cb_key c) = format_hour T t"
    using row_contribution_hour [OF assms(1) t assms(5)] .
  with hour_before_time [OF assms(1) t(1)] t(2) assms(4) show ?thesis by (metis less_trans)
qed

lemma in_bucket_union: "in_bucket k (M + N) = in_bucket k M + in_bucket k N"
  by (simp add: in_bucket_def)

lemma bucket_of_kept_rows:
  assumes "\<And>r c. r \<in> set rows \<Longrightarrow> \<not> P r \<Longrightarrow> c \<in># row_contribution T r \<Longrightarrow> cb_key c \<noteq> k"
  shows "in_bucket k (row_contributions T (filter P rows)) = in_bucket k (row_contributions T rows)"
  using assms
proof (induction rows)
  case (Cons r rows)
  have "in_bucket k (row_contribution T r) = {#}" if "\<not> P r"
    using Cons.prems [of r] that by (auto simp: in_bucket_def)
  moreover have "in_bucket k (row_contributions T (filter P rows)) = in_bucket k (row_contributions T rows)"
    using Cons.prems by (intro Cons.IH) auto
  ultimately show ?case by (simp add: in_bucket_union)
qed simp

text \<open>The rollup is exact from the hour of the cutoff on, and the creation texts are those of instants.\<close>

definition retained_exact :: "time_crate \<Rightarrow> string \<Rightarrow> db \<Rightarrow> bool" where
  "retained_exact T cutoff s \<longleftrightarrow>
     unique_ids s \<and> created_texts T s
     \<and> (\<forall>k. \<not> bk_hour k < cutoff \<longrightarrow>
          usage_hourly s k = bucket_row (in_bucket k (row_contributions T (usage_records s))))"

lemma consistent_retained:
  "rollup_consistent T s \<Longrightarrow> created_texts T s \<Longrightarrow> unique_ids s \<Longrightarrow> retained_exact T cutoff s"
  by (simp add: retained_exact_def rollup_consistent_def hourly_reflects_def)

lemma removal_retains:
  assumes "time_laws T" "retained_exact T cutoff s" "removes_old cutoff s s'"
  shows "retained_exact T cutoff s'"
proof -
  obtain P K where P: "\<forall>r. P r \<or> ur_created_at r < cutoff" and K: "\<forall>k \<in> K. bk_hour k < cutoff"
    and db: "s' = s\<lparr>usage_records := filter P (usage_records s),
       usage_hourly := (\<lambda>k. if k \<in> K then None else usage_hourly s k)\<rparr>"
    using assms(3) by (auto simp: removes_old_def)
  have old: "unique_ids s" "created_texts T s" using assms(2) by (simp_all add: retained_exact_def)
  have "usage_hourly s' k = bucket_row (in_bucket k (row_contributions T (usage_records s')))"
    if k: "\<not> bk_hour k < cutoff" for k
  proof -
    have "cb_key c \<noteq> k" if "r \<in> set (usage_records s)" "\<not> P r" "c \<in># row_contribution T r" for r c
      using old_rows_in_old_buckets [OF assms(1) old(2) that(1) _ that(3)] P that(2) k by blast
    then have "in_bucket k (row_contributions T (filter P (usage_records s)))
        = in_bucket k (row_contributions T (usage_records s))"
      by (rule bucket_of_kept_rows)
    moreover have "k \<notin> K" using K k by blast
    ultimately show ?thesis
      using assms(2) k unfolding db by (simp add: retained_exact_def)
  qed
  moreover have "unique_ids s'" using removes_old_unique [OF assms(3) old(1)] .
  moreover have "created_texts T s'" using old(2) by (auto simp: db created_texts_def)
  ultimately show ?thesis by (simp add: retained_exact_def)
qed


text \<open>
  The hour of the cutoff itself is lost: its bucket sorts before the cutoff, so a sweep removes it,
  while the raw rows of that hour that are not before the cutoff stay.
\<close>

lemma cutoff_hour_is_lost:
  assumes "time_laws T" "four_digit_instant c" "four_digit_instant t" "c \<le> t"
    and "format_hour T t = format_hour T c"
  shows "\<not> format_ts T t < format_ts T c \<and> format_hour T t < format_ts T c"
  using hour_before_time [OF assms(1,2)] assms(5) time_laws.format_ts_less_iff [OF assms(1,3,2)] assms(4)
  by simp

text \<open>A window that reaches back before the calendar begins makes every sweep panic.\<close>

lemma endless_window_panics:
  assumes "truncate_now now - int (max days 1) * NANOS_PER_DAY < tc_min T"
  shows "run_retention T now ended mflt env days bs mb g = Panic"
  using assms by (simp add: run_retention_def retention_cutoff_def instant_add_def instant_checked_add_def)

section \<open>Witnesses\<close>

text \<open>
  An accepted request of the first day, and sweeps on the tenth, with nobody else writing.
\<close>

definition quiet_env :: sweep_env where
  "quiet_env = \<lparr>sw_fault = (\<lambda>_. None), sw_between = (\<lambda>_ s. s), sw_order = (\<lambda>_ _. []),
     sw_page_size = Some 4096, sw_vacuum = (\<lambda>_. Inr 1)\<rparr>"

definition old_ledger :: ledger where
  "old_ledger =
     \<lparr>lg_db = empty_db\<lparr>usage_records := [accept_row gregorian None sample_record 1]\<rparr>,
      lg_instances = [], lg_meta = (\<lambda>_. None)\<rparr>"

abbreviation "sample_sweep days mb \<equiv>
  run_retention gregorian 864000000000000 864000000000000 None quiet_env days 10 mb old_ledger"

lemma quiet_sweep_simps [simp]:
  "others_sound cutoff quiet_env" "sw_between quiet_env i s = s" "sw_fault quiet_env i = None" "sw_order quiet_env i s = []"
  by (simp_all add: others_sound_def quiet_env_def)

lemma old_ledger_ok [simp]:
  "unique_ids (lg_db old_ledger)"
  "rollup_consistent gregorian (lg_db old_ledger)" "created_texts gregorian (lg_db old_ledger)"
proof -
  have "ur_created_at (accept_row gregorian None sample_record 1) = format_ts gregorian 36000000000000"
    by (simp add: accept_row_def sample_record_def record_complete_def with_pricing_def record_new_def
        split: prod.split)
  moreover have "four_digit_instant 36000000000000"
    by (simp add: four_digit_instant_def four_digit_day_def NANOS_PER_DAY_def)
  ultimately show "created_texts gregorian (lg_db old_ledger)"
    by (auto simp: created_texts_def old_ledger_def)
qed (simp_all add: old_ledger_def rollup_consistent_def empty_db_def unique_ids_def)

text \<open>The budget of zero slices ends a sweep before it starts; a larger one completes this sweep.\<close>

lemma short_slices:
  assumes "length (usage_records s) < 10"
  shows "fst (raw_slice cutoff 10 s) < 10" "fst (hourly_slice [] cutoff 10 s) < 10"
  using assms by (auto simp: raw_slice_def hourly_slice_def Let_def intro: le_less_trans [OF length_filter_le])

lemma sample_cutoff:
  "retention_cutoff gregorian 864000000000000 3 = Done (format_ts gregorian 604800000000000)"
  by (simp add: retention_cutoff_def instant_add_def instant_checked_add_def gregorian_def calendar_only_def
      truncate_now_def NANOS_PER_DAY_def)

lemma complete_sweep: "\<exists>st g'. sample_sweep 3 5 = Done (Inr st, g') \<and> \<not> rs_hit_budget st"
proof -
  obtain d t where t: "raw_slice (format_ts gregorian 604800000000000) 10 (lg_db old_ledger) = (d, t)"
    by fastforce
  have "d < 10"
    using short_slices(1) [of "lg_db old_ledger"] t by (simp add: old_ledger_def) (metis fst_conv)
  with t show ?thesis
    unfolding run_retention_def sample_cutoff run_bind_simps
    by (auto simp: sweep_tables_def stats_of_page_size_def numeral_eq_Suc
        Let_def hourly_slice_def count_raw_def count_hourly_def reclaim_free_pages_def
        simp del: render_gregorian)
qed



end
