(* ===== verification/Crypto_Properties.thy ===== *)
theory Crypto_Properties
  imports Crypto
begin

text \<open>
  Base64 is a bijection between byte strings and the texts its decoder accepts: what was encoded is
  decoded, and nothing else decodes to it.
\<close>

unbundle bit_operations_syntax

section \<open>The alphabet\<close>

lemma length_alphabet [simp]: "length B64_ALPHABET = 64"
  by (simp add: B64_ALPHABET_def)

lemma distinct_alphabet [simp]: "distinct B64_ALPHABET"
  by (simp add: B64_ALPHABET_def)

lemma alphabet_position_nth [simp]:
  assumes "i < 64" shows "alphabet_position (B64_ALPHABET ! i) = Some i"
proof -
  have "List.find (\<lambda>(j, a). a = xs ! i) (enumerate n xs) = Some (n + i, xs ! i)"
    if "distinct xs" "i < length xs" for xs :: string and n
    using that by (induction xs arbitrary: n i) (auto simp: nth_Cons' gr0_conv_Suc)
  from this [of B64_ALPHABET 0] assms show ?thesis
    by (simp add: alphabet_position_def)
qed

lemma alphabet_position_SomeD:
  assumes "alphabet_position c = Some i" shows "i < 64" "B64_ALPHABET ! i = c"
  using assms by (auto simp: alphabet_position_def find_Some_iff in_set_enumerate_eq nth_enumerate_eq)

section \<open>A group of four characters\<close>

abbreviation byte_bits :: "char \<Rightarrow> 32 word" where
  "byte_bits c \<equiv> of_char c"

lemma bit_byte [simp]: "bit (byte_bits c) n \<longleftrightarrow> bit (of_char c :: nat) n \<and> n < 32"
proof -
  have "byte_bits c = of_nat (of_char c)"
    by (simp add: of_nat_of_char)
  then show ?thesis
    by (auto simp: bit_of_nat_iff possible_bit_def)
qed

lemma byte_short: "bit (of_char c :: nat) n \<Longrightarrow> n < 8"
proof (rule ccontr)
  assume "bit (of_char c :: nat) n" "\<not> n < 8"
  moreover have "(of_char c :: nat) < 2 ^ 8" by (simp add: of_char_def)
  ultimately show False
    by (metis bit_take_bit_iff take_bit_nat_eq_self)
qed

text \<open>The byte that eight bits of a word spell.\<close>

definition octet_at :: "nat \<Rightarrow> 32 word \<Rightarrow> char" where
  "octet_at k w = char_of (unat (drop_bit k w))"

lemma octet_at_eq:
  assumes "k \<le> 24" "\<And>j. j < 8 \<Longrightarrow> bit w (k + j) = bit (of_char c :: nat) j"
  shows "octet_at k w = c"
proof -
  have "take_bit 8 (unat (drop_bit k w)) = (of_char c :: nat)"
  proof (rule bit_eqI)
    fix n
    show "bit (take_bit 8 (unat (drop_bit k w))) n = bit (of_char c :: nat) n"
      using assms byte_short [of c n]
      by (auto simp: bit_take_bit_iff bit_unsigned_iff bit_drop_bit_eq)
  qed
  then have "unat (drop_bit k w) mod 256 = (of_char c :: nat)"
    by (simp add: take_bit_eq_mod)
  then show ?thesis
    unfolding octet_at_def by (metis char_of_mod_256 char_of_char)
qed

text \<open>A character of the encoding carries six bits of the group, and reading it shifts them in.\<close>

definition sextet :: "32 word \<Rightarrow> nat \<Rightarrow> 32 word" where
  "sextet w k = drop_bit k w AND 63"

lemma bit_sextet: "bit (sextet w k) n \<longleftrightarrow> n < 6 \<and> bit w (k + n)"
proof -
  have "sextet w k = take_bit 6 (drop_bit k w)"
    by (simp add: sextet_def take_bit_eq_mask mask_eq_exp_minus_1)
  then show ?thesis by (simp add: bit_take_bit_iff bit_drop_bit_eq)
qed

lemma sextet_less: "unat (sextet w k) < 64"
proof -
  have "sextet w k = take_bit 6 (drop_bit k w)"
    by (simp add: sextet_def take_bit_eq_mask mask_eq_exp_minus_1)
  then show ?thesis
    using take_bit_nat_less_exp [of 6 "unat (drop_bit k w)"] by (simp add: unsigned_take_bit_eq)
qed

definition shift_in :: "32 word \<Rightarrow> 32 word \<Rightarrow> 32 word" where
  "shift_in acc v = push_bit 6 acc OR v"

lemma bit_shift_in: "bit (shift_in acc v) n \<longleftrightarrow> n < 32 \<and> (6 \<le> n \<and> bit acc (n - 6) \<or> bit v n)"
  by (auto simp: shift_in_def bit_or_iff bit_push_bit_iff possible_bit_def dest: bit_imp_le_length)

lemma decode_step:
  "decode_from acc bits out (B64_ALPHABET ! unat (sextet w k) # cs) =
     (let acc = shift_in acc (sextet w k)
      in if 2 \<le> bits then decode_from acc (bits - 2) (out @ [octet_at (bits - 2) acc]) cs
         else decode_from acc (bits + 6) out cs)"
  by (auto simp: sextet_less shift_in_def octet_at_def Let_def)

lemma bit_group_bits:
  "bit (group_bits chunk) n \<longleftrightarrow> n < 32 \<and>
     (if n < 8 then 2 < length chunk \<and> bit (of_char (chunk ! 2) :: nat) n
      else if n < 16 then 1 < length chunk \<and> bit (of_char (chunk ! 1) :: nat) (n - 8)
      else 0 < length chunk \<and> bit (of_char (chunk ! 0) :: nat) (n - 16))"
  by (auto simp: group_bits_def Let_def bit_or_iff bit_push_bit_iff possible_bit_def dest: byte_short)

lemma encode_group_sextets:
  "encode_group chunk =
     map (\<lambda>k. B64_ALPHABET ! unat (sextet (group_bits chunk) k)) (take (length chunk + 1) [18, 12, 6, 0])"
  by (simp add: encode_group_def sextet_def)

lemma less_eightD: "j < (8 :: nat) \<Longrightarrow> j \<in> {0, 1, 2, 3, 4, 5, 6, 7}"
  by auto

lemmas bits_of_group = bit_shift_in bit_sextet bit_group_bits

lemma first_byte:
  assumes "0 < length chunk"
  shows "octet_at 4 (shift_in (shift_in acc (sextet (group_bits chunk) 18)) (sextet (group_bits chunk) 12)) = chunk ! 0"
  by (rule octet_at_eq) (use assms in \<open>auto simp: bits_of_group simp flip: numeral_2_eq_2 dest!: less_eightD\<close>)

lemma second_byte:
  assumes "1 < length chunk"
  shows "octet_at 2 (shift_in (shift_in acc (sextet (group_bits chunk) 12)) (sextet (group_bits chunk) 6)) = chunk ! 1"
  by (rule octet_at_eq) (use assms in \<open>auto simp: bits_of_group simp flip: numeral_2_eq_2 dest!: less_eightD\<close>)

lemma third_byte:
  assumes "2 < length chunk"
  shows "octet_at 0 (shift_in (shift_in acc (sextet (group_bits chunk) 6)) (sextet (group_bits chunk) 0)) = chunk ! 2"
  by (rule octet_at_eq) (use assms in \<open>auto simp: bits_of_group simp flip: numeral_2_eq_2 dest!: less_eightD\<close>)

lemma low_bits_zero:
  assumes "\<And>n. n < k \<Longrightarrow> \<not> bit w n"
  shows "w AND (push_bit k 1 - 1) = (0 :: 32 word)"
proof (rule bit_word_eqI)
  fix n
  show "bit (w AND (push_bit k 1 - 1)) n = bit (0 :: 32 word) n"
    using assms by (auto simp: bit_and_iff push_bit_eq_mult bit_mask_iff simp flip: mask_eq_exp_minus_1)
qed

lemmas two_bits_zero = low_bits_zero [of 2, simplified]
lemmas four_bits_zero = low_bits_zero [of 4, simplified]

section \<open>Encoding and decoding\<close>

lemma decode_group:
  "\<exists>acc'. decode_from acc 0 out (encode_group [a, b, c] @ rest) = decode_from acc' 0 (out @ [a, b, c]) rest"
  using first_byte [of "[a, b, c]"] second_byte [of "[a, b, c]"] third_byte [of "[a, b, c]"]
  by (simp add: encode_group_sextets decode_step Let_def del: decode_from.simps(2)) blast

lemma decode_pair: "decode_from acc 0 out (encode_group [a, b]) = Some (out @ [a, b])"
  using first_byte [of "[a, b]"] second_byte [of "[a, b]"]
  by (simp add: encode_group_sextets decode_step Let_def del: decode_from.simps(2))
    (auto intro!: two_bits_zero four_bits_zero simp: bits_of_group)

lemma decode_single: "decode_from acc 0 out (encode_group [a]) = Some (out @ [a])"
  using first_byte [of "[a]"]
  by (simp add: encode_group_sextets decode_step Let_def del: decode_from.simps(2))
    (auto intro!: two_bits_zero four_bits_zero simp: bits_of_group)

lemma decode_from_encode: "decode_from acc 0 out (base64url_encode bs) = Some (out @ bs)"
proof (induction bs arbitrary: acc out rule: base64url_encode.induct)
  case (1 a b c rest)
  show ?case
    using decode_group [of acc out a b c "base64url_encode rest"] "1.IH" by auto
qed (simp_all add: decode_pair decode_single)

section \<open>Only encodings are decoded\<close>

lemma bit_octet_at: "bit (of_char (octet_at k w) :: nat) j \<longleftrightarrow> j < 8 \<and> bit w (k + j)"
proof -
  have "(of_char (octet_at k w) :: nat) = take_bit 8 (unat (drop_bit k w))"
    by (simp add: octet_at_def take_bit_eq_mod)
  then show ?thesis
    by (auto simp: bit_take_bit_iff bit_unsigned_iff bit_drop_bit_eq dest: bit_imp_le_length)
qed

text \<open>The value of a character of the alphabet, and the character it came from.\<close>

definition six_bits :: "32 word \<Rightarrow> bool" where
  "six_bits v \<longleftrightarrow> (\<forall>n. bit v n \<longrightarrow> n < 6)"

lemma six_bits_less: "unat v < 64 \<Longrightarrow> six_bits v"
proof -
  assume "unat v < 64"
  then have "take_bit 6 (unat v) = unat v" by (simp add: take_bit_nat_eq_self)
  then have "bit v n \<Longrightarrow> n < 6" for n
    using bit_take_bit_iff [of 6 "unat v" n] bit_imp_le_length [of v n] by (simp add: bit_unsigned_iff)
  then show ?thesis by (simp add: six_bits_def)
qed

lemma decode_char:
  assumes "decode_from acc bits out (c # cs) = Some r"
  obtains v where "six_bits v" "c = B64_ALPHABET ! unat v"
    "bits < 2 \<Longrightarrow> decode_from (shift_in acc v) (bits + 6) out cs = Some r"
    "2 \<le> bits \<Longrightarrow>
      decode_from (shift_in acc v) (bits - 2) (out @ [octet_at (bits - 2) (shift_in acc v)]) cs = Some r"
proof -
  obtain i where i: "alphabet_position c = Some i"
    using assms by (auto split: option.splits)
  note pos = alphabet_position_SomeD [OF i]
  have "unat (of_nat i :: 32 word) = i"
    using pos(1) by (simp add: unat_of_nat)
  with pos i assms show thesis
    by (intro that [of "of_nat i"])
      (auto simp: six_bits_less shift_in_def octet_at_def Let_def)
qed

lemma decode_first:
  assumes "decode_from acc 0 out (c # cs) = Some r"
  obtains v where "six_bits v" "c = B64_ALPHABET ! unat v" "decode_from (shift_in acc v) 6 out cs = Some r"
  using decode_char [OF assms] by (metis add_0 zero_less_numeral)

lemma decode_next:
  assumes "decode_from acc (bits + 2) out (c # cs) = Some r"
  obtains v where "six_bits v" "c = B64_ALPHABET ! unat v"
    "decode_from (shift_in acc v) bits (out @ [octet_at bits (shift_in acc v)]) cs = Some r"
  using decode_char [OF assms] by (metis add_diff_cancel_right' le_add2)

lemma sextet_eq:
  assumes "six_bits v" "\<And>n. n < 6 \<Longrightarrow> bit w (k + n) = bit v n"
  shows "sextet w k = v"
  by (rule bit_word_eqI) (use assms in \<open>auto simp: bit_sextet six_bits_def\<close>)

lemma six_bits_high: "six_bits v \<Longrightarrow> 6 \<le> n \<Longrightarrow> \<not> bit v n"
  by (auto simp: six_bits_def)

lemma less_sixD: "j < (6 :: nat) \<Longrightarrow> j \<in> {0, 1, 2, 3, 4, 5}"
  by auto

lemma low_bits_clear:
  assumes "w AND (push_bit k 1 - 1) = (0 :: 32 word)" "n < k" "k \<le> 32"
  shows "\<not> bit w n"
proof -
  have "w AND mask k = 0"
    using assms(1) by (simp add: mask_eq_exp_minus_1 push_bit_eq_mult)
  then have "\<not> bit (w AND mask k) n" by simp
  with assms(2,3) show ?thesis by (simp add: bit_and_iff bit_mask_iff possible_bit_def)
qed

lemma encode_decoded_group:
  assumes "six_bits v0" "six_bits v1" "six_bits v2" "six_bits v3"
    and "a = octet_at 4 (shift_in (shift_in acc v0) v1)"
    and "b = octet_at 2 (shift_in (shift_in (shift_in acc v0) v1) v2)"
    and "c = octet_at 0 (shift_in (shift_in (shift_in (shift_in acc v0) v1) v2) v3)"
  shows "encode_group [a, b, c] = map (\<lambda>v. B64_ALPHABET ! unat v) [v0, v1, v2, v3]"
proof -
  have "sextet (group_bits [a, b, c]) 18 = v0" "sextet (group_bits [a, b, c]) 12 = v1"
    "sextet (group_bits [a, b, c]) 6 = v2" "sextet (group_bits [a, b, c]) 0 = v3"
    by (rule sextet_eq; use assms in \<open>auto simp: bit_group_bits bit_octet_at bit_shift_in six_bits_high simp flip: numeral_2_eq_2
      dest!: less_sixD\<close>)+
  then show ?thesis by (simp add: encode_group_sextets)
qed

lemma encode_decoded_pair:
  assumes "six_bits v0" "six_bits v1" "six_bits v2"
    and "a = octet_at 4 (shift_in (shift_in acc v0) v1)"
    and "b = octet_at 2 (shift_in (shift_in (shift_in acc v0) v1) v2)"
    and "\<And>n. n < 2 \<Longrightarrow> \<not> bit (shift_in (shift_in (shift_in acc v0) v1) v2) n"
  shows "encode_group [a, b] = map (\<lambda>v. B64_ALPHABET ! unat v) [v0, v1, v2]"
proof -
  have "sextet (group_bits [a, b]) 18 = v0" "sextet (group_bits [a, b]) 12 = v1"
    "sextet (group_bits [a, b]) 6 = v2"
    by (rule sextet_eq; use assms in \<open>auto simp: bit_group_bits bit_octet_at bit_shift_in six_bits_high simp flip: numeral_2_eq_2
      dest!: less_sixD\<close>)+
  then show ?thesis by (simp add: encode_group_sextets)
qed

lemma encode_decoded_single:
  assumes "six_bits v0" "six_bits v1"
    and "a = octet_at 4 (shift_in (shift_in acc v0) v1)"
    and "\<And>n. n < 4 \<Longrightarrow> \<not> bit (shift_in (shift_in acc v0) v1) n"
  shows "encode_group [a] = map (\<lambda>v. B64_ALPHABET ! unat v) [v0, v1]"
proof -
  have "sextet (group_bits [a]) 18 = v0" "sextet (group_bits [a]) 12 = v1"
    by (rule sextet_eq; use assms in \<open>auto simp: bit_group_bits bit_octet_at bit_shift_in six_bits_high simp flip: numeral_2_eq_2
      dest!: less_sixD\<close>)+
  then show ?thesis by (simp add: encode_group_sextets)
qed

lemma decode_from_end:
  "decode_from acc bits out [] = Some r \<longleftrightarrow>
     bits < 6 \<and> acc AND (push_bit bits 1 - 1) = 0 \<and> r = out"
  by auto

text \<open>What one group of characters decodes to, and that it is the encoding of that.\<close>

lemma decode_start:
  assumes "decode_from acc 0 out (w # x # rest) = Some r"
  obtains v0 v1 where "six_bits v0" "w = B64_ALPHABET ! unat v0" "six_bits v1" "x = B64_ALPHABET ! unat v1"
    "decode_from (shift_in (shift_in acc v0) v1) 4 (out @ [octet_at 4 (shift_in (shift_in acc v0) v1)]) rest = Some r"
proof -
  obtain v0 where v0: "six_bits v0" "w = B64_ALPHABET ! unat v0"
      "decode_from (shift_in acc v0) 6 out (x # rest) = Some r"
    by (rule decode_first [OF assms])
  have "decode_from (shift_in acc v0) (4 + 2) out (x # rest) = Some r"
    using v0(3) by (simp only: numeral_plus_numeral semiring_norm)
  from decode_next [OF this] that [OF v0(1,2)] show thesis by blast
qed

lemma decode_third:
  assumes "decode_from acc 4 out (y # rest) = Some r"
  obtains v where "six_bits v" "y = B64_ALPHABET ! unat v"
    "decode_from (shift_in acc v) 2 (out @ [octet_at 2 (shift_in acc v)]) rest = Some r"
proof -
  have "decode_from acc (2 + 2) out (y # rest) = Some r"
    using assms by (simp only: numeral_plus_numeral semiring_norm)
  from decode_next [OF this] that show thesis by blast
qed

lemma decode_four:
  assumes "decode_from acc 0 out (w # x # y # z # rest) = Some r"
  obtains acc' a b c where "w # x # y # z # rest = encode_group [a, b, c] @ rest"
    "decode_from acc' 0 (out @ [a, b, c]) rest = Some r"
proof -
  obtain v0 v1 where v1: "six_bits v0" "w = B64_ALPHABET ! unat v0" "six_bits v1" "x = B64_ALPHABET ! unat v1"
      "decode_from (shift_in (shift_in acc v0) v1) 4
         (out @ [octet_at 4 (shift_in (shift_in acc v0) v1)]) (y # z # rest) = Some r"
    by (rule decode_start [OF assms])
  let ?A2 = "shift_in (shift_in acc v0) v1"
  obtain v2 where v2: "six_bits v2" "y = B64_ALPHABET ! unat v2"
      "decode_from (shift_in ?A2 v2) 2 ((out @ [octet_at 4 ?A2]) @ [octet_at 2 (shift_in ?A2 v2)]) (z # rest) = Some r"
    by (rule decode_third [OF v1(5)])
  let ?A3 = "shift_in ?A2 v2"
  obtain v3 where v3: "six_bits v3" "z = B64_ALPHABET ! unat v3"
      "decode_from (shift_in ?A3 v3) 0
         (((out @ [octet_at 4 ?A2]) @ [octet_at 2 ?A3]) @ [octet_at 0 (shift_in ?A3 v3)]) rest = Some r"
    by (rule decode_next [where bits = 0, unfolded add_0, OF v2(3)])
  note group = encode_decoded_group [OF v1(1,3) v2(1) v3(1) refl refl refl]
  show thesis
    by (rule that [of "octet_at 4 ?A2" "octet_at 2 ?A3" "octet_at 0 (shift_in ?A3 v3)" "shift_in ?A3 v3"])
      (use v3(3) in \<open>simp_all only: group v1(2,4) v2(2) v3(2) list.map append_Cons append_Nil append_assoc\<close>)
qed

lemma decode_short:
  assumes "decode_from acc 0 out s = Some r" "length s < 4"
  shows "\<exists>bs. r = out @ bs \<and> s = base64url_encode bs"
proof -
  consider (none) "s = []" | (one) w where "s = [w]" | (two) w x where "s = [w, x]"
    | (three) w x y where "s = [w, x, y]"
    using assms(2) by (cases s; cases "tl s"; cases "tl (tl s)") auto
  then show ?thesis
  proof cases
    case none
    with assms(1) show ?thesis by (intro exI [of _ "[]"]) (simp split: if_splits)
  next
    case one
    obtain v where "decode_from (shift_in acc v) 6 out [] = Some r"
      by (rule decode_first [OF assms(1) [unfolded one]])
    then have "(6 :: nat) < 6" by (simp only: decode_from_end)
    then show ?thesis by simp
  next
    case two
    obtain v0 v1 where v: "six_bits v0" "w = B64_ALPHABET ! unat v0" "six_bits v1" "x = B64_ALPHABET ! unat v1"
        "decode_from (shift_in (shift_in acc v0) v1) 4 (out @ [octet_at 4 (shift_in (shift_in acc v0) v1)]) [] = Some r"
      by (rule decode_start [OF assms(1) [unfolded two]])
    let ?A2 = "shift_in (shift_in acc v0) v1"
    have r: "?A2 AND (push_bit 4 1 - 1) = 0" "r = out @ [octet_at 4 ?A2]"
      using v(5) by (simp_all only: decode_from_end)
    have "encode_group [octet_at 4 ?A2] = s"
      using encode_decoded_single [OF v(1,3) refl low_bits_clear [OF r(1)]] v(2,4) two by simp
    with r(2) show ?thesis by (intro exI [of _ "[octet_at 4 ?A2]"]) simp
  next
    case three
    obtain v0 v1 where v: "six_bits v0" "w = B64_ALPHABET ! unat v0" "six_bits v1" "x = B64_ALPHABET ! unat v1"
        "decode_from (shift_in (shift_in acc v0) v1) 4 (out @ [octet_at 4 (shift_in (shift_in acc v0) v1)]) [y] = Some r"
      by (rule decode_start [OF assms(1) [unfolded three]])
    let ?A2 = "shift_in (shift_in acc v0) v1"
    obtain v2 where v2: "six_bits v2" "y = B64_ALPHABET ! unat v2"
        "decode_from (shift_in ?A2 v2) 2 ((out @ [octet_at 4 ?A2]) @ [octet_at 2 (shift_in ?A2 v2)]) [] = Some r"
      by (rule decode_third [OF v(5)])
    let ?A3 = "shift_in ?A2 v2"
    have r: "?A3 AND (push_bit 2 1 - 1) = 0" "r = (out @ [octet_at 4 ?A2]) @ [octet_at 2 ?A3]"
      using v2(3) by (simp_all only: decode_from_end)
    have "encode_group [octet_at 4 ?A2, octet_at 2 ?A3] = s"
      using encode_decoded_pair [OF v(1,3) v2(1) refl refl low_bits_clear [OF r(1)]] v(2,4) v2(2) three by simp
    with r(2) show ?thesis by (intro exI [of _ "[octet_at 4 ?A2, octet_at 2 ?A3]"]) simp
  qed
qed

lemma decode_from_encoding:
  "decode_from acc 0 out s = Some r \<Longrightarrow> \<exists>bs. r = out @ bs \<and> s = base64url_encode bs"
proof (induction s arbitrary: acc out rule: length_induct)
  case (1 s)
  show ?case
  proof (cases "length s < 4")
    case False
    then obtain w x y z rest where s: "s = w # x # y # z # rest"
      by (auto simp: not_less numeral_eq_Suc Suc_le_length_iff)
    obtain acc' a b c where four: "s = encode_group [a, b, c] @ rest"
        "decode_from acc' 0 (out @ [a, b, c]) rest = Some r"
      using decode_four "1.prems" unfolding s by metis
    with "1.IH" s obtain bs where "r = (out @ [a, b, c]) @ bs" "rest = base64url_encode bs"
      by (metis impossible_Cons length_Cons less_Suc_eq not_less_eq)
    with four(1) show ?thesis by (intro exI [of _ "a # b # c # bs"]) simp
  qed (use decode_short "1.prems" in blast)
qed

lemma base64_decodes: "base64url_decode s = Some bs \<longleftrightarrow> s = base64url_encode bs"
  using decode_from_encoding [of 0 "[]" s bs] decode_from_encode [of 0 "[]" bs]
  by (auto simp: base64url_decode_def)

lemma base64_decode_encode [simp]: "base64url_decode (base64url_encode bs) = Some bs"
  by (simp add: base64_decodes)

text \<open>
  base64 is a bijection. The decoder inverts the encoder on every byte string, and it accepts no
  other text: what decodes to some bytes is exactly their encoding, so padding, characters outside
  the alphabet, a dangling character and stray bits in the last one are all refused.
\<close>

theorem base64_bijective: "base64url_decode s = Some bs \<longleftrightarrow> s = base64url_encode bs"
  by (rule base64_decodes)

end
