(* ===== verification/Cursor.thy ===== *)
theory Cursor
  imports Crypto_Properties Status Schema Utf8
begin

text \<open>
  The page cursors of \<^verbatim>\<open>src/src/dashboard/api.rs\<close> and the key they are signed with, from
  \<^verbatim>\<open>src/src/ledger/mod.rs\<close>. SHA-256 and the decoder of the \<^verbatim>\<open>hex\<close> crate are parameters; what
  \<^verbatim>\<open>hex(randomblob(32))\<close> gives is the environment of a run.
\<close>

section \<open>Errors\<close>

text \<open>
  What a dashboard request is refused for, one constructor per message of the code; a quoted value
  is carried as it was sent.
\<close>

datatype bad_request =
    StartRequired
  | EndRequired
  | StartNotATimestamp string
  | EndNotATimestamp string
  | StartNotEarlier
  | StartBeforeRetention nat string
  | CursorMalformed
  | CursorSignature
  | StoreRefused string

datatype dashboard_error =
    BadRequest bad_request
  | NotFound string
  | DashboardDatabase rusqlite_error
  | KeyUnavailable rusqlite_error

section \<open>The signing key\<close>

definition read_cursor_key ::
  "(string \<Rightarrow> string option) \<Rightarrow> (string \<Rightarrow> string option) \<Rightarrow> string option" where
  "read_cursor_key unhex meta =
     (case Option.bind (meta ''cursor_key'') unhex of
        None \<Rightarrow> None
      | Some bytes \<Rightarrow> if bytes = [] then None else Some bytes)"

record key_env =
  ke_read :: "nat \<Rightarrow> rusqlite_error option"
  ke_insert :: "nat \<Rightarrow> rusqlite_error option"
  ke_random :: "nat \<Rightarrow> string"

text \<open>\<open>INSERT OR IGNORE\<close> leaves a key that is there alone.\<close>

fun cursor_key_from ::
  "(string \<Rightarrow> string option) \<Rightarrow> key_env \<Rightarrow> nat \<Rightarrow> nat \<Rightarrow> (string \<Rightarrow> string option) \<Rightarrow>
   (rusqlite_error + string) \<times> (string \<Rightarrow> string option)" where
  "cursor_key_from unhex env i 0 meta = (Inl QueryReturnedNoRows, meta)"
| "cursor_key_from unhex env i (Suc left) meta =
     (case ke_read env i of
        Some e \<Rightarrow> (Inl e, meta)
      | None \<Rightarrow>
          (case read_cursor_key unhex meta of
             Some key \<Rightarrow> (Inr key, meta)
           | None \<Rightarrow>
               (case ke_insert env i of
                  Some e \<Rightarrow> (Inl e, meta)
                | None \<Rightarrow>
                    cursor_key_from unhex env (Suc i) left
                      (if meta ''cursor_key'' = None then meta(''cursor_key'' \<mapsto> ke_random env i)
                       else meta))))"

definition cursor_key ::
  "(string \<Rightarrow> string option) \<Rightarrow> key_env \<Rightarrow> (string \<Rightarrow> string option) \<Rightarrow>
   (rusqlite_error + string) \<times> (string \<Rightarrow> string option)" where
  "cursor_key unhex env meta = cursor_key_from unhex env 0 3 meta"

section \<open>Cursors\<close>

definition CURSOR_SEPARATOR :: char where
  "CURSOR_SEPARATOR = CHR ''.''"

definition PAYLOAD_SEPARATOR :: char where
  "PAYLOAD_SEPARATOR = CHR ''|''"

definition sign_cursor :: "(string \<Rightarrow> string) \<Rightarrow> string \<Rightarrow> string \<Rightarrow> i64 \<Rightarrow> string" where
  "sign_cursor sha key created_at i =
     (let payload = created_at @ [PAYLOAD_SEPARATOR] @ dec_int i
      in base64url_encode (hmac_sha256 sha key payload) @ [CURSOR_SEPARATOR] @ base64url_encode payload)"

text \<open>\<open>str::rsplit_once\<close>, and \<open>str::parse::<i64>\<close>: an optional sign and at least one digit.\<close>

definition rsplit_once :: "char \<Rightarrow> string \<Rightarrow> (string \<times> string) option" where
  "rsplit_once c s = map_option (\<lambda>(a, b). (rev b, rev a)) (split_once c (rev s))"

definition parse_i64 :: "string \<Rightarrow> i64 option" where
  "parse_i64 s =
     (let digits = (if s \<noteq> [] \<and> (hd s = CHR ''-'' \<or> hd s = CHR ''+'') then tl s else s);
          value = (if s \<noteq> [] \<and> hd s = CHR ''-'' then - int (dec_value digits) else int (dec_value digits))
      in if digits \<noteq> [] \<and> all_digits digits \<and> in_i64 value then Some value else None)"

text \<open>The signature is compared before anything in the payload is looked at.\<close>

definition verify_cursor :: "(string \<Rightarrow> string) \<Rightarrow> string \<Rightarrow> string \<Rightarrow> dashboard_error + (string \<times> i64)" where
  "verify_cursor sha key raw =
     (case split_once CURSOR_SEPARATOR raw of
        None \<Rightarrow> Inl (BadRequest CursorMalformed)
      | Some (signature_b64, payload_b64) \<Rightarrow>
          (case base64url_decode signature_b64 of
             None \<Rightarrow> Inl (BadRequest CursorMalformed)
           | Some signature \<Rightarrow>
               (case base64url_decode payload_b64 of
                  None \<Rightarrow> Inl (BadRequest CursorMalformed)
                | Some payload \<Rightarrow>
                    if \<not> constant_time_eq signature (hmac_sha256 sha key payload)
                    then Inl (BadRequest CursorSignature)
                    else if \<not> utf8_ok payload then Inl (BadRequest CursorMalformed)
                    else (case rsplit_once PAYLOAD_SEPARATOR payload of
                            None \<Rightarrow> Inl (BadRequest CursorMalformed)
                          | Some (created_at, id_text) \<Rightarrow>
                              (case parse_i64 id_text of
                                 None \<Rightarrow> Inl (BadRequest CursorMalformed)
                               | Some i \<Rightarrow>
                                   if created_at = [] then Inl (BadRequest CursorMalformed)
                                   else Inr (created_at, i))))))"

end
