(* ===== verification/Dashboard.thy ===== *)
theory Dashboard
  imports Cursor Auth Recovery
begin

text \<open>
  \<^verbatim>\<open>src/src/dashboard/api.rs\<close>: the read-only queries of a credential over the hourly rollup and the
  raw ledger. The rows of \<open>usage_hourly\<close> are read in some order, the argument \<open>order\<close>. A quotient of
  two integer columns is the pair of them; its rounding to a double is left out, and so is the failure
  of the blocking task a query runs on.
\<close>

section \<open>Queries\<close>

definition DEFAULT_LIMIT :: nat where
  "DEFAULT_LIMIT = 50"

definition MAX_LIMIT :: nat where
  "MAX_LIMIT = 200"

record dashboard_query =
  dq_range :: string
  dq_start :: "string option"
  dq_end :: "string option"
  dq_model :: string
  dq_status :: string
  dq_cursor :: "string option"
  dq_limit :: nat
  dq_consumers :: string

definition query_default :: dashboard_query where
  "query_default =
     \<lparr>dq_range = ''24h'', dq_start = None, dq_end = None, dq_model = ''all'', dq_status = ''all'',
      dq_cursor = None, dq_limit = DEFAULT_LIMIT, dq_consumers = []\<rparr>"

record time_window =
  tw_start_ts :: string
  tw_end_ts :: string
  tw_start_hour :: string
  tw_end_hour :: string

definition HOURS :: "int \<Rightarrow> int" where
  "HOURS n = n * 3600000000000"

definition days_before :: "time_crate \<Rightarrow> instant \<Rightarrow> int \<Rightarrow> instant run" where
  "days_before T now d = instant_add T now (- (d * NANOS_PER_DAY))"

text \<open>The bounds a query asks for. Subtracting from an instant panics when it leaves the calendar.\<close>

definition custom_bounds :: "time_crate \<Rightarrow> dashboard_query \<Rightarrow> dashboard_error + (instant \<times> instant)" where
  "custom_bounds T q =
     (case dq_start q of
        None \<Rightarrow> Inl (BadRequest StartRequired)
      | Some start_raw \<Rightarrow>
          (case dq_end q of
             None \<Rightarrow> Inl (BadRequest EndRequired)
           | Some end_raw \<Rightarrow>
               (case parse_ts T start_raw of
                  None \<Rightarrow> Inl (BadRequest (StartNotATimestamp start_raw))
                | Some start \<Rightarrow>
                    (case parse_ts T end_raw of
                       None \<Rightarrow> Inl (BadRequest (EndNotATimestamp end_raw))
                     | Some stop \<Rightarrow>
                         if stop \<le> start then Inl (BadRequest StartNotEarlier) else Inr (start, stop)))))"

definition requested_bounds ::
  "time_crate \<Rightarrow> instant \<Rightarrow> dashboard_query \<Rightarrow> (dashboard_error + (instant \<times> instant)) run" where
  "requested_bounds T now q =
     (let back = (\<lambda>t. run_bind t (\<lambda>start. Done (Inr (start, now))))
      in if dq_range q = ''today'' then Done (Inr (now - now mod NANOS_PER_DAY, now))
         else if dq_range q = ''7d'' then back (days_before T now 7)
         else if dq_range q = ''14d'' then back (days_before T now 14)
         else if dq_range q = ''30d'' then back (days_before T now 30)
         else if dq_range q = ''custom'' then Done (custom_bounds T q)
         else back (instant_add T now (- HOURS 24)))"

definition resolve_window ::
  "time_crate \<Rightarrow> instant \<Rightarrow> nat \<Rightarrow> dashboard_query \<Rightarrow> (dashboard_error + time_window) run" where
  "resolve_window T clock retention_days q =
     (let now = truncate_now clock
      in run_bind (requested_bounds T now q) (\<lambda>bounds.
           case bounds of
             Inl e \<Rightarrow> Done (Inl e)
           | Inr (start, stop) \<Rightarrow>
               run_bind (days_before T now (int (max retention_days 1))) (\<lambda>earliest.
                 Done (if start < earliest
                       then Inl (BadRequest (StartBeforeRetention retention_days (format_ts T earliest)))
                       else let stop = min stop now
                            in Inr \<lparr>tw_start_ts = format_ts T start, tw_end_ts = format_ts T stop,
                                    tw_start_hour = format_hour T start,
                                    tw_end_hour = format_hour T stop\<rparr>))))"

definition model_filter :: "dashboard_query \<Rightarrow> string option" where
  "model_filter q =
     (let m = trim (dq_model q)
      in if m = [] \<or> eq_ignore_ascii_case m ''all'' then None else Some m)"

definition status_filter :: "dashboard_query \<Rightarrow> string option" where
  "status_filter q =
     (let st = to_ascii_lowercase (trim (dq_status q))
      in if st \<in> {''completed'', ''failed'', ''interrupted'', ''in_flight''} then Some st else None)"

text \<open>\<open>? IS NULL OR column = ?\<close>.\<close>

definition passes :: "string option \<Rightarrow> string \<Rightarrow> bool" where
  "passes f v \<longleftrightarrow> (case f of None \<Rightarrow> True | Some x \<Rightarrow> v = x)"

text \<open>\<open>as u64\<close> and \<open>as u16\<close>.\<close>

definition i64_as_u64 :: "i64 \<Rightarrow> u64" where
  "i64_as_u64 n = n mod 2 ^ 64"

definition i64_as_u16 :: "i64 \<Rightarrow> int" where
  "i64_as_u16 n = n mod 2 ^ 16"

section \<open>The rollup\<close>

type_synonym hourly_entry = "bucket_key \<times> hourly_row"

definition hourly_rows :: "bucket_key list \<Rightarrow> db \<Rightarrow> hourly_entry list" where
  "hourly_rows order s = List.map_filter (\<lambda>k. map_option (Pair k) (usage_hourly s k)) order"

definition hourly_where ::
  "scope \<Rightarrow> time_window \<Rightarrow> string option \<Rightarrow> bucket_key list \<Rightarrow> db \<Rightarrow> hourly_entry list" where
  "hourly_where sc w model order s =
     filter (\<lambda>(k, row). scope_admits sc (bk_consumer_id k) \<and> tw_start_hour w \<le> bk_hour k
               \<and> bk_hour k \<le> tw_end_hour w \<and> passes model (bk_model k)) (hourly_rows order s)"

text \<open>\<open>COALESCE(SUM(\<dots>), 0)\<close>, and \<open>SUM\<close> over a group, which has a row.\<close>

definition sum_of :: "(hourly_entry \<Rightarrow> int) \<Rightarrow> hourly_entry list \<Rightarrow> rusqlite_error + i64" where
  "sum_of f rows = res_bind (sql_sum (map f rows)) (\<lambda>v. Inr (or_zero v))"

definition entry_requests :: "hourly_entry \<Rightarrow> int" where
  "entry_requests e = hr_request_count (snd e)"

definition entry_metric :: "(metrics \<Rightarrow> int) \<Rightarrow> hourly_entry \<Rightarrow> int" where
  "entry_metric f e = f (hr_totals (snd e))"

record hourly_sums =
  hs_requests :: i64
  hs_success :: i64
  hs_failure :: i64
  hs_input :: i64
  hs_output :: i64
  hs_cached :: i64
  hs_duration :: i64
  hs_ttft :: i64
  hs_ttft_count :: i64

definition sum_columns :: "hourly_entry list \<Rightarrow> rusqlite_error + hourly_sums" where
  "sum_columns rows =
     res_bind (sum_of entry_requests rows) (\<lambda>requests.
     res_bind (sum_of (entry_metric m_success_count) rows) (\<lambda>success.
     res_bind (sum_of (entry_metric m_failure_count) rows) (\<lambda>failure.
     res_bind (sum_of (entry_metric m_input_tokens) rows) (\<lambda>input.
     res_bind (sum_of (entry_metric m_output_tokens) rows) (\<lambda>output.
     res_bind (sum_of (entry_metric m_cached_tokens) rows) (\<lambda>cached.
     res_bind (sum_of (entry_metric m_duration_ms) rows) (\<lambda>duration.
     res_bind (sum_of (entry_metric m_ttft_ms) rows) (\<lambda>ttft.
     res_bind (sum_of (entry_metric m_ttft_count) rows) (\<lambda>ttft_count.
       Inr \<lparr>hs_requests = requests, hs_success = success, hs_failure = failure, hs_input = input,
            hs_output = output, hs_cached = cached, hs_duration = duration, hs_ttft = ttft,
            hs_ttft_count = ttft_count\<rparr>)))))))))"

section \<open>Summary\<close>

record summary =
  su_total_requests :: u64
  su_success_count :: u64
  su_failure_count :: u64
  su_total_input_tokens :: u64
  su_total_output_tokens :: u64
  su_total_cached_tokens :: u64
  su_avg_latency_ms :: "(int \<times> int) option"
  su_avg_ttft_ms :: "(int \<times> int) option"
  su_success_rate :: "int \<times> int"
  su_unavailable_usage_count :: u64

definition quotient :: "int \<Rightarrow> int \<Rightarrow> (int \<times> int) option" where
  "quotient a b = (if 0 < b then Some (a, b) else None)"

definition summary_of_rollup :: "hourly_entry list \<Rightarrow> rusqlite_error + summary" where
  "summary_of_rollup rows =
     res_bind (sum_columns rows) (\<lambda>v. Inr
       \<lparr>su_total_requests = i64_as_u64 (hs_requests v), su_success_count = i64_as_u64 (hs_success v),
        su_failure_count = i64_as_u64 (hs_failure v), su_total_input_tokens = i64_as_u64 (hs_input v),
        su_total_output_tokens = i64_as_u64 (hs_output v),
        su_total_cached_tokens = i64_as_u64 (hs_cached v),
        su_avg_latency_ms = quotient (hs_duration v) (hs_requests v),
        su_avg_ttft_ms = quotient (hs_ttft v) (hs_ttft_count v),
        su_success_rate =
          (case quotient (hs_success v) (hs_requests v) of None \<Rightarrow> (0, 1) | Some r \<Rightarrow> r),
        su_unavailable_usage_count = 0\<rparr>)"

definition raw_where :: "scope \<Rightarrow> time_window \<Rightarrow> string option \<Rightarrow> db \<Rightarrow> usage_row list" where
  "raw_where sc w model s =
     filter (\<lambda>r. scope_admits sc (ur_consumer_id r) \<and> tw_start_ts w \<le> ur_created_at r
               \<and> ur_created_at r < tw_end_ts w \<and> passes model (ur_model r)) (usage_records s)"

definition count_unavailable :: "scope \<Rightarrow> time_window \<Rightarrow> string option \<Rightarrow> db \<Rightarrow> i64" where
  "count_unavailable sc w model s =
     int (length (filter (\<lambda>r. ur_usage_status r = ''unavailable'' \<and> ur_request_status r \<noteq> ''in_flight'')
       (raw_where sc w model s)))"

definition dashboard_read :: "fault \<Rightarrow> (db \<Rightarrow> rusqlite_error + 'a) \<Rightarrow> db \<Rightarrow> dashboard_error + 'a" where
  "dashboard_read flt f s = map_sum DashboardDatabase id (pool_read flt f s)"

text \<open>
  A request runs in a window or is refused; \<open>in_window\<close> is that step of every handler. The two reads of
  a summary are two transactions, so each has the tables it finds.
\<close>

definition in_window ::
  "time_crate \<Rightarrow> instant \<Rightarrow> nat \<Rightarrow> dashboard_query \<Rightarrow> (time_window \<Rightarrow> dashboard_error + 'a) \<Rightarrow>
   (dashboard_error + 'a) run" where
  "in_window T clock retention_days q f =
     run_bind (resolve_window T clock retention_days q) (\<lambda>w. Done (res_bind w f))"

definition get_summary ::
  "time_crate \<Rightarrow> instant \<Rightarrow> nat \<Rightarrow> bucket_key list \<Rightarrow> fault \<Rightarrow> fault \<Rightarrow> consumer_context \<Rightarrow>
   dashboard_query \<Rightarrow> db \<Rightarrow> db \<Rightarrow> (dashboard_error + summary) run" where
  "get_summary T clock retention_days order flt flt' consumer q s s' =
     in_window T clock retention_days q (\<lambda>w.
       let model = model_filter q; sc = resolve_scope consumer (dq_consumers q)
       in res_bind (dashboard_read flt (\<lambda>s. summary_of_rollup (hourly_where sc w model order s)) s) (\<lambda>sum.
          res_bind (dashboard_read flt' (\<lambda>s. Inr (count_unavailable sc w model s)) s') (\<lambda>unavailable.
            Inr (sum\<lparr>su_unavailable_usage_count := i64_as_u64 unavailable\<rparr>))))"

section \<open>Time series\<close>

record timeseries_point =
  tp_hour :: string
  tp_requests :: u64
  tp_success_count :: u64
  tp_failure_count :: u64
  tp_input_tokens :: u64
  tp_output_tokens :: u64
  tp_cached_tokens :: u64
  tp_total_duration_ms :: u64
  tp_total_ttft_ms :: u64
  tp_ttft_count :: u64

definition entry_hour :: "hourly_entry \<Rightarrow> string" where
  "entry_hour e = bk_hour (fst e)"

definition hour_point :: "hourly_entry list \<Rightarrow> string \<Rightarrow> rusqlite_error + timeseries_point" where
  "hour_point rows hour =
     res_bind (sum_columns (filter (\<lambda>e. entry_hour e = hour) rows)) (\<lambda>v. Inr
       \<lparr>tp_hour = hour, tp_requests = i64_as_u64 (hs_requests v),
        tp_success_count = i64_as_u64 (hs_success v), tp_failure_count = i64_as_u64 (hs_failure v),
        tp_input_tokens = i64_as_u64 (hs_input v), tp_output_tokens = i64_as_u64 (hs_output v),
        tp_cached_tokens = i64_as_u64 (hs_cached v), tp_total_duration_ms = i64_as_u64 (hs_duration v),
        tp_total_ttft_ms = i64_as_u64 (hs_ttft v), tp_ttft_count = i64_as_u64 (hs_ttft_count v)\<rparr>)"

fun collect_rows :: "('a \<Rightarrow> 'e + 'b) \<Rightarrow> 'a list \<Rightarrow> 'e + 'b list" where
  "collect_rows f [] = Inr []"
| "collect_rows f (x # xs) = res_bind (f x) (\<lambda>y. res_bind (collect_rows f xs) (\<lambda>ys. Inr (y # ys)))"

text \<open>\<open>GROUP BY hour ORDER BY hour ASC\<close>, and \<open>SELECT DISTINCT \<dots> ORDER BY\<close>.\<close>

definition distinct_sorted :: "string list \<Rightarrow> string list" where
  "distinct_sorted xs = sort (remdups xs)"

definition timeseries_of :: "hourly_entry list \<Rightarrow> rusqlite_error + timeseries_point list" where
  "timeseries_of rows = collect_rows (hour_point rows) (distinct_sorted (map entry_hour rows))"

definition get_timeseries ::
  "time_crate \<Rightarrow> instant \<Rightarrow> nat \<Rightarrow> bucket_key list \<Rightarrow> fault \<Rightarrow> consumer_context \<Rightarrow> dashboard_query \<Rightarrow> db \<Rightarrow>
   (dashboard_error + timeseries_point list) run" where
  "get_timeseries T clock retention_days order flt consumer q s =
     in_window T clock retention_days q (\<lambda>w. dashboard_read flt (\<lambda>s. timeseries_of
       (hourly_where (resolve_scope consumer (dq_consumers q)) w (model_filter q) order s)) s)"

definition get_models ::
  "time_crate \<Rightarrow> instant \<Rightarrow> nat \<Rightarrow> bucket_key list \<Rightarrow> fault \<Rightarrow> consumer_context \<Rightarrow> dashboard_query \<Rightarrow> db \<Rightarrow>
   (dashboard_error + string list) run" where
  "get_models T clock retention_days order flt consumer q s =
     in_window T clock retention_days q (\<lambda>w. dashboard_read flt (\<lambda>s. Inr (distinct_sorted
       (map (\<lambda>e. bk_model (fst e))
          (hourly_where (resolve_scope consumer (dq_consumers q)) w None order s)))) s)"

section \<open>Who is asking\<close>

record me_response =
  me_consumer_id :: string
  me_key_name :: string
  me_role :: string
  me_consumers :: "string list"

definition distinct_consumers :: "bucket_key list \<Rightarrow> db \<Rightarrow> string list" where
  "distinct_consumers order s = distinct_sorted (map (\<lambda>e. bk_consumer_id (fst e)) (hourly_rows order s))"

definition get_me ::
  "bucket_key list \<Rightarrow> fault \<Rightarrow> consumer_context \<Rightarrow> db \<Rightarrow> dashboard_error + me_response" where
  "get_me order flt consumer s =
     res_bind (if is_manager consumer
               then res_bind (dashboard_read flt (\<lambda>s. Inr (distinct_consumers order s)) s)
                      (\<lambda>consumers. Inr (''manager'', consumers))
               else Inr (''consumer'', []))
       (\<lambda>(role, consumers). Inr
          \<lparr>me_consumer_id = context_consumer_id consumer, me_key_name = ci_key_name (cc_identity consumer),
           me_role = role, me_consumers = consumers\<rparr>)"

section \<open>The request list\<close>

record request_item =
  ri_request_id :: string
  ri_created_at :: string
  ri_consumer_id :: string
  ri_model :: string
  ri_endpoint :: string
  ri_streaming :: bool
  ri_http_status :: "int option"
  ri_request_status :: string
  ri_usage_status :: string
  ri_input_tokens :: "u64 option"
  ri_output_tokens :: "u64 option"
  ri_cached_tokens :: "u64 option"
  ri_duration_ms :: u64
  ri_ttft_ms :: "u64 option"
  ri_error_message :: "string option"
  ri_error_body :: "string option"

definition map_row :: "usage_row \<Rightarrow> i64 \<times> request_item" where
  "map_row r =
     (ur_id r,
      \<lparr>ri_request_id = ur_request_id r, ri_created_at = ur_created_at r,
       ri_consumer_id = ur_consumer_id r, ri_model = ur_model r, ri_endpoint = ur_endpoint r,
       ri_streaming = (ur_streaming r \<noteq> 0), ri_http_status = map_option i64_as_u16 (ur_http_status r),
       ri_request_status = ur_request_status r, ri_usage_status = ur_usage_status r,
       ri_input_tokens = map_option i64_as_u64 (ur_input_tokens r),
       ri_output_tokens = map_option i64_as_u64 (ur_output_tokens r),
       ri_cached_tokens = map_option i64_as_u64 (ur_cached_tokens r),
       ri_duration_ms = i64_as_u64 (ur_duration_ms r),
       ri_ttft_ms = map_option i64_as_u64 (ur_ttft_ms r),
       ri_error_message = ur_error_message r, ri_error_body = ur_error_body r\<rparr>)"

text \<open>
  \<open>ORDER BY created_at DESC, id DESC\<close> of the rows before the cursor, one more than the page holds.
\<close>

definition row_order :: "usage_row \<Rightarrow> string \<times> i64" where
  "row_order r = (ur_created_at r, ur_id r)"

definition listed_rows ::
  "scope \<Rightarrow> time_window \<Rightarrow> string option \<Rightarrow> string option \<Rightarrow> db \<Rightarrow> usage_row list" where
  "listed_rows sc w model status s =
     rev (sort_key row_order
       (filter (\<lambda>r. passes status (ur_request_status r)) (raw_where sc w model s)))"

definition before_cursor :: "(string \<times> i64) option \<Rightarrow> usage_row \<Rightarrow> bool" where
  "before_cursor cursor r \<longleftrightarrow> (case cursor of None \<Rightarrow> True | Some c \<Rightarrow> row_order r < c)"

record requests_response =
  rq_data :: "request_item list"
  rq_next_cursor :: "string option"

definition page_of ::
  "(string \<Rightarrow> string) \<Rightarrow> string \<Rightarrow> nat \<Rightarrow> (i64 \<times> request_item) list \<Rightarrow> requests_response" where
  "page_of sha key limit fetched =
     (if limit < length fetched
      then let items = take limit fetched
           in \<lparr>rq_data = map snd items,
               rq_next_cursor = (if items = [] then None
                  else Some (sign_cursor sha key (ri_created_at (snd (last items))) (fst (last items))))\<rparr>
      else \<lparr>rq_data = map snd fetched, rq_next_cursor = None\<rparr>)"

definition request_page ::
  "(string \<Rightarrow> string) \<Rightarrow> string \<Rightarrow> scope \<Rightarrow> time_window \<Rightarrow> string option \<Rightarrow> string option \<Rightarrow> nat \<Rightarrow>
   (string \<times> i64) option \<Rightarrow> db \<Rightarrow> requests_response" where
  "request_page sha key sc w model status limit cursor s =
     page_of sha key limit (map map_row
       (take (limit + 1) (filter (before_cursor cursor) (listed_rows sc w model status s))))"

definition page_limit :: "dashboard_query \<Rightarrow> nat" where
  "page_limit q = max 1 (min MAX_LIMIT (dq_limit q))"

text \<open>The key is what reading it from the pool gave, in its own connection.\<close>

definition requested_cursor ::
  "(string \<Rightarrow> string) \<Rightarrow> string \<Rightarrow> dashboard_query \<Rightarrow> dashboard_error + (string \<times> i64) option" where
  "requested_cursor sha key q =
     (case dq_cursor q of
        None \<Rightarrow> Inr None
      | Some raw \<Rightarrow> res_bind (verify_cursor sha key raw) (\<lambda>c. Inr (Some c)))"

definition signing_key :: "fault \<Rightarrow> rusqlite_error + string \<Rightarrow> dashboard_error + string" where
  "signing_key kflt key =
     map_sum KeyUnavailable id (case kflt of Some e \<Rightarrow> Inl e | None \<Rightarrow> key)"

definition get_requests ::
  "(string \<Rightarrow> string) \<Rightarrow> time_crate \<Rightarrow> instant \<Rightarrow> nat \<Rightarrow> fault \<Rightarrow> rusqlite_error + string \<Rightarrow> fault \<Rightarrow>
   consumer_context \<Rightarrow> dashboard_query \<Rightarrow> db \<Rightarrow> (dashboard_error + requests_response) run" where
  "get_requests sha T clock retention_days kflt key flt consumer q s =
     in_window T clock retention_days q (\<lambda>w.
       res_bind (signing_key kflt key) (\<lambda>key.
       res_bind (requested_cursor sha key q) (\<lambda>cursor.
       dashboard_read flt (\<lambda>s. Inr (request_page sha key
         (resolve_scope consumer (dq_consumers q)) w (model_filter q) (status_filter q)
         (page_limit q) cursor s)) s)))"

section \<open>Error responses\<close>

text \<open>\<open>dbg\<close> is the \<open>Debug\<close> form of a quoted text.\<close>

fun bad_request_message :: "(string \<Rightarrow> string) \<Rightarrow> bad_request \<Rightarrow> string" where
  "bad_request_message dbg StartRequired = ''`start` is required when range=custom''"
| "bad_request_message dbg EndRequired = ''`end` is required when range=custom''"
| "bad_request_message dbg (StartNotATimestamp raw) =
     ''`start` is not a valid ISO 8601 timestamp: '' @ dbg raw"
| "bad_request_message dbg (EndNotATimestamp raw) =
     ''`end` is not a valid ISO 8601 timestamp: '' @ dbg raw"
| "bad_request_message dbg StartNotEarlier = ''`start` must be earlier than `end`''"
| "bad_request_message dbg (StartBeforeRetention days earliest) =
     ''`start` predates the '' @ dec days @ ''-day retention window (earliest: '' @ earliest @ '')''"
| "bad_request_message dbg CursorMalformed = ''malformed cursor''"
| "bad_request_message dbg CursorSignature = ''cursor signature does not verify''"
| "bad_request_message dbg (StoreRefused m) = m"

fun error_status_message :: "(string \<Rightarrow> string) \<Rightarrow> dashboard_error \<Rightarrow> nat \<times> string" where
  "error_status_message dbg (BadRequest r) = (400, bad_request_message dbg r)"
| "error_status_message dbg (NotFound m) = (404, m)"
| "error_status_message dbg (DashboardDatabase e) = (500, ''database error'')"
| "error_status_message dbg (KeyUnavailable e) = (500, ''internal error'')"

definition dashboard_error_body :: "(string \<Rightarrow> string) \<Rightarrow> dashboard_error \<Rightarrow> nat \<times> json" where
  "dashboard_error_body dbg e =
     (case error_status_message dbg e of
        (status, msg) \<Rightarrow>
          (status, JObject [(''error'',
             JObject [(''message'', JString msg), (''type'', JString ''dashboard_error'')])]))"

end
