(* ===== verification/Cursor_Properties.thy ===== *)
theory Cursor_Properties
  imports Cursor
begin

text \<open>
  A cursor that is accepted was signed with the key over exactly the row it names, and every cursor
  the program issues is accepted.
\<close>

section \<open>Texts\<close>

lemma separator_not_in_base64 [simp]: "CURSOR_SEPARATOR \<notin> set (base64url_encode bs)"
proof -
  have "CURSOR_SEPARATOR \<notin> set B64_ALPHABET"
    by (simp add: B64_ALPHABET_def CURSOR_SEPARATOR_def)
  then have group: "CURSOR_SEPARATOR \<notin> set (encode_group chunk)" for chunk
    by (auto simp: encode_group_sextets sextet_less dest!: in_set_takeD) (metis length_alphabet nth_mem sextet_less)+
  show ?thesis
    by (induction bs rule: base64url_encode.induct) (simp_all add: group)
qed

lemma parse_i64_dec_int [simp]: "in_i64 i \<Longrightarrow> parse_i64 (dec_int i) = Some i"
proof -
  have sign: "hd (dec n) \<noteq> CHR ''-''" "hd (dec n) \<noteq> CHR ''+''" for n
    using dec_digits [of n] by (cases "dec n"; auto simp: is_ascii_digit_def)+
  show "in_i64 i \<Longrightarrow> parse_i64 (dec_int i) = Some i"
    by (auto simp: parse_i64_def dec_int_def sign Let_def)
qed

lemma parse_i64_no_separator: "parse_i64 s = Some i \<Longrightarrow> PAYLOAD_SEPARATOR \<notin> set s"
proof -
  have "\<not> is_ascii_digit PAYLOAD_SEPARATOR" "PAYLOAD_SEPARATOR \<noteq> CHR ''-''" "PAYLOAD_SEPARATOR \<noteq> CHR ''+''"
    by (simp_all add: PAYLOAD_SEPARATOR_def is_ascii_digit_def)
  then show "parse_i64 s = Some i \<Longrightarrow> PAYLOAD_SEPARATOR \<notin> set s"
    by (cases s) (auto simp: parse_i64_def Let_def dest: all_digits_notin split: if_splits)
qed

lemma rsplit_once_iff:
  "rsplit_once c s = Some (a, b) \<longleftrightarrow> s = a @ c # b \<and> c \<notin> set b"
proof
  assume "rsplit_once c s = Some (a, b)"
  then have split: "split_once c (rev s) = Some (rev b, rev a)"
    by (auto simp: rsplit_once_def)
  from split_once_SomeD [OF this] have "s = a @ c # b"
    by (metis append.assoc append_Cons append_Nil rev.simps(2) rev_append rev_rev_ident)
  moreover have "rev b = takeWhile (\<lambda>x. x \<noteq> c) (rev s)"
    using split by (auto simp: split_once_def split: list.splits)
  then have "c \<notin> set (rev b)"
    by (auto dest: set_takeWhileD)
  ultimately show "s = a @ c # b \<and> c \<notin> set b" by simp
next
  assume "s = a @ c # b \<and> c \<notin> set b"
  then show "rsplit_once c s = Some (a, b)"
    by (simp add: rsplit_once_def split_once_notin)
qed

lemma utf8_ok_payload:
  assumes "utf8_ok c" shows "utf8_ok (c @ [PAYLOAD_SEPARATOR] @ dec_int i)"
proof -
  have "ascii (dec n)" for n
    using dec_digits [of n]
    by (auto simp: ascii_def all_digits_def list_all_iff is_ascii_digit_def Let_def)
  then have "ascii ([PAYLOAD_SEPARATOR] @ dec_int i)"
    by (auto simp: ascii_def PAYLOAD_SEPARATOR_def dec_int_def)
  then show ?thesis
    by (intro utf8_ok_append assms utf8_ok_ascii)
qed

section \<open>Cursors\<close>

text \<open>
  a page cursor is exactly the row it names under the database's key. A text is accepted as the
  cursor of a row precisely when it is the base64 of the HMAC of a payload naming that row, a dot, and
  the base64 of the payload: whoever presents an edited, truncated, re-encoded or unsigned one is
  refused.
\<close>

theorem cursor_is_authentic:
  "verify_cursor sha key raw = Inr (created_at, i) \<longleftrightarrow>
     (\<exists>digits. created_at \<noteq> [] \<and> parse_i64 digits = Some i \<and>
        (let payload = created_at @ [PAYLOAD_SEPARATOR] @ digits
         in utf8_ok payload
            \<and> raw = base64url_encode (hmac_sha256 sha key payload) @ [CURSOR_SEPARATOR]
                      @ base64url_encode payload))"
  (is "?accepted \<longleftrightarrow> (\<exists>digits. ?signed digits)")
proof
  assume accepted: ?accepted
  then obtain a b where split: "split_once CURSOR_SEPARATOR raw = Some (a, b)"
    by (auto simp: verify_cursor_def split: option.splits)
  obtain sig payload where decoded: "a = base64url_encode sig" "b = base64url_encode payload"
    using accepted split unfolding verify_cursor_def
    by (auto simp: base64_decodes split: option.splits)
  show "\<exists>digits. ?signed digits"
    using accepted split_once_SomeD [OF split] parse_i64_no_separator
    unfolding verify_cursor_def split decoded
    by (auto simp: base64_decodes constant_time_eq_iff rsplit_once_iff Let_def split: option.splits if_splits)
next
  assume "\<exists>digits. ?signed digits"
  then obtain digits where signed: "?signed digits" by blast
  let ?payload = "created_at @ [PAYLOAD_SEPARATOR] @ digits"
  have "rsplit_once PAYLOAD_SEPARATOR ?payload = Some (created_at, digits)"
    using signed parse_i64_no_separator by (auto simp: rsplit_once_iff)
  with signed show ?accepted
    by (simp add: verify_cursor_def Let_def split_once_notin base64_decodes constant_time_eq_iff)
qed

lemma verify_sign:
  assumes "c \<noteq> []" "utf8_ok c" "in_i64 i"
  shows "verify_cursor sha key (sign_cursor sha key c i) = Inr (c, i)"
proof -
  let ?payload = "c @ [PAYLOAD_SEPARATOR] @ dec_int i"
  have "rsplit_once PAYLOAD_SEPARATOR ?payload = Some (c, dec_int i)"
    using parse_i64_no_separator [OF parse_i64_dec_int [OF assms(3)]] by (simp add: rsplit_once_iff)
  with assms utf8_ok_payload [OF assms(2), of i] show ?thesis
    by (simp add: verify_cursor_def sign_cursor_def Let_def split_once_notin base64_decodes
        constant_time_eq_iff)
qed

section \<open>The key\<close>

text \<open>
  Every instance that gets a key gets the one that is stored: a stored key is never replaced, a key
  that is given out is stored first, and whoever asks next is given the same.
\<close>

lemma cursor_key_from_stored:
  assumes "cursor_key_from unhex env i n meta = (Inr key, meta')"
  shows "read_cursor_key unhex meta' = Some key
    \<and> (\<forall>k. k \<noteq> ''cursor_key'' \<longrightarrow> meta' k = meta k)
    \<and> (meta ''cursor_key'' \<noteq> None \<longrightarrow> meta' = meta)"
  using assms
proof (induction n arbitrary: i meta)
  case (Suc n)
  show ?case
  proof (cases "read_cursor_key unhex meta")
    case (Some k)
    with Suc.prems show ?thesis by (auto split: option.splits)
  next
    case None
    let ?meta = "if meta ''cursor_key'' = None then meta(''cursor_key'' \<mapsto> ke_random env i) else meta"
    have "cursor_key_from unhex env (Suc i) n ?meta = (Inr key, meta')"
      using Suc.prems None by (auto split: option.splits)
    from Suc.IH [OF this] show ?thesis by (auto split: if_splits)
  qed
qed simp

lemma cursor_key_is_shared:
  assumes "cursor_key unhex env meta = (Inr key, meta')" "ke_read env' 0 = None"
  shows "cursor_key unhex env' meta' = (Inr key, meta')"
  using cursor_key_from_stored [of unhex env 0 3] assms
  by (simp add: cursor_key_def numeral_3_eq_3)

text \<open>A stored text that is not the hexadecimal form of a key is never replaced: no page can be signed.\<close>

lemma unreadable_key_stays:
  assumes "meta ''cursor_key'' = Some v" "unhex v = None"
  shows "cursor_key unhex env meta = (Inr key, meta') \<Longrightarrow> False"
  using cursor_key_from_stored [of unhex env 0 3 meta key meta'] assms
  by (auto simp: cursor_key_def read_cursor_key_def)

end
