(* ===== verification/Dashboard_Properties.thy ===== *)
theory Dashboard_Properties
  imports Dashboard Cursor_Properties Statement_Facts
begin

text \<open>
  What the dashboard shows: a partner's own traffic only, pages that add up to the whole list, and
  totals that are those of the raw requests.
\<close>

section \<open>Pages\<close>

text \<open>A client that follows \<open>next_cursor\<close>; \<open>fetch i\<close> is what its \<open>i\<close>-th request is answered.\<close>

fun follow_pages ::
  "(nat \<Rightarrow> string option \<Rightarrow> (dashboard_error + requests_response) run) \<Rightarrow> nat \<Rightarrow> nat \<Rightarrow> string option \<Rightarrow>
   (dashboard_error + request_item list) run" where
  "follow_pages fetch 0 i cursor = Done (Inr [])"
| "follow_pages fetch (Suc n) i cursor =
     run_bind (fetch i cursor) (\<lambda>answer.
       case answer of
         Inl e \<Rightarrow> Done (Inl e)
       | Inr page \<Rightarrow>
           (case rq_next_cursor page of
              None \<Rightarrow> Done (Inr (rq_data page))
            | Some next \<Rightarrow>
                run_bind (follow_pages fetch n (Suc i) (Some next)) (\<lambda>rest.
                  Done (res_bind rest (\<lambda>items. Inr (rq_data page @ items))))))"

definition newest_first :: "usage_row list \<Rightarrow> bool" where
  "newest_first rows \<longleftrightarrow> sorted_wrt (\<lambda>a b. row_order b < row_order a) rows"

lemma listed_newest_first:
  assumes "distinct (map ur_id (usage_records s))"
  shows "newest_first (listed_rows sc w model status s)"
proof -
  let ?rows = "filter (\<lambda>r. passes status (ur_request_status r)) (raw_where sc w model s)"
  have "distinct (map ur_id ?rows)"
    using assms by (simp add: raw_where_def distinct_map_filter)
  then have "distinct (map row_order ?rows)"
    by (auto simp: distinct_map inj_on_def row_order_def)
  then have "distinct (map row_order (sort_key row_order ?rows))"
    by (simp add: distinct_map)
  then have "sorted_wrt (<) (map row_order (sort_key row_order ?rows))"
    by (simp add: strict_sorted_iff)
  then show ?thesis
    by (simp add: newest_first_def listed_rows_def sorted_wrt_rev sorted_wrt_map)
qed

lemma after_cursor:
  assumes "newest_first (pre @ c # post)"
  shows "filter (before_cursor (Some (row_order c))) (pre @ c # post) = post"
proof -
  have "filter (before_cursor (Some (row_order c))) pre = []"
    using assms by (auto simp: newest_first_def sorted_wrt_append filter_empty_conv before_cursor_def)
  moreover have "filter (before_cursor (Some (row_order c))) post = post"
    using assms by (auto simp: newest_first_def sorted_wrt_append before_cursor_def)
  ultimately show ?thesis by (simp add: before_cursor_def)
qed

lemma before_None [simp]: "filter (before_cursor None) rows = rows"
  by (simp add: before_cursor_def)

definition item_of :: "usage_row \<Rightarrow> request_item" where
  "item_of r = snd (map_row r)"

lemma map_row_simps [simp]:
  "fst (map_row r) = ur_id r" "snd (map_row r) = item_of r"
  "ri_created_at (item_of r) = ur_created_at r" "ri_consumer_id (item_of r) = ur_consumer_id r"
  by (simp_all add: map_row_def item_of_def)

text \<open>One page of a suffix of the list.\<close>

lemma page_more:
  assumes "0 < n" "n < length rows"
  shows "page_of sha key n (map map_row (take (Suc n) rows)) =
     \<lparr>rq_data = map item_of (take n rows),
      rq_next_cursor = Some (sign_cursor sha key (ur_created_at (rows ! (n - 1))) (ur_id (rows ! (n - 1))))\<rparr>"
proof -
  have "take n (take (Suc n) rows) = take n rows" "take n rows \<noteq> []"
    using assms by (auto simp: min_def)
  moreover have "last (take n rows) = rows ! (n - 1)"
    using assms last_conv_nth [OF calculation(2)] by (simp add: min_def)
  ultimately show ?thesis
    using assms by (simp add: page_of_def take_map last_map o_def del: take_take)
qed

lemma page_last:
  "length rows \<le> n \<Longrightarrow>
    page_of sha key n (map map_row rows) = \<lparr>rq_data = map item_of rows, rq_next_cursor = None\<rparr>"
  by (simp add: page_of_def o_def)

text \<open>What a cursor can carry of a row.\<close>

definition cursor_row :: "usage_row \<Rightarrow> bool" where
  "cursor_row r \<longleftrightarrow> ur_created_at r \<noteq> [] \<and> utf8_ok (ur_created_at r) \<and> in_i64 (ur_id r)"

lemma query_cursor_simps [simp]:
  "resolve_window T clock days (q\<lparr>dq_cursor := raw\<rparr>) = resolve_window T clock days q"
  "model_filter (q\<lparr>dq_cursor := raw\<rparr>) = model_filter q"
  "status_filter (q\<lparr>dq_cursor := raw\<rparr>) = status_filter q"
  "page_limit (q\<lparr>dq_cursor := raw\<rparr>) = page_limit q"
proof -
  have "custom_bounds T (q\<lparr>dq_cursor := raw\<rparr>) = custom_bounds T q" for T
    by (simp add: custom_bounds_def cong: option.case_cong)
  then have "requested_bounds T now (q\<lparr>dq_cursor := raw\<rparr>) = requested_bounds T now q" for T now
    by (simp add: requested_bounds_def Let_def cong: if_cong)
  then show "resolve_window T clock days (q\<lparr>dq_cursor := raw\<rparr>) = resolve_window T clock days q"
    by (simp add: resolve_window_def)
qed (simp_all add: model_filter_def status_filter_def page_limit_def)

lemma fetch_requests:
  assumes "resolve_window T clock days q = Done (Inr w)"
    and "requested_cursor sha key (q\<lparr>dq_cursor := raw\<rparr>) = Inr cursor"
  shows "get_requests sha T clock days None (Inr key) None consumer (q\<lparr>dq_cursor := raw\<rparr>) s
    = Done (Inr (request_page sha key (resolve_scope consumer (dq_consumers q)) w (model_filter q)
        (status_filter q) (page_limit q) cursor s))"
  using assms
  by (simp add: get_requests_def in_window_def signing_key_def dashboard_read_def)

text \<open>The cursor of a row of the list, and what follows it, whatever came before.\<close>

lemma follow_from:
  assumes "\<And>i. resolve_window T (clock i) days q = Done (Inr (w i))"
    and "\<And>i. distinct (map ur_id (usage_records (s i)))"
    and "\<And>i. \<exists>new. listed_rows (resolve_scope consumer (dq_consumers q)) (w i) (model_filter q)
           (status_filter q) (s i) = new @ rows"
    and "\<forall>r \<in> set rows. cursor_row r"
    and "rows = pre @ c # post" "length post < fuel"
  shows "follow_pages (\<lambda>i raw. get_requests sha T (clock i) days None (Inr key) None consumer
        (q\<lparr>dq_cursor := raw\<rparr>) (s i)) fuel i (Some (sign_cursor sha key (ur_created_at c) (ur_id c)))
    = Done (Inr (map item_of post))"
  using assms(5,6)
proof (induction fuel arbitrary: pre c post i)
  case (Suc fuel)
  let ?n = "page_limit q"
  have n: "0 < ?n" by (simp add: page_limit_def)
  have "requested_cursor sha key (q\<lparr>dq_cursor := Some (sign_cursor sha key (ur_created_at c) (ur_id c))\<rparr>)
      = Inr (Some (row_order c))"
    using assms(4) Suc.prems(1)
    by (simp add: requested_cursor_def cursor_row_def verify_sign row_order_def)
  note fetch = fetch_requests [OF assms(1) this]
  obtain new where listed: "listed_rows (resolve_scope consumer (dq_consumers q)) (w i) (model_filter q)
      (status_filter q) (s i) = (new @ pre) @ c # post"
    using assms(3) Suc.prems(1) by (metis append.assoc)
  have rest: "filter (before_cursor (Some (row_order c))) ((new @ pre) @ c # post) = post"
    using after_cursor listed_newest_first [OF assms(2)] listed by metis
  have page: "request_page sha key (resolve_scope consumer (dq_consumers q)) (w i) (model_filter q)
      (status_filter q) ?n (Some (row_order c)) (s i) = page_of sha key ?n (map map_row (take (Suc ?n) post))"
    unfolding request_page_def listed rest by simp
  show ?case
  proof (cases "?n < length post")
    case True
    let ?d = "post ! (?n - 1)"
    have split: "post = take (?n - 1) post @ ?d # drop ?n post"
      using True n id_take_nth_drop [of "?n - 1" post] by simp
    have "rows = (pre @ c # take (?n - 1) post) @ ?d # drop ?n post"
      using Suc.prems(1) split by simp
    moreover have "length (drop ?n post) < fuel"
      using Suc.prems(2) n True by simp
    ultimately have "follow_pages (\<lambda>i raw. get_requests sha T (clock i) days None (Inr key) None consumer
        (q\<lparr>dq_cursor := raw\<rparr>) (s i)) fuel (Suc i) (Some (sign_cursor sha key (ur_created_at ?d) (ur_id ?d)))
      = Done (Inr (map item_of (drop ?n post)))"
      by (rule Suc.IH)
    then show ?thesis
      using True by (simp add: fetch page page_more [OF n] flip: map_append)
  next
    case False
    then show ?thesis by (simp add: fetch page page_last)
  qed
qed simp


section \<open>Isolation\<close>

text \<open>Two ledgers in which one partner's traffic is the same.\<close>

definition same_traffic :: "string \<Rightarrow> db \<Rightarrow> db \<Rightarrow> bool" where
  "same_traffic c s s' \<longleftrightarrow>
     filter (\<lambda>r. ur_consumer_id r = c) (usage_records s) = filter (\<lambda>r. ur_consumer_id r = c) (usage_records s')
     \<and> (\<forall>k. bk_consumer_id k = c \<longrightarrow> usage_hourly s k = usage_hourly s' k)"

lemma raw_where_same:
  assumes "same_traffic c s s'" shows "raw_where (One c) w model s = raw_where (One c) w model s'"
proof -
  have "raw_where (One c) w model t =
      filter (\<lambda>r. tw_start_ts w \<le> ur_created_at r \<and> ur_created_at r < tw_end_ts w \<and> passes model (ur_model r))
        (filter (\<lambda>r. ur_consumer_id r = c) (usage_records t))" for t
    by (simp add: raw_where_def conj_ac)
  with assms show ?thesis by (simp only: same_traffic_def)
qed

lemma hourly_where_same:
  assumes "same_traffic c s s'" shows "hourly_where (One c) w model order s = hourly_where (One c) w model order s'"
proof (induction order)
  case (Cons k order)
  have "usage_hourly s k = usage_hourly s' k \<or> bk_consumer_id k \<noteq> c"
    using assms by (auto simp: same_traffic_def)
  with Cons show ?case
    by (elim disjE; cases "usage_hourly s k"; cases "usage_hourly s' k")
      (auto simp: hourly_where_def hourly_rows_def map_filter_simps)
qed (simp add: hourly_where_def hourly_rows_def map_filter_simps)


section \<open>Totals\<close>

lemma sum_of_Inr: "sum_of f rows = Inr v \<Longrightarrow> v = sum_list (map f rows) \<and> in_i64 v"
  by (auto simp: sum_of_def sql_sum_def or_zero_def res_bind_Inr_iff in_i64_def dest: sum_from_Inr
      split: if_splits)

lemma sum_columns_Inr:
  assumes "sum_columns rows = Inr v"
  shows "hs_requests v = (\<Sum>e\<leftarrow>rows. hr_request_count (snd e))"
    and "hs_success v = (\<Sum>e\<leftarrow>rows. m_success_count (hr_totals (snd e)))"
    and "hs_failure v = (\<Sum>e\<leftarrow>rows. m_failure_count (hr_totals (snd e)))"
    and "hs_input v = (\<Sum>e\<leftarrow>rows. m_input_tokens (hr_totals (snd e)))"
    and "hs_output v = (\<Sum>e\<leftarrow>rows. m_output_tokens (hr_totals (snd e)))"
    and "hs_cached v = (\<Sum>e\<leftarrow>rows. m_cached_tokens (hr_totals (snd e)))"
    and "in_i64 (hs_requests v)" "in_i64 (hs_success v)" "in_i64 (hs_failure v)"
      "in_i64 (hs_input v)" "in_i64 (hs_output v)" "in_i64 (hs_cached v)"
  using assms
  by (auto simp: sum_columns_def res_bind_Inr_iff entry_requests_def [abs_def] entry_metric_def [abs_def]
      dest!: sum_of_Inr)

text \<open>A quantity of a bucket that adds up over its contributions: their number, or one of the metrics.\<close>

definition adds_up :: "(hourly_row \<Rightarrow> int) \<Rightarrow> (metrics \<Rightarrow> int) \<Rightarrow> bool" where
  "adds_up g w \<longleftrightarrow> (\<forall>ms. ms \<noteq> {#} \<longrightarrow> g (HourlyRow (int (size ms)) (sum_mset ms)) = (\<Sum>m\<in>#ms. w m))"

lemma adds_up_requests: "adds_up hr_request_count (\<lambda>_. 1)"
  by (simp add: adds_up_def)

lemma adds_up_metric:
  assumes "\<And>a b. f (a + b) = f a + f b" "f 0 = 0"
  shows "adds_up (\<lambda>row. f (hr_totals row)) f"
proof -
  have "f (sum_mset ms) = (\<Sum>m\<in>#ms. f m)" for ms
    by (induction ms) (simp_all add: assms)
  then show ?thesis by (simp add: adds_up_def)
qed

lemma adds_up_metrics:
  "adds_up (\<lambda>row. m_input_tokens (hr_totals row)) m_input_tokens"
  "adds_up (\<lambda>row. m_output_tokens (hr_totals row)) m_output_tokens"
  "adds_up (\<lambda>row. m_cached_tokens (hr_totals row)) m_cached_tokens"
  "adds_up (\<lambda>row. m_success_count (hr_totals row)) m_success_count"
  "adds_up (\<lambda>row. m_failure_count (hr_totals row)) m_failure_count"
  by (rule adds_up_metric; simp add: plus_metrics_def metrics_add_def zero_metrics_def metrics_default_def)+

text \<open>The terminal rows whose bucket has a property.\<close>

definition row_key :: "time_crate \<Rightarrow> usage_row \<Rightarrow> bucket_key" where
  "row_key T r = sr_key (stored_of_row T r)"

definition rows_of_buckets :: "time_crate \<Rightarrow> (bucket_key \<Rightarrow> bool) \<Rightarrow> usage_row list \<Rightarrow> usage_row list" where
  "rows_of_buckets T P rows = filter (\<lambda>r. ur_request_status r \<noteq> ''in_flight'' \<and> P (row_key T r)) rows"

lemma row_contribution_alt:
  "row_contribution T r =
     (if ur_request_status r = ''in_flight'' then {#}
      else {#\<lparr>cb_key = row_key T r, cb_metrics = sr_metrics (stored_of_row T r)\<rparr>#})"
  by (auto simp: row_contribution_def stored_contribution_def row_key_def status_is_terminal_iff
      stored_of_row_def Let_def from_str_lossy_def)

lemma bucket_sums:
  assumes "finite K" "\<And>c. c \<in># M \<Longrightarrow> cb_key c \<in> K"
  shows "(\<Sum>k\<in>K. if P k then (\<Sum>m\<in>#in_bucket k M. w m) else (0 :: int))
    = (\<Sum>c\<in>#filter_mset (\<lambda>c. P (cb_key c)) M. w (cb_metrics c))"
  using assms(2)
proof (induction M)
  case (add c M)
  have "(\<Sum>k\<in>K. if P k then (\<Sum>m\<in>#in_bucket k (add_mset c M). w m) else 0)
      = (\<Sum>k\<in>K. (if k = cb_key c then if P k then w (cb_metrics c) else 0 else 0)
           + (if P k then (\<Sum>m\<in>#in_bucket k M. w m) else 0))"
    by (rule sum.cong) auto
  also have "\<dots> = (if P (cb_key c) then w (cb_metrics c) else 0)
      + (\<Sum>c\<in>#filter_mset (\<lambda>c. P (cb_key c)) M. w (cb_metrics c))"
    using add assms(1) by (simp add: sum.distrib)
  finally show ?case by simp
qed (simp add: in_bucket_def cong: if_cong)

lemma contributions_sum:
  "(\<Sum>c\<in>#filter_mset (\<lambda>c. P (cb_key c)) (row_contributions T rows). w (cb_metrics c))
    = (\<Sum>r\<leftarrow>rows_of_buckets T P rows. w (sr_metrics (stored_of_row T r)))"
  by (induction rows) (simp_all add: rows_of_buckets_def row_contribution_alt)

lemma hourly_sum:
  assumes "rollup_consistent T s" "distinct order" "dom (usage_hourly s) \<subseteq> set order" "adds_up g w"
  shows "(\<Sum>e\<leftarrow>filter (\<lambda>e. P (fst e)) (hourly_rows order s). g (snd e))
    = (\<Sum>r\<leftarrow>rows_of_buckets T P (usage_records s). w (sr_metrics (stored_of_row T r)))"
proof -
  let ?M = "row_contributions T (usage_records s)"
  have h: "usage_hourly s k = bucket_row (in_bucket k ?M)" for k
    using assms(1) by (simp add: rollup_consistent_def hourly_reflects_def)
  have key: "cb_key c \<in> set order" if "c \<in># ?M" for c
  proof -
    have "cb_metrics c \<in># in_bucket (cb_key c) ?M"
      using that by (auto simp: in_bucket_def)
    then have "in_bucket (cb_key c) ?M \<noteq> {#}" by auto
    then have "usage_hourly s (cb_key c) \<noteq> None" by (simp add: h bucket_row_def)
    with assms(3) show ?thesis by blast
  qed
  have "(\<Sum>e\<leftarrow>filter (\<lambda>e. P (fst e)) (hourly_rows order s). g (snd e))
      = (\<Sum>k\<leftarrow>order. if P k then (\<Sum>m\<in>#in_bucket k ?M. w m) else 0)"
    using assms(4)
    by (induction order) (auto simp: hourly_rows_def map_filter_simps h bucket_row_def adds_up_def)
  also have "\<dots> = (\<Sum>k\<in>set order. if P k then (\<Sum>m\<in>#in_bucket k ?M. w m) else 0)"
    by (rule sum_list_distinct_conv_sum_set [OF assms(2)])
  also have "\<dots> = (\<Sum>r\<leftarrow>rows_of_buckets T P (usage_records s). w (sr_metrics (stored_of_row T r)))"
    by (simp add: bucket_sums [OF finite_set key] contributions_sum)
  finally show ?thesis .
qed

text \<open>The raw requests a query is about.\<close>

definition shown_bucket :: "scope \<Rightarrow> time_window \<Rightarrow> string option \<Rightarrow> bucket_key \<Rightarrow> bool" where
  "shown_bucket sc w model k \<longleftrightarrow>
     scope_admits sc (bk_consumer_id k) \<and> tw_start_hour w \<le> bk_hour k \<and> bk_hour k \<le> tw_end_hour w
     \<and> passes model (bk_model k)"

definition shown_requests ::
  "time_crate \<Rightarrow> scope \<Rightarrow> time_window \<Rightarrow> string option \<Rightarrow> db \<Rightarrow> usage_row list" where
  "shown_requests T sc w model s =
     filter (\<lambda>r. ur_request_status r \<noteq> ''in_flight''
       \<and> (let hour = format_hour_str T (ur_created_at r)
          in tw_start_hour w \<le> hour \<and> hour \<le> tw_end_hour w)
       \<and> scope_admits sc (ur_consumer_id r) \<and> passes model (ur_model r)) (usage_records s)"

lemma hourly_where_alt:
  "hourly_where sc w model order s = filter (\<lambda>e. shown_bucket sc w model (fst e)) (hourly_rows order s)"
  by (simp add: hourly_where_def shown_bucket_def case_prod_unfold)

lemma row_key_simps [simp]:
  "bk_hour (row_key T r) = format_hour_str T (ur_created_at r)"
  "bk_consumer_id (row_key T r) = ur_consumer_id r" "bk_model (row_key T r) = ur_model r"
  by (simp_all add: row_key_def stored_of_row_def Let_def)

lemma shown_requests_alt:
  "shown_requests T sc w model s = rows_of_buckets T (shown_bucket sc w model) (usage_records s)"
  unfolding shown_requests_def rows_of_buckets_def shown_bucket_def Let_def
  by (rule filter_cong) auto

text \<open>The columns of a set of buckets, as sums over the requests in them.\<close>

lemma columns_of_requests:
  assumes "rollup_consistent T s" "distinct order" "dom (usage_hourly s) \<subseteq> set order"
    and "sum_columns (filter (\<lambda>e. P (fst e)) (hourly_rows order s)) = Inr v"
    and "R = rows_of_buckets T P (usage_records s)"
  shows "hs_requests v = int (length R)"
    and "hs_success v = int (length (filter (\<lambda>r. ur_request_status r = ''completed'') R))"
    and "hs_failure v = int (length (filter (\<lambda>r. ur_request_status r \<noteq> ''completed'') R))"
    and "hs_input v = (\<Sum>r\<leftarrow>R. or_zero (ur_input_tokens r))"
    and "hs_output v = (\<Sum>r\<leftarrow>R. or_zero (ur_output_tokens r))"
    and "hs_cached v = (\<Sum>r\<leftarrow>R. or_zero (ur_cached_tokens r))"
    and "in_i64 (hs_requests v)" "in_i64 (hs_success v)" "in_i64 (hs_failure v)"
      "in_i64 (hs_input v)" "in_i64 (hs_output v)" "in_i64 (hs_cached v)"
proof -
  note total = hourly_sum [OF assms(1-3), of _ _ P, folded assms(5)]
  note sums = sum_columns_Inr [OF assms(4)]
  have count: "(\<Sum>r\<leftarrow>rows. of_bool (Q r)) = int (length (filter Q rows))" for Q and rows :: "usage_row list"
    by (induction rows) simp_all
  have terminal: "ur_request_status r \<noteq> ''in_flight''" if "r \<in> set R" for r
    using that assms(5) by (simp add: rows_of_buckets_def)
  note stored = stored_of_row_def Let_def
  show "hs_requests v = int (length R)"
    unfolding sums(1) total [OF adds_up_requests] by (induction R) simp_all
  show "hs_input v = (\<Sum>r\<leftarrow>R. or_zero (ur_input_tokens r))"
    unfolding sums(4) total [OF adds_up_metrics(1)] by (simp add: stored)
  show "hs_output v = (\<Sum>r\<leftarrow>R. or_zero (ur_output_tokens r))"
    unfolding sums(5) total [OF adds_up_metrics(2)] by (simp add: stored)
  show "hs_cached v = (\<Sum>r\<leftarrow>R. or_zero (ur_cached_tokens r))"
    unfolding sums(6) total [OF adds_up_metrics(3)] by (simp add: stored)
  show "hs_success v = int (length (filter (\<lambda>r. ur_request_status r = ''completed'') R))"
    unfolding sums(2) total [OF adds_up_metrics(4)]
    by (simp add: stored from_str_lossy_def flip: count)
      (intro arg_cong [of _ _ sum_list] map_cong; auto)
  show "hs_failure v = int (length (filter (\<lambda>r. ur_request_status r \<noteq> ''completed'') R))"
    unfolding sums(3) total [OF adds_up_metrics(5)] using terminal
    by (simp add: stored from_str_lossy_def flip: count)
      (intro arg_cong [of _ _ sum_list] map_cong; auto)
qed (use sum_columns_Inr [OF assms(4)] in simp_all)

lemma u64_nonneg: "0 \<le> n \<Longrightarrow> in_i64 n \<Longrightarrow> i64_as_u64 n = n"
  by (simp add: i64_as_u64_def in_i64_def)

lemma checked_tokens_nonneg:
  assumes "list_all usage_row_check rows" "R \<subseteq> set rows" "r \<in> R"
  shows "0 \<le> or_zero (ur_input_tokens r)" "0 \<le> or_zero (ur_output_tokens r)" "0 \<le> or_zero (ur_cached_tokens r)"
proof -
  have "usage_row_check r" using assms by (auto simp: list_all_iff)
  moreover have "absent_or_nonneg v \<Longrightarrow> 0 \<le> or_zero v" for v
    by (simp add: absent_or_nonneg_def or_zero_def split: option.splits)
  ultimately show "0 \<le> or_zero (ur_input_tokens r)" "0 \<le> or_zero (ur_output_tokens r)"
    "0 \<le> or_zero (ur_cached_tokens r)"
    unfolding usage_row_check_def by blast+
qed

lemma nonneg_sum: "(\<And>x. x \<in> set xs \<Longrightarrow> 0 \<le> f x) \<Longrightarrow> 0 \<le> (\<Sum>x\<leftarrow>xs. f x :: int)"
  by (induction xs) auto

lemma rows_of_buckets_subset: "set (rows_of_buckets T P rows) \<subseteq> set rows"
  by (auto simp: rows_of_buckets_def)

lemma res_bind_window:
  assumes "in_window T clock days q f = Done (Inr x)" "resolve_window T clock days q = Done (Inr w)"
  shows "f w = Inr x"
  using assms by (simp add: in_window_def)

lemma dashboard_read_Inr: "dashboard_read flt f s = Inr x \<longleftrightarrow> flt = None \<and> f s = Inr x"
  by (cases flt; cases "f s") (auto simp: dashboard_read_def pool_read_def)

text \<open>
  C34: the totals of the dashboard are those of the requests. When the rollup is in step with the raw
  rows, a summary counts exactly the terminal requests of its scope, hours and model, splits them into
  completed ones and the others, and sums the tokens they reported; a request without usage adds none
  and is counted as unavailable from the raw rows.
\<close>

theorem summary_matches_requests:
  assumes "rollup_consistent T s" "distinct order" "dom (usage_hourly s) \<subseteq> set order"
    and "list_all usage_row_check (usage_records s)"
    and "resolve_window T clock days q = Done (Inr w)"
    and "get_summary T clock days order flt flt' consumer q s s' = Done (Inr su)"
    and "R = shown_requests T (resolve_scope consumer (dq_consumers q)) w (model_filter q) s"
  shows "su_total_requests su = int (length R)
    \<and> su_success_count su = int (length (filter (\<lambda>r. ur_request_status r = ''completed'') R))
    \<and> su_failure_count su = int (length (filter (\<lambda>r. ur_request_status r \<noteq> ''completed'') R))
    \<and> su_total_input_tokens su = (\<Sum>r\<leftarrow>R. or_zero (ur_input_tokens r))
    \<and> su_total_output_tokens su = (\<Sum>r\<leftarrow>R. or_zero (ur_output_tokens r))
    \<and> su_total_cached_tokens su = (\<Sum>r\<leftarrow>R. or_zero (ur_cached_tokens r))
    \<and> su_unavailable_usage_count su = i64_as_u64 (int (length
        (filter (\<lambda>r. ur_usage_status r = ''unavailable'' \<and> ur_request_status r \<noteq> ''in_flight'')
          (raw_where (resolve_scope consumer (dq_consumers q)) w (model_filter q) s'))))"
proof -
  let ?sc = "resolve_scope consumer (dq_consumers q)"
  obtain v where v: "sum_columns (hourly_where ?sc w (model_filter q) order s) = Inr v"
    and su: "su_total_requests su = i64_as_u64 (hs_requests v)"
      "su_success_count su = i64_as_u64 (hs_success v)" "su_failure_count su = i64_as_u64 (hs_failure v)"
      "su_total_input_tokens su = i64_as_u64 (hs_input v)"
      "su_total_output_tokens su = i64_as_u64 (hs_output v)"
      "su_total_cached_tokens su = i64_as_u64 (hs_cached v)"
      "su_unavailable_usage_count su = i64_as_u64 (count_unavailable ?sc w (model_filter q) s')"
    using res_bind_window [OF assms(6) [unfolded get_summary_def] assms(5)]
    by (auto simp: Let_def res_bind_Inr_iff dashboard_read_Inr summary_of_rollup_def)
  note columns = columns_of_requests [OF assms(1-3) v [unfolded hourly_where_alt]
      assms(7) [unfolded shown_requests_alt]]
  have nonneg: "0 \<le> hs_input v" "0 \<le> hs_output v" "0 \<le> hs_cached v"
    unfolding columns(4-6) assms(7) shown_requests_alt
    using checked_tokens_nonneg [OF assms(4) rows_of_buckets_subset] by (auto intro!: nonneg_sum)
  show ?thesis
    unfolding su using columns nonneg by (simp add: u64_nonneg count_unavailable_def)
qed

section \<open>The time series\<close>

lemma collect_rows_Inr:
  "collect_rows f xs = Inr ys \<longleftrightarrow> list_all2 (\<lambda>x y. f x = Inr y) xs ys"
  by (induction xs arbitrary: ys) (auto simp: res_bind_Inr_iff list_all2_Cons1)

lemma distinct_sorted_set: "distinct_sorted xs = sorted_list_of_set (set xs)"
  by (simp add: distinct_sorted_def sorted_list_of_set_sort_remdups)

text \<open>A bucket is there exactly when a terminal request is in it.\<close>

lemma bucket_exists:
  assumes "rollup_consistent T s"
  shows "usage_hourly s k \<noteq> None \<longleftrightarrow> rows_of_buckets T (\<lambda>k'. k' = k) (usage_records s) \<noteq> []"
proof -
  have "usage_hourly s k = bucket_row (in_bucket k (row_contributions T (usage_records s)))"
    using assms by (simp add: rollup_consistent_def hourly_reflects_def)
  moreover have "in_bucket k (row_contributions T rows) = {#} \<longleftrightarrow> rows_of_buckets T (\<lambda>k'. k' = k) rows = []" for rows
    by (induction rows) (auto simp: rows_of_buckets_def row_contribution_alt in_bucket_def)
  ultimately show ?thesis by (simp add: bucket_row_def)
qed

lemma hours_of_requests:
  assumes "rollup_consistent T s" "dom (usage_hourly s) \<subseteq> set order"
  shows "set (map entry_hour (hourly_where sc w model order s))
    = (\<lambda>r. format_hour_str T (ur_created_at r)) ` set (shown_requests T sc w model s)"
proof -
  have "set (map entry_hour (hourly_where sc w model order s))
      = bk_hour ` {k. shown_bucket sc w model k \<and> usage_hourly s k \<noteq> None}"
    using assms(2)
    by (force simp: hourly_where_alt hourly_rows_def List.map_filter_def entry_hour_def image_iff)
  also have "{k. shown_bucket sc w model k \<and> usage_hourly s k \<noteq> None}
      = row_key T ` set (shown_requests T sc w model s)"
    unfolding bucket_exists [OF assms(1)] shown_requests_alt
    by (auto simp: rows_of_buckets_def filter_empty_conv)
  finally show ?thesis by (simp add: image_image)
qed

lemma count_by_key:
  assumes "distinct keys" "f ` set xs \<subseteq> set keys"
  shows "(\<Sum>k\<leftarrow>keys. int (length (filter (\<lambda>x. f x = k) xs))) = int (length xs)"
  using assms(2)
proof (induction xs)
  case (Cons x xs)
  have "(\<Sum>k\<leftarrow>keys. int (length (filter (\<lambda>x. f x = k) (x # xs))))
      = (\<Sum>k\<leftarrow>keys. (if k = f x then 1 else 0) + int (length (filter (\<lambda>x. f x = k) xs)))"
    by (intro arg_cong [of _ _ sum_list] map_cong) auto
  also have "\<dots> = (\<Sum>k\<leftarrow>keys. (if k = f x then 1 else 0)) + int (length xs)"
    using Cons by (simp add: sum_list_addf)
  also have "(\<Sum>k\<leftarrow>keys. (if k = f x then 1 else 0)) = (1 :: int)"
    using assms(1) Cons.prems by (simp add: sum_list_distinct_conv_sum_set)
  finally show ?case by simp
qed simp

text \<open>
  the time series is the requests, hour by hour. Its points are in order of time, one for each
  hour that has a terminal request of the query and no other, each counts the requests and tokens of
  its hour, and together they count every request of the query once.
\<close>

theorem timeseries_matches_requests:
  assumes "rollup_consistent T s" "distinct order" "dom (usage_hourly s) \<subseteq> set order"
    and "list_all usage_row_check (usage_records s)"
    and "resolve_window T clock days q = Done (Inr w)"
    and "get_timeseries T clock days order flt consumer q s = Done (Inr points)"
    and "R = shown_requests T (resolve_scope consumer (dq_consumers q)) w (model_filter q) s"
    and "hour_of = (\<lambda>r. format_hour_str T (ur_created_at r))"
  shows "map tp_hour points = sorted_list_of_set (hour_of ` set R)
    \<and> (\<forall>p \<in> set points. let H = filter (\<lambda>r. hour_of r = tp_hour p) R in
          tp_requests p = int (length H)
          \<and> tp_success_count p = int (length (filter (\<lambda>r. ur_request_status r = ''completed'') H))
          \<and> tp_input_tokens p = (\<Sum>r\<leftarrow>H. or_zero (ur_input_tokens r))
          \<and> tp_output_tokens p = (\<Sum>r\<leftarrow>H. or_zero (ur_output_tokens r)))
    \<and> (\<Sum>p\<leftarrow>points. tp_requests p) = int (length R)"
proof -
  let ?sc = "resolve_scope consumer (dq_consumers q)"
  let ?entries = "hourly_where ?sc w (model_filter q) order s"
  have series: "list_all2 (\<lambda>h p. hour_point ?entries h = Inr p) (distinct_sorted (map entry_hour ?entries)) points"
    using res_bind_window [OF assms(6) [unfolded get_timeseries_def] assms(5)]
    by (simp add: dashboard_read_Inr timeseries_of_def collect_rows_Inr)
  have hours: "distinct_sorted (map entry_hour ?entries) = sorted_list_of_set (hour_of ` set R)"
    unfolding distinct_sorted_set hours_of_requests [OF assms(1,3)] assms(7,8) ..
  have point: "tp_hour p = h \<and> tp_requests p = int (length H)
      \<and> tp_success_count p = int (length (filter (\<lambda>r. ur_request_status r = ''completed'') H))
      \<and> tp_input_tokens p = (\<Sum>r\<leftarrow>H. or_zero (ur_input_tokens r))
      \<and> tp_output_tokens p = (\<Sum>r\<leftarrow>H. or_zero (ur_output_tokens r))"
    if p: "hour_point ?entries h = Inr p" and H: "H = filter (\<lambda>r. hour_of r = h) R" for h p H
  proof -
    let ?P = "\<lambda>k. shown_bucket ?sc w (model_filter q) k \<and> bk_hour k = h"
    obtain v where v: "sum_columns (filter (\<lambda>e. entry_hour e = h) ?entries) = Inr v"
      and of_v: "tp_hour p = h" "tp_requests p = i64_as_u64 (hs_requests v)"
        "tp_success_count p = i64_as_u64 (hs_success v)" "tp_input_tokens p = i64_as_u64 (hs_input v)"
        "tp_output_tokens p = i64_as_u64 (hs_output v)"
      using p by (auto simp: hour_point_def res_bind_Inr_iff)
    have entries: "filter (\<lambda>e. entry_hour e = h) ?entries = filter (\<lambda>e. ?P (fst e)) (hourly_rows order s)"
      by (simp add: hourly_where_alt entry_hour_def conj_commute)
    have rows: "H = rows_of_buckets T ?P (usage_records s)"
      unfolding H assms(7,8) shown_requests_alt rows_of_buckets_def by simp
    note columns = columns_of_requests [OF assms(1-3) v [unfolded entries] rows]
    have "0 \<le> hs_input v" "0 \<le> hs_output v"
      unfolding columns(4,5) rows
      using checked_tokens_nonneg [OF assms(4) rows_of_buckets_subset] by (auto intro!: nonneg_sum)
    with of_v columns show ?thesis by (simp add: u64_nonneg)
  qed
  have all: "list_all2 (\<lambda>h p. tp_hour p = h) (sorted_list_of_set (hour_of ` set R)) points"
    using series unfolding hours by (rule list_all2_mono) (use point in blast)
  then have map_hours: "map tp_hour points = sorted_list_of_set (hour_of ` set R)"
    by (simp add: list_all2_conv_all_nth list_eq_iff_nth_eq)
  have each: "hour_point ?entries (tp_hour p) = Inr p" if "p \<in> set points" for p
    using series that point by (auto simp: list_all2_conv_all_nth in_set_conv_nth)
  have counts: "map tp_requests points
      = map (\<lambda>p. int (length (filter (\<lambda>r. hour_of r = tp_hour p) R))) points"
    using point [OF each refl] by simp
  have "(\<Sum>p\<leftarrow>points. tp_requests p)
      = (\<Sum>h\<leftarrow>map tp_hour points. int (length (filter (\<lambda>r. hour_of r = h) R)))"
    unfolding counts by (simp add: o_def)
  also have "\<dots> = int (length R)"
    unfolding map_hours by (rule count_by_key) simp_all
  finally show ?thesis
    using map_hours point [OF each refl] by (simp add: Let_def)
qed

section \<open>Windows\<close>

text \<open>
  no query reaches further back than the retention window or past the present. A window that is
  resolved starts at or after the earliest kept day and ends at the clock at the latest, and its hours
  are those of its bounds; a start before that is refused rather than answered with less.
\<close>

theorem window_within_retention:
  assumes "resolve_window T clock days q = Done (Inr w)"
  shows "\<exists>start stop. w = \<lparr>tw_start_ts = format_ts T start, tw_end_ts = format_ts T stop,
        tw_start_hour = format_hour T start, tw_end_hour = format_hour T stop\<rparr>
    \<and> truncate_now clock - int (max days 1) * NANOS_PER_DAY \<le> start \<and> stop \<le> truncate_now clock
    \<and> (dq_range q = ''custom'' \<longrightarrow>
        Option.bind (dq_start q) (parse_ts T) = Some start \<and> (\<exists>stop'.
          Option.bind (dq_end q) (parse_ts T) = Some stop' \<and> start < stop' \<and> stop = min stop' (truncate_now clock)))"
proof -
  let ?now = "truncate_now clock"
  obtain start stop' where bounds: "requested_bounds T ?now q = Done (Inr (start, stop'))"
    and w: "w = \<lparr>tw_start_ts = format_ts T start, tw_end_ts = format_ts T (min stop' ?now),
        tw_start_hour = format_hour T start, tw_end_hour = format_hour T (min stop' ?now)\<rparr>"
    and early: "?now - int (max days 1) * NANOS_PER_DAY \<le> start"
    using assms
    by (auto simp: resolve_window_def run_bind_def days_before_def instant_add_def instant_checked_add_def
        Let_def split: run.splits sum.splits option.splits if_splits)
  have "dq_range q = ''custom'' \<longrightarrow> Option.bind (dq_start q) (parse_ts T) = Some start
      \<and> Option.bind (dq_end q) (parse_ts T) = Some stop' \<and> start < stop'"
    using bounds
    by (auto simp: requested_bounds_def custom_bounds_def split: option.splits if_splits)
  with w early show ?thesis by (intro exI conjI) auto
qed

section \<open>Witnesses\<close>

text \<open>
  A ledger with a completed request and one still in flight, read on the second day; another with a
  request of a stranger.
\<close>

definition metered_row :: usage_row where
  "metered_row =
     \<lparr>ur_id = 1, ur_request_id = ''req-1'', ur_created_at = format_ts gregorian 36000000000000,
      ur_consumer_id = ''acme'', ur_model = ''gpt-4o'', ur_endpoint = ''chat_completions'',
      ur_streaming = 0, ur_http_status = Some 200, ur_request_status = ''completed'',
      ur_instance_id = None, ur_input_tokens = Some 1000, ur_output_tokens = Some 20,
      ur_cached_tokens = Some 200, ur_ttft_ms = None, ur_duration_ms = 350,
      ur_usage_status = ''available'', ur_error_message = None, ur_error_body = None,
      ur_input_price = None, ur_cached_price = None, ur_output_price = None\<rparr>"

definition running_row :: usage_row where
  "running_row =
     metered_row\<lparr>ur_id := 2, ur_request_id := ''req-2'', ur_request_status := ''in_flight''\<rparr>"

definition metered_key :: bucket_key where
  "metered_key =
     \<lparr>bk_hour = format_hour gregorian 36000000000000, bk_consumer_id = ''acme'', bk_model = ''gpt-4o'',
      bk_endpoint = ''chat_completions'', bk_streaming = 0\<rparr>"

definition metered_db :: db where
  "metered_db = empty_db
     \<lparr>usage_records := [metered_row, running_row],
      usage_hourly := [metered_key \<mapsto> HourlyRow 1 (Metrics 1000 20 200 350 0 0 1 0)]\<rparr>"

definition sample_query :: dashboard_query where
  "sample_query = query_default\<lparr>dq_limit := 1\<rparr>"

definition sample_window :: time_window where
  "sample_window =
     \<lparr>tw_start_ts = format_ts gregorian 36000000000000, tw_end_ts = format_ts gregorian 122400000000000,
      tw_start_hour = format_hour gregorian 36000000000000,
      tw_end_hour = format_hour gregorian 122400000000000\<rparr>"

lemma sample_resolved: "resolve_window gregorian 122400000000000 60 sample_query = Done (Inr sample_window)"
proof -
  have "requested_bounds gregorian 122400000000000 sample_query = Done (Inr (36000000000000, 122400000000000))"
    "days_before gregorian 122400000000000 60 = Done (- 5061600000000000)"
    by (simp_all add: requested_bounds_def sample_query_def query_default_def days_before_def
        instant_add_def instant_checked_add_def gregorian_def calendar_only_def HOURS_def NANOS_PER_DAY_def)
  then show ?thesis
    by (simp add: resolve_window_def truncate_now_def sample_window_def)
qed

lemma sample_instants [simp]:
  "four_digit_instant 36000000000000" "four_digit_instant 122400000000000"
  by (simp_all add: four_digit_instant_def four_digit_day_def NANOS_PER_DAY_def)

lemma sample_hours: "format_hour gregorian 36000000000000 \<le> format_hour gregorian 122400000000000"
proof -
  have "render_date gregorian 0 < render_date gregorian 1"
    by (rule greg.render_date_mono) (simp_all add: four_digit_day_def)
  moreover have "length (render_date gregorian 0) = length (render_date gregorian 1)"
    using greg.render_date_length by (simp add: four_digit_day_def)
  ultimately have "format_hour gregorian 36000000000000 < format_hour gregorian 122400000000000"
    by (simp add: format_hour_def NANOS_PER_DAY_def append_less_iff)
  then show ?thesis by simp
qed

lemma metered_hour: "format_hour_str gregorian (ur_created_at metered_row) = format_hour gregorian 36000000000000"
  using greg.format_hour_str_format_ts [of 36000000000000] by (simp add: metered_row_def)

lemma metered_row_key: "row_key gregorian metered_row = metered_key"
  using metered_hour
  by (simp add: row_key_def stored_of_row_def Let_def) (simp add: metered_row_def metered_key_def)

lemma metered_consistent: "rollup_consistent gregorian metered_db"
proof -
  have "row_contribution gregorian running_row = {#}"
    by (simp add: row_contribution_alt running_row_def)
  moreover have "row_contribution gregorian metered_row
      = {#\<lparr>cb_key = metered_key, cb_metrics = Metrics 1000 20 200 350 0 0 1 0\<rparr>#}"
    by (simp add: row_contribution_alt metered_row_key)
      (simp add: metered_row_def stored_of_row_def Let_def or_zero_def from_str_lossy_def)
  moreover have "distinct (map ur_request_id [metered_row, running_row])"
    by (simp add: metered_row_def running_row_def)
  ultimately show ?thesis
    by (simp add: rollup_consistent_def metered_db_def hourly_reflects_def bucket_row_def in_bucket_def)
qed

lemma metered_listed: "dom (usage_hourly metered_db) \<subseteq> set [metered_key]"
  by (simp add: metered_db_def empty_db_def)

lemma metered_checked: "list_all usage_row_check (usage_records metered_db)"
  by (simp add: metered_db_def usage_row_check_def metered_row_def running_row_def absent_or_nonneg_def)

lemma metered_shown:
  "shown_requests gregorian AllConsumers sample_window None metered_db = [metered_row]"
  using metered_hour sample_hours
  by (simp add: shown_requests_def metered_db_def Let_def passes_def)
    (simp add: metered_row_def running_row_def sample_window_def)

lemma manager_sees_all: "resolve_scope context_manager (dq_consumers sample_query) = AllConsumers"
  by (simp add: resolve_scope_def is_manager_def context_manager_def sample_query_def query_default_def)

lemma sample_no_model: "model_filter sample_query = None"
  by (simp add: model_filter_def sample_query_def query_default_def trim_visible visible_def
      eq_ignore_ascii_case_def)

abbreviation "metered_entry \<equiv> (metered_key, HourlyRow 1 (Metrics 1000 20 200 350 0 0 1 0))"

lemma metered_entries: "hourly_where AllConsumers sample_window None [metered_key] metered_db = [metered_entry]"
  using sample_hours
  by (simp add: hourly_where_def hourly_rows_def map_filter_simps metered_db_def passes_def)
    (simp add: metered_key_def sample_window_def)

lemma metered_columns:
  "sum_columns [metered_entry] = Inr
     \<lparr>hs_requests = 1, hs_success = 1, hs_failure = 0, hs_input = 1000, hs_output = 20, hs_cached = 200,
      hs_duration = 350, hs_ttft = 0, hs_ttft_count = 0\<rparr>"
  by (simp add: sum_columns_def sum_of_def sql_sum_def entry_requests_def entry_metric_def or_zero_def in_i64_def)

theorem summary_matches_requests_witness:
  "\<exists>su. get_summary gregorian 122400000000000 60 [metered_key] None None context_manager sample_query
       metered_db metered_db = Done (Inr su)
     \<and> su_total_requests su = 1 \<and> su_success_count su = 1 \<and> su_total_input_tokens su = 1000"
proof -
  obtain su where su: "get_summary gregorian 122400000000000 60 [metered_key] None None context_manager
      sample_query metered_db metered_db = Done (Inr su)"
    by (simp add: get_summary_def in_window_def sample_resolved sample_no_model manager_sees_all
        dashboard_read_def summary_of_rollup_def metered_entries metered_columns Let_def)
  have "or_zero (ur_input_tokens metered_row) = 1000" "ur_request_status metered_row = ''completed''"
    by (simp_all add: metered_row_def or_zero_def)
  then show ?thesis
    using su summary_matches_requests [OF metered_consistent _ metered_listed metered_checked sample_resolved su refl]
    by (simp add: manager_sees_all sample_no_model metered_shown)
qed

theorem timeseries_matches_requests_witness:
  "\<exists>points. get_timeseries gregorian 122400000000000 60 [metered_key] None context_manager sample_query
       metered_db = Done (Inr points)
     \<and> map tp_hour points = [format_hour gregorian 36000000000000] \<and> (\<Sum>p\<leftarrow>points. tp_requests p) = 1"
proof -
  obtain points where points: "get_timeseries gregorian 122400000000000 60 [metered_key] None context_manager
      sample_query metered_db = Done (Inr points)"
    by (simp add: get_timeseries_def in_window_def sample_resolved sample_no_model manager_sees_all
        dashboard_read_def timeseries_of_def metered_entries metered_columns distinct_sorted_def
        hour_point_def entry_hour_def)
  then show ?thesis
    using timeseries_matches_requests
      [OF metered_consistent _ metered_listed metered_checked sample_resolved points refl refl]
    by (simp add: manager_sees_all sample_no_model metered_shown metered_hour)
qed

theorem window_within_retention_witness:
  "\<exists>start stop. sample_window = \<lparr>tw_start_ts = format_ts gregorian start, tw_end_ts = format_ts gregorian stop,
      tw_start_hour = format_hour gregorian start, tw_end_hour = format_hour gregorian stop\<rparr>
    \<and> stop \<le> 122400000000000"
proof -
  have "truncate_now 122400000000000 = 122400000000000"
    by (simp add: truncate_now_def)
  then show ?thesis
    using window_within_retention [OF sample_resolved] by metis
qed

lemma ascii_format_ts: "ascii (format_ts gregorian t)"
proof -
  have digits: "ascii xs" if "all_digits xs" for xs
    using that by (auto simp: ascii_def all_digits_def list_all_iff is_ascii_digit_def Let_def)
  have "ascii (xs @ ys) \<longleftrightarrow> ascii xs \<and> ascii ys" for xs ys
    by (auto simp: ascii_def)
  moreover have "ascii (c # xs) \<longleftrightarrow> (of_char c :: nat) < 0x80 \<and> ascii xs" "ascii []" for c xs
    by (auto simp: ascii_def)
  ultimately show ?thesis
    by (simp add: format_ts_def render_date_def render_year_def digits split: prod.split del: render_gregorian)
qed

lemma metered_cursors: "r \<in> set (usage_records metered_db) \<Longrightarrow> cursor_row r"
proof -
  have "format_ts gregorian 36000000000000 \<noteq> []"
    using greg.format_ts_length [of 36000000000000] by auto
  then have "cursor_row metered_row" "cursor_row running_row"
    using utf8_ok_ascii [OF ascii_format_ts]
    by (simp_all add: cursor_row_def metered_row_def running_row_def in_i64_def del: render_gregorian)
  then show "r \<in> set (usage_records metered_db) \<Longrightarrow> cursor_row r"
    by (auto simp: metered_db_def)
qed


definition stranger_db :: db where
  "stranger_db = metered_db
     \<lparr>usage_records := usage_records metered_db
        @ [metered_row\<lparr>ur_id := 3, ur_request_id := ''req-3'', ur_consumer_id := ''other''\<rparr>]\<rparr>"


end
