(* ===== verification/Migration.thy ===== *)
theory Migration
  imports Api_Keys Usage
begin

text \<open>
  \<^verbatim>\<open>src/src/ledger/mod.rs\<close> and \<^verbatim>\<open>src/src/ledger/schema.sql\<close>: bringing the
  database file of any earlier build to the present schema. The model of a file is what the steps look
  at: the columns of \<open>usage_records\<close>, the names of the other tables, the keys with the unique index on
  them and the allow-lists of version 5, the partners, and \<open>ledger_meta\<close>. Adding a nullable column
  changes no row, so the rows of the other tables are left out, like the indexes that constrain nothing.
  Every statement of the batch is a step of its own, a transaction is one step, and a step that fails has
  changed nothing. An allow-list holds no nested lists or objects. Log lines are left out.
\<close>

section \<open>Files and errors\<close>

definition SCHEMA_VERSION :: nat where
  "SCHEMA_VERSION = 6"

datatype schema_error =
    SchemaSqlite rusqlite_error
  | UnsupportedVersion nat nat
  | MigrationIncomplete string

record ledger_file =
  lf_meta :: "(string \<Rightarrow> string option) option"
  lf_usage_columns :: "string list option"
  lf_tables :: "string list"
  lf_keys :: "key_row list option"
  lf_one_active :: bool
  lf_legacy_models :: "(i64 \<Rightarrow> json list) option"
  lf_partners :: "partner_row list"

type_synonym schema_step = "ledger_file \<Rightarrow> schema_error + ledger_file"

text \<open>\<open>str::parse::<u32>\<close>: an optional plus and at least one digit.\<close>

definition parse_u32 :: "string \<Rightarrow> nat option" where
  "parse_u32 s =
     (let digits = (if s \<noteq> [] \<and> hd s = CHR ''+'' then tl s else s)
      in if digits \<noteq> [] \<and> all_digits digits \<and> dec_value digits < 2 ^ 32 then Some (dec_value digits)
         else None)"

definition read_schema_version :: "ledger_file \<Rightarrow> schema_error + nat" where
  "read_schema_version f =
     (case Option.bind (lf_meta f) (\<lambda>m. m ''schema_version'') of
        None \<Rightarrow> Inr 0
      | Some v \<Rightarrow> (case parse_u32 (trim v) of None \<Rightarrow> Inl (SchemaSqlite InvalidColumnType) | Some n \<Rightarrow> Inr n))"

definition write_schema_version :: schema_step where
  "write_schema_version f =
     (case lf_meta f of
        None \<Rightarrow> Inl (SchemaSqlite (SqliteFailure 1))
      | Some m \<Rightarrow> Inr (f\<lparr>lf_meta := Some (m(''schema_version'' \<mapsto> dec SCHEMA_VERSION))\<rparr>))"

section \<open>Keys\<close>

definition newest_active_ids :: "key_row list \<Rightarrow> i64 list" where
  "newest_active_ids keys =
     (let active = filter (\<lambda>r. ak_status r = KeyActive) keys
      in map (\<lambda>c. Max (ak_id ` set (filter (\<lambda>r. ak_consumer_id r = c) active)))
           (remdups (map ak_consumer_id active)))"

definition collapse_duplicate_active_keys :: "string \<Rightarrow> schema_step" where
  "collapse_duplicate_active_keys now f =
     (case lf_keys f of
        None \<Rightarrow> Inr f
      | Some keys \<Rightarrow>
          Inr (f\<lparr>lf_keys := Some (map (\<lambda>r.
            if ak_status r = KeyActive \<and> ak_id r \<notin> set (newest_active_ids keys) then revoked now r
            else r) keys)\<rparr>))"

definition one_active_each :: "key_row list \<Rightarrow> bool" where
  "one_active_each keys \<longleftrightarrow> distinct (map ak_consumer_id (filter (\<lambda>r. ak_status r = KeyActive) keys))"

section \<open>The schema\<close>

text \<open>
  The statements of \<^verbatim>\<open>schema.sql\<close>. A table that exists stays as it is; the unique index cannot be
  created over a consumer with two active keys; a row of \<open>ledger_meta\<close> is only added.
\<close>

definition USAGE_COLUMNS :: "string list" where
  "USAGE_COLUMNS =
     [''id'', ''request_id'', ''created_at'', ''consumer_id'', ''model'', ''endpoint'', ''streaming'',
      ''http_status'', ''request_status'', ''instance_id'', ''input_tokens'', ''output_tokens'',
      ''cached_tokens'', ''ttft_ms'', ''duration_ms'', ''usage_status'', ''error_message'', ''error_body'',
      ''input_price_snapshot'', ''cached_input_price_snapshot'', ''output_price_snapshot'']"

definition present_or :: "'a \<Rightarrow> 'a option \<Rightarrow> 'a" where
  "present_or d x = (case x of None \<Rightarrow> d | Some y \<Rightarrow> y)"

definition create_usage_records :: schema_step where
  "create_usage_records f = Inr (f\<lparr>lf_usage_columns := Some (present_or USAGE_COLUMNS (lf_usage_columns f))\<rparr>)"

definition create_table :: "string \<Rightarrow> schema_step" where
  "create_table t f =
     Inr (f\<lparr>lf_tables := (if t \<in> set (lf_tables f) then lf_tables f else lf_tables f @ [t])\<rparr>)"

definition create_api_keys :: schema_step where
  "create_api_keys f = Inr (f\<lparr>lf_keys := Some (present_or [] (lf_keys f))\<rparr>)"

definition create_key_index :: schema_step where
  "create_key_index f =
     (if lf_one_active f \<or> one_active_each (present_or [] (lf_keys f))
      then Inr (f\<lparr>lf_one_active := True\<rparr>)
      else Inl (SchemaSqlite (SqliteFailure SQLITE_CONSTRAINT_UNIQUE)))"

definition create_ledger_meta :: schema_step where
  "create_ledger_meta f = Inr (f\<lparr>lf_meta := Some (present_or (\<lambda>_. None) (lf_meta f))\<rparr>)"

definition insert_or_ignore :: "(string \<times> string) list \<Rightarrow> schema_step" where
  "insert_or_ignore rows f =
     (case lf_meta f of
        None \<Rightarrow> Inl (SchemaSqlite (SqliteFailure 1))
      | Some m \<Rightarrow> Inr (f\<lparr>lf_meta := Some (map_of rows ++ m)\<rparr>))"

definition BILLING_TABLES :: "string list" where
  "BILLING_TABLES = [''partners'', ''partner_models'', ''daily_statements'', ''statement_lines'']"

text \<open>\<open>random\<close> is what \<open>hex(randomblob(32))\<close> returns.\<close>

definition schema_sql :: "string \<Rightarrow> schema_step list" where
  "schema_sql random =
     [create_usage_records, create_table ''ledger_instances'', create_table ''usage_hourly'',
      create_api_keys, create_key_index]
     @ map create_table BILLING_TABLES
     @ [create_ledger_meta, insert_or_ignore [(''cursor_key'', random)],
        insert_or_ignore [(''last_retention_run'', []), (''last_recovery_run'', [])]]"

section \<open>Columns and tables\<close>

definition column_exists :: "string \<Rightarrow> ledger_file \<Rightarrow> bool" where
  "column_exists c f \<longleftrightarrow> (case lf_usage_columns f of None \<Rightarrow> False | Some cs \<Rightarrow> c \<in> set cs)"

definition add_column :: "string \<Rightarrow> schema_step" where
  "add_column c f =
     (if column_exists c f then Inr f
      else case lf_usage_columns f of
             None \<Rightarrow> Inl (SchemaSqlite (SqliteFailure 1))
           | Some cs \<Rightarrow> Inr (f\<lparr>lf_usage_columns := Some (cs @ [c])\<rparr>))"

text \<open>\<open>named\<close> is the column as the error names it.\<close>

definition require_column :: "string \<Rightarrow> string \<Rightarrow> schema_step" where
  "require_column c named f = (if column_exists c f then Inr f else Inl (MigrationIncomplete named))"

definition PRICE_COLUMNS :: "string list" where
  "PRICE_COLUMNS = [''input_price_snapshot'', ''cached_input_price_snapshot'', ''output_price_snapshot'']"

definition create_in_flight_index :: schema_step where
  "create_in_flight_index f =
     (if column_exists ''instance_id'' f then Inr f else Inl (SchemaSqlite (SqliteFailure 1)))"

fun require_tables :: "string list \<Rightarrow> schema_step" where
  "require_tables [] f = Inr f"
| "require_tables (t # ts) f =
     (if t \<in> set (lf_tables f) then require_tables ts f else Inl (MigrationIncomplete t))"

section \<open>The allow-lists of version 5\<close>

definition migrated_partner :: "string \<Rightarrow> string \<Rightarrow> string \<Rightarrow> partner_row" where
  "migrated_partner now c name =
     \<lparr>pr_consumer_id = c, pr_name = name, pr_billing_email = [], pr_billing_mode = ''invoice'',
      pr_payment_terms = 720, pr_created_at = now, pr_updated_at = now\<rparr>"

text \<open>\<open>INSERT \<dots> ON CONFLICT(consumer_id) DO NOTHING\<close> of \<open>SELECT consumer_id, MIN(name) \<dots> GROUP BY\<close>.\<close>

definition add_partner_record :: "string \<Rightarrow> string \<Rightarrow> string \<Rightarrow> partner_row list \<Rightarrow> partner_row list" where
  "add_partner_record now c name ps =
     (if c \<in> pr_consumer_id ` set ps then ps else ps @ [migrated_partner now c name])"

definition min_name :: "string \<Rightarrow> key_row list \<Rightarrow> string" where
  "min_name c keys =
     (case map ak_name (filter (\<lambda>r. ak_consumer_id r = c) keys) of [] \<Rightarrow> [] | n # ns \<Rightarrow> fold min ns n)"

definition insert_partners :: "string \<Rightarrow> key_row list \<Rightarrow> partner_row list \<Rightarrow> partner_row list" where
  "insert_partners now keys ps =
     fold (\<lambda>c. add_partner_record now c (min_name c keys)) (sort (remdups (map ak_consumer_id keys))) ps"

text \<open>
  The transaction: the partners of the keys that serve something, then those of all keys. An element of
  a list that is not a text stops it.
\<close>

definition migrate_model_allow_list :: "string \<Rightarrow> schema_step" where
  "migrate_model_allow_list now f =
     (case (lf_legacy_models f, lf_keys f) of
        (Some models, Some keys) \<Rightarrow>
          (let serving = filter (\<lambda>r. ak_status r = KeyActive \<and> models (ak_id r) \<noteq> []) keys
           in if \<forall>r \<in> set serving. \<forall>m \<in> set (models (ak_id r)). as_str m \<noteq> None
              then Inr (f\<lparr>lf_partners := insert_partners now keys (insert_partners now serving (lf_partners f)),
                          lf_legacy_models := Some (\<lambda>_. [])\<rparr>)
              else Inl (SchemaSqlite FromSqlConversionFailure))
      | _ \<Rightarrow> Inr f)"

text \<open>The rebuild of the table, under its \<open>CHECK\<close>, its unique hash and its unique index.\<close>

definition drop_legacy_allow_list_column :: schema_step where
  "drop_legacy_allow_list_column f =
     (case (lf_legacy_models f, lf_keys f) of
        (Some models, Some keys) \<Rightarrow>
          (if \<exists>r \<in> set keys. (ak_status r = KeyActive) \<noteq> (ak_revoked_at r = None)
           then Inl (SchemaSqlite (SqliteFailure SQLITE_CONSTRAINT_CHECK))
           else if \<not> distinct (map ak_key_hash keys) \<or> \<not> one_active_each keys
           then Inl (SchemaSqlite (SqliteFailure SQLITE_CONSTRAINT_UNIQUE))
           else Inr (f\<lparr>lf_legacy_models := None, lf_one_active := True\<rparr>))
      | _ \<Rightarrow> Inr f)"

section \<open>Initialisation\<close>

fun run_steps ::
  "(nat \<Rightarrow> fault) \<Rightarrow> nat \<Rightarrow> schema_step list \<Rightarrow> ledger_file \<Rightarrow> (schema_error + unit) \<times> ledger_file" where
  "run_steps flt i [] f = (Inr (), f)"
| "run_steps flt i (st # sts) f =
     (case flt i of
        Some e \<Rightarrow> (Inl (SchemaSqlite e), f)
      | None \<Rightarrow> (case st f of Inl e \<Rightarrow> (Inl e, f) | Inr f' \<Rightarrow> run_steps flt (Suc i) sts f'))"

definition init_steps :: "string \<Rightarrow> string \<Rightarrow> nat \<Rightarrow> schema_step list" where
  "init_steps now random found =
     (if found < 6 then [collapse_duplicate_active_keys now] else [])
     @ schema_sql random
     @ [add_column ''instance_id'', require_column ''instance_id'' ''usage_records.instance_id'']
     @ (if found < 4 then [add_column ''error_body''] else [])
     @ [require_column ''error_body'' ''usage_records.error_body'']
     @ (if found < 6
        then concat (map (\<lambda>c. [add_column c, require_column c ''usage_records.input_price_snapshot''])
               PRICE_COLUMNS)
             @ [migrate_model_allow_list now, drop_legacy_allow_list_column]
        else [])
     @ [create_in_flight_index, require_tables BILLING_TABLES, write_schema_version]"

definition init_schema ::
  "(nat \<Rightarrow> fault) \<Rightarrow> string \<Rightarrow> string \<Rightarrow> ledger_file \<Rightarrow> (schema_error + unit) \<times> ledger_file" where
  "init_schema flt now random f =
     (case flt 0 of
        Some e \<Rightarrow> (Inl (SchemaSqlite e), f)
      | None \<Rightarrow>
          (case read_schema_version f of
             Inl e \<Rightarrow> (Inl e, f)
           | Inr found \<Rightarrow>
               if SCHEMA_VERSION < found then (Inl (UnsupportedVersion found SCHEMA_VERSION), f)
               else run_steps flt 1 (init_steps now random found) f))"

end
