(* ===== verification/Migration_Properties.thy ===== *)
theory Migration_Properties
  imports Migration Key_Table
begin

text \<open>
  What bringing a file up to date does to it: no key changes hands, one live key remains for each
  partner that had any, every partner has its commercial record, and a start that was cut short is
  completed by the next one.
\<close>

section \<open>Files that make sense\<close>

definition keys_of :: "ledger_file \<Rightarrow> key_row list" where
  "keys_of f = (case lf_keys f of None \<Rightarrow> [] | Some ks \<Rightarrow> ks)"

text \<open>
  What the schema of every version enforces: the unique columns of the keys, a revocation date exactly on
  revoked keys, and the unique index where it exists; a column of the table needs the table.
\<close>

definition file_ok :: "ledger_file \<Rightarrow> bool" where
  "file_ok f \<longleftrightarrow>
     distinct (map ak_id (keys_of f)) \<and> distinct (map ak_key_hash (keys_of f))
     \<and> (\<forall>r \<in> set (keys_of f). live r \<longleftrightarrow> ak_revoked_at r = None)
     \<and> (lf_one_active f \<longrightarrow> one_active_each (keys_of f))
     \<and> (lf_legacy_models f \<noteq> None \<longrightarrow> lf_keys f \<noteq> None)"

text \<open>A live key with a newer live key of the same partner.\<close>

definition superseded :: "key_row list \<Rightarrow> key_row \<Rightarrow> bool" where
  "superseded keys r \<longleftrightarrow> live r \<and> (\<exists>q \<in> set keys. live q \<and> ak_consumer_id q = ak_consumer_id r \<and> ak_id r < ak_id q)"

definition key_migrates :: "key_row list \<Rightarrow> key_row \<Rightarrow> key_row \<Rightarrow> bool" where
  "key_migrates keys r q \<longleftrightarrow> q = r \<or> superseded keys r \<and> (\<exists>now. q = revoked now r)"

lemma one_active_live: "one_active_each keys \<longleftrightarrow> distinct (map ak_consumer_id (filter live keys))"
  by (simp add: one_active_each_def live_def [abs_def])

lemma newest_active_ids_alt:
  "set (newest_active_ids keys) =
     (\<lambda>c. Max (ak_id ` {r \<in> set keys. live r \<and> ak_consumer_id r = c})) ` (ak_consumer_id ` {r \<in> set keys. live r})"
  by (auto simp: newest_active_ids_def live_def Let_def conj_ac)

lemma collapsed_iff:
  assumes "distinct (map ak_id keys)" "r \<in> set keys" "live r"
  shows "ak_id r \<notin> set (newest_active_ids keys) \<longleftrightarrow> superseded keys r"
proof -
  let ?same = "\<lambda>c. {q \<in> set keys. live q \<and> ak_consumer_id q = c}"
  have same: "q = r" if "q \<in> set keys" "ak_id q = ak_id r" for q
    using assms(1,2) that by (auto simp: distinct_map inj_on_def)
  have "ak_id r \<in> set (newest_active_ids keys) \<longleftrightarrow> ak_id r = Max (ak_id ` ?same (ak_consumer_id r))"
  proof
    assume "ak_id r \<in> set (newest_active_ids keys)"
    then obtain q where q: "q \<in> set keys" "live q" "ak_id r = Max (ak_id ` ?same (ak_consumer_id q))"
      by (auto simp: newest_active_ids_alt)
    have "Max (ak_id ` ?same (ak_consumer_id q)) \<in> ak_id ` ?same (ak_consumer_id q)"
      using q by (intro Max_in) auto
    then have "ak_consumer_id r = ak_consumer_id q"
      using q(3) same by auto
    with q(3) show "ak_id r = Max (ak_id ` ?same (ak_consumer_id r))" by simp
  next
    assume "ak_id r = Max (ak_id ` ?same (ak_consumer_id r))"
    with assms(2,3) show "ak_id r \<in> set (newest_active_ids keys)"
      unfolding newest_active_ids_alt by blast
  qed
  also have "\<dots> \<longleftrightarrow> (\<forall>q \<in> ?same (ak_consumer_id r). ak_id q \<le> ak_id r)"
    using assms(2,3) by (subst eq_commute, subst Max_eq_iff) auto
  finally show ?thesis
    using assms(3) by (auto simp: superseded_def not_le)
qed

lemma key_migrates_refl [simp]: "key_migrates keys r r"
  by (simp add: key_migrates_def)

lemma key_migrates_simps:
  assumes "key_migrates keys r q"
  shows "ak_id q = ak_id r" "ak_key_hash q = ak_key_hash r" "ak_consumer_id q = ak_consumer_id r"
    "live q \<Longrightarrow> q = r"
  using assms by (auto simp: key_migrates_def)

lemma superseded_mono:
  assumes "list_all2 (key_migrates keys) keys keys'" "superseded keys' q"
  shows "superseded keys q"
proof -
  obtain p where p: "live q" "p \<in> set keys'" "live p" "ak_consumer_id p = ak_consumer_id q" "ak_id q < ak_id p"
    using assms(2) by (auto simp: superseded_def)
  obtain i where "i < length keys'" "p = keys' ! i"
    using p(2) by (auto simp: in_set_conv_nth)
  then have "keys ! i \<in> set keys" "key_migrates keys (keys ! i) p"
    using assms(1) by (simp_all add: list_all2_conv_all_nth)
  with key_migrates_simps(4) p show ?thesis by (auto simp: superseded_def)
qed

lemma key_migrates_trans:
  assumes "list_all2 (key_migrates keys) keys keys'" "key_migrates keys r q" "key_migrates keys' q p"
  shows "key_migrates keys r p"
  using assms(2,3) superseded_mono [OF assms(1), of q] key_migrates_simps(4) [OF assms(2)]
  by (auto simp: key_migrates_def superseded_def)

lemma keys_migrate_trans:
  assumes "list_all2 (key_migrates keys) keys keys'" "list_all2 (key_migrates keys') keys' keys''"
  shows "list_all2 (key_migrates keys) keys keys''"
  by (rule list_all2_trans [OF _ assms]) (use key_migrates_trans [OF assms(1)] in blast)

lemma keys_migrate_refl [simp]: "list_all2 (key_migrates keys) rows rows"
  by (simp add: list_all2_refl)

section \<open>What every step keeps\<close>

definition version_text :: "ledger_file \<Rightarrow> string option" where
  "version_text f = Option.bind (lf_meta f) (\<lambda>m. m ''schema_version'')"

lemma read_version_text: "version_text f = version_text g \<Longrightarrow> read_schema_version f = read_schema_version g"
  by (simp add: version_text_def read_schema_version_def)

definition covered :: "ledger_file \<Rightarrow> bool" where
  "covered f \<longleftrightarrow> ak_consumer_id ` set (keys_of f) \<subseteq> pr_consumer_id ` set (lf_partners f)"

text \<open>A file without \<open>usage_records\<close> gets the table with all of its columns or not at all.\<close>

definition whole_or_none :: "ledger_file \<Rightarrow> ledger_file \<Rightarrow> bool" where
  "whole_or_none f g \<longleftrightarrow>
     (lf_usage_columns f = None \<longrightarrow>
        lf_usage_columns g = None \<or> (\<forall>c \<in> set USAGE_COLUMNS. column_exists c g))"

definition on_course :: "ledger_file \<Rightarrow> ledger_file \<Rightarrow> bool" where
  "on_course f g \<longleftrightarrow>
     file_ok g \<and> list_all2 (key_migrates (keys_of f)) (keys_of f) (keys_of g)
     \<and> (\<exists>new. lf_partners g = lf_partners f @ new)
     \<and> (\<forall>c. column_exists c f \<longrightarrow> column_exists c g)
     \<and> set (lf_tables f) \<subseteq> set (lf_tables g)
     \<and> (lf_one_active f \<longrightarrow> lf_one_active g) \<and> (lf_legacy_models f = None \<longrightarrow> lf_legacy_models g = None)
     \<and> (lf_keys f \<noteq> None \<longrightarrow> lf_keys g \<noteq> None) \<and> (lf_meta f \<noteq> None \<longrightarrow> lf_meta g \<noteq> None)
     \<and> whole_or_none f g"

lemma on_course_refl: "file_ok f \<Longrightarrow> on_course f f"
  by (simp add: on_course_def whole_or_none_def)

lemma on_course_ok: "on_course f g \<Longrightarrow> file_ok g"
  by (simp add: on_course_def)

lemma on_course_trans: "on_course f g \<Longrightarrow> on_course g h \<Longrightarrow> on_course f h"
proof -
  assume a: "on_course f g" "on_course g h"
  have "\<exists>new. lf_partners h = lf_partners f @ new"
    using a unfolding on_course_def by (metis append.assoc)
  moreover have "list_all2 (key_migrates (keys_of f)) (keys_of f) (keys_of h)"
    using a keys_migrate_trans unfolding on_course_def by blast
  moreover have "whole_or_none f h"
    using a unfolding on_course_def whole_or_none_def by metis
  ultimately show ?thesis using a unfolding on_course_def by blast
qed

lemma on_course_consumers:
  assumes "on_course f g" shows "map ak_consumer_id (keys_of g) = map ak_consumer_id (keys_of f)"
proof -
  have "list_all2 (\<lambda>r q. ak_consumer_id q = ak_consumer_id r) (keys_of f) (keys_of g)"
    using assms unfolding on_course_def by (auto elim!: list_all2_mono dest: key_migrates_simps)
  then show ?thesis by (simp add: list_all2_conv_all_nth list_eq_iff_nth_eq)
qed

lemma on_course_covered: "on_course f g \<Longrightarrow> covered f \<Longrightarrow> covered g"
proof -
  assume course: "on_course f g" and cov: "covered f"
  have "ak_consumer_id ` set (keys_of g) = ak_consumer_id ` set (keys_of f)"
    using arg_cong [OF on_course_consumers [OF course], of set] by simp
  with course cov show ?thesis by (auto simp: covered_def on_course_def)
qed

lemma collapse_on_course:
  assumes "file_ok f" "collapse_duplicate_active_keys now f = Inr g"
  shows "on_course f g"
proof (cases "lf_keys f")
  case None
  with assms show ?thesis by (simp add: collapse_duplicate_active_keys_def on_course_refl)
next
  case (Some keys)
  let ?old = "\<lambda>r. ak_status r = KeyActive \<and> ak_id r \<notin> set (newest_active_ids keys)"
  let ?f = "\<lambda>r. if ?old r then revoked now r else r"
  have g: "g = f\<lparr>lf_keys := Some (map ?f keys)\<rparr>"
    using assms(2) Some by (simp add: collapse_duplicate_active_keys_def)
  have keys: "keys_of f = keys" "keys_of g = map ?f keys"
    using Some by (simp_all add: keys_of_def g)
  have old: "superseded keys r" if "r \<in> set keys" "?old r" for r
    using collapsed_iff [of keys r] that assms(1) by (simp add: file_ok_def keys live_def)
  have migrate: "key_migrates keys r (?f r)" if "r \<in> set keys" for r
    using old [OF that] by (auto simp: key_migrates_def)
  have "map ak_id (map ?f keys) = map ak_id keys" "map ak_key_hash (map ?f keys) = map ak_key_hash keys"
    by simp_all
  moreover have "live (?f r) \<longleftrightarrow> ak_revoked_at (?f r) = None" if "r \<in> set keys" for r
    using assms(1) that by (simp add: file_ok_def keys)
  moreover have "one_active_each (map ?f keys)" if "one_active_each keys"
  proof -
    have "?f r = r" if r: "r \<in> set keys" for r
    proof -
      have "q = r" if "q \<in> set keys" "live q" "live r" "ak_consumer_id q = ak_consumer_id r" for q
        using \<open>one_active_each keys\<close> that r by (auto simp: one_active_live distinct_map inj_on_def)
      then show ?thesis using old [OF r] by (auto simp: superseded_def)
    qed
    then have "map ?f keys = keys" by (intro map_idI)
    with that show ?thesis by simp
  qed
  ultimately have "file_ok g"
    using assms(1) Some unfolding file_ok_def keys by (auto simp: g simp del: map_map)
  moreover have "list_all2 (key_migrates (keys_of f)) (keys_of f) (keys_of g)"
    unfolding keys using migrate by (simp add: list_all2_conv_all_nth)
  ultimately show ?thesis
    unfolding on_course_def whole_or_none_def by (simp add: g column_exists_def)
qed

lemma same_keys_on_course:
  assumes "file_ok f" "keys_of g = keys_of f" "lf_one_active f \<longrightarrow> lf_one_active g"
    and "lf_one_active g \<longrightarrow> lf_one_active f \<or> one_active_each (keys_of f)"
    and "lf_legacy_models g \<noteq> None \<longrightarrow> lf_legacy_models f \<noteq> None" "lf_keys f \<noteq> None \<longrightarrow> lf_keys g \<noteq> None"
    and "\<exists>new. lf_partners g = lf_partners f @ new" "\<forall>c. column_exists c f \<longrightarrow> column_exists c g"
    and "set (lf_tables f) \<subseteq> set (lf_tables g)" "lf_meta f \<noteq> None \<longrightarrow> lf_meta g \<noteq> None"
    and "whole_or_none f g"
  shows "on_course f g"
  using assms by (auto simp: on_course_def file_ok_def)

lemma add_partner_record_grows:
  "\<exists>new. add_partner_record now c n ps = ps @ new"
  "insert c (pr_consumer_id ` set ps) \<subseteq> pr_consumer_id ` set (add_partner_record now c n ps)"
  by (auto simp: add_partner_record_def migrated_partner_def)

lemma insert_partners_extends: "\<exists>new. insert_partners now keys ps = ps @ new"
proof -
  have "\<exists>new. fold (\<lambda>c. add_partner_record now c (min_name c keys)) cs ps = ps @ new" for cs
  proof (induction cs arbitrary: ps)
    case (Cons c cs)
    obtain new where new: "add_partner_record now c (min_name c keys) ps = ps @ new"
      using add_partner_record_grows(1) by blast
    obtain more where "fold (\<lambda>c. add_partner_record now c (min_name c keys)) cs (ps @ new) = (ps @ new) @ more"
      using Cons by blast
    with new show ?case by simp
  qed simp
  then show ?thesis by (simp add: insert_partners_def)
qed

lemma insert_partners_covers: "ak_consumer_id ` set keys \<subseteq> pr_consumer_id ` set (insert_partners now keys ps)"
proof -
  have "set cs \<union> pr_consumer_id ` set ps
      \<subseteq> pr_consumer_id ` set (fold (\<lambda>c. add_partner_record now c (min_name c keys)) cs ps)" for cs
  proof (induction cs arbitrary: ps)
    case (Cons c cs)
    show ?case
      using Cons [of "add_partner_record now c (min_name c keys) ps"]
        add_partner_record_grows(2) [of c ps now "min_name c keys"]
      unfolding fold_simps o_apply list.set by (meson Un_least insert_subset le_sup_iff order_trans)
  qed simp
  from this [of "sort (remdups (map ak_consumer_id keys))"] show ?thesis
    by (simp add: insert_partners_def)
qed

definition keeps_course :: "schema_step \<Rightarrow> bool" where
  "keeps_course st \<longleftrightarrow> (\<forall>f g. file_ok f \<longrightarrow> st f = Inr g \<longrightarrow> on_course f g)"

lemma keeps_courseI: "(\<And>f g. file_ok f \<Longrightarrow> st f = Inr g \<Longrightarrow> on_course f g) \<Longrightarrow> keeps_course st"
  by (simp add: keeps_course_def)

lemma require_tables_ok: "require_tables ts f = Inr g \<longleftrightarrow> g = f \<and> set ts \<subseteq> set (lf_tables f)"
  by (induction ts) auto

lemma migrate_step:
  assumes "migrate_model_allow_list now f = Inr g"
  shows "g = f \<and> (lf_legacy_models f = None \<or> lf_keys f = None)
    \<or> lf_legacy_models f \<noteq> None
      \<and> (\<exists>new. g = f\<lparr>lf_partners := lf_partners f @ new, lf_legacy_models := Some (\<lambda>_. [])\<rparr>) \<and> covered g"
proof (cases "lf_legacy_models f = None \<or> lf_keys f = None")
  case True
  with assms show ?thesis by (auto simp: migrate_model_allow_list_def split: option.splits)
next
  case False
  then obtain models keys where some: "lf_legacy_models f = Some models" "lf_keys f = Some keys" by auto
  define serving where "serving = filter (\<lambda>r. ak_status r = KeyActive \<and> models (ak_id r) \<noteq> []) keys"
  define ps where "ps = insert_partners now serving (lf_partners f)"
  have g: "g = f\<lparr>lf_partners := insert_partners now keys ps, lf_legacy_models := Some (\<lambda>_. [])\<rparr>"
    using assms some unfolding migrate_model_allow_list_def serving_def ps_def by (simp add: Let_def split: if_splits)
  obtain new more where "ps = lf_partners f @ new" "insert_partners now keys ps = ps @ more"
    using insert_partners_extends unfolding ps_def by meson
  then have "\<exists>new. g = f\<lparr>lf_partners := lf_partners f @ new, lf_legacy_models := Some (\<lambda>_. [])\<rparr>"
    unfolding g by (intro exI [of _ "new @ more"]) simp
  moreover have "covered g"
    using insert_partners_covers some by (simp add: covered_def g keys_of_def)
  ultimately show ?thesis using some by blast
qed

lemma steps_keep_course [simp]:
  "keeps_course (collapse_duplicate_active_keys now)" "keeps_course create_usage_records"
  "keeps_course (create_table t)" "keeps_course create_api_keys"
  "keeps_course create_key_index" "keeps_course create_ledger_meta" "keeps_course (insert_or_ignore rows)"
  "keeps_course (add_column c)" "keeps_course (require_column c named)"
  "keeps_course (migrate_model_allow_list now)" "keeps_course drop_legacy_allow_list_column"
  "keeps_course create_in_flight_index" "keeps_course (require_tables ts)" "keeps_course write_schema_version"
proof -
  show "keeps_course (collapse_duplicate_active_keys now)"
    using collapse_on_course by (simp add: keeps_course_def)
  show "keeps_course create_usage_records" "keeps_course (create_table t)" "keeps_course create_api_keys"
    "keeps_course create_ledger_meta"
    by (auto simp: create_usage_records_def create_table_def create_api_keys_def create_ledger_meta_def
        keys_of_def whole_or_none_def column_exists_def present_or_def intro!: keeps_courseI same_keys_on_course split: option.splits)
  show "keeps_course create_key_index"
    by (auto simp: create_key_index_def keys_of_def whole_or_none_def column_exists_def present_or_def
        intro!: keeps_courseI same_keys_on_course split: if_splits option.splits)
  show "keeps_course (insert_or_ignore rows)" "keeps_course write_schema_version"
    by (auto simp: insert_or_ignore_def write_schema_version_def keys_of_def whole_or_none_def column_exists_def
        intro!: keeps_courseI same_keys_on_course split: option.splits)
  show "keeps_course (add_column c)"
    by (auto simp: add_column_def keys_of_def whole_or_none_def column_exists_def
        intro!: keeps_courseI same_keys_on_course split: if_splits option.splits)
  show "keeps_course (require_column c named)" "keeps_course create_in_flight_index" "keeps_course (require_tables ts)"
    by (auto simp: require_column_def create_in_flight_index_def require_tables_ok on_course_refl
        intro!: keeps_courseI split: if_splits)
  show "keeps_course (migrate_model_allow_list now)"
  proof (rule keeps_courseI)
    fix f g assume f: "file_ok f" "migrate_model_allow_list now f = Inr g"
    from migrate_step [OF f(2)] consider "g = f" | new where "lf_legacy_models f \<noteq> None"
        "g = f\<lparr>lf_partners := lf_partners f @ new, lf_legacy_models := Some (\<lambda>_. [])\<rparr>" by blast
    then show "on_course f g"
    proof cases
      case 1 with f show ?thesis by (simp add: on_course_refl)
    next
      case 2 with f(1) show ?thesis
        by (intro same_keys_on_course) (simp_all add: keys_of_def whole_or_none_def column_exists_def)
    qed
  qed
  show "keeps_course drop_legacy_allow_list_column"
    by (auto simp: drop_legacy_allow_list_column_def keys_of_def whole_or_none_def column_exists_def on_course_refl
        intro!: keeps_courseI same_keys_on_course split: if_splits option.splits)
qed

section \<open>Runs\<close>

lemma run_steps_append:
  "run_steps flt i (xs @ ys) f =
     (case run_steps flt i xs f of (Inl e, g) \<Rightarrow> (Inl e, g) | (Inr _, g) \<Rightarrow> run_steps flt (i + length xs) ys g)"
  by (induction xs arbitrary: i f) (auto split: option.splits sum.splits prod.splits)

lemma run_steps_invariant:
  assumes "run_steps flt i sts f = (r, g)" "P f" "\<And>st f g. st \<in> set sts \<Longrightarrow> P f \<Longrightarrow> st f = Inr g \<Longrightarrow> P g"
  shows "P g"
  using assms by (induction flt i sts f rule: run_steps.induct) (auto split: option.splits sum.splits)

lemma run_on_course:
  assumes run: "run_steps flt i sts f = (r, g)" and f: "file_ok f" and sts: "\<forall>st \<in> set sts. keeps_course st"
  shows "on_course f g"
proof (rule run_steps_invariant [OF run, of "on_course f"])
  fix st g h assume "st \<in> set sts" "on_course f g" "st g = Inr h"
  then have "on_course g h" using sts on_course_ok by (simp add: keeps_course_def)
  then show "on_course f h" by (rule on_course_trans [OF \<open>on_course f g\<close>])
qed (simp add: f on_course_refl)

lemma init_steps_keep_course: "st \<in> set (init_steps now random n) \<Longrightarrow> keeps_course st"
  by (auto simp: init_steps_def schema_sql_def split: if_splits)

lemma init_on_course:
  assumes "init_schema flt now random f = (r, g)" "file_ok f"
  shows "on_course f g"
  using assms run_on_course init_steps_keep_course
  unfolding init_schema_def by (fastforce split: option.splits sum.splits if_splits simp: on_course_refl)

text \<open>
  Only the last step writes the version, and only the two steps of the allow-lists touch them.
\<close>

definition ordinary :: "schema_step \<Rightarrow> bool" where
  "ordinary st \<longleftrightarrow>
     (\<forall>f g. st f = Inr g \<longrightarrow> version_text g = version_text f \<and> lf_legacy_models g = lf_legacy_models f)"

lemma ordinary_steps:
  "ordinary (collapse_duplicate_active_keys now)" "ordinary create_usage_records"
  "ordinary (create_table t)" "ordinary create_api_keys"
  "ordinary create_key_index" "ordinary create_ledger_meta"
  "map_of rows ''schema_version'' = None \<Longrightarrow> ordinary (insert_or_ignore rows)"
  "ordinary (add_column c)" "ordinary (require_column c named)" "ordinary create_in_flight_index"
  "ordinary (require_tables ts)"
  by (auto simp: ordinary_def version_text_def collapse_duplicate_active_keys_def create_usage_records_def
      create_table_def create_api_keys_def create_key_index_def create_ledger_meta_def insert_or_ignore_def
      add_column_def require_column_def create_in_flight_index_def require_tables_ok present_or_def map_add_def
      split: option.splits if_splits)

definition first_steps :: "string \<Rightarrow> string \<Rightarrow> nat \<Rightarrow> schema_step list" where
  "first_steps now random found =
     (if found < 6 then [collapse_duplicate_active_keys now] else [])
     @ schema_sql random
     @ [add_column ''instance_id'', require_column ''instance_id'' ''usage_records.instance_id'']
     @ (if found < 4 then [add_column ''error_body''] else [])
     @ [require_column ''error_body'' ''usage_records.error_body'']
     @ (if found < 6
        then concat (map (\<lambda>c. [add_column c, require_column c ''usage_records.input_price_snapshot''])
               PRICE_COLUMNS)
        else [])"

lemma init_steps_split:
  "init_steps now random n =
     first_steps now random n
     @ (if n < 6 then [migrate_model_allow_list now, drop_legacy_allow_list_column] else [])
     @ [create_in_flight_index, require_tables BILLING_TABLES] @ [write_schema_version]"
  by (simp add: init_steps_def first_steps_def)

lemma first_steps_ordinary: "st \<in> set (first_steps now random n) \<Longrightarrow> ordinary st \<and> keeps_course st"
  by (auto simp: first_steps_def schema_sql_def intro!: ordinary_steps split: if_splits)

lemma step_on_course: "st \<in> set sts \<Longrightarrow> \<forall>st \<in> set sts. keeps_course st \<Longrightarrow> file_ok f \<Longrightarrow> st f = Inr g \<Longrightarrow> on_course f g"
  by (simp add: keeps_course_def)

lemma run_passes:
  assumes run: "run_steps flt i sts f = (Inr (), g)" and f: "file_ok f" and sts: "\<forall>st \<in> set sts. keeps_course st"
    and st: "st \<in> set sts"
  shows "\<exists>h k. on_course f h \<and> st h = Inr k \<and> on_course k g"
proof -
  obtain xs ys where split: "sts = xs @ st # ys" using split_list [OF st] by blast
  obtain h where h: "run_steps flt i xs f = (Inr (), h)" "run_steps flt (i + length xs) (st # ys) h = (Inr (), g)"
    using run unfolding split run_steps_append by (auto split: prod.splits sum.splits)
  then obtain k where k: "st h = Inr k" "run_steps flt (Suc (i + length xs)) ys k = (Inr (), g)"
    by (auto split: option.splits sum.splits)
  have "on_course f h" by (rule run_on_course [OF h(1) f]) (use sts split in simp)
  moreover then have "on_course h k" using k(1) st sts on_course_ok by (blast intro: step_on_course)
  moreover then have "on_course k g" by (intro run_on_course [OF k(2) on_course_ok]) (use sts split in simp_all)
  ultimately show ?thesis using k(1) by blast
qed

lemma ordinary_run:
  assumes "run_steps flt i sts f = (r, g)" "\<forall>st \<in> set sts. ordinary st"
  shows "version_text g = version_text f \<and> lf_legacy_models g = lf_legacy_models f"
  by (rule run_steps_invariant [OF assms(1)]) (use assms(2) in \<open>auto simp: ordinary_def\<close>)

text \<open>The lists are given up only when every consumer of a key is a partner.\<close>

definition owed :: "ledger_file \<Rightarrow> bool" where
  "owed f \<longleftrightarrow> lf_legacy_models f \<noteq> None \<or> covered f"

lemma init_run_owed:
  assumes run: "run_steps flt i (init_steps now random n) f = (r, g)" and f: "file_ok f" "owed f" and n: "n < 6"
  shows "owed g"
proof -
  let ?pair = "[migrate_model_allow_list now, drop_legacy_allow_list_column]"
  define rest where "rest = [create_in_flight_index, require_tables BILLING_TABLES] @ [write_schema_version]"
  have steps: "init_steps now random n = first_steps now random n @ ?pair @ rest"
    using n by (simp add: init_steps_split rest_def)
  obtain q h where first: "run_steps flt i (first_steps now random n) f = (q, h)" by fastforce
  have h: "on_course f h" "owed h"
  proof -
    show course: "on_course f h" using run_on_course [OF first f(1)] first_steps_ordinary by blast
    have "lf_legacy_models h = lf_legacy_models f" using ordinary_run [OF first] first_steps_ordinary by blast
    then show "owed h" using f(2) on_course_covered [OF course] by (auto simp: owed_def)
  qed
  show ?thesis
  proof (cases q)
    case (Inl e)
    with run first h(2) show ?thesis by (simp add: steps run_steps_append)
  next
    case (Inr u)
    define j where "j = i + length (first_steps now random n)"
    have run': "run_steps flt j (?pair @ rest) h = (r, g)"
      using run first Inr unfolding steps run_steps_append j_def by simp
    show ?thesis
    proof (cases "g = h")
      case False
      then obtain k where k: "migrate_model_allow_list now h = Inr k"
          "run_steps flt (Suc j) (drop_legacy_allow_list_column # rest) k = (r, g)"
        using run' by (auto split: option.splits sum.splits)
      have "lf_keys h = None \<Longrightarrow> lf_legacy_models h = None"
        using on_course_ok [OF h(1)] by (auto simp: file_ok_def)
      then have "covered k" using migrate_step [OF k(1)] h(2) by (auto simp: owed_def)
      moreover have "on_course h k" using k(1) on_course_ok [OF h(1)] steps_keep_course(10) by (simp add: keeps_course_def)
      then have "on_course k g" by (intro run_on_course [OF k(2) on_course_ok]) (simp_all add: rest_def)
      ultimately show ?thesis using on_course_covered by (auto simp: owed_def)
    qed (simp add: h)
  qed
qed

lemma failed_run_version:
  assumes "run_steps flt i (init_steps now random n) f = (Inl e, g)"
  shows "version_text g = version_text f"
proof -
  define before where "before = first_steps now random n
     @ (if n < 6 then [migrate_model_allow_list now, drop_legacy_allow_list_column] else [])
     @ [create_in_flight_index, require_tables BILLING_TABLES]"
  have steps: "init_steps now random n = before @ [write_schema_version]" by (simp add: init_steps_split before_def)
  obtain q h where first: "run_steps flt i before f = (q, h)" by fastforce
  have "version_text h = version_text f"
  proof (rule run_steps_invariant [OF first])
    fix st h k assume "st \<in> set before" "version_text h = version_text f" "st h = Inr k"
    moreover have "version_text k = version_text h" if "ordinary st" using that \<open>st h = Inr k\<close> by (simp add: ordinary_def)
    moreover have "version_text k = version_text h" if "st = migrate_model_allow_list now"
      using migrate_step [of now h k] that \<open>st h = Inr k\<close> by (auto simp: version_text_def)
    moreover have "version_text k = version_text h" if "st = drop_legacy_allow_list_column"
      using that \<open>st h = Inr k\<close>
      by (auto simp: drop_legacy_allow_list_column_def version_text_def split: option.splits if_splits)
    ultimately show "version_text k = version_text f"
      using first_steps_ordinary ordinary_steps(10,11) by (auto simp: before_def split: if_splits)
  qed simp
  moreover have "g = h"
    using assms first unfolding steps run_steps_append by (auto split: sum.splits option.splits)
  ultimately show ?thesis by simp
qed

text \<open>Starts that end in an error, one after the other.\<close>

inductive failed_starts :: "ledger_file \<Rightarrow> ledger_file \<Rightarrow> bool" where
  none: "failed_starts f f"
| start: "init_schema flt now random f = (Inl e, g) \<Longrightarrow> failed_starts g h \<Longrightarrow> failed_starts f h"

inductive_cases failed_startsE: "failed_starts f h"

lemma init_cases:
  assumes "init_schema flt now random f = (r, g)"
  obtains e where "r = Inl e" "g = f"
  | n where "read_schema_version f = Inr n" "n \<le> 6" "run_steps flt 1 (init_steps now random n) f = (r, g)"
  using assms unfolding init_schema_def SCHEMA_VERSION_def
  by (fastforce split: option.splits sum.splits if_splits)

lemma failed_starts_keep:
  assumes "failed_starts f g" "file_ok f"
  shows "on_course f g \<and> version_text g = version_text f
    \<and> (read_schema_version f = Inr n \<longrightarrow> n < 6 \<longrightarrow> owed f \<longrightarrow> owed g)"
  using assms
proof (induction rule: failed_starts.induct)
  case (none f)
  then show ?case by (simp add: on_course_refl)
next
  case (start flt now random f e g h)
  have course: "on_course f g" using init_on_course [OF start.hyps(1) start.prems] .
  have version: "version_text g = version_text f"
    using start.hyps(1) by (rule init_cases) (auto dest: failed_run_version)
  have "owed g" if "read_schema_version f = Inr n" "n < 6" "owed f"
    using start.hyps(1)
  proof (rule init_cases)
    fix m assume "read_schema_version f = Inr m" "run_steps flt 1 (init_steps now random m) f = (Inl e, g)"
    then show ?thesis using init_run_owed start.prems that by (metis sum.inject(2))
  qed (use that in simp)
  with start.IH [OF on_course_ok [OF course]] version read_version_text [OF version] show ?case
    using on_course_trans [OF course] by auto
qed

section \<open>A start that succeeds\<close>

lemma on_course_live:
  assumes "on_course f g" "q \<in> set (keys_of g)" "live q"
  shows "q \<in> set (keys_of f)"
proof -
  obtain i where i: "i < length (keys_of g)" "q = keys_of g ! i" using assms(2) by (auto simp: in_set_conv_nth)
  moreover have "key_migrates (keys_of f) (keys_of f ! i) q" "i < length (keys_of f)"
    using assms(1) i by (auto simp: on_course_def list_all2_conv_all_nth)
  ultimately show ?thesis using key_migrates_simps(4) assms(3) nth_mem by metis
qed

lemma one_active_iff:
  assumes "distinct (map ak_id keys)"
  shows "one_active_each keys \<longleftrightarrow> (\<forall>r \<in> set keys. \<not> superseded keys r)"
proof
  assume "one_active_each keys"
  then have same: "q = r" if "q \<in> set keys" "r \<in> set keys" "live q" "live r" "ak_consumer_id q = ak_consumer_id r" for q r
    using that by (simp add: one_active_live distinct_map inj_on_def)
  show "\<forall>r \<in> set keys. \<not> superseded keys r"
  proof
    fix r assume "r \<in> set keys"
    then show "\<not> superseded keys r" using same by (force simp: superseded_def)
  qed
next
  assume none: "\<forall>r \<in> set keys. \<not> superseded keys r"
  have "inj_on ak_consumer_id (set (filter live keys))"
  proof (rule inj_onI)
    fix q r assume *: "q \<in> set (filter live keys)" "r \<in> set (filter live keys)" "ak_consumer_id q = ak_consumer_id r"
    then have both: "q \<in> set keys" "live q" "r \<in> set keys" "live r" by simp_all
    have "ak_id q = ak_id r"
    proof (rule linorder_cases [of "ak_id q" "ak_id r"])
      assume "ak_id q < ak_id r"
      then have "superseded keys q" unfolding superseded_def using both *(3) by (metis (lifting))
      then show ?thesis using none both(1) by blast
    next
      assume "ak_id r < ak_id q"
      then have "superseded keys r" unfolding superseded_def using both *(3) by (metis (lifting))
      then show ?thesis using none both(3) by blast
    qed
    then show "q = r" using assms both by (simp add: distinct_map inj_on_def)
  qed
  moreover have "distinct keys" using assms by (simp add: distinct_map)
  ultimately show "one_active_each keys" by (simp add: one_active_live distinct_map)
qed

lemma ex_max_if_finite_measure:
  fixes m :: "'a \<Rightarrow> int"
  assumes "finite A" "a \<in> A"
  shows "\<exists>x \<in> A. \<forall>y \<in> A. m y \<le> m x"
proof -
  have "Max (m ` A) \<in> m ` A" using assms by (intro Max_in) auto
  then obtain x where "x \<in> A" "Max (m ` A) = m x" by blast
  then show ?thesis using Max_ge [of "m ` A"] assms(1) by (metis finite_imageI imageI)
qed

lemma migrated_liveness:
  assumes course: "on_course f g" and one: "one_active_each (keys_of g)"
    and i: "i < length (keys_of f)"
  shows "live (keys_of g ! i) \<longleftrightarrow> live (keys_of f ! i) \<and> \<not> superseded (keys_of f) (keys_of f ! i)"
proof -
  let ?old = "keys_of f" and ?new = "keys_of g"
  have len: "length ?new = length ?old" and moves: "\<And>j. j < length ?old \<Longrightarrow> key_migrates ?old (?old ! j) (?new ! j)"
    using course by (simp_all add: on_course_def list_all2_conv_all_nth)
  have "\<not> superseded ?old (?old ! i)" if live: "live (?new ! i)"
  proof
    assume "superseded ?old (?old ! i)"
    let ?rivals = "{j. j < length ?old \<and> live (?old ! j) \<and> ak_consumer_id (?old ! j) = ak_consumer_id (?old ! i)}"
    obtain q where "q \<in> set ?old" "live q" "ak_consumer_id q = ak_consumer_id (?old ! i)" "ak_id (?old ! i) < ak_id q"
      using \<open>superseded ?old (?old ! i)\<close> by (auto simp: superseded_def)
    then obtain j where j: "j \<in> ?rivals" "ak_id (?old ! i) < ak_id (?old ! j)" by (auto simp: in_set_conv_nth)
    obtain m where m: "m \<in> ?rivals" "\<forall>k \<in> ?rivals. ak_id (?old ! k) \<le> ak_id (?old ! m)"
      using ex_max_if_finite_measure [of ?rivals j "\<lambda>k. ak_id (?old ! k)"] j(1) by auto
    then have "\<not> superseded ?old (?old ! m)"
      by (auto simp: superseded_def in_set_conv_nth not_less)
    then have new_m: "?new ! m = ?old ! m" using moves [of m] m(1) by (auto simp: key_migrates_def)
    have new_i: "?new ! i = ?old ! i" using key_migrates_simps(4) [OF moves [OF i] live] .
    have "ak_id (?old ! i) < ak_id (?old ! m)" using m(2) j by force
    moreover have "live (?old ! m)" "ak_consumer_id (?old ! m) = ak_consumer_id (?old ! i)" "?new ! m \<in> set ?new"
      using m(1) len by simp_all
    ultimately have "superseded ?new (?new ! i)"
      unfolding superseded_def using live new_i new_m by auto
    moreover have "?new ! i \<in> set ?new" using i len by simp
    ultimately show False
      using one one_active_iff [of ?new] on_course_ok [OF course] by (simp add: file_ok_def)
  qed
  moreover have "live (?new ! i)" if "live (?old ! i)" "\<not> superseded ?old (?old ! i)"
    using moves [OF i] that unfolding key_migrates_def by auto
  moreover have "live (?old ! i)" if "live (?new ! i)"
    using key_migrates_simps(4) [OF moves [OF i] that] that by (simp only:)
  ultimately show ?thesis by blast
qed

lemma dec_version: "parse_u32 (trim (dec SCHEMA_VERSION)) = Some 6"
proof -
  have "char_of (54::nat) = CHR ''6''" by code_simp
  then have "dec SCHEMA_VERSION = ''6''" by (simp add: SCHEMA_VERSION_def dec.simps digit_char_def)
  moreover have "trim ''6'' = ''6''" by code_simp
  moreover have "all_digits ''6'' \<and> dec_value ''6'' = 6" by code_simp
  ultimately show ?thesis by (simp add: parse_u32_def)
qed

lemma init_run_result:
  assumes run: "run_steps flt i (init_steps now random n) f = (Inr (), g)" and f: "file_ok f"
  shows "read_schema_version g = Inr 6" "lf_one_active g"
    "column_exists ''instance_id'' g" "column_exists ''error_body'' g"
    "n < 6 \<Longrightarrow> c \<in> set PRICE_COLUMNS \<Longrightarrow> column_exists c g"
    "set BILLING_TABLES \<subseteq> set (lf_tables g)" "n < 6 \<Longrightarrow> lf_legacy_models g = None"
    "''ledger_instances'' \<in> set (lf_tables g)" "''usage_hourly'' \<in> set (lf_tables g)"
    "lf_keys g \<noteq> None" "lf_meta g \<noteq> None"
proof -
  have courses: "\<forall>st \<in> set (init_steps now random n). keeps_course st" using init_steps_keep_course by blast
  note passes = run_passes [OF run f courses]
  obtain h where "write_schema_version h = Inr g"
    using run unfolding init_steps_split append_assoc [symmetric] run_steps_append
    by (auto split: prod.splits sum.splits option.splits)
  then show "read_schema_version g = Inr 6"
    using dec_version by (auto simp: write_schema_version_def read_schema_version_def split: option.splits)
  have steps: "create_key_index \<in> set (init_steps now random n)"
    "require_column ''instance_id'' ''usage_records.instance_id'' \<in> set (init_steps now random n)"
    "require_column ''error_body'' ''usage_records.error_body'' \<in> set (init_steps now random n)"
    "n < 6 \<Longrightarrow> c \<in> set PRICE_COLUMNS \<Longrightarrow>
       require_column c ''usage_records.input_price_snapshot'' \<in> set (init_steps now random n)"
    "require_tables BILLING_TABLES \<in> set (init_steps now random n)"
    "n < 6 \<Longrightarrow> drop_legacy_allow_list_column \<in> set (init_steps now random n)"
    by (auto simp: init_steps_def schema_sql_def)
  have more: "create_table ''ledger_instances'' \<in> set (init_steps now random n)"
    "create_table ''usage_hourly'' \<in> set (init_steps now random n)"
    "create_api_keys \<in> set (init_steps now random n)" "create_ledger_meta \<in> set (init_steps now random n)"
    by (simp_all add: init_steps_def schema_sql_def)
  have table: "t \<in> set (lf_tables g)" if "create_table t \<in> set (init_steps now random n)" for t
  proof -
    note passed = passes [OF that]
    obtain h k where "create_table t h = Inr k" "on_course k g" using passed by blast
    then show ?thesis by (auto simp: create_table_def on_course_def split: if_splits)
  qed
  show "''ledger_instances'' \<in> set (lf_tables g)" "''usage_hourly'' \<in> set (lf_tables g)"
    using table [OF more(1)] table [OF more(2)] by simp_all
  show "lf_keys g \<noteq> None" "lf_meta g \<noteq> None"
    using passes [OF more(3)] passes [OF more(4)]
    by (auto simp: create_api_keys_def create_ledger_meta_def on_course_def)
  show "lf_one_active g"
    using passes [OF steps(1)] by (auto simp: create_key_index_def on_course_def split: if_splits)
  show "column_exists ''instance_id'' g" "column_exists ''error_body'' g"
    using passes [OF steps(2)] passes [OF steps(3)] by (auto simp: require_column_def on_course_def split: if_splits)
  show "column_exists c g" if "n < 6" "c \<in> set PRICE_COLUMNS"
    using passes [OF steps(4) [OF that]] by (auto simp: require_column_def on_course_def split: if_splits)
  show "set BILLING_TABLES \<subseteq> set (lf_tables g)"
    using passes [OF steps(5)] by (auto simp: require_tables_ok on_course_def)
  show "lf_legacy_models g = None" if old: "n < 6"
  proof -
    obtain h k where h: "on_course f h" "drop_legacy_allow_list_column h = Inr k" "on_course k g"
      using passes [OF steps(6) [OF old]] by blast
    have "lf_legacy_models k = None"
      using h(2) on_course_ok [OF h(1)]
      by (auto simp: drop_legacy_allow_list_column_def file_ok_def split: option.splits if_splits)
    with h(3) show ?thesis by (simp add: on_course_def)
  qed
qed

definition key_upgraded :: "key_row list \<Rightarrow> key_row \<Rightarrow> key_row \<Rightarrow> bool" where
  "key_upgraded keys r q \<longleftrightarrow> key_migrates keys r q \<and> (live q \<longleftrightarrow> live r \<and> \<not> superseded keys r)"

text \<open>The columns that the steps of a start from version \<open>n\<close> add to a table that lacks them.\<close>

definition added_columns :: "nat \<Rightarrow> string set" where
  "added_columns n = {''instance_id'', ''error_body''} \<union> (if n < 6 then set PRICE_COLUMNS else {})"


section \<open>A start without faults succeeds\<close>

text \<open>
  Files the builds so far wrote: a version up to the present one, allow-lists of texts, the unique index
  in version 6 and the column of version 4.
\<close>

definition texts_only :: "ledger_file \<Rightarrow> bool" where
  "texts_only f \<longleftrightarrow>
     (\<forall>models. lf_legacy_models f = Some models \<longrightarrow>
        (\<forall>r \<in> set (keys_of f). live r \<longrightarrow> (\<forall>m \<in> set (models (ak_id r)). as_str m \<noteq> None)))"

definition has_error_body :: "ledger_file \<Rightarrow> bool" where
  "has_error_body f \<longleftrightarrow> lf_usage_columns f = None \<or> column_exists ''error_body'' f"

text \<open>What has been reached: the columns and tables that exist, one live key for a partner, \<open>ledger_meta\<close>.\<close>

definition reached :: "string set \<Rightarrow> string set \<Rightarrow> bool \<Rightarrow> bool \<Rightarrow> ledger_file \<Rightarrow> bool" where
  "reached cs ts one meta f \<longleftrightarrow>
     file_ok f \<and> texts_only f \<and> (\<forall>c \<in> cs. column_exists c f) \<and> ts \<subseteq> set (lf_tables f)
     \<and> (one \<longrightarrow> one_active_each (keys_of f)) \<and> (meta \<longrightarrow> lf_meta f \<noteq> None)"

definition leads :: "(ledger_file \<Rightarrow> bool) \<Rightarrow> schema_step \<Rightarrow> (ledger_file \<Rightarrow> bool) \<Rightarrow> bool" where
  "leads P st Q \<longleftrightarrow> (\<forall>f. P f \<longrightarrow> (\<exists>g. st f = Inr g \<and> Q g))"

definition succeeds :: "(ledger_file \<Rightarrow> bool) \<Rightarrow> schema_step list \<Rightarrow> bool" where
  "succeeds P sts \<longleftrightarrow> (\<forall>f i. P f \<longrightarrow> fst (run_steps (\<lambda>_. None) i sts f) = Inr ())"

lemma succeeds_Nil: "succeeds P []"
  by (simp add: succeeds_def)

lemma succeeds_Cons: "leads P st Q \<Longrightarrow> succeeds Q sts \<Longrightarrow> succeeds P (st # sts)"
  by (fastforce simp: succeeds_def leads_def)

lemma on_course_one:
  assumes course: "on_course f g" and f: "file_ok f" "one_active_each (keys_of f)"
  shows "one_active_each (keys_of g)"
proof -
  have keys: "list_all2 (key_migrates (keys_of f)) (keys_of f) (keys_of g)" using course by (simp add: on_course_def)
  have "\<not> superseded (keys_of g) q" if "q \<in> set (keys_of g)" for q
  proof
    assume q: "superseded (keys_of g) q"
    then have "q \<in> set (keys_of f)" using on_course_live [OF course that] by (simp add: superseded_def)
    moreover have "superseded (keys_of f) q" by (rule superseded_mono [OF keys q])
    ultimately show False using f one_active_iff [of "keys_of f"] by (simp add: file_ok_def)
  qed
  then show ?thesis using one_active_iff [of "keys_of g"] on_course_ok [OF course] by (simp add: file_ok_def)
qed

lemma on_course_texts:
  "on_course f g \<Longrightarrow> lf_legacy_models g = lf_legacy_models f \<Longrightarrow> texts_only f \<Longrightarrow> texts_only g"
  using on_course_live unfolding texts_only_def by metis

lemma collapse_one:
  assumes f: "file_ok f" and g: "collapse_duplicate_active_keys now f = Inr g"
  shows "one_active_each (keys_of g)"
proof (cases "lf_keys f")
  case None
  with g show ?thesis by (auto simp: collapse_duplicate_active_keys_def keys_of_def one_active_each_def)
next
  case (Some keys)
  have course: "on_course f g" by (rule collapse_on_course [OF f g])
  have ids: "distinct (map ak_id keys)" using f Some by (simp add: file_ok_def keys_of_def)
  have "\<not> superseded (keys_of g) q" if "q \<in> set (keys_of g)" for q
  proof
    assume q: "superseded (keys_of g) q"
    then have live: "live q" by (simp add: superseded_def)
    have old: "superseded keys q" using superseded_mono [OF _ q, of "keys_of f"] course Some
      by (simp add: on_course_def keys_of_def)
    have "q \<in> set keys" using on_course_live [OF course that live] Some by (simp add: keys_of_def)
    then have "ak_id q \<notin> set (newest_active_ids keys)" using collapsed_iff [OF ids _ live] old by blast
    moreover have "ak_id q \<in> set (newest_active_ids keys)"
      using that g live Some by (auto simp: collapse_duplicate_active_keys_def keys_of_def live_def revoked_def split: if_splits)
    ultimately show False by blast
  qed
  then show ?thesis using one_active_iff [of "keys_of g"] on_course_ok [OF course] by (simp add: file_ok_def)
qed

text \<open>A step that neither touches the lists nor drops \<open>ledger_meta\<close> leads on to what it adds.\<close>

lemma leads_step:
  assumes "keeps_course st" "ordinary st"
    and "\<And>f. reached cs ts one meta f \<Longrightarrow> \<exists>g. st f = Inr g \<and> (\<forall>c \<in> cs'. c \<notin> cs \<longrightarrow> column_exists c g)
      \<and> (\<forall>t \<in> ts'. t \<notin> ts \<longrightarrow> t \<in> set (lf_tables g)) \<and> (one' \<longrightarrow> one \<or> one_active_each (keys_of g))
      \<and> (meta' \<longrightarrow> lf_meta g \<noteq> None)"
  shows "leads (reached cs ts one meta) st (reached cs' ts' one' meta')"
  unfolding leads_def
proof (intro allI impI)
  fix f assume f: "reached cs ts one meta f"
  obtain g where g: "st f = Inr g" "\<forall>c \<in> cs'. c \<notin> cs \<longrightarrow> column_exists c g"
      "\<forall>t \<in> ts'. t \<notin> ts \<longrightarrow> t \<in> set (lf_tables g)" "one' \<longrightarrow> one \<or> one_active_each (keys_of g)" "meta' \<longrightarrow> lf_meta g \<noteq> None"
    using assms(3) [OF f] by blast
  have course: "on_course f g" using assms(1) f g(1) by (simp add: keeps_course_def reached_def)
  have "texts_only g"
    using on_course_texts [OF course] assms(2) f g(1) by (simp add: ordinary_def reached_def)
  moreover have "one \<longrightarrow> one_active_each (keys_of g)" using on_course_one [OF course] f by (simp add: reached_def)
  moreover have "\<forall>c \<in> cs. column_exists c g" "ts \<subseteq> set (lf_tables g)" "file_ok g"
    using course f by (auto simp: on_course_def reached_def)
  ultimately have "reached cs' ts' one' meta' g" unfolding reached_def using g(2-5) by blast
  with g(1) show "\<exists>g. st f = Inr g \<and> reached cs' ts' one' meta' g" by blast
qed

lemma column_after_add: "add_column c f = Inr g \<Longrightarrow> column_exists c g"
  by (auto simp: add_column_def column_exists_def split: if_splits option.splits)

lemma one_active_none [simp]: "one_active_each []"
  by (simp add: one_active_each_def)

lemma leads_steps:
  "leads (reached cs ts one meta) (create_table t) (reached cs (insert t ts) one meta)"
  "leads (reached cs ts True meta) create_key_index (reached cs ts True meta)"
  "leads (reached cs ts one meta) create_api_keys (reached cs ts one meta)"
  "leads (reached cs ts one meta) create_ledger_meta (reached cs ts one True)"
  "map_of rows ''schema_version'' = None \<Longrightarrow>
     leads (reached cs ts one True) (insert_or_ignore rows) (reached cs ts one True)"
  "''id'' \<in> cs \<Longrightarrow> leads (reached cs ts one meta) (add_column c) (reached (insert c cs) ts one meta)"
  "c \<in> cs \<Longrightarrow> leads (reached cs ts one meta) (require_column c named) (reached cs ts one meta)"
  "''instance_id'' \<in> cs \<Longrightarrow> leads (reached cs ts one meta) create_in_flight_index (reached cs ts one meta)"
  "set ns \<subseteq> ts \<Longrightarrow> leads (reached cs ts one meta) (require_tables ns) (reached cs ts one meta)"
  subgoal by (rule leads_step) (auto simp: ordinary_steps create_table_def reached_def)
  subgoal by (rule leads_step)
      (auto simp: ordinary_steps create_key_index_def reached_def keys_of_def present_or_def split: option.splits)
  subgoal by (rule leads_step) (auto simp: ordinary_steps create_api_keys_def reached_def)
  subgoal by (rule leads_step) (auto simp: ordinary_steps create_ledger_meta_def reached_def)
  subgoal by (rule leads_step) (auto simp: ordinary_steps insert_or_ignore_def reached_def)
  subgoal premises id
  proof (rule leads_step)
    fix f assume f: "reached cs ts one meta f"
    then have "column_exists ''id'' f" using id by (simp add: reached_def)
    then obtain ks where ks: "lf_usage_columns f = Some ks"
      by (auto simp: column_exists_def split: option.splits)
    obtain g where g: "add_column c f = Inr g" "lf_meta g = lf_meta f"
    proof (cases "column_exists c f")
      case True
      with ks that [of f] show ?thesis by (simp add: add_column_def)
    next
      case False
      with ks that [of "f\<lparr>lf_usage_columns := Some (ks @ [c])\<rparr>"] show ?thesis by (simp add: add_column_def)
    qed
    have "column_exists c g" by (rule column_after_add [OF g(1)])
    with g show "\<exists>g. add_column c f = Inr g \<and> (\<forall>k \<in> insert c cs. k \<notin> cs \<longrightarrow> column_exists k g)
        \<and> (\<forall>t \<in> ts. t \<notin> ts \<longrightarrow> t \<in> set (lf_tables g)) \<and> (one \<longrightarrow> one \<or> one_active_each (keys_of g))
        \<and> (meta \<longrightarrow> lf_meta g \<noteq> None)"
      using f by (auto simp: reached_def)
  qed (simp_all add: ordinary_steps)
  subgoal by (rule leads_step) (auto simp: ordinary_steps require_column_def reached_def)
  subgoal by (rule leads_step) (auto simp: ordinary_steps create_in_flight_index_def reached_def)
  subgoal by (rule leads_step) (auto simp: ordinary_steps require_tables_ok reached_def)
  done

lemma leads_collapse: "leads (reached cs ts one meta) (collapse_duplicate_active_keys now) (reached cs ts True meta)"
proof (rule leads_step)
  fix f assume f: "reached cs ts one meta f"
  have "\<exists>g. collapse_duplicate_active_keys now f = Inr g \<and> lf_meta g = lf_meta f"
    by (cases "lf_keys f") (simp_all add: collapse_duplicate_active_keys_def)
  then obtain g where g: "collapse_duplicate_active_keys now f = Inr g" "lf_meta g = lf_meta f" by blast
  moreover have "one_active_each (keys_of g)" using collapse_one [OF _ g(1)] f by (simp add: reached_def)
  ultimately show "\<exists>g. collapse_duplicate_active_keys now f = Inr g
      \<and> (\<forall>c \<in> cs. c \<notin> cs \<longrightarrow> column_exists c g) \<and> (\<forall>t \<in> ts. t \<notin> ts \<longrightarrow> t \<in> set (lf_tables g))
      \<and> (True \<longrightarrow> one \<or> one_active_each (keys_of g)) \<and> (meta \<longrightarrow> lf_meta g \<noteq> None)"
    using f by (auto simp: reached_def)
qed (simp_all add: ordinary_steps)

lemma leads_lists:
  "leads (reached cs ts one meta) (migrate_model_allow_list now) (reached cs ts one meta)"
  "leads (reached cs ts True meta) drop_legacy_allow_list_column (reached cs ts True meta)"
proof -
  show "leads (reached cs ts one meta) (migrate_model_allow_list now) (reached cs ts one meta)"
    unfolding leads_def
  proof (intro allI impI)
    fix f assume f: "reached cs ts one meta f"
    have "\<exists>g. migrate_model_allow_list now f = Inr g"
    proof (cases "lf_legacy_models f = None \<or> lf_keys f = None")
      case True
      then show ?thesis by (auto simp: migrate_model_allow_list_def split: option.splits)
    next
      case False
      then obtain models keys where some: "lf_legacy_models f = Some models" "lf_keys f = Some keys" by auto
      then have "\<forall>r \<in> set keys. ak_status r = KeyActive \<longrightarrow> (\<forall>m \<in> set (models (ak_id r)). as_str m \<noteq> None)"
        using f by (simp add: reached_def texts_only_def keys_of_def live_def)
      then show ?thesis by (simp add: migrate_model_allow_list_def some Let_def)
    qed
    then obtain g where g: "migrate_model_allow_list now f = Inr g" by blast
    have course: "on_course f g"
      using g f steps_keep_course(10) by (simp add: keeps_course_def reached_def)
    have "texts_only g" "lf_meta g = lf_meta f" "keys_of g = keys_of f"
      using migrate_step [OF g] f by (auto simp: texts_only_def reached_def keys_of_def)
    then have "reached cs ts one meta g"
      using course f by (auto simp: reached_def on_course_def)
    with g show "\<exists>g. migrate_model_allow_list now f = Inr g \<and> reached cs ts one meta g" by blast
  qed
  show "leads (reached cs ts True meta) drop_legacy_allow_list_column (reached cs ts True meta)"
    unfolding leads_def
  proof (intro allI impI)
    fix f assume f: "reached cs ts True meta f"
    show "\<exists>g. drop_legacy_allow_list_column f = Inr g \<and> reached cs ts True meta g"
    proof (cases "lf_legacy_models f = None \<or> lf_keys f = None")
      case True
      with f show ?thesis by (auto simp: drop_legacy_allow_list_column_def split: option.splits)
    next
      case False
      then have g: "drop_legacy_allow_list_column f = Inr (f\<lparr>lf_legacy_models := None, lf_one_active := True\<rparr>)"
        using f by (auto simp: drop_legacy_allow_list_column_def reached_def file_ok_def keys_of_def live_def)
      with f show ?thesis
        by (auto simp: reached_def file_ok_def keys_of_def texts_only_def column_exists_def)
    qed
  qed
qed

text \<open>
  Files the builds so far wrote: a version up to the present one, allow-lists of texts, a table of requests
  with its key and, since version 4, the error body, and one live key for a partner in version 6.
\<close>

definition well_columns :: "nat \<Rightarrow> ledger_file \<Rightarrow> bool" where
  "well_columns n f \<longleftrightarrow>
     lf_usage_columns f = None \<or> column_exists ''id'' f \<and> (4 \<le> n \<longrightarrow> column_exists ''error_body'' f)"

definition well_written :: "nat \<Rightarrow> ledger_file \<Rightarrow> bool" where
  "well_written n f \<longleftrightarrow>
     read_schema_version f = Inr n \<and> n \<le> 6 \<and> well_columns n f \<and> reached {} {} (n = 6) False f"

lemma leads_usage_records:
  "leads (\<lambda>f. reached {} {} one False f \<and> well_columns n f) create_usage_records
     (reached (if 4 \<le> n then {''id'', ''error_body''} else {''id''}) {} one False)"
proof -
  have "well_columns n f \<Longrightarrow> create_usage_records f = Inr g \<Longrightarrow>
      column_exists ''id'' g \<and> (4 \<le> n \<longrightarrow> column_exists ''error_body'' g)" for f g
    by (auto simp: well_columns_def create_usage_records_def present_or_def column_exists_def USAGE_COLUMNS_def
        split: option.splits)
  moreover have "file_ok f \<Longrightarrow> create_usage_records f = Inr g \<Longrightarrow> on_course f g" for f g
    using steps_keep_course(2) by (simp add: keeps_course_def)
  moreover have "create_usage_records f = Inr g \<Longrightarrow> lf_legacy_models g = lf_legacy_models f" for f g
    using ordinary_steps(2) by (simp add: ordinary_def)
  moreover have "\<exists>g. create_usage_records f = Inr g" for f by (simp add: create_usage_records_def)
  ultimately show ?thesis
    unfolding leads_def reached_def using on_course_texts on_course_one on_course_ok by (fastforce split: if_splits)
qed

lemma leads_collapse_first:
  "leads (\<lambda>f. reached {} {} one False f \<and> well_columns n f) (collapse_duplicate_active_keys now)
     (\<lambda>f. reached {} {} True False f \<and> well_columns n f)"
proof -
  have "collapse_duplicate_active_keys now f = Inr g \<Longrightarrow> well_columns n f \<Longrightarrow> well_columns n g" for f g
    by (auto simp: collapse_duplicate_active_keys_def well_columns_def column_exists_def split: option.splits)
  then show ?thesis using leads_collapse [of "{}" "{}" one False now] unfolding leads_def by blast
qed

lemma leads_version: "leads (reached cs ts one True) write_schema_version (\<lambda>_. True)"
  by (auto simp: leads_def reached_def write_schema_version_def)

lemma init_steps_succeed:
  assumes "n \<le> 6"
  shows "succeeds (\<lambda>f. reached {} {} (n = 6) False f \<and> well_columns n f) (init_steps now random n)"
proof -
  note unfolds = init_steps_def schema_sql_def BILLING_TABLES_def PRICE_COLUMNS_def
  note rules = leads_collapse_first leads_steps leads_lists leads_version
  consider "n < 4" | "4 \<le> n" "n < 6" | "n = 6" using assms by linarith
  then show ?thesis
  proof cases
    case 1
    then have start: "leads (\<lambda>f. reached {} {} True False f \<and> well_columns n f) create_usage_records
        (reached {''id''} {} True False)"
      using leads_usage_records [of True n] by simp
    from 1 show ?thesis
      unfolding unfolds
      by (simp del: require_tables.simps) (rule succeeds_Nil | rule succeeds_Cons, rule start rules; (simp; fail)?)+
  next
    case 2
    then have start: "leads (\<lambda>f. reached {} {} True False f \<and> well_columns n f) create_usage_records
        (reached {''id'', ''error_body''} {} True False)"
      using leads_usage_records [of True n] by simp
    from 2 show ?thesis
      unfolding unfolds
      by (simp del: require_tables.simps) (rule succeeds_Nil | rule succeeds_Cons, rule start rules; (simp; fail)?)+
  next
    case 3
    have start: "leads (\<lambda>f. reached {} {} True False f \<and> well_columns 6 f) create_usage_records
        (reached {''id'', ''error_body''} {} True False)"
      using leads_usage_records [of True 6] by simp
    from 3 show ?thesis
      unfolding unfolds
      by (simp del: require_tables.simps) (rule succeeds_Nil | rule succeeds_Cons, rule start rules; (simp; fail)?)+
  qed
qed

lemma texts_of_step:
  assumes "st \<in> set (init_steps now random m)" "st h = Inr k" "on_course h k" "texts_only h"
  shows "texts_only k"
proof -
  have "lf_legacy_models k = lf_legacy_models h" if "ordinary st" using that assms(2) by (simp add: ordinary_def)
  moreover have "lf_legacy_models k = lf_legacy_models h" if "st = write_schema_version"
    using that assms(2) by (auto simp: write_schema_version_def split: option.splits)
  moreover have "texts_only k" if "st = migrate_model_allow_list now"
    using migrate_step [of now h k] that assms(2,4) by (auto simp: texts_only_def)
  moreover have "texts_only k" if "st = drop_legacy_allow_list_column"
    using that assms(2,4) by (auto simp: drop_legacy_allow_list_column_def texts_only_def split: option.splits if_splits)
  ultimately show ?thesis
    using assms(1) first_steps_ordinary ordinary_steps(10,11) on_course_texts [OF assms(3) _ assms(4)]
    unfolding init_steps_split by (auto split: if_splits)
qed

lemma columns_of_step:
  assumes "st \<in> set (init_steps now random m)" "st h = Inr k" "on_course h k" "well_columns n h"
  shows "well_columns n k"
proof (cases "lf_usage_columns h")
  case (Some ks)
  with assms(3,4) show ?thesis by (auto simp: well_columns_def on_course_def)
next
  case None
  show ?thesis
  proof (cases "st = create_usage_records")
    case True
    with assms(2) None show ?thesis
      by (auto simp: create_usage_records_def present_or_def well_columns_def column_exists_def USAGE_COLUMNS_def)
  next
    case False
    have "lf_usage_columns k = None"
      using assms(1,2) None False migrate_step [of now h k]
      by (auto simp: init_steps_def schema_sql_def collapse_duplicate_active_keys_def create_table_def
          create_api_keys_def create_key_index_def create_ledger_meta_def insert_or_ignore_def
          add_column_def require_column_def create_in_flight_index_def require_tables_ok
          drop_legacy_allow_list_column_def write_schema_version_def column_exists_def
          split: if_splits option.splits)
    then show ?thesis by (simp add: well_columns_def)
  qed
qed

lemma init_keeps_written:
  assumes f: "well_written n f" and run: "init_schema flt now random f = (Inl e, g)"
  shows "well_written n g"
  using run
proof (rule init_cases)
  fix m assume m: "read_schema_version f = Inr m" "run_steps flt 1 (init_steps now random m) f = (Inl e, g)"
  have version: "read_schema_version g = Inr n"
    using failed_run_version [OF m(2)] f read_version_text [of g f] by (simp add: well_written_def)
  have kept: "file_ok g \<and> texts_only g \<and> well_columns n g \<and> (n = 6 \<longrightarrow> one_active_each (keys_of g))"
  proof (rule run_steps_invariant [OF m(2)])
    show "file_ok f \<and> texts_only f \<and> well_columns n f \<and> (n = 6 \<longrightarrow> one_active_each (keys_of f))"
      using f by (simp add: well_written_def reached_def)
  next
    fix st h k
    assume st: "st \<in> set (init_steps now random m)" and k: "st h = Inr k"
      and h: "file_ok h \<and> texts_only h \<and> well_columns n h \<and> (n = 6 \<longrightarrow> one_active_each (keys_of h))"
    have course: "on_course h k" using init_steps_keep_course [OF st] h k by (simp add: keeps_course_def)
    have "texts_only k"
      using texts_of_step [OF st k course] h by blast
    moreover have "well_columns n k" using columns_of_step [OF st k course] h by blast
    ultimately show "file_ok k \<and> texts_only k \<and> well_columns n k \<and> (n = 6 \<longrightarrow> one_active_each (keys_of k))"
      using h on_course_ok [OF course] on_course_one [OF course] by blast
  qed
  with version f show ?thesis by (simp add: well_written_def reached_def)
qed (use f in simp)

lemma recovers:
  assumes "well_written n f" "failed_starts f g"
  shows "fst (init_schema (\<lambda>_. None) now random g) = Inr ()"
proof -
  have "well_written n g"
    using assms(2,1) by (induction rule: failed_starts.induct) (auto intro: init_keeps_written)
  then show ?thesis
    using init_steps_succeed [of n now random]
    by (simp add: well_written_def init_schema_def SCHEMA_VERSION_def succeeds_def)
qed

text \<open>
  C21: a file of any earlier build, whatever starts failed on it before, is brought up by the next start
  that meets no fault of the database. No failed start leaves a file the next one refuses.
\<close>

theorem upgrade_recovers:
  assumes "well_written n f" "failed_starts f g"
  shows "fst (init_schema (\<lambda>_. None) now random g) = Inr ()"
  by (rule recovers [OF assms])

section \<open>A file of version 5\<close>

definition old_key :: "i64 \<Rightarrow> string \<Rightarrow> string \<Rightarrow> string option \<Rightarrow> key_row" where
  "old_key i hash created expires =
     \<lparr>ak_id = i, ak_name = ''Acme'', ak_consumer_id = ''acme'', ak_key_prefix = ''sk'',
      ak_status = KeyActive, ak_created_at = created, ak_updated_at = created, ak_expires_at = expires,
      ak_revoked_at = None, ak_key_hash = hash\<rparr>"

definition old_file :: ledger_file where
  "old_file =
     \<lparr>lf_meta = Some [''schema_version'' \<mapsto> ''5''], lf_usage_columns = Some [''id'', ''error_body''],
      lf_tables = [], lf_keys = Some [old_key 1 ''h1'' ''2026-01-01'' None, old_key 2 ''h2'' ''2026-02-01'' None],
      lf_one_active = False, lf_legacy_models = Some ((\<lambda>_. [])(2 := [JString ''gpt''])), lf_partners = []\<rparr>"

definition third_fault :: "nat \<Rightarrow> fault" where
  "third_fault i = (if i = 3 then Some (SqliteFailure 5) else None)"

lemma old_file_version: "read_schema_version old_file = Inr 5"
proof -
  have "trim ''5'' = ''5''" by code_simp
  moreover have "all_digits ''5'' \<and> dec_value ''5'' = 5" by code_simp
  ultimately show ?thesis by (simp add: read_schema_version_def old_file_def parse_u32_def)
qed

lemma old_file_ok: "file_ok old_file"
  by (simp add: file_ok_def old_file_def keys_of_def old_key_def live_def)

lemma old_file_written: "well_written 5 old_file"
  using old_file_version old_file_ok
  by (simp add: well_written_def well_columns_def reached_def texts_only_def old_file_def keys_of_def
      column_exists_def old_key_def)

lemma old_file_interrupted:
  "failed_starts old_file (snd (init_schema third_fault ''t'' ''r'' old_file))" (is "failed_starts _ (snd ?start)")
proof -
  have "fst ?start = Inl (SchemaSqlite (SqliteFailure 5))"
    using old_file_version
    by (simp add: init_schema_def SCHEMA_VERSION_def init_steps_def schema_sql_def third_fault_def
        collapse_duplicate_active_keys_def old_file_def create_usage_records_def)
  then obtain g where "?start = (Inl (SchemaSqlite (SqliteFailure 5)), g)" by (cases ?start) simp
  then show ?thesis by (simp add: failed_starts.start [OF _ failed_starts.none])
qed


lemma upgrade_recovers_witness:
  "fst (init_schema (\<lambda>_. None) ''u'' ''r'' (snd (init_schema third_fault ''t'' ''r'' old_file))) = Inr ()"
  by (rule upgrade_recovers [OF old_file_written old_file_interrupted])

section \<open>What the steps leave undone\<close>

text \<open>A file from before version 2 is stamped without the column that version added.\<close>

lemma cached_tokens_never_added:
  assumes run: "init_schema flt now random f = (r, g)"
    and f: "lf_usage_columns f \<noteq> None" "\<not> column_exists ''cached_tokens'' f"
  shows "\<not> column_exists ''cached_tokens'' g"
  using run
proof (rule init_cases)
  fix n assume run: "run_steps flt 1 (init_steps now random n) f = (r, g)"
  have "lf_usage_columns g \<noteq> None \<and> \<not> column_exists ''cached_tokens'' g"
  proof (rule run_steps_invariant [OF run])
    fix st h k assume "st \<in> set (init_steps now random n)" "st h = Inr k"
      "lf_usage_columns h \<noteq> None \<and> \<not> column_exists ''cached_tokens'' h"
    then show "lf_usage_columns k \<noteq> None \<and> \<not> column_exists ''cached_tokens'' k"
      using migrate_step [of now h k]
      by (auto simp: init_steps_def schema_sql_def collapse_duplicate_active_keys_def create_table_def
          create_usage_records_def present_or_def PRICE_COLUMNS_def
          create_api_keys_def create_key_index_def create_ledger_meta_def insert_or_ignore_def
          add_column_def require_column_def create_in_flight_index_def require_tables_ok
          drop_legacy_allow_list_column_def write_schema_version_def column_exists_def
          split: if_splits option.splits)
  qed (simp add: f)
  then show ?thesis by blast
qed (use f in simp)

text \<open>Of two live keys the newer is kept even when it no longer opens anything.\<close>

lemma expired_key_supersedes:
  "usable now (old_key 1 h1 c1 None) \<and> \<not> usable ''2026-03-01'' (old_key 2 h2 c2 (Some ''2026-02-02''))
   \<and> collapse_duplicate_active_keys now
       (f\<lparr>lf_keys := Some [old_key 1 h1 c1 None, old_key 2 h2 c2 (Some ''2026-02-02'')]\<rparr>)
     = Inr (f\<lparr>lf_keys := Some [revoked now (old_key 1 h1 c1 None), old_key 2 h2 c2 (Some ''2026-02-02'')]\<rparr>)"
proof -
  have simps: "ak_id (old_key i h c e) = i" "ak_status (old_key i h c e) = KeyActive"
    "ak_consumer_id (old_key i h c e) = ''acme''" "ak_expires_at (old_key i h c e) = e" for i h c e
    by (simp_all add: old_key_def)
  have "newest_active_ids [old_key 1 h1 c1 None, old_key 2 h2 c2 (Some ''2026-02-02'')] = [2]"
    by (simp add: newest_active_ids_def simps Let_def del: set_filter)
  moreover have "\<not> ''2026-03-01'' < ''2026-02-02''" by code_simp
  ultimately show ?thesis by (simp add: collapse_duplicate_active_keys_def usable_def simps)
qed

text \<open>A file of a newer build is refused as it is.\<close>

lemma newer_file_untouched:
  assumes "read_schema_version f = Inr n" "SCHEMA_VERSION < n" "init_schema flt now random f = (r, g)"
  shows "g = f \<and> r \<noteq> Inr ()"
  using assms by (auto simp: init_schema_def split: option.splits)

end
