(* ===== verification/Billing_Api.thy ===== *)
theory Billing_Api
  imports Dashboard Statement_Store
begin

text \<open>
  \<^verbatim>\<open>src/src/billing/api.rs\<close>: statements and service status over HTTP. The answer of a handler is its
  view, before it is written as JSON. A handler reads the tables several times, each time in a
  transaction of its own: \<open>s i\<close> is what its \<open>i\<close>-th read finds and \<open>flt i\<close> how that read fails. A blocking
  task always finishes.
\<close>

section \<open>Errors\<close>

fun statement_rejected_text :: "(string \<Rightarrow> string) \<Rightarrow> statement_rejected \<Rightarrow> string" where
  "statement_rejected_text dbg (InconsistentLine model) =
     ''line for '' @ dbg model @ '' bills more cached tokens than the prompt had''"
| "statement_rejected_text dbg MissingDueDate = ''an invoice statement must carry a due date''"
| "statement_rejected_text dbg UnexpectedDueDate = ''a reconciliation statement must not carry a due date''"

fun invalid_text :: "(string \<Rightarrow> string) \<Rightarrow> invalid_reason \<Rightarrow> string" where
  "invalid_text dbg (Message m) = m"
| "invalid_text dbg (ListedTwice m) = dbg m @ '' is listed twice; a model has one price''"
| "invalid_text dbg (Rejected r) = statement_rejected_text dbg r"

fun dashboard_error_of :: "(string \<Rightarrow> string) \<Rightarrow> billing_error \<Rightarrow> dashboard_error" where
  "dashboard_error_of dbg (PartnerNotFound i) = NotFound (''no partner with consumer_id '' @ i)"
| "dashboard_error_of dbg (PartnerExists i) =
     BadRequest (StoreRefused (''existing partner '' @ i @ '' cannot be created''))"
| "dashboard_error_of dbg (StatementNotPayable i mode) =
     BadRequest (StoreRefused (''statement '' @ dec_int i @ '' carries no payment obligation''))"
| "dashboard_error_of dbg (Invalid r) = BadRequest (StoreRefused (invalid_text dbg r))"
| "dashboard_error_of dbg (Database e) = DashboardDatabase e"

section \<open>Queries\<close>

definition STATEMENTS_DEFAULT_LIMIT :: i64 where
  "STATEMENTS_DEFAULT_LIMIT = 50"

definition STATEMENTS_MAX_LIMIT :: i64 where
  "STATEMENTS_MAX_LIMIT = 200"

record statements_query =
  sq_consumers :: string
  sq_unpaid :: bool
  sq_limit :: i64
  sq_offset :: i64

definition statements_query_default :: statements_query where
  "statements_query_default =
     \<lparr>sq_consumers = [], sq_unpaid = False, sq_limit = STATEMENTS_DEFAULT_LIMIT, sq_offset = 0\<rparr>"

definition statements_page :: "statements_query \<Rightarrow> i64 \<times> i64" where
  "statements_page q = (max 0 (min STATEMENTS_MAX_LIMIT (sq_limit q)), max (sq_offset q) 0)"

section \<open>Views\<close>

record line_view =
  lv_model :: string
  lv_input_per_million :: string
  lv_cached_input_per_million :: string
  lv_output_per_million :: string
  lv_request_count :: i64
  lv_input_tokens :: i64
  lv_cached_input_tokens :: i64
  lv_uncached_input_tokens :: i64
  lv_output_tokens :: i64
  lv_input_cost :: i64
  lv_cached_input_cost :: i64
  lv_output_cost :: i64
  lv_total_cost :: i64
  lv_total_cost_text :: string

definition line_view_of :: "statement_line \<Rightarrow> line_view" where
  "line_view_of l =
     \<lparr>lv_model = sl_model l, lv_input_per_million = to_decimal_string (ps_input (sl_prices l)),
      lv_cached_input_per_million = to_decimal_string (ps_cached_input (sl_prices l)),
      lv_output_per_million = to_decimal_string (ps_output (sl_prices l)),
      lv_request_count = sl_request_count l, lv_input_tokens = sl_input_tokens l,
      lv_cached_input_tokens = sl_cached_input_tokens l,
      lv_uncached_input_tokens = sl_uncached_input_tokens l, lv_output_tokens = sl_output_tokens l,
      lv_input_cost = sl_input_cost l, lv_cached_input_cost = sl_cached_input_cost l,
      lv_output_cost = sl_output_cost l, lv_total_cost = sl_total_cost l,
      lv_total_cost_text = micro_display (MicroUsd (sl_total_cost l))\<rparr>"

record statement_view =
  vw_id :: i64
  vw_consumer_id :: string
  vw_billing_date :: string
  vw_billing_mode :: string
  vw_currency :: string
  vw_period_start :: string
  vw_period_end :: string
  vw_billing_cutoff_at :: string
  vw_total :: i64
  vw_total_text :: string
  vw_incomplete :: i64
  vw_has_incomplete :: bool
  vw_due_at :: "string option"
  vw_paid_at :: "string option"
  vw_outstanding :: bool
  vw_can_suspend :: bool
  vw_paid_by :: "string option"
  vw_payment_reference :: "string option"
  vw_payment_note :: "string option"
  vw_email_sent_at :: "string option"
  vw_email_attempts :: "i64 option"
  vw_email_last_error :: "string option"
  vw_email_next_retry_at :: "string option"
  vw_created_at :: string
  vw_updated_at :: string
  vw_lines :: "line_view list option"

definition common_view :: "statement \<Rightarrow> statement_view" where
  "common_view st =
     \<lparr>vw_id = st_id st, vw_consumer_id = st_consumer_id st, vw_billing_date = st_billing_date st,
      vw_billing_mode = st_billing_mode st, vw_currency = st_currency st,
      vw_period_start = st_period_start st, vw_period_end = st_period_end st,
      vw_billing_cutoff_at = st_billing_cutoff_at st, vw_total = st_total st,
      vw_total_text = micro_display (MicroUsd (st_total st)), vw_incomplete = st_incomplete st,
      vw_has_incomplete = has_incomplete_usage st, vw_due_at = st_due_at st, vw_paid_at = st_paid_at st,
      vw_outstanding = is_outstanding st, vw_can_suspend = can_suspend st,
      vw_paid_by = None, vw_payment_reference = None, vw_payment_note = None, vw_email_sent_at = None,
      vw_email_attempts = None, vw_email_last_error = None, vw_email_next_retry_at = None,
      vw_created_at = st_created_at st, vw_updated_at = st_updated_at st, vw_lines = None\<rparr>"

definition view_for_manager :: "statement \<Rightarrow> line_view list option \<Rightarrow> statement_view" where
  "view_for_manager st lines =
     (common_view st)\<lparr>vw_paid_by := st_paid_by st, vw_payment_reference := st_payment_reference st,
       vw_payment_note := st_payment_note st, vw_email_sent_at := st_email_sent_at st,
       vw_email_attempts := Some (st_email_attempts st), vw_email_last_error := st_email_last_error st,
       vw_email_next_retry_at := st_email_next_retry_at st, vw_lines := lines\<rparr>"

definition view_for_partner :: "statement \<Rightarrow> line_view list option \<Rightarrow> statement_view" where
  "view_for_partner st lines = (common_view st)\<lparr>vw_lines := lines\<rparr>"

definition view_for :: "consumer_context \<Rightarrow> statement \<Rightarrow> line_view list option \<Rightarrow> statement_view" where
  "view_for consumer = (if is_manager consumer then view_for_manager else view_for_partner)"

record statement_list =
  sn_statements :: "statement_view list"
  sn_total :: i64
  sn_limit :: i64
  sn_offset :: i64
  sn_unpaid_count :: i64
  sn_unpaid_total :: i64
  sn_unpaid_total_text :: string

section \<open>Statements\<close>

text \<open>The three reads behind a list, shared by the partner's and the manager's.\<close>

definition read_statement_list ::
  "(nat \<Rightarrow> fault) \<Rightarrow> scope \<Rightarrow> statements_query \<Rightarrow> (statement \<Rightarrow> statement_view) \<Rightarrow> (nat \<Rightarrow> db) \<Rightarrow>
   billing_error + statement_list" where
  "read_statement_list flt sc q view s =
     (case statements_page q of (limit, offset) \<Rightarrow>
        res_bind (list_statements (flt 0) sc limit offset (sq_unpaid q) (s 0)) (\<lambda>rows.
        res_bind (count_statements (flt 1) sc (s 1)) (\<lambda>total.
        res_bind (outstanding_totals (flt 2) sc (s 2)) (\<lambda>(unpaid_count, unpaid_total).
          Inr \<lparr>sn_statements = map view rows, sn_total = total, sn_limit = limit, sn_offset = offset,
               sn_unpaid_count = unpaid_count, sn_unpaid_total = micro_as_i64 unpaid_total,
               sn_unpaid_total_text = micro_display unpaid_total\<rparr>))))"

definition billing_list_statements ::
  "(string \<Rightarrow> string) \<Rightarrow> (nat \<Rightarrow> fault) \<Rightarrow> consumer_context \<Rightarrow> statements_query \<Rightarrow> (nat \<Rightarrow> db) \<Rightarrow>
   dashboard_error + statement_list" where
  "billing_list_statements dbg flt consumer q s =
     map_sum (dashboard_error_of dbg) id
       (read_statement_list flt (resolve_scope consumer (sq_consumers q)) q
          (\<lambda>st. view_for consumer st None) s)"

definition billing_get_statement ::
  "(string \<Rightarrow> string) \<Rightarrow> (nat \<Rightarrow> fault) \<Rightarrow> consumer_context \<Rightarrow> i64 \<Rightarrow> statements_query \<Rightarrow> (nat \<Rightarrow> db) \<Rightarrow>
   dashboard_error + statement_view" where
  "billing_get_statement dbg flt consumer i q s =
     (let sc = resolve_scope consumer (sq_consumers q)
      in res_bind (map_sum (dashboard_error_of dbg) id
           (res_bind (get_statement_by_id (flt 0) i sc (s 0)) (\<lambda>found.
              case found of
                None \<Rightarrow> Inr None
              | Some st \<Rightarrow>
                  res_bind (scoped_lines (flt 1) i sc (s 1)) (\<lambda>lines.
                    Inr (Some (view_for consumer st (Some (map line_view_of lines))))))))
           (\<lambda>found. case found of None \<Rightarrow> Inl (NotFound ''no statement with that id'') | Some v \<Rightarrow> Inr v))"

section \<open>Service status\<close>

record reason_view =
  rv_code :: string
  rv_statement_id :: i64
  rv_billing_date :: string
  rv_due_at :: string
  rv_amount :: i64
  rv_amount_text :: string

record status_view =
  ss_consumer_id :: string
  ss_status :: string
  ss_suspended :: bool
  ss_message :: "string option"
  ss_reason :: "reason_view option"
  ss_overdue_statements :: i64
  ss_overdue_amount :: i64
  ss_overdue_amount_text :: string

fun reason_view_of :: "time_crate \<Rightarrow> suspension_reason \<Rightarrow> reason_view" where
  "reason_view_of T (InvoiceOverdue od) =
     \<lparr>rv_code = ''invoice_overdue'', rv_statement_id = od_id od, rv_billing_date = od_billing_date od,
      rv_due_at = format_ts T (od_due_at od), rv_amount = micro_as_i64 (od_amount od),
      rv_amount_text = micro_display (od_amount od)\<rparr>"

text \<open>An amount that would overflow the sum is left out of it.\<close>

definition overdue_amount :: "overdue_row list \<Rightarrow> micro_usd" where
  "overdue_amount rows =
     fold (\<lambda>row sum. case micro_checked_add sum (MicroUsd (or_total row)) of None \<Rightarrow> sum | Some t \<Rightarrow> t)
       rows (MicroUsd 0)"

definition view_status :: "time_crate \<Rightarrow> string \<Rightarrow> service_status \<Rightarrow> overdue_row list \<Rightarrow> status_view" where
  "view_status T c status rows =
     \<lparr>ss_consumer_id = c, ss_status = (if status_is_suspended status then ''suspended'' else ''active''),
      ss_suspended = status_is_suspended status, ss_message = suspension_message status,
      ss_reason = map_option (reason_view_of T) (suspension_reason_of status),
      ss_overdue_statements = int (length rows), ss_overdue_amount = micro_as_i64 (overdue_amount rows),
      ss_overdue_amount_text = micro_display (overdue_amount rows)\<rparr>"

fun partners_in_scope :: "fault \<Rightarrow> scope \<Rightarrow> db \<Rightarrow> billing_error + partner list" where
  "partners_in_scope flt (One i) s =
     res_bind (get_partner flt i s) (\<lambda>p. Inr (case p of None \<Rightarrow> [] | Some p \<Rightarrow> [p]))"
| "partners_in_scope flt (ListOf ids) s =
     res_bind (list_partners flt s) (\<lambda>ps. Inr (filter (\<lambda>p. p_consumer_id p \<in> set ids) ps))"
| "partners_in_scope flt AllConsumers s = list_partners flt s"

text \<open>The overdue rows are grouped by consumer once; a group is taken by the first partner of its id.\<close>

fun status_views ::
  "time_crate \<Rightarrow> instant \<Rightarrow> (string \<Rightarrow> overdue_row list) \<Rightarrow> partner list \<Rightarrow> status_view list" where
  "status_views T now overdue [] = []"
| "status_views T now overdue (p # ps) =
     (let c = p_consumer_id p; rows = overdue c
      in view_status T c (status_for T (mode_as_str (p_billing_mode p)) now rows) rows
         # status_views T now (overdue(c := [])) ps)"

text \<open>\<open>read_now\<close> is the instant the overdue rows are read at, which the store takes itself.\<close>

definition statuses_in_scope ::
  "time_crate \<Rightarrow> (nat \<Rightarrow> fault) \<Rightarrow> scope \<Rightarrow> instant \<Rightarrow> instant \<Rightarrow> (nat \<Rightarrow> db) \<Rightarrow> billing_error + status_view list" where
  "statuses_in_scope T flt sc now read_now s =
     res_bind (partners_in_scope (flt 0) sc (s 0)) (\<lambda>ps.
     res_bind (overdue_statements T read_now (flt 1) (case sc of One i \<Rightarrow> Some i | _ \<Rightarrow> None) (s 1)) (\<lambda>sts.
       Inr (status_views T now
         (\<lambda>c. map to_overdue_row (filter (\<lambda>st. st_consumer_id st = c) sts)) ps)))"

definition billing_get_status ::
  "(string \<Rightarrow> string) \<Rightarrow> time_crate \<Rightarrow> instant \<Rightarrow> instant \<Rightarrow> (nat \<Rightarrow> fault) \<Rightarrow> consumer_context \<Rightarrow> statements_query \<Rightarrow>
   (nat \<Rightarrow> db) \<Rightarrow> dashboard_error + status_view list" where
  "billing_get_status dbg T clock read_clock flt consumer q s =
     map_sum (dashboard_error_of dbg) id
       (statuses_in_scope T flt (resolve_scope consumer (sq_consumers q)) (truncate_now clock)
          (truncate_now read_clock) s)"

end
