(* ===== verification/Admin_Api.thy ===== *)
theory Admin_Api
  imports Billing_Api
begin

text \<open>
  \<^verbatim>\<open>src/src/admin\<close>: the manager's API over keys, partners and statements. A request is its route
  with what the path, the query and the body said; the answer is its status and its view, before the
  view is written as JSON. The libraries behind a handler, the failures of its calls to the database,
  what other connections commit between them and what the clock says are its surroundings. A blocking
  task always finishes, and log lines are left out.
\<close>

section \<open>Surroundings\<close>

record portal_libs =
  pl_time :: time_crate
  pl_debug :: "string \<Rightarrow> string"
  pl_crypto :: key_crypto
  pl_json :: json_lib
  pl_secret :: string

text \<open>
  \<open>ad_clock i\<close> is the instant \<open>timefmt::now\<close> answers in the \<open>i\<close>-th call, \<open>ad_others i\<close> what other connections commit just before the \<open>i\<close>-th call, \<open>ad_fault i\<close> its failure,
  and \<open>ad_reread i\<close> the failure of the read with which a write call ends. \<open>ad_meanwhile\<close> is what other
  tasks do to the key store between the load and the swap of a reload of the snapshot.
\<close>

record admin_env =
  ad_clock :: "nat \<Rightarrow> instant"
  ad_fault :: "nat \<Rightarrow> fault"
  ad_reread :: "nat \<Rightarrow> fault"
  ad_others :: "nat \<Rightarrow> db \<Rightarrow> db"
  ad_refresh_fault :: fault
  ad_entropy :: "string + string"
  ad_keys :: key_env
  ad_meanwhile :: "key_store \<Rightarrow> key_store"

record portal =
  po_db :: db
  po_keys :: key_store

section \<open>Errors\<close>

datatype admin_error =
    AdminBadRequest string
  | AdminKeyNotFound i64
  | AdminPartnerNotFound string
  | AdminPartnerExists string
  | AdminStatementNotFound i64
  | AdminStatementNotPayable i64 string
  | AdminKey api_key_error
  | AdminBilling billing_error
  | AdminJoin

fun admin_error_of :: "(string \<Rightarrow> string) \<Rightarrow> billing_error \<Rightarrow> admin_error" where
  "admin_error_of dbg (PartnerNotFound i) = AdminPartnerNotFound i"
| "admin_error_of dbg (PartnerExists i) = AdminPartnerExists i"
| "admin_error_of dbg (StatementNotPayable i mode) = AdminStatementNotPayable i mode"
| "admin_error_of dbg (Invalid r) = AdminBadRequest (invalid_text dbg r)"
| "admin_error_of dbg (Database e) = AdminBilling (Database e)"

definition not_payable_text :: "i64 \<Rightarrow> string \<Rightarrow> string" where
  "not_payable_text i mode =
     ''statement '' @ dec_int i @ '' is a '' @ mode @ '' statement and carries no payment obligation''"

text \<open>Status, code and message.\<close>

fun admin_outcome :: "(string \<Rightarrow> string) \<Rightarrow> admin_error \<Rightarrow> nat \<times> string \<times> string" where
  "admin_outcome dbg (AdminBadRequest msg) = (400, ''invalid_request'', msg)"
| "admin_outcome dbg (AdminKeyNotFound i) = (404, ''not_found'', ''no api key with id '' @ dec_int i)"
| "admin_outcome dbg (AdminPartnerNotFound c) = (404, ''not_found'', ''no partner with consumer_id '' @ c)"
| "admin_outcome dbg (AdminPartnerExists c) =
     (409, ''partner_exists'', ''a partner with consumer_id '' @ c
        @ '' already exists; use PATCH /api/admin/partners/'' @ c @ '' to change it'')"
| "admin_outcome dbg (AdminStatementNotFound i) = (404, ''not_found'', ''no statement with id '' @ dec_int i)"
| "admin_outcome dbg (AdminStatementNotPayable i mode) =
     (409, ''statement_not_payable'', not_payable_text i mode)"
| "admin_outcome dbg (AdminKey (KeyInvalid msg)) = (400, ''invalid_request'', msg)"
| "admin_outcome dbg (AdminKey (KeyNotFound i)) = (404, ''not_found'', ''no api key with id '' @ dec_int i)"
| "admin_outcome dbg (AdminKey (KeyNotActive i)) =
     (409, ''key_not_active'', ''api key '' @ dec_int i @ '' is revoked and cannot be changed'')"
| "admin_outcome dbg (AdminKey (AlreadyActive c)) =
     (409, ''key_already_active'', ''consumer '' @ c
        @ '' already has an active api key; rotate that key instead of creating a second one'')"
| "admin_outcome dbg (AdminKey (KeyDatabase e)) = (500, ''internal_error'', ''database error'')"
| "admin_outcome dbg (AdminBilling (Invalid r)) = (400, ''invalid_request'', invalid_text dbg r)"
| "admin_outcome dbg (AdminBilling (PartnerNotFound c)) =
     (404, ''not_found'', ''no partner with consumer_id '' @ c)"
| "admin_outcome dbg (AdminBilling (PartnerExists c)) =
     (409, ''partner_exists'', ''a partner with consumer_id '' @ c @ '' already exists'')"
| "admin_outcome dbg (AdminBilling (StatementNotPayable i mode)) =
     (409, ''statement_not_payable'', not_payable_text i mode)"
| "admin_outcome dbg (AdminBilling (Database e)) = (500, ''internal_error'', ''database error'')"
| "admin_outcome dbg AdminJoin = (500, ''internal_error'', ''internal error'')"

definition no_store_headers :: headers where
  "no_store_headers =
     [(''content-type'', ''application/json''), (''cache-control'', ''no-store''), (''pragma'', ''no-cache'')]"

definition admin_error_response :: "portal_libs \<Rightarrow> admin_error \<Rightarrow> response" where
  "admin_error_response L e =
     (case admin_outcome (pl_debug L) e of (status, code, msg) \<Rightarrow>
        \<lparr>rs_status = status, rs_headers = no_store_headers,
         rs_body = render_error (pl_json L) (JObject [(''error'',
           JObject [(''message'', JString msg), (''type'', JString ''admin_error''), (''code'', JString code)])])\<rparr>)"

section \<open>Who may call\<close>

datatype manager_refusal = Unauthenticated auth_error | NotManager

definition manager_only ::
  "portal_libs \<Rightarrow> key_snapshot \<Rightarrow> config \<Rightarrow> headers \<Rightarrow> manager_refusal + consumer_context" where
  "manager_only L snap c h =
     (case authenticated (pl_crypto L) (pl_secret L) snap c h of
        Inl e \<Rightarrow> Inl (Unauthenticated e)
      | Inr consumer \<Rightarrow> if is_manager consumer then Inr consumer else Inl NotManager)"

fun manager_refusal_response :: "json_lib \<Rightarrow> manager_refusal \<Rightarrow> response" where
  "manager_refusal_response J (Unauthenticated e) = auth_response J e"
| "manager_refusal_response J NotManager =
     \<lparr>rs_status = 403, rs_headers = no_store_headers,
      rs_body = render_error J (JObject [(''error'',
        JObject [(''message'', JString (''This credential is scoped to one consumer and cannot administer ''
                    @ ''the product; use the manager password'')),
                 (''type'', JString ''permission_error''), (''code'', JString ''manager_required'')])])\<rparr>"

section \<open>Calls\<close>

text \<open>The steps of a handler, each with the tables it finds; the first error ends it.\<close>

definition and_then ::
  "('e + 'a) \<times> portal \<Rightarrow> ('a \<Rightarrow> portal \<Rightarrow> ('e + 'b) \<times> portal) \<Rightarrow> ('e + 'b) \<times> portal" where
  "and_then r f = (case r of (Inl e, st) \<Rightarrow> (Inl e, st) | (Inr x, st) \<Rightarrow> f x st)"

definition write_call ::
  "portal_libs \<Rightarrow> admin_env \<Rightarrow> nat \<Rightarrow>
   (instant \<Rightarrow> fault \<Rightarrow> fault \<Rightarrow> db \<Rightarrow> (billing_error + 'a) \<times> db) \<Rightarrow> portal \<Rightarrow>
   (admin_error + 'a) \<times> portal" where
  "write_call L env i f st =
     (case f (ad_clock env i) (ad_fault env i) (ad_reread env i) (ad_others env i (po_db st)) of
        (r, s) \<Rightarrow> (map_sum (admin_error_of (pl_debug L)) id r, st\<lparr>po_db := s\<rparr>))"

definition read_call ::
  "portal_libs \<Rightarrow> admin_env \<Rightarrow> nat \<Rightarrow> (fault \<Rightarrow> db \<Rightarrow> billing_error + 'a) \<Rightarrow> portal \<Rightarrow>
   (admin_error + 'a) \<times> portal" where
  "read_call L env i f = write_call L env i (\<lambda>_ flt _ s. (f flt s, s))"

text \<open>A failed reload keeps the snapshot and is not reported.\<close>

definition refresh_snapshot :: "portal_libs \<Rightarrow> admin_env \<Rightarrow> nat \<Rightarrow> portal \<Rightarrow> portal" where
  "refresh_snapshot L env i st =
     (let s = ad_others env i (po_db st)
      in \<lparr>po_db = s, po_keys = reload (pl_time L) (ad_clock env i) (ad_refresh_fault env) s
             (ad_meanwhile env) (po_keys st)\<rparr>)"

section \<open>Keys\<close>

record key_view =
  kv_id :: i64
  kv_name :: string
  kv_consumer_id :: string
  kv_key_prefix :: string
  kv_status :: string
  kv_created_at :: string
  kv_updated_at :: string
  kv_expires_at :: "string option"
  kv_revoked_at :: "string option"

definition key_view_of :: "api_key_row \<Rightarrow> key_view" where
  "key_view_of r =
     \<lparr>kv_id = ak_id r, kv_name = ak_name r, kv_consumer_id = ak_consumer_id r,
      kv_key_prefix = ak_key_prefix r,
      kv_status = (case ak_status r of KeyActive \<Rightarrow> ''active'' | KeyRevoked \<Rightarrow> ''revoked''),
      kv_created_at = ak_created_at r, kv_updated_at = ak_updated_at r, kv_expires_at = ak_expires_at r,
      kv_revoked_at = ak_revoked_at r\<rparr>"

record issued_key_view = ik_key :: key_view  ik_secret :: "string option"

definition parse_expiry :: "portal_libs \<Rightarrow> string option \<Rightarrow> admin_error + instant option" where
  "parse_expiry L raw =
     (case raw of
        None \<Rightarrow> Inr None
      | Some text \<Rightarrow>
          if trim text = [] then Inr None
          else (case parse_ts (pl_time L) text of
                  None \<Rightarrow> Inl (AdminBadRequest (''`expires_at` is not ISO 8601: '' @ pl_debug L text))
                | Some t \<Rightarrow> Inr (Some t)))"

definition key_call ::
  "(key_store \<Rightarrow> (api_key_error + 'a) \<times> key_store) \<Rightarrow> portal \<Rightarrow> (admin_error + 'a) \<times> portal" where
  "key_call f st =
     (case f (po_keys st) of (r, ks) \<Rightarrow> (map_sum AdminKey id r, st\<lparr>po_keys := ks\<rparr>))"

definition issued_of :: "api_key_row \<times> string \<Rightarrow> issued_key_view" where
  "issued_of x = \<lparr>ik_key = key_view_of (fst x), ik_secret = Some (snd x)\<rparr>"

definition admin_create_key ::
  "portal_libs \<Rightarrow> admin_env \<Rightarrow> string \<Rightarrow> string \<Rightarrow> string option \<Rightarrow> portal \<Rightarrow>
   (admin_error + issued_key_view) \<times> portal" where
  "admin_create_key L env name consumer expires_raw st =
     (case parse_expiry L expires_raw of
        Inl e \<Rightarrow> (Inl e, st)
      | Inr expires_at \<Rightarrow>
          and_then (key_call (create_key (pl_crypto L) (pl_time L) (pl_secret L) (ad_entropy env) (ad_keys env)
                      name consumer expires_at) st)
            (\<lambda>x st. (Inr (issued_of x), st)))"

definition admin_rotate_key ::
  "portal_libs \<Rightarrow> admin_env \<Rightarrow> i64 \<Rightarrow> portal \<Rightarrow> (admin_error + issued_key_view) \<times> portal" where
  "admin_rotate_key L env i st =
     and_then (key_call (rotate_key (pl_crypto L) (pl_time L) (pl_secret L) (ad_entropy env) (ad_keys env) i) st)
       (\<lambda>x st. (Inr (issued_of x), st))"

definition admin_list_keys ::
  "portal_libs \<Rightarrow> admin_env \<Rightarrow> string option \<Rightarrow> portal \<Rightarrow> (admin_error + key_view list) \<times> portal" where
  "admin_list_keys L env status st =
     (let wanted = map_option to_ascii_lowercase status
      in if wanted \<noteq> None \<and> wanted \<noteq> Some ''active'' \<and> wanted \<noteq> Some ''revoked''
         then (Inl (AdminBadRequest (''`status` must be `active` or `revoked`, not `'' @ the wanted @ ''`'')), st)
         else and_then (key_call (\<lambda>ks. (list_keys (ad_fault env 0) ks, ks)) st)
           (\<lambda>rows st. (Inr (map key_view_of (filter (\<lambda>r.
              case wanted of None \<Rightarrow> True
              | Some w \<Rightarrow> ak_status r = (if w = ''active'' then KeyActive else KeyRevoked)) rows)), st)))"

definition admin_get_key :: "admin_env \<Rightarrow> i64 \<Rightarrow> portal \<Rightarrow> (admin_error + key_view) \<times> portal" where
  "admin_get_key env i st =
     and_then (key_call (\<lambda>ks. (get_key (ad_fault env 0) i ks, ks)) st)
       (\<lambda>row st. (case row of None \<Rightarrow> Inl (AdminKeyNotFound i) | Some r \<Rightarrow> Inr (key_view_of r), st))"

definition admin_update_key ::
  "portal_libs \<Rightarrow> admin_env \<Rightarrow> i64 \<Rightarrow> string option \<Rightarrow> portal \<Rightarrow> (admin_error + key_view) \<times> portal" where
  "admin_update_key L env i name st =
     and_then (key_call (update_name (pl_time L) (ad_keys env) i name) st)
       (\<lambda>r st. (Inr (key_view_of r), st))"

definition admin_revoke_key ::
  "portal_libs \<Rightarrow> admin_env \<Rightarrow> i64 \<Rightarrow> portal \<Rightarrow> (admin_error + key_view) \<times> portal" where
  "admin_revoke_key L env i st =
     and_then (key_call (revoke_key (pl_time L) (ad_keys env) i) st) (\<lambda>r st. (Inr (key_view_of r), st))"

section \<open>Partners\<close>

record model_price_view =
  mv_model :: string
  mv_input_per_million :: string
  mv_cached_input_per_million :: string
  mv_output_per_million :: string

definition model_price_view_of :: "model_price \<Rightarrow> model_price_view" where
  "model_price_view_of m =
     (case as_tuple (mp_prices m) of (input, cached, output) \<Rightarrow>
        \<lparr>mv_model = mp_model m, mv_input_per_million = to_decimal_string (PricePerMillion input),
         mv_cached_input_per_million = to_decimal_string (PricePerMillion cached),
         mv_output_per_million = to_decimal_string (PricePerMillion output)\<rparr>)"

record partner_view =
  pv_consumer_id :: string
  pv_name :: string
  pv_billing_email :: string
  pv_billing_mode :: string
  pv_payment_terms :: i64
  pv_emails_statements :: bool
  pv_created_at :: string
  pv_updated_at :: string
  pv_total_billed :: i64
  pv_total_billed_text :: string
  pv_statement_count :: i64
  pv_models :: "model_price_view list"

definition partner_view_of :: "partner \<Rightarrow> i64 \<Rightarrow> i64 \<Rightarrow> model_price list \<Rightarrow> partner_view" where
  "partner_view_of p billed n models =
     \<lparr>pv_consumer_id = p_consumer_id p, pv_name = p_name p, pv_billing_email = p_billing_email p,
      pv_billing_mode = mode_as_str (p_billing_mode p), pv_payment_terms = p_payment_terms p,
      pv_emails_statements = (owes_payment (p_billing_mode p) \<and> trim (p_billing_email p) \<noteq> []),
      pv_created_at = p_created_at p, pv_updated_at = p_updated_at p, pv_total_billed = billed,
      pv_total_billed_text = micro_display (MicroUsd billed), pv_statement_count = n,
      pv_models = map model_price_view_of models\<rparr>"

record create_partner_request =
  cp_consumer_id :: string
  cp_name :: string
  cp_billing_email :: string
  cp_billing_mode :: string
  cp_payment_terms :: "i64 option"
  cp_models :: "model_price_view list"

record update_partner_request =
  uq_name :: "string option"
  uq_billing_email :: "string option"
  uq_billing_mode :: "string option"
  uq_payment_terms :: "i64 option"

definition DEFAULT_PAYMENT_TERMS_MINUTES :: i64 where
  "DEFAULT_PAYMENT_TERMS_MINUTES = 720"

fun price_error_text :: "(string \<Rightarrow> string) \<Rightarrow> price_error \<Rightarrow> string" where
  "price_error_text dbg (NoPriceSnapshot column) = ''no billing configuration: '' @ column @ '' is not set''"
| "price_error_text dbg IncompleteUsage = ''the provider did not report usage in full''"
| "price_error_text dbg (CachedExceedsInput input cached) =
     ''upstream reported '' @ dec_int cached @ '' cached tokens out of '' @ dec_int input @ '' input tokens''"
| "price_error_text dbg (Overflow context) = ''the amount overflowed micro-dollars while '' @ context"
| "price_error_text dbg (NotANumber txt) = dbg txt @ '' is not a price in dollars per million tokens''"
| "price_error_text dbg (OutOfRange txt) = ''the price '' @ dbg txt @ '' is out of range''"

definition parse_mode :: "portal_libs \<Rightarrow> string \<Rightarrow> admin_error + billing_mode" where
  "parse_mode L raw =
     (case mode_parse (trim raw) of
        None \<Rightarrow> Inl (AdminBadRequest
          (''`billing_mode` must be `invoice` or `reconciliation`, not '' @ pl_debug L raw))
      | Some m \<Rightarrow> Inr m)"

definition parse_price :: "portal_libs \<Rightarrow> string \<Rightarrow> string \<Rightarrow> string \<Rightarrow> admin_error + price_per_million" where
  "parse_price L model field raw =
     (case price_parse (trim raw) of
        Inl e \<Rightarrow> Inl (AdminBadRequest
          (pl_debug L model @ '': `'' @ field @ ''`: '' @ price_error_text (pl_debug L) e))
      | Inr p \<Rightarrow> Inr p)"

fun parse_models_from ::
  "portal_libs \<Rightarrow> string list \<Rightarrow> model_price_view list \<Rightarrow> admin_error + model_price list" where
  "parse_models_from L seen [] = Inr []"
| "parse_models_from L seen (v # vs) =
     (let model = trim (mv_model v)
      in if model = [] then Inl (AdminBadRequest ''a model name must not be blank'')
         else if model \<in> set seen
         then Inl (AdminBadRequest (pl_debug L model @ '' is listed twice; a model has one price''))
         else
           res_bind (parse_price L (mv_model v) ''input_per_million'' (mv_input_per_million v)) (\<lambda>input.
           res_bind (parse_price L (mv_model v) ''cached_input_per_million'' (mv_cached_input_per_million v)) (\<lambda>cached.
           res_bind (parse_price L (mv_model v) ''output_per_million'' (mv_output_per_million v)) (\<lambda>output.
           res_bind (parse_models_from L (model # seen) vs) (\<lambda>ms.
             Inr (\<lparr>mp_model = mv_model v,
                   mp_prices = \<lparr>ps_input = input, ps_cached_input = cached, ps_output = output\<rparr>\<rparr> # ms))))))"

definition parse_models :: "portal_libs \<Rightarrow> model_price_view list \<Rightarrow> admin_error + model_price list" where
  "parse_models L = parse_models_from L []"

text \<open>The totals of a partner: the calls \<open>i\<close> and \<open>i + 1\<close>.\<close>

definition partner_totals ::
  "portal_libs \<Rightarrow> admin_env \<Rightarrow> nat \<Rightarrow> string \<Rightarrow> portal \<Rightarrow> (admin_error + (i64 \<times> i64)) \<times> portal" where
  "partner_totals L env i c st =
     and_then (read_call L env i (\<lambda>flt. total_billed flt c) st) (\<lambda>billed st.
     and_then (read_call L env (i + 1) (\<lambda>flt. count_statements flt (One c)) st) (\<lambda>n st.
       (Inr (micro_as_i64 billed, n), st)))"

definition read_models ::
  "portal_libs \<Rightarrow> admin_env \<Rightarrow> nat \<Rightarrow> string \<Rightarrow> portal \<Rightarrow> (admin_error + model_price list) \<times> portal" where
  "read_models L env i c = read_call L env i (\<lambda>flt. store_models flt c)"

text \<open>
  The blocking task of the handler: the account and its prices are two transactions. The reload and the
  last read come after it.
\<close>

definition open_account ::
  "portal_libs \<Rightarrow> admin_env \<Rightarrow> new_partner \<Rightarrow> model_price list \<Rightarrow> portal \<Rightarrow>
   (admin_error + (partner \<times> i64 \<times> i64)) \<times> portal" where
  "open_account L env new models st =
     and_then (write_call L env 0 (\<lambda>now wflt rflt. create_partner (pl_time L) now wflt rflt new) st) (\<lambda>p st.
     and_then (if models = [] then (Inr (), st)
               else write_call L env 1 (\<lambda>now wflt _. replace_models (pl_time L) now wflt (p_consumer_id p) models) st)
       (\<lambda>_ st. and_then (partner_totals L env 2 (p_consumer_id p) st) (\<lambda>totals st. (Inr (p, totals), st))))"

definition admin_create_partner ::
  "portal_libs \<Rightarrow> admin_env \<Rightarrow> create_partner_request \<Rightarrow> portal \<Rightarrow> (admin_error + partner_view) \<times> portal" where
  "admin_create_partner L env req st =
     (case parse_mode L (cp_billing_mode req) of
        Inl e \<Rightarrow> (Inl e, st)
      | Inr mode \<Rightarrow>
          (case parse_models L (cp_models req) of
             Inl e \<Rightarrow> (Inl e, st)
           | Inr models \<Rightarrow>
               (let new = \<lparr>np_consumer_id = cp_consumer_id req, np_name = cp_name req,
                           np_billing_email = cp_billing_email req, np_billing_mode = mode,
                           np_payment_terms = (case cp_payment_terms req of
                              None \<Rightarrow> DEFAULT_PAYMENT_TERMS_MINUTES | Some t \<Rightarrow> t)\<rparr>
                in and_then (open_account L env new models st) (\<lambda>(p, billed, n) st.
                     and_then (read_models L env 5 (p_consumer_id p) (refresh_snapshot L env 4 st)) (\<lambda>ms st.
                       (Inr (partner_view_of p billed n ms), st))))))"

text \<open>The list reads three times for each partner; the calls are numbered as they come.\<close>

fun view_partners ::
  "portal_libs \<Rightarrow> admin_env \<Rightarrow> nat \<Rightarrow> partner list \<Rightarrow> portal \<Rightarrow> (admin_error + partner_view list) \<times> portal" where
  "view_partners L env i [] st = (Inr [], st)"
| "view_partners L env i (p # ps) st =
     and_then (partner_totals L env i (p_consumer_id p) st) (\<lambda>(billed, n) st.
     and_then (read_models L env (i + 2) (p_consumer_id p) st) (\<lambda>ms st.
     and_then (view_partners L env (i + 3) ps st) (\<lambda>vs st.
       (Inr (partner_view_of p billed n ms # vs), st))))"

definition admin_list_partners ::
  "portal_libs \<Rightarrow> admin_env \<Rightarrow> portal \<Rightarrow> (admin_error + partner_view list) \<times> portal" where
  "admin_list_partners L env st =
     and_then (read_call L env 0 list_partners st) (\<lambda>ps st. view_partners L env 1 ps st)"

definition admin_get_partner ::
  "portal_libs \<Rightarrow> admin_env \<Rightarrow> string \<Rightarrow> portal \<Rightarrow> (admin_error + partner_view) \<times> portal" where
  "admin_get_partner L env c st =
     and_then (read_call L env 0 (\<lambda>flt. require_partner flt c) st) (\<lambda>p st.
     and_then (partner_totals L env 1 c st) (\<lambda>(billed, n) st.
     and_then (read_models L env 3 c st) (\<lambda>ms st. (Inr (partner_view_of p billed n ms), st))))"

definition patch_of :: "portal_libs \<Rightarrow> update_partner_request \<Rightarrow> admin_error + partner_patch" where
  "patch_of L req =
     res_bind (case uq_billing_mode req of
                 None \<Rightarrow> Inr None | Some raw \<Rightarrow> res_bind (parse_mode L raw) (\<lambda>m. Inr (Some m)))
       (\<lambda>mode. if is_some_and (\<lambda>t. t < 0) (uq_payment_terms req)
               then Inl (AdminBadRequest ''payment_terms_minutes must not be negative'')
               else Inr \<lparr>pp_name = uq_name req, pp_billing_email = uq_billing_email req,
                         pp_billing_mode = mode, pp_payment_terms = uq_payment_terms req\<rparr>)"

definition admin_update_partner ::
  "portal_libs \<Rightarrow> admin_env \<Rightarrow> string \<Rightarrow> update_partner_request \<Rightarrow> portal \<Rightarrow>
   (admin_error + partner_view) \<times> portal" where
  "admin_update_partner L env c req st =
     (case patch_of L req of
        Inl e \<Rightarrow> (Inl e, st)
      | Inr patch \<Rightarrow>
          and_then (write_call L env 0 (\<lambda>now wflt rflt. update_partner (pl_time L) now wflt rflt c patch) st)
            (\<lambda>p st. and_then (partner_totals L env 1 c st) (\<lambda>(billed, n) st.
                    and_then (read_models L env 3 c st) (\<lambda>ms st.
                      (Inr (partner_view_of p billed n ms), refresh_snapshot L env 4 st)))))"

definition admin_delete_partner ::
  "portal_libs \<Rightarrow> admin_env \<Rightarrow> string \<Rightarrow> portal \<Rightarrow> (admin_error + string) \<times> portal" where
  "admin_delete_partner L env c st =
     and_then (read_call L env 0 (\<lambda>flt. count_statements flt (One c)) st) (\<lambda>n st.
       if 0 < n
       then (Inl (admin_error_of (pl_debug L) (Invalid (Message (''partner '' @ c @ '' has '' @ dec_int n
               @ '' statement(s) and cannot be deleted; their billing history is a financial record'')))), st)
       else and_then (write_call L env 1 (\<lambda>_ wflt _. delete_partner wflt c) st)
              (\<lambda>_ st. (Inr c, refresh_snapshot L env 2 st)))"

definition admin_get_models ::
  "portal_libs \<Rightarrow> admin_env \<Rightarrow> string \<Rightarrow> portal \<Rightarrow> (admin_error + model_price_view list) \<times> portal" where
  "admin_get_models L env c st =
     and_then (read_call L env 0 (\<lambda>flt. require_partner flt c) st) (\<lambda>_ st.
     and_then (read_models L env 1 c st) (\<lambda>ms st. (Inr (map model_price_view_of ms), st)))"

definition admin_replace_models ::
  "portal_libs \<Rightarrow> admin_env \<Rightarrow> string \<Rightarrow> model_price_view list \<Rightarrow> portal \<Rightarrow>
   (admin_error + model_price_view list) \<times> portal" where
  "admin_replace_models L env c views st =
     (case parse_models L views of
        Inl e \<Rightarrow> (Inl e, st)
      | Inr models \<Rightarrow>
          and_then (write_call L env 0 (\<lambda>now wflt _. replace_models (pl_time L) now wflt c models) st) (\<lambda>_ st.
          and_then (read_models L env 2 c (refresh_snapshot L env 1 st)) (\<lambda>ms st.
            (Inr (map model_price_view_of ms), st))))"

section \<open>Statements\<close>

text \<open>The lists, the reads of three and four calls, over the tables each call finds.\<close>

definition tables_at :: "admin_env \<Rightarrow> nat \<Rightarrow> db \<Rightarrow> nat \<Rightarrow> db" where
  "tables_at env i s k = fold (ad_others env) [i..<Suc (i + k)] s"

definition read_calls ::
  "portal_libs \<Rightarrow> admin_env \<Rightarrow> nat \<Rightarrow> nat \<Rightarrow>
   ((nat \<Rightarrow> fault) \<Rightarrow> (nat \<Rightarrow> db) \<Rightarrow> billing_error + 'a) \<Rightarrow> portal \<Rightarrow> (admin_error + 'a) \<times> portal" where
  "read_calls L env i calls f st =
     (map_sum (admin_error_of (pl_debug L)) id
        (f (\<lambda>k. ad_fault env (i + k)) (tables_at env i (po_db st))),
      st\<lparr>po_db := tables_at env i (po_db st) (calls - 1)\<rparr>)"

definition admin_list_statements ::
  "portal_libs \<Rightarrow> admin_env \<Rightarrow> consumer_context \<Rightarrow> statements_query \<Rightarrow> portal \<Rightarrow>
   (admin_error + statement_list) \<times> portal" where
  "admin_list_statements L env manager q =
     read_calls L env 0 3 (\<lambda>flt. read_statement_list flt (resolve_scope manager (sq_consumers q)) q
       (\<lambda>statement. view_for_manager statement None))"

definition admin_get_statement ::
  "portal_libs \<Rightarrow> admin_env \<Rightarrow> i64 \<Rightarrow> portal \<Rightarrow> (admin_error + statement_view) \<times> portal" where
  "admin_get_statement L env i st =
     and_then (read_call L env 0 (\<lambda>flt. get_statement_by_id flt i AllConsumers) st) (\<lambda>found st.
       case found of
         None \<Rightarrow> (Inl (AdminStatementNotFound i), st)
       | Some statement \<Rightarrow>
           and_then (read_call L env 1 (\<lambda>flt. scoped_lines flt i AllConsumers) st) (\<lambda>lines st.
             (Inr (view_for_manager statement (Some (map line_view_of lines))), st)))"

record mark_paid_request =
  pq_paid_by :: "string option"
  pq_reference :: "string option"
  pq_note :: "string option"

definition non_empty :: "string option \<Rightarrow> string option" where
  "non_empty raw = Option.bind raw (\<lambda>s. if trim s = [] then None else Some (trim s))"

definition payer_of :: "mark_paid_request \<Rightarrow> string" where
  "payer_of req = (case non_empty (pq_paid_by req) of None \<Rightarrow> ''manager'' | Some s \<Rightarrow> s)"

text \<open>The flag says whether this request recorded the payment.\<close>

definition admin_mark_paid ::
  "portal_libs \<Rightarrow> admin_env \<Rightarrow> i64 \<Rightarrow> mark_paid_request \<Rightarrow> portal \<Rightarrow>
   (admin_error + (statement_view \<times> bool)) \<times> portal" where
  "admin_mark_paid L env i req st =
     and_then (read_call L env 0 (\<lambda>flt. get_statement_by_id flt i AllConsumers) st) (\<lambda>found st.
       case found of
         None \<Rightarrow> (Inl (AdminStatementNotFound i), st)
       | Some existing \<Rightarrow>
           if \<not> is_some_and owes_payment (billing_mode_value existing)
           then (Inl (admin_error_of (pl_debug L) (StatementNotPayable i (st_billing_mode existing))), st)
           else if is_paid existing then (Inr (view_for_manager existing None, False), st)
           else
             and_then (write_call L env 1 (\<lambda>now wflt rflt. mark_paid (pl_time L) now wflt rflt i
                         (payer_of req) (non_empty (pq_reference req)) (non_empty (pq_note req))) st)
               (\<lambda>statement st. (Inr (view_for_manager statement None, True), st)))"

record billing_summary =
  bs_partners :: i64
  bs_suspended_partners :: i64
  bs_statements :: i64
  bs_unpaid_statements :: i64
  bs_unpaid_total :: i64
  bs_unpaid_total_text :: string

definition read_summary ::
  "time_crate \<Rightarrow> instant \<Rightarrow> instant \<Rightarrow> scope \<Rightarrow> (nat \<Rightarrow> fault) \<Rightarrow> (nat \<Rightarrow> db) \<Rightarrow>
   billing_error + billing_summary" where
  "read_summary T now read_now sc flt s =
     res_bind (count_statements (flt 0) sc (s 0)) (\<lambda>statements.
     res_bind (outstanding_totals (flt 1) sc (s 1)) (\<lambda>(unpaid_count, unpaid_total).
     res_bind (statuses_in_scope T (\<lambda>k. flt (2 + k)) sc now read_now (\<lambda>k. s (2 + k))) (\<lambda>statuses.
       Inr \<lparr>bs_partners = int (length statuses),
            bs_suspended_partners = int (length (filter ss_suspended statuses)),
            bs_statements = statements, bs_unpaid_statements = unpaid_count,
            bs_unpaid_total = micro_as_i64 unpaid_total,
            bs_unpaid_total_text = micro_display unpaid_total\<rparr>)))"

definition admin_get_summary ::
  "portal_libs \<Rightarrow> admin_env \<Rightarrow> consumer_context \<Rightarrow> statements_query \<Rightarrow> portal \<Rightarrow>
   (admin_error + billing_summary) \<times> portal" where
  "admin_get_summary L env manager q =
     read_calls L env 0 4 (read_summary (pl_time L) (ad_clock env 0) (ad_clock env 3)
       (resolve_scope manager (sq_consumers q)))"

section \<open>Routes\<close>

datatype admin_request =
    CreateKey string string "string option"
  | RotateKey i64
  | ListKeys "string option"
  | GetKey i64
  | UpdateKey i64 "string option"
  | RevokeKey i64
  | CreatePartner create_partner_request
  | ListPartners
  | GetPartner string
  | UpdatePartner string update_partner_request
  | DeletePartner string
  | GetModels string
  | ReplaceModels string "model_price_view list"
  | ListStatements statements_query
  | GetStatement i64
  | MarkPaid i64 mark_paid_request
  | GetSummary statements_query

datatype admin_view =
    IssuedKey issued_key_view
  | OneKey key_view
  | Keys "key_view list"
  | OnePartner partner_view
  | Partners "partner_view list"
  | Deleted string
  | Models "model_price_view list"
  | OneStatement statement_view
  | StatementPage statement_list
  | Summary billing_summary

datatype admin_answer = Refused response | Failed admin_error | Answer nat admin_view

definition answered :: "nat \<Rightarrow> ('a \<Rightarrow> admin_view) \<Rightarrow> (admin_error + 'a) \<times> portal \<Rightarrow> admin_answer \<times> portal" where
  "answered status view r =
     (case r of (Inl e, st) \<Rightarrow> (Failed e, st) | (Inr x, st) \<Rightarrow> (Answer status (view x), st))"

fun admin_handle ::
  "portal_libs \<Rightarrow> admin_env \<Rightarrow> consumer_context \<Rightarrow> admin_request \<Rightarrow> portal \<Rightarrow> admin_answer \<times> portal" where
  "admin_handle L env m (CreateKey name consumer expires) st =
     answered 201 IssuedKey (admin_create_key L env name consumer expires st)"
| "admin_handle L env m (RotateKey i) st = answered 201 IssuedKey (admin_rotate_key L env i st)"
| "admin_handle L env m (ListKeys status) st = answered 200 Keys (admin_list_keys L env status st)"
| "admin_handle L env m (GetKey i) st = answered 200 OneKey (admin_get_key env i st)"
| "admin_handle L env m (UpdateKey i name) st = answered 200 OneKey (admin_update_key L env i name st)"
| "admin_handle L env m (RevokeKey i) st = answered 200 OneKey (admin_revoke_key L env i st)"
| "admin_handle L env m (CreatePartner req) st = answered 201 OnePartner (admin_create_partner L env req st)"
| "admin_handle L env m ListPartners st = answered 200 Partners (admin_list_partners L env st)"
| "admin_handle L env m (GetPartner c) st = answered 200 OnePartner (admin_get_partner L env c st)"
| "admin_handle L env m (UpdatePartner c req) st = answered 200 OnePartner (admin_update_partner L env c req st)"
| "admin_handle L env m (DeletePartner c) st = answered 200 Deleted (admin_delete_partner L env c st)"
| "admin_handle L env m (GetModels c) st = answered 200 Models (admin_get_models L env c st)"
| "admin_handle L env m (ReplaceModels c views) st = answered 200 Models (admin_replace_models L env c views st)"
| "admin_handle L env m (ListStatements q) st = answered 200 StatementPage (admin_list_statements L env m q st)"
| "admin_handle L env m (GetStatement i) st = answered 200 OneStatement (admin_get_statement L env i st)"
| "admin_handle L env m (MarkPaid i req) st =
     answered 200 (\<lambda>x. OneStatement (fst x)) (admin_mark_paid L env i req st)"
| "admin_handle L env m (GetSummary q) st = answered 200 Summary (admin_get_summary L env m q st)"

text \<open>Every handler takes the extractor \<open>ManagerOnly\<close>, which runs before the rest of the request is read.\<close>

definition admin_route ::
  "portal_libs \<Rightarrow> admin_env \<Rightarrow> config \<Rightarrow> headers \<Rightarrow> admin_request \<Rightarrow> portal \<Rightarrow> admin_answer \<times> portal" where
  "admin_route L env c h req st =
     (case manager_only L (ks_snapshot (po_keys st)) c h of
        Inl refusal \<Rightarrow> (Refused (manager_refusal_response (pl_json L) refusal), st)
      | Inr manager \<Rightarrow> admin_handle L env manager req st)"

section \<open>Probes\<close>

record ready_view =
  rd_ready :: bool
  rd_ledger_ready :: bool
  rd_shutting_down :: bool
  rd_queue_depth :: nat
  rd_committed :: nat

definition readyz :: "bool \<Rightarrow> writer \<Rightarrow> nat \<times> ready_view" where
  "readyz shutting_down w =
     (let ready = \<not> shutting_down \<and> is_ready w
      in (if ready then 200 else 503,
          \<lparr>rd_ready = ready, rd_ledger_ready = is_ready w, rd_shutting_down = shutting_down,
           rd_queue_depth = queue_depth w, rd_committed = w_committed w\<rparr>))"

end
