(* ===== verification/Api_Properties.thy ===== *)
theory Api_Properties
  imports Admin_Api Key_Properties
begin

text \<open>
  What the HTTP surfaces over the store promise: the manager's API opens to the configured password
  alone, a partner reads its own statements and nothing of the operator's, the status page says what the
  request path does, a recorded payment lifts the suspension, and a price list survives being read and
  put back.
\<close>

lemma map_sum_Inr_iff [simp]: "map_sum f id r = Inr y \<longleftrightarrow> r = Inr y"
  by (cases r) simp_all

section \<open>Who administers\<close>

text \<open>
  C24: the manager's API serves the configured manager password and nothing else. A request whose bearer
  token is not that password, or opens a partner's key, changes nothing and is refused with 401 or 403; the
  refusal depends on the headers alone and not on what was asked or what the tables hold.
\<close>

theorem admin_serves_the_manager_only:
  "(\<exists>manager token. cf_manager c = Some manager \<and> mg_password manager = token \<and> token \<noteq> []
      \<and> extract_bearer_token h = Inr token
      \<and> authenticate_key (pl_crypto L) (pl_secret L) (ks_snapshot (po_keys st)) token = None
      \<and> admin_route L env c h req st = admin_handle L env context_manager req st)
   \<or> (\<exists>refusal. rs_status refusal \<in> {401, 403}
      \<and> (\<forall>env' req' st'. ks_snapshot (po_keys st') = ks_snapshot (po_keys st) \<longrightarrow>
           admin_route L env' c h req' st' = (Refused refusal, st')))"
proof (cases "manager_only L (ks_snapshot (po_keys st)) c h")
  case (Inl refusal)
  have "rs_status (manager_refusal_response (pl_json L) refusal) \<in> {401, 403}"
    by (cases refusal) (simp_all add: auth_response_def)
  then show ?thesis using Inl by (intro disjI2) (auto simp: admin_route_def)
next
  case (Inr who)
  then have who: "authenticated (pl_crypto L) (pl_secret L) (ks_snapshot (po_keys st)) c h = Inr who" "is_manager who"
    by (auto simp: manager_only_def split: sum.splits if_splits)
  obtain token where token: "extract_bearer_token h = Inr token"
      "(\<exists>partner. authenticate_key (pl_crypto L) (pl_secret L) (ks_snapshot (po_keys st)) token = Some partner
          \<and> who = context_new partner)
       \<or> authenticate_key (pl_crypto L) (pl_secret L) (ks_snapshot (po_keys st)) token = None
         \<and> find_manager c token \<noteq> None \<and> who = context_manager"
    using authenticated_cases [OF who(1)] by blast
  moreover have "\<not> is_manager (context_new partner)" for partner
    by (simp add: is_manager_def context_new_def)
  ultimately have "authenticate_key (pl_crypto L) (pl_secret L) (ks_snapshot (po_keys st)) token = None"
      "find_manager c token \<noteq> None" "who = context_manager"
    using who(2) by auto
  then show ?thesis
    using token(1) Inr unfolding find_manager_iff by (intro disjI1) (auto simp: admin_route_def)
qed

section \<open>What a partner reads\<close>

definition own_view :: "string \<Rightarrow> db \<Rightarrow> statement_row list \<times> partner_row option \<times> (i64 \<Rightarrow> statement_line list)" where
  "own_view c s =
     (statements_where (\<lambda>r. st_consumer_id r = c) s, find_partner c s,
      (\<lambda>i. if i \<in> st_id ` set (statements_where (\<lambda>r. st_consumer_id r = c) s) then lines_of i s else []))"

lemma own_viewD:
  assumes "own_view c s = own_view c t"
  shows "statements_where (\<lambda>r. st_consumer_id r = c) s = statements_where (\<lambda>r. st_consumer_id r = c) t"
    "find_partner c s = find_partner c t"
    "i \<in> st_id ` set (statements_where (\<lambda>r. st_consumer_id r = c) t) \<Longrightarrow> lines_of i s = lines_of i t"
  using assms by (auto simp: own_view_def fun_eq_iff split: if_splits)

lemma filter_own:
  "filter (\<lambda>r. P r \<and> st_consumer_id r = c) (daily_statements s)
   = filter P (statements_where (\<lambda>r. st_consumer_id r = c) s)"
  by (simp add: statements_where_def conj_commute)

lemma find_own:
  "find (\<lambda>r. P r \<and> st_consumer_id r = c) (daily_statements s)
   = find P (statements_where (\<lambda>r. st_consumer_id r = c) s)"
proof -
  have "find (\<lambda>r. P r \<and> Q r) rows = find P (filter Q rows)" for Q :: "statement_row \<Rightarrow> bool" and rows
    by (induction rows) auto
  then show ?thesis by (simp add: statements_where_def)
qed

lemma own_reads:
  assumes own: "own_view c s = own_view c t"
  shows "get_statement_by_id flt i (One c) s = get_statement_by_id flt i (One c) t"
    "list_statements flt (One c) limit offset unpaid s = list_statements flt (One c) limit offset unpaid t"
    "count_statements flt (One c) s = count_statements flt (One c) t"
    "outstanding_totals flt (One c) s = outstanding_totals flt (One c) t"
    "scoped_lines flt i (One c) s = scoped_lines flt i (One c) t"
    "get_partner flt c s = get_partner flt c t"
    "overdue_statements T now flt (Some c) s = overdue_statements T now flt (Some c) t"
proof -
  note D = own_viewD [OF own]
  have where_own: "statements_where (\<lambda>r. st_consumer_id r = c \<and> P r) u
      = filter P (statements_where (\<lambda>r. st_consumer_id r = c) u)" for P u
    by (simp add: statements_where_def conj_commute)
  show "get_statement_by_id flt i (One c) s = get_statement_by_id flt i (One c) t"
    by (cases flt) (simp_all add: get_statement_by_id_def find_own D(1))
  show "list_statements flt (One c) limit offset unpaid s = list_statements flt (One c) limit offset unpaid t"
    by (cases flt) (simp_all add: list_statements_def where_own D(1))
  show "count_statements flt (One c) s = count_statements flt (One c) t"
    by (cases flt) (simp_all add: count_statements_def D(1))
  show "outstanding_totals flt (One c) s = outstanding_totals flt (One c) t"
    by (cases flt) (simp_all add: outstanding_totals_def where_own D(1))
  show "get_partner flt c s = get_partner flt c t"
    by (cases flt) (simp_all add: get_partner_def D(2))
  have overdue: "statements_where (overdue_where stamp (Some c)) u
      = filter (overdue_where stamp None) (statements_where (\<lambda>r. st_consumer_id r = c) u)" for stamp u
    by (auto simp: statements_where_def overdue_where_def intro!: filter_cong)
  show "overdue_statements T now flt (Some c) s = overdue_statements T now flt (Some c) t"
    by (cases flt) (simp_all add: overdue_statements_def overdue D(1))
  show "scoped_lines flt i (One c) s = scoped_lines flt i (One c) t"
  proof -
    have lines: "map (\<lambda>_. l) (filter (\<lambda>r. st_id r = sl_statement_id l \<and> st_consumer_id r = c) (daily_statements u))
        = map (\<lambda>_. l) (filter (\<lambda>r. st_id r = sl_statement_id l) (statements_where (\<lambda>r. st_consumer_id r = c) u))" for l u
      by (simp add: filter_own)
    have same: "concat (map (\<lambda>l. map (\<lambda>_. l) (filter (\<lambda>r. st_id r = sl_statement_id l)
          (statements_where (\<lambda>r. st_consumer_id r = c) u))) (lines_of i u))
        = (if i \<in> st_id ` set (statements_where (\<lambda>r. st_consumer_id r = c) u)
           then concat (map (\<lambda>l. map (\<lambda>_. l) (filter (\<lambda>r. st_id r = i)
             (statements_where (\<lambda>r. st_consumer_id r = c) u))) (lines_of i u)) else [])" for u
    proof -
      have id: "sl_statement_id l = i" if "l \<in> set (lines_of i u)" for l using that by (simp add: lines_of_def)
      have none: "filter (\<lambda>r. st_id r = i) (statements_where (\<lambda>r. st_consumer_id r = c) u) = []"
        if "i \<notin> st_id ` set (statements_where (\<lambda>r. st_consumer_id r = c) u)"
        using that by (auto simp: filter_empty_conv)
      show ?thesis using id none by (auto simp: cong: map_cong)
    qed
    show ?thesis
      by (cases flt) (simp_all add: scoped_lines_def lines same D(1) D(3))
  qed
qed

definition no_operator_fields :: "statement_view \<Rightarrow> bool" where
  "no_operator_fields v \<longleftrightarrow>
     vw_paid_by v = None \<and> vw_payment_reference v = None \<and> vw_payment_note v = None
     \<and> vw_email_sent_at v = None \<and> vw_email_attempts v = None \<and> vw_email_last_error v = None
     \<and> vw_email_next_retry_at v = None"

lemma partner_views [simp]:
  "view_for (context_new p) st ls = view_for_partner st ls" "no_operator_fields (view_for_partner st ls)"
  "vw_consumer_id (view_for_partner st ls) = st_consumer_id st"
  by (simp_all add: view_for_def is_manager_def context_new_def view_for_partner_def no_operator_fields_def
      common_view_def)

lemma own_statement:
  "get_statement_by_id flt i (One c) s = Inr (Some st) \<Longrightarrow> st_consumer_id st = c"
  by (cases flt) (auto simp: get_statement_by_id_def db_result_def find_Some_iff row_to_statement_def statement.defs)

lemma own_statements:
  assumes "list_statements flt (One c) limit offset unpaid s = Inr sts" "st \<in> set sts"
  shows "st_consumer_id st = c"
proof -
  have "flt = None" using assms(1) by (cases flt) (simp_all add: list_statements_def db_result_def)
  with assms obtain r where "r \<in> set (daily_statements s)" "st_consumer_id r = c" "st = row_to_statement r"
    by (fastforce simp: list_statements_def db_result_def statements_where_def split: if_splits
        dest: subsetD [OF sql_limit_subset])
  then show ?thesis by (simp add: row_to_statement_def statement.defs)
qed

text \<open>
  C25: the billing API of a partner shows the partner's own account. Over any two runs whose tables agree, at
  each read, on the partner's record, its statements and their lines, the list, a single statement and the
  status page answer the same, errors included, whatever the query asks for; and a statement that is shown
  belongs to the partner and carries none of the operator's fields: who recorded a payment, its reference
  and note, and the delivery of the email.
\<close>

theorem billing_api_isolates:
  assumes own: "\<And>i. own_view (rc_consumer_id p) (s i) = own_view (rc_consumer_id p) (t i)"
  shows "billing_list_statements dbg flt (context_new p) q s = billing_list_statements dbg flt (context_new p) q t
    \<and> billing_get_statement dbg flt (context_new p) i q s = billing_get_statement dbg flt (context_new p) i q t
    \<and> billing_get_status dbg T clock read_clock flt (context_new p) q s
        = billing_get_status dbg T clock read_clock flt (context_new p) q t
    \<and> (\<forall>page. billing_list_statements dbg flt (context_new p) q s = Inr page \<longrightarrow>
         (\<forall>v \<in> set (sn_statements page). vw_consumer_id v = rc_consumer_id p \<and> no_operator_fields v))
    \<and> (\<forall>v. billing_get_statement dbg flt (context_new p) i q s = Inr v \<longrightarrow>
         vw_consumer_id v = rc_consumer_id p \<and> no_operator_fields v)"
proof (intro conjI allI impI)
  note reads = own_reads [OF own]
  show "billing_list_statements dbg flt (context_new p) q s = billing_list_statements dbg flt (context_new p) q t"
    by (simp add: billing_list_statements_def read_statement_list_def key_context_scope reads)
  show "billing_get_statement dbg flt (context_new p) i q s = billing_get_statement dbg flt (context_new p) i q t"
    by (simp add: billing_get_statement_def key_context_scope reads)
  show "billing_get_status dbg T clock read_clock flt (context_new p) q s
      = billing_get_status dbg T clock read_clock flt (context_new p) q t"
    by (simp add: billing_get_status_def statuses_in_scope_def key_context_scope reads)
next
  fix page assume page: "billing_list_statements dbg flt (context_new p) q s = Inr page"
  then obtain limit offset rows where rows:
      "list_statements (flt 0) (One (rc_consumer_id p)) limit offset (sq_unpaid q) (s 0) = Inr rows"
      "sn_statements page = map (\<lambda>st. view_for_partner st None) rows"
    by (auto simp: billing_list_statements_def read_statement_list_def key_context_scope map_sum_Inr_iff
        res_bind_Inr_iff split: prod.splits sum.splits)
  then show "\<forall>v \<in> set (sn_statements page). vw_consumer_id v = rc_consumer_id p \<and> no_operator_fields v"
    using own_statements [OF rows(1)] by simp
next
  fix v assume "billing_get_statement dbg flt (context_new p) i q s = Inr v"
  then obtain st ls where "get_statement_by_id (flt 0) i (One (rc_consumer_id p)) (s 0) = Inr (Some st)"
      "v = view_for_partner st ls"
    by (auto simp: billing_get_statement_def key_context_scope Let_def map_sum_Inr_iff res_bind_Inr_iff
        split: sum.splits option.splits)
  then show "vw_consumer_id v = rc_consumer_id p" "no_operator_fields v"
    using own_statement by simp_all
qed

definition acme_client :: runtime_config where
  "acme_client =
     \<lparr>rc_consumer_id = ''acme'', rc_key_name = ''production'', rc_billing_mode = Invoice,
      rc_billing_email = ''billing@acme.test'', rc_service_status = Active, rc_models = []\<rparr>"

lemma issued_partners: "partners issued_db = [sample_partner]"
  by (simp add: issued_db_def write_statement_def validate_draft_def draft_total_def
      micro_checked_add_def checked_add_i64_def in_i64_def write_statement_tx_def draft_row_def
      statement_check_def find_statement_def has_partner_def insert_line_def draft_line_def
      statement_line_check_def as_tuple_def wrap_i64_def fresh_id_def CURRENCY_def pool_write_def
      Let_def sample_defs)

text \<open>Two databases that differ in another account.\<close>

theorem billing_api_isolates_witness:
  "\<exists>page. billing_list_statements id (\<lambda>_. None) (context_new acme_client) statements_query_default (\<lambda>_. issued_db) = Inr page
     \<and> billing_list_statements id (\<lambda>_. None) (context_new acme_client) statements_query_default
          (\<lambda>_. issued_db\<lparr>partners := partners issued_db @ [sample_partner\<lparr>pr_consumer_id := ''rival''\<rparr>]\<rparr>) = Inr page
     \<and> sn_statements page \<noteq> [] \<and> (\<forall>v \<in> set (sn_statements page). vw_consumer_id v = ''acme'' \<and> no_operator_fields v)"
proof -
  let ?t = "issued_db\<lparr>partners := partners issued_db @ [sample_partner\<lparr>pr_consumer_id := ''rival''\<rparr>]\<rparr>"
  have "own_view (rc_consumer_id acme_client) issued_db = own_view (rc_consumer_id acme_client) ?t"
    by (simp add: own_view_def acme_client_def statements_where_def find_partner_def lines_of_def
        issued_partners sample_partner_def cong: if_cong)
  note isolated = billing_api_isolates [of acme_client "\<lambda>_. issued_db" "\<lambda>_. ?t" id "\<lambda>_. None" statements_query_default, OF this]
  obtain page where page: "billing_list_statements id (\<lambda>_. None) (context_new acme_client)
      statements_query_default (\<lambda>_. issued_db) = Inr page" "sn_statements page \<noteq> []"
    by (simp add: billing_list_statements_def read_statement_list_def key_context_scope list_statements_def
        count_statements_def outstanding_totals_def statements_where_def issued_statements draft_row_def
        acme_client_def statements_query_default_def statements_page_def sample_draft_def db_result_def
        STATEMENTS_MAX_LIMIT_def STATEMENTS_DEFAULT_LIMIT_def sql_limit_def sql_sum_def unpaid_invoice_def in_i64_def
        split: prod.split)
  have "rc_consumer_id acme_client = ''acme''" by (simp add: acme_client_def)
  with page isolated show ?thesis by metis
qed

section \<open>The status page and the request path\<close>

lemma mode_of_partner:
  assumes "find_partner c s = Some row" "list_all partner_row_check (partners s)"
  shows "mode_as_str (p_billing_mode (row_to_partner row)) = mode_text_of s c"
proof -
  have "partner_row_check row"
    using assms find_SomeD [of "\<lambda>r. pr_consumer_id r = c" "partners s" row] by (auto simp: find_partner_def list_all_iff)
  then have "pr_billing_mode row = ''invoice'' \<or> pr_billing_mode row = ''reconciliation''"
    by (simp add: partner_row_check_def)
  then show ?thesis
    using assms(1) by (auto simp: row_to_partner_def mode_text_of_def find_partner_def mode_parse_def)
qed

text \<open>An invoice that becomes due between the two readings of the clock is shown and does not suspend.\<close>

lemma status_of_later_read:
  assumes laws: "time_laws T" "four_digit_instant now" "four_digit_instant later" "now \<le> later"
    and inv: "billing_invariant s" "due_texts T s"
  shows "res_bind (overdue_statements T later None (Some c) s) (\<lambda>sts. Inr (status_for T mode now (map to_overdue_row sts)))
    = derived_status T now mode c s"
proof (cases "mode = ''invoice''")
  case True
  let ?k = "\<lambda>r. (st_due_at r, st_id r)" and ?P = "\<lambda>r. row_suspends T now (to_overdue_row r)"
  let ?rows = "\<lambda>at. sort_key ?k (statements_where (overdue_where (format_ts T at) (Some c)) s)"
  have same: "overdue_where (format_ts T later) (Some c) r \<and> ?P r \<longleftrightarrow> overdue_where (format_ts T now) (Some c) r \<and> ?P r"
    if r: "r \<in> set (daily_statements s)" for r
  proof -
    note at_now = overdue_candidate_iff [OF laws(1,2) inv r, of c]
      and at_later = overdue_candidate_iff [OF laws(1,3) inv r, of c]
    have later: "row_suspends T later (to_overdue_row r)" if "?P r"
      using that laws(4) by (auto simp: row_suspends_def split: option.splits)
    have "overdue_at T now c r due" if "?P r" "overdue_at T later c r due" for due
      using that time_laws.parse_ts_format_ts [OF laws(1), of due]
      by (auto simp: overdue_at_def row_suspends_def to_overdue_row_def)
    moreover have "overdue_at T later c r due" if "overdue_at T now c r due" for due
      using that laws(4) by (auto simp: overdue_at_def)
    ultimately show ?thesis using at_now at_later later by blast
  qed
  have "filter ?P (?rows later) = filter ?P (?rows now)"
    unfolding filter_sort statements_where_def filter_filter by (rule arg_cong [OF filter_cong]) (simp_all add: same)
  then have "find ?P (?rows later) = find ?P (?rows now)"
    by (simp add: find_hd_filter)
  then show ?thesis
    by (simp add: True derived_status_eq overdue_statements_def db_result_def status_for_first o_def find_map_row
        split: option.split)
qed (simp add: derived_status_def overdue_statements_def db_result_def status_for_reconciliation)

lemma own_status:
  assumes "find_partner c s = Some row" "list_all partner_row_check (partners s)"
    and "time_laws T" "four_digit_instant now" "four_digit_instant later" "now \<le> later"
    and "billing_invariant s" "due_texts T s"
  shows "\<exists>rows. statuses_in_scope T (\<lambda>_. None) (One c) now later (\<lambda>_. s) =
    res_bind (derived_status T now (mode_text_of s c) c s) (\<lambda>status. Inr [view_status T c status rows])"
proof -
  have pid: "p_consumer_id (row_to_partner row) = c"
    using assms(1) find_SomeD [of "\<lambda>r. pr_consumer_id r = c" "partners s" row] by (simp add: row_to_partner_def find_partner_def)
  obtain sts where sts: "overdue_statements T later None (Some c) s = Inr sts"
    by (simp add: overdue_statements_def db_result_def)
  have all: "filter (\<lambda>st. st_consumer_id st = c) sts = sts"
  proof (rule filter_True, rule ballI)
    fix st assume "st \<in> set sts"
    then show "st_consumer_id st = c"
      using sts by (auto simp: overdue_statements_def db_result_def statements_where_def overdue_where_def
          row_to_statement_def statement.defs)
  qed
  have "get_partner None c s = Inr (Some (row_to_partner row))"
    using assms(1) by (simp add: get_partner_def db_result_def)
  then show ?thesis
    using sts all status_of_later_read [OF assms(3-8), of c "mode_text_of s c", symmetric] by (intro exI [of _ "map to_overdue_row sts"])
      (simp add: statuses_in_scope_def pid mode_of_partner [OF assms(1,2)] Let_def)
qed

text \<open>
  The refusal of a suspended partner is a 403 before anything was sent or written; no other answer of the
  route that leaves no trace has this status, once the request is complete and for a known path.
\<close>

lemma refused_iff_suspended:
  assumes token: "extract_bearer_token (cr_headers req) = Inr token"
    and auth: "authenticate_key K secret snap token = Some cfg"
    and req: "length (cr_body req) \<le> sv_max_body_size (cf_server c)" "endpoint_from_path (cr_path req) = Some ep"
    and id: "valid_header_value (pe_request_id env)"
  shows "suspension_message (rc_service_status cfg) = Some msg \<Longrightarrow>
      proxy_route K secret snap c J H client env minted_id True req
        = ([], Answered (billing_suspended_error J (pe_request_id env) msg))"
    and "suspension_message (rc_service_status cfg) = None \<Longrightarrow>
      proxy_route K secret snap c J H client env minted_id True req
        \<noteq> ([], Answered (billing_suspended_error J (pe_request_id env) msg'))"
proof -
  have route: "proxy_route K secret snap c J H client env minted_id True req
      = handle_proxy J H client env (context_new cfg) req"
    using req by (simp add: proxy_route_def authenticated_def token auth proxy_handler_def is_manager_def
        context_new_def)
  have status: "context_service_status (context_new cfg) = rc_service_status cfg"
    by (simp add: context_service_status_def context_new_def)
  show "suspension_message (rc_service_status cfg) = Some msg \<Longrightarrow>
      proxy_route K secret snap c J H client env minted_id True req
        = ([], Answered (billing_suspended_error J (pe_request_id env) msg))"
    by (simp add: route handle_proxy_def req(2) status)
  show "proxy_route K secret snap c J H client env minted_id True req
        \<noteq> ([], Answered (billing_suspended_error J (pe_request_id env) msg'))"
    if "suspension_message (rc_service_status cfg) = None"
  proof (cases "ep = endpoint.Models")
    case True
    then have models: "handle_proxy J H client env (context_new cfg) req
        = proxy_unmetered J H client env (context_new cfg) req"
      using that by (simp add: handle_proxy_def req(2) status)
    show ?thesis
    proof (cases rule: call_upstream_cases [of H client env req])
      case unsent
      with id show ?thesis
        by (simp add: route models proxy_unmetered_def billing_suspended_error_def error_response_def)
    next
      case sent
      with proxy_unmetered_effects [of J H client env "context_new cfg" req "[]"] show ?thesis
        by (auto simp: route models)
    qed
  next
    case False
    then show ?thesis
      using that id by (auto simp: route handle_proxy_def req(2) status Let_def billing_suspended_error_def
          model_not_allowed_error_def split: option.splits prod.splits)
  qed
qed

text \<open>
  C26: the status page says what the request path does. For a partner with a key in a snapshot loaded from
  the tables the page reads, at the instant of the page, and an overdue read that comes no earlier, the page
  has one entry. If it says suspended, every complete request to a known path with that key is answered by
  the suspension response with the very message of the page, and nothing is sent upstream or written to the
  ledger; if it does not, the page has no message and no such request gets that response. The reason shown
  is the overdue invoice the snapshot found. (Between two reloads of the snapshot the page, which reads the
  tables, can be ahead of the requests.)
\<close>

theorem status_page_agrees_with_refusal:
  assumes "time_laws T" "four_digit_instant (truncate_now clock)" "billing_invariant s" "due_texts T s"
    and "four_digit_instant (truncate_now read_clock)" "truncate_now clock \<le> truncate_now read_clock"
    and "list_all partner_row_check (partners s)" "keys_ok keys"
    and "refresh T (truncate_now clock) flt keys s snap = (Inr n, snap')"
    and "authenticate_key K secret snap' token = Some cfg"
    and "find_partner (rc_consumer_id cfg) s \<noteq> None"
    and "extract_bearer_token (cr_headers req) = Inr token"
    and "length (cr_body req) \<le> sv_max_body_size (cf_server c)" "endpoint_from_path (cr_path req) = Some ep"
    and "valid_header_value (pe_request_id env)"
  shows "\<exists>v. billing_get_status dbg T clock read_clock (\<lambda>_. None) (context_new cfg) q (\<lambda>_. s) = Inr [v]
    \<and> ss_consumer_id v = rc_consumer_id cfg
    \<and> (if ss_suspended v
        then \<exists>msg. ss_message v = Some msg
          \<and> proxy_route K secret snap' c J H client env minted_id True req
              = ([], Answered (billing_suspended_error J (pe_request_id env) msg))
        else ss_message v = None
          \<and> (\<forall>msg. proxy_route K secret snap' c J H client env minted_id True req
               \<noteq> ([], Answered (billing_suspended_error J (pe_request_id env) msg))))
    \<and> ss_reason v = map_option (reason_view_of T) (suspension_reason_of (rc_service_status cfg))"
proof -
  obtain k where k: "k \<in> set keys" "cfg = loaded T (truncate_now clock) s k"
    using refresh_snapshot(2) [OF assms(8,9), of _ cfg] assms(10) by (auto simp: authenticate_key_def)
  define who where "who = ak_consumer_id k"
  have who: "rc_consumer_id cfg = who" by (simp add: k(2) who_def)
  obtain row where row: "find_partner who s = Some row" using assms(11) who by (metis option.exhaust)
  obtain rows where "statuses_in_scope T (\<lambda>_. None) (One who) (truncate_now clock)
        (truncate_now read_clock) (\<lambda>_. s) =
      res_bind (derived_status T (truncate_now clock) (mode_text_of s who) who s)
        (\<lambda>status. Inr [view_status T who status rows])"
    using own_status [OF row assms(7,1,2,5,6,3,4)] by blast
  moreover have "derived_status T (truncate_now clock) (mode_text_of s who) who s = Inr (rc_service_status cfg)"
    using loaded_status [OF assms(1-4), of k] by (simp only: k(2) who_def)
  ultimately have page: "billing_get_status dbg T clock read_clock (\<lambda>_. None) (context_new cfg) q (\<lambda>_. s)
      = Inr [view_status T who (rc_service_status cfg) rows]"
    by (simp add: billing_get_status_def key_context_scope who)
  note route = refused_iff_suspended [OF assms(12,10,13-15)]
  show ?thesis
  proof (cases "rc_service_status cfg")
    case Active
    with page who route(2) show ?thesis
      by (simp add: view_status_def status_is_suspended_def status_is_active_def)
  next
    case (Suspended reason)
    with page who route(1) show ?thesis
      by (simp add: view_status_def status_is_suspended_def status_is_active_def)
  qed
qed

theorem status_page_agrees_with_refusal_witness:
  "\<exists>n snap cfg v. refresh gregorian 5000 None sample_keys issued_db (\<lambda>_. None) = (Inr n, snap)
     \<and> authenticate_key plain_crypto [] snap ''dev-key'' = Some cfg
     \<and> billing_get_status id gregorian 5000 7000 (\<lambda>_. None) (context_new cfg) statements_query_default
          (\<lambda>_. issued_db) = Inr [v]
     \<and> ss_suspended v
     \<and> proxy_route plain_crypto [] snap sample_config sample_json sample_http
         (proxy_client_new (cf_upstream sample_config)) (sample_env []) ''req-2'' True bearer_post
       = ([], Answered (billing_suspended_error sample_json ''req-1'' (the (ss_message v))))"
proof -
  let ?k = "new_row sample_new_key 1" and ?h = "derive_key_hash plain_crypto [] ''dev-key''"
  let ?cfg = "loaded gregorian 5000 issued_db ?k"
  have at: "truncate_now 5000 = 5000" "truncate_now 7000 = 7000" "four_digit_instant 5000" "four_digit_instant 7000"
      "(5000 :: int) \<le> 7000"
    by (simp_all add: truncate_now_def rust_div_def four_digit_instant_def four_digit_day_def NANOS_PER_DAY_def)
  obtain n snap where run: "refresh gregorian 5000 None sample_keys issued_db (\<lambda>_. None) = (Inr n, snap)"
    using refresh_succeeds by blast
  have "snap ?h = Some ?cfg"
    unfolding refresh_snapshot(2) [OF sample_keys_ok run]
    by (rule bexI [of _ ?k]) (simp_all add: sample_keys_def sample_new_key_def usable_def new_row_def)
  then have cfg: "authenticate_key plain_crypto [] snap ''dev-key'' = Some ?cfg"
    by (simp add: authenticate_key_def)
  have key: "ak_consumer_id ?k = ''acme''" by (simp add: sample_new_key_def)
  have found: "find_partner (rc_consumer_id ?cfg) issued_db \<noteq> None"
    by (simp add: key [simplified] has_partner_def issued_partners sample_partner_def)
  have check: "list_all partner_row_check (partners issued_db)"
    by (simp add: issued_partners sample_partner_def partner_row_check_def)
  have req: "length (cr_body bearer_post) \<le> sv_max_body_size (cf_server sample_config)"
      "endpoint_from_path (cr_path bearer_post) = Some Responses" "valid_header_value (pe_request_id (sample_env []))"
      "pe_request_id (sample_env []) = ''req-1''"
    by (simp_all add: bearer_post_def sample_post_def endpoint_from_path_def sample_env_def valid_header_value_def)
  let ?route = "proxy_route plain_crypto [] snap sample_config sample_json sample_http
    (proxy_client_new (cf_upstream sample_config)) (sample_env []) ''req-2'' True bearer_post"
  obtain v where v: "billing_get_status id gregorian 5000 7000 (\<lambda>_. None) (context_new ?cfg) statements_query_default
      (\<lambda>_. issued_db) = Inr [v]"
    "if ss_suspended v
     then \<exists>msg. ss_message v = Some msg
       \<and> ?route = ([], Answered (billing_suspended_error sample_json (pe_request_id (sample_env [])) msg))
     else ss_message v = None
       \<and> (\<forall>msg. ?route
            \<noteq> ([], Answered (billing_suspended_error sample_json (pe_request_id (sample_env [])) msg)))"
    "ss_reason v = map_option (reason_view_of gregorian) (suspension_reason_of (rc_service_status ?cfg))"
    using status_page_agrees_with_refusal [OF greg.time_laws_axioms, of 5000 issued_db 7000 sample_keys None "\<lambda>_. None" n
        snap plain_crypto "[]" "''dev-key''" ?cfg bearer_post sample_config Responses "sample_env []" id
        statements_query_default sample_json sample_http "proxy_client_new (cf_upstream sample_config)" "''req-2''",
        unfolded at(1,2), OF at(3) issued_db_invariant issued_due_texts at(4,5) check sample_keys_ok run cfg found
        bearer_post_token req(1-3)]
    by blast
  have "overdue_at gregorian 5000 ''acme'' (draft_row gregorian 0 sample_draft (MicroUsd 2450) 1) 0"
    by (simp add: overdue_at_def draft_row_def sample_draft_def can_suspend_def is_outstanding_def
        billing_mode_value_def mode_parse_def is_paid_def has_incomplete_usage_def)
  then have "\<exists>r \<in> set (daily_statements issued_db). \<exists>due. overdue_at gregorian 5000 ''acme'' r due"
    unfolding issued_statements by auto
  moreover have "mode_text_of issued_db ''acme'' = ''invoice''"
    by (simp add: mode_text_of_def issued_partners sample_partner_def)
  ultimately have "derived_status gregorian 5000 (mode_text_of issued_db ''acme'') ''acme'' issued_db \<noteq> Inr Active"
    using active_has_no_overdue [OF greg.time_laws_axioms at(3) issued_db_invariant issued_due_texts] by metis
  then have "rc_service_status ?cfg \<noteq> Active"
    using loaded_status [OF greg.time_laws_axioms at(3) issued_db_invariant issued_due_texts, of ?k] by (simp add: key [simplified])
  then obtain msg where "suspension_message (rc_service_status ?cfg) = Some msg"
    by (cases "rc_service_status ?cfg") simp_all
  then have "?route = ([], Answered (billing_suspended_error sample_json (pe_request_id (sample_env [])) msg))"
    by (rule refused_iff_suspended(1) [OF bearer_post_token cfg req(1-3)])
  then have "ss_suspended v"
    using v(2) by (auto split: if_splits)
  with run cfg v(1,2) req(4) show ?thesis by auto
qed

section \<open>Price lists\<close>

lemma price_parse_range:
  assumes "price_parse t = Inr p"
  shows "0 \<le> price_as_i64 p" "in_i64 (price_as_i64 p)"
proof -
  obtain w f where shape: "price_shape w f" "t = price_text w f"
    using price_parse_refuses [of t] assms by force
  then have "in_i64 (rounded_micros w f)" "p = PricePerMillion (rounded_micros w f)"
    using price_parse_rounds [OF shape(1)] assms by (auto split: if_splits)
  moreover have "0 \<le> rounded_micros w f"
    by (simp only: rounded_micros_def) (intro pos_imp_zdiv_nonneg_iff [THEN iffD2]; simp)
  ultimately show "0 \<le> price_as_i64 p" "in_i64 (price_as_i64 p)"
    by simp_all
qed

definition stored_price :: "price_per_million \<Rightarrow> bool" where
  "stored_price p \<longleftrightarrow> 0 \<le> price_as_i64 p \<and> in_i64 (price_as_i64 p)"

lemma visible_digit: "is_ascii_digit ch \<Longrightarrow> visible ch"
  by (auto simp: is_ascii_digit_def visible_def Let_def)

lemma trim_price_text:
  assumes "0 \<le> v" shows "trim (to_decimal_string (PricePerMillion v)) = to_decimal_string (PricePerMillion v)"
proof -
  obtain w f where shape: "to_decimal_string (PricePerMillion v) = price_text w f" "price_shape w f" "w \<noteq> []"
    using to_decimal_string_text [OF assms] dec_nonempty by metis
  have digit: "is_ascii_digit ch" if "ch \<in> set w \<union> set f" for ch
    using shape(2) that by (auto simp: price_shape_def all_digits_def list_all_iff)
  show ?thesis
    unfolding shape(1)
  proof (rule trim_visible)
    show "price_text w f \<noteq> []" using shape(3) by (simp add: price_text_def)
    show "visible (hd (price_text w f))"
      using shape(3) digit [of "hd w"] visible_digit by (simp add: price_text_def)
    show "visible (last (price_text w f))"
      using shape(3) digit [of "last w"] digit [of "last f"] visible_digit by (simp add: price_text_def)
  qed
qed

lemma parse_price_back: "stored_price p \<Longrightarrow> parse_price L model field (to_decimal_string p) = Inr p"
  using trim_price_text price_round_trip by (cases p) (simp add: parse_price_def stored_price_def)

lemma parse_price_stored: "parse_price L model field raw = Inr p \<Longrightarrow> stored_price p"
  using price_parse_range by (auto simp: parse_price_def stored_price_def split: sum.splits)

text \<open>The lists the parser accepts, whatever their order.\<close>

definition price_list_ok :: "string set \<Rightarrow> model_price list \<Rightarrow> bool" where
  "price_list_ok seen ms \<longleftrightarrow>
     distinct (map (trim \<circ> mp_model) ms) \<and> (\<forall>m \<in> set ms. trim (mp_model m) \<noteq> [] \<and> trim (mp_model m) \<notin> seen
       \<and> stored_price (ps_input (mp_prices m)) \<and> stored_price (ps_cached_input (mp_prices m))
       \<and> stored_price (ps_output (mp_prices m)))"

lemma parsed_list_ok: "parse_models_from L seen vs = Inr ms \<Longrightarrow> price_list_ok (set seen) ms"
proof (induction vs arbitrary: seen ms)
  case (Cons v vs)
  let ?model = "trim (mv_model v)"
  obtain pin pca pou rest where parts: "?model \<noteq> []" "?model \<notin> set seen"
      "stored_price pin" "stored_price pca" "stored_price pou"
      "parse_models_from L (?model # seen) vs = Inr rest"
      "ms = \<lparr>mp_model = mv_model v,
             mp_prices = \<lparr>ps_input = pin, ps_cached_input = pca, ps_output = pou\<rparr>\<rparr> # rest"
    using Cons.prems by (auto simp: Let_def res_bind_Inr_iff dest!: parse_price_stored split: if_splits)
  with Cons.IH [OF parts(6)] show ?case by (auto simp: price_list_ok_def)
qed (simp add: price_list_ok_def)

lemma view_fields [simp]:
  "mv_model (model_price_view_of m) = mp_model m"
  "mv_input_per_million (model_price_view_of m) = to_decimal_string (ps_input (mp_prices m))"
  "mv_cached_input_per_million (model_price_view_of m) = to_decimal_string (ps_cached_input (mp_prices m))"
  "mv_output_per_million (model_price_view_of m) = to_decimal_string (ps_output (mp_prices m))"
  by (simp_all add: model_price_view_of_def as_tuple_def)

lemma parse_views_back: "price_list_ok (set seen) ms \<Longrightarrow> parse_models_from L seen (map model_price_view_of ms) = Inr ms"
proof (induction ms arbitrary: seen)
  case (Cons m ms)
  have "price_list_ok (set (trim (mp_model m) # seen)) ms"
    using Cons.prems by (simp add: price_list_ok_def image_iff) metis
  from Cons.IH [OF this] Cons.prems show ?case
    by (simp add: price_list_ok_def parse_price_back Let_def)
qed simp

lemma price_list_ok_sort: "price_list_ok seen (sort_key k ms) \<longleftrightarrow> price_list_ok seen ms"
proof -
  have "distinct (map f (sort_key k ms)) \<longleftrightarrow> distinct (map f ms)" for f :: "model_price \<Rightarrow> string"
    by (simp add: distinct_map)
  then show ?thesis by (simp add: price_list_ok_def)
qed

definition undisturbed :: "admin_env \<Rightarrow> bool" where
  "undisturbed env \<longleftrightarrow>
     (\<forall>i s. ad_others env i s = s) \<and> alone (ad_keys env) \<and> ad_meanwhile env = (\<lambda>st. st)"

lemma sort_key_twice: "sort_key k (sort_key k xs) = sort_key k xs"
proof -
  have "sorted (map k ys) \<Longrightarrow> sort_key k ys = ys" for ys
    by (induction ys) (auto simp: insort_is_Cons)
  then show ?thesis by simp
qed

text \<open>The foreign key of the price list: only an empty list can be put for a partner that does not exist.\<close>

lemma insert_models_partner:
  assumes "insert_models (r # rs) s = Inr t"
  shows "has_partner (mr_consumer_id r) t"
proof -
  obtain u where u: "insert_model r s = Inr u" "insert_models rs u = Inr t"
    using assms by (auto simp: res_bind_Inr_iff)
  then have "has_partner (mr_consumer_id r) u"
    by (auto simp: insert_model_def has_partner_def split: if_splits)
  with insert_models_frame [OF u(2)] show ?thesis by (auto simp: has_partner_def)
qed

lemma replace_models_partner:
  assumes "replace_models T now wflt c ms s = (Inr u, s')"
  shows "ms = [] \<or> has_partner c s'"
proof (cases ms)
  case (Cons m rest)
  let ?touch = "\<lambda>r. if pr_consumer_id r = c then r\<lparr>pr_updated_at := format_ts T now\<rparr> else r"
  have keys: "map pr_consumer_id (map ?touch rows) = map pr_consumer_id rows" for rows
    by simp
  obtain t where t: "insert_models (map (model_to_row T now c) ms)
        (s\<lparr>partner_models := filter (\<lambda>m. mr_consumer_id m \<noteq> c) (partner_models s)\<rparr>) = Inr t"
      "s' = t\<lparr>partners := map ?touch (partners t)\<rparr>"
    using assms by (auto simp: replace_models_def replace_models_tx_def pool_write_def res_bind_Inr_iff
        split: sum.splits option.splits if_splits prod.splits)
  have "has_partner c t"
    using insert_models_partner t(1) unfolding Cons by fastforce
  then show ?thesis
    using keys [of "partners t"] by (auto simp: has_partner_def t(2) list_ex_iff)
qed simp

lemma put_answer:
  assumes env: "undisturbed env" and put: "admin_replace_models L env c views st = (Inr views', st')"
  obtains ms where "parse_models L views = Inr ms" "price_list_ok {} ms"
    "views' = map model_price_view_of (sort_key mp_model ms)"
    "store_models None c (po_db st') = Inr (sort_key mp_model ms)"
    "\<forall>j. j \<noteq> c \<longrightarrow> store_models None j (po_db st') = store_models None j (po_db st)"
    "ms = [] \<or> has_partner c (po_db st')"
proof -
  note call_simps = and_then_def write_call_def read_call_def read_models_def
  have same: "ad_others env i s = s" for i s using env by (simp add: undisturbed_def)
  obtain ms where ms: "parse_models L views = Inr ms"
    using put by (cases "parse_models L views") (simp_all add: admin_replace_models_def)
  obtain r s' where w: "replace_models (pl_time L) (ad_clock env 0) (ad_fault env 0) c ms (po_db st) = (r, s')"
    by fastforce
  with put ms have "r = Inr ()"
    by (cases r) (simp_all add: admin_replace_models_def call_simps same)
  then have stored: "store_models None c s' = Inr (sort_key mp_model ms)"
      "\<forall>j. j \<noteq> c \<longrightarrow> store_models None j s' = store_models None j (po_db st)"
    using replace_models_exact [OF w] by auto
  have after: "po_db (refresh_snapshot L env 1 (st\<lparr>po_db := s'\<rparr>)) = s'"
    by (simp add: refresh_snapshot_def same Let_def)
  have "store_models (ad_fault env 2) c s' = Inr (sort_key mp_model ms)"
    using put ms w stored(1) \<open>r = Inr ()\<close> after
    by (cases "ad_fault env 2") (auto simp: admin_replace_models_def call_simps same store_models_def db_result_def)
  then have "views' = map model_price_view_of (sort_key mp_model ms)" "po_db st' = s'"
    using put ms w \<open>r = Inr ()\<close> after by (auto simp: admin_replace_models_def call_simps same)
  moreover have "price_list_ok {} ms" using parsed_list_ok [of L "[]" views ms] ms by (simp add: parse_models_def)
  moreover have "ms = [] \<or> has_partner c s'" using w \<open>r = Inr ()\<close> replace_models_partner by blast
  ultimately show thesis using that ms stored by blast
qed


definition sample_libs :: portal_libs where
  "sample_libs =
     \<lparr>pl_time = gregorian, pl_debug = id, pl_crypto = plain_crypto, pl_json = sample_json, pl_secret = []\<rparr>"

definition quiet_env :: "(nat \<Rightarrow> instant) \<Rightarrow> admin_env" where
  "quiet_env clock =
     \<lparr>ad_clock = clock, ad_fault = (\<lambda>_. None), ad_reread = (\<lambda>_. None), ad_others = (\<lambda>_ s. s),
      ad_refresh_fault = None, ad_entropy = Inl [], ad_keys = calm_env sample_db,
      ad_meanwhile = (\<lambda>st. st)\<rparr>"

lemma sample_fields [simp]:
  "pl_time sample_libs = gregorian" "pl_debug sample_libs = id" "ad_clock (quiet_env clock) = clock"
  "ad_fault (quiet_env clock) = (\<lambda>_. None)" "ad_reread (quiet_env clock) = (\<lambda>_. None)"
  "ad_others (quiet_env clock) = (\<lambda>_ s. s)"
  by (simp_all add: sample_libs_def quiet_env_def)

lemma quiet_env_undisturbed [simp]: "undisturbed (quiet_env clock)"
  by (simp add: undisturbed_def quiet_env_def)

definition sample_portal :: portal where
  "sample_portal = \<lparr>po_db = sample_db, po_keys = sample_store\<rparr>"


theorem admin_serves_the_manager_only_witness:
  "\<exists>refusal. rs_status refusal \<in> {401, 403}
     \<and> admin_route sample_libs (quiet_env (\<lambda>_. 3)) sample_config [] (DeletePartner ''acme'') sample_portal
         = (Refused refusal, sample_portal)"
proof -
  have "extract_bearer_token [] \<noteq> Inr token" for token
    by (simp add: extract_bearer_token_def header_get_def header_values_def)
  then show ?thesis
    using admin_serves_the_manager_only [of sample_config "[]" sample_libs sample_portal "quiet_env (\<lambda>_. 3)"
        "DeletePartner ''acme''"] by blast
qed

section \<open>Recording a payment\<close>

lemma mark_paid_rows:
  assumes "mark_paid T now wflt rflt i by ref note s = (Inr st, s')"
  shows "s' = s\<lparr>daily_statements := map (\<lambda>r. if st_id r = i \<and> unpaid_invoice r
              then pay_row (format_ts T now) by ref note r else r) (daily_statements s)\<rparr>"
    "\<exists>r \<in> set (daily_statements s'). st_id r = i \<and> st = row_to_statement r \<and> st_paid_at r \<noteq> None"
proof -
  let ?P = "\<lambda>r. st_id r = i \<and> st_billing_mode r = ''invoice'' \<and> st_paid_at r = None"
  let ?f = "pay_row (format_ts T now) by ref note"
  obtain rows where up: "wflt = None" "update_statements ?P ?f s = Inr (rows, s')"
    and found: "res_bind (statement_by_id rflt i s') (\<lambda>st. case st of
        None \<Rightarrow> Inl (PartnerNotFound (''statement '' @ dec_int i))
      | Some st \<Rightarrow> if \<not> is_paid st then Inl (StatementNotPayable i (st_billing_mode st)) else Inr st) = Inr st"
    using assms by (cases wflt) (auto simp: mark_paid_def pool_write_def split: if_splits sum.splits)
  show "s' = s\<lparr>daily_statements := map (\<lambda>r. if st_id r = i \<and> unpaid_invoice r then ?f r else r) (daily_statements s)\<rparr>"
    using up(2) by (auto simp: update_statements_def Let_def unpaid_invoice_def split: if_splits)
  obtain r where "find (\<lambda>r. st_id r = i) (daily_statements s') = Some r" "st = row_to_statement r" "is_paid st"
    using found by (cases rflt) (auto simp: statement_by_id_def db_result_def split: option.splits if_splits)
  then show "\<exists>r \<in> set (daily_statements s'). st_id r = i \<and> st = row_to_statement r \<and> st_paid_at r \<noteq> None"
    by (intro bexI [of _ r]) (auto simp: find_Some_iff is_paid_def row_to_statement_def statement.defs)
qed

text \<open>Rows that are paid leave the overdue ones; the others keep their place.\<close>

lemma overdue_without:
  assumes "daily_statements s' = map (\<lambda>r. if st_id r = i \<and> unpaid_invoice r then pay_row now' by ref note r else r)
      (daily_statements s)"
  shows "overdue_statements T now None c s' = map_sum id (filter (\<lambda>st. st_id st \<noteq> i)) (overdue_statements T now None c s)"
proof -
  have paid: "filter (overdue_where stamp c) (map (\<lambda>r. if st_id r = i \<and> unpaid_invoice r
        then pay_row now' by ref note r else r) rows)
      = filter (\<lambda>r. st_id r \<noteq> i) (filter (overdue_where stamp c) rows)" for stamp rows
    by (induction rows) (auto simp: overdue_where_def unpaid_invoice_def pay_row_def)
  have "filter (\<lambda>st. st_id st \<noteq> i) (map row_to_statement rows) = map row_to_statement (filter (\<lambda>r. st_id r \<noteq> i) rows)"
    for rows by (induction rows) (auto simp: row_to_statement_def statement.defs)
  then show ?thesis
    by (simp add: overdue_statements_def db_result_def statements_where_def assms paid filter_sort)
qed

text \<open>
  C27: a payment that the manager's API reports is in the books. When the call answers, with nobody else
  writing, the statement it shows is the stored one and is paid; a statement that was paid before is left
  as it was, with its first payment; a fresh payment changes the one row, naming the payer of the request; and
  from then on the overdue invoices, for every partner and at every instant, are those of before without this
  statement, so that the suspension it caused ends and no other does.
\<close>

theorem reported_payment_is_recorded:
  assumes "undisturbed env" "billing_invariant (po_db st)"
    and "admin_mark_paid L env i req st = (Inr (v, fresh), st')"
  shows "(\<exists>r \<in> set (daily_statements (po_db st')). st_id r = i \<and> st_paid_at r \<noteq> None
        \<and> v = view_for_manager (row_to_statement r) None)
    \<and> (\<not> fresh \<longrightarrow> st' = st)
    \<and> (fresh \<longrightarrow> po_db st' = (po_db st)\<lparr>daily_statements := map (\<lambda>r. if st_id r = i
          then pay_row (format_ts (pl_time L) (ad_clock env 1)) (payer_of req) (non_empty (pq_reference req))
                 (non_empty (pq_note req)) r
          else r) (daily_statements (po_db st))\<rparr>)
    \<and> (\<forall>T now c. overdue_statements T now None c (po_db st')
          = map_sum id (filter (\<lambda>s. st_id s \<noteq> i)) (overdue_statements T now None c (po_db st)))"
proof -
  let ?f = "pay_row (format_ts (pl_time L) (ad_clock env 1)) (payer_of req) (non_empty (pq_reference req))
    (non_empty (pq_note req))"
  let ?rows = "daily_statements (po_db st)"
  note call_simps = and_then_def write_call_def read_call_def
  have same: "ad_others env k s = s" for k s using assms(1) by (simp add: undisturbed_def)
  obtain existing where existing: "get_statement_by_id (ad_fault env 0) i AllConsumers (po_db st) = Inr (Some existing)"
      "is_some_and owes_payment (billing_mode_value existing)"
    using assms(3) by (auto simp: admin_mark_paid_def call_simps same split: sum.splits option.splits if_splits)
  then obtain r where r: "r \<in> set ?rows" "st_id r = i" "existing = row_to_statement r"
    by (cases "ad_fault env 0") (auto simp: get_statement_by_id_def db_result_def dest: find_SomeD)
  have only: "q = r" if "q \<in> set ?rows" "st_id q = i" for q
    using assms(2) that r(1,2) by (auto simp: billing_invariant_def distinct_map dest: inj_onD)
  have paid_view: "is_paid existing \<longleftrightarrow> st_paid_at r \<noteq> None"
    by (simp add: r(3) is_paid_def row_to_statement_def statement.defs)
  show ?thesis
  proof (cases "is_paid existing")
    case True
    then have done': "v = view_for_manager existing None" "\<not> fresh" "st' = st"
      using assms(3) existing by (auto simp: admin_mark_paid_def call_simps same)
    have "?rows = map (\<lambda>q. if st_id q = i \<and> unpaid_invoice q then ?f q else q) ?rows"
      using only True paid_view by (intro map_idI [symmetric]) (auto simp: unpaid_invoice_def)
    from overdue_without [OF this] show ?thesis
      using done' r True paid_view by blast
  next
    case False
    then obtain s' statement where w: "mark_paid (pl_time L) (ad_clock env 1) (ad_fault env 1) (ad_reread env 1) i
          (payer_of req) (non_empty (pq_reference req)) (non_empty (pq_note req)) (po_db st) = (Inr statement, s')"
        "v = view_for_manager statement None" "fresh" "st' = st\<lparr>po_db := s'\<rparr>"
      using assms(3) existing by (auto simp: admin_mark_paid_def call_simps same split: prod.splits sum.splits)
    note rows = mark_paid_rows [OF w(1)]
    have "statement_check r" using assms(2) r(1) by (auto simp: billing_invariant_def list_all_iff)
    then have "unpaid_invoice r"
      using existing(2) False paid_view by (auto simp: unpaid_invoice_def r(3) statement_check_def billing_mode_value_def
          row_to_statement_def statement.defs mode_parse_def split: if_splits)
    then have "map (\<lambda>q. if st_id q = i \<and> unpaid_invoice q then ?f q else q) ?rows
        = map (\<lambda>q. if st_id q = i then ?f q else q) ?rows"
      using only by (intro map_cong) auto
    moreover have "daily_statements s' = map (\<lambda>q. if st_id q = i \<and> unpaid_invoice q then ?f q else q) ?rows"
      using rows(1) by simp
    from overdue_without [OF this] have "\<forall>T now c. overdue_statements T now None c s'
        = map_sum id (filter (\<lambda>s. st_id s \<noteq> i)) (overdue_statements T now None c (po_db st))" by blast
    ultimately show ?thesis using rows w(2-4) by auto
  qed
qed

theorem reported_payment_is_recorded_witness:
  "\<exists>v st'. admin_mark_paid sample_libs (quiet_env (\<lambda>_. 9000)) 1
        \<lparr>pq_paid_by = None, pq_reference = Some ''wire 7'', pq_note = None\<rparr>
        \<lparr>po_db = issued_db, po_keys = sample_store\<rparr> = (Inr (v, True), st')
     \<and> vw_paid_by v = Some ''manager'' \<and> overdue_statements gregorian 10000 None None (po_db st') = Inr []"
proof -
  let ?req = "\<lparr>pq_paid_by = None, pq_reference = Some ''wire 7'', pq_note = None\<rparr>"
  have v: "trim ''wire 7'' = ''wire 7''" "trim ''manager'' = ''manager''"
    by (subst trim_visible; simp add: visible_def)+
  let ?r = "draft_row gregorian 0 sample_draft (MicroUsd 2450) 1"
  have payer: "payer_of ?req = ''manager''" "non_empty (pq_reference ?req) = Some ''wire 7''" "non_empty (pq_note ?req) = None"
    by (simp_all add: payer_of_def non_empty_def v)
  have found: "get_statement_by_id None 1 AllConsumers issued_db = Inr (Some (row_to_statement ?r))"
    by (simp add: get_statement_by_id_def db_result_def issued_statements draft_row_def)
  have state: "is_some_and owes_payment (billing_mode_value (row_to_statement ?r))" "\<not> is_paid (row_to_statement ?r)"
    by (simp_all add: billing_mode_value_def mode_parse_def is_paid_def row_to_statement_def statement.defs draft_row_def
        sample_draft_def)
  obtain s' where paid: "mark_paid gregorian 9000 None None 1 ''manager'' (Some ''wire 7'') None issued_db
      = (Inr (row_to_statement (pay_row (format_ts gregorian 9000) ''manager'' (Some ''wire 7'') None ?r)), s')"
    by (simp add: mark_paid_def v pool_write_def update_statements_def issued_statements statement_by_id_def
        db_result_def draft_row_def sample_draft_def pay_row_def statement_check_def is_paid_def row_to_statement_def
        statement.defs CURRENCY_def Let_def)
  have shown: "vw_paid_by (view_for_manager (row_to_statement (pay_row at ''manager'' ref memo row)) None) = Some ''manager''"
    for at ref memo row
    by (simp add: view_for_manager_def common_view_def pay_row_def row_to_statement_def statement.defs)
  obtain view st' where run: "admin_mark_paid sample_libs (quiet_env (\<lambda>_. 9000)) 1 ?req
      \<lparr>po_db = issued_db, po_keys = sample_store\<rparr> = (Inr (view, True), st')" "vw_paid_by view = Some ''manager''"
    by (simp only: admin_mark_paid_def payer)
      (simp add: and_then_def read_call_def write_call_def found state paid shown)
  have env: "undisturbed (quiet_env (\<lambda>_. 9000))" by simp
  have inv: "billing_invariant (po_db \<lparr>po_db = issued_db, po_keys = sample_store\<rparr>)" by simp
  have "overdue_statements gregorian 10000 None None (po_db st')
      = map_sum id (filter (\<lambda>s. st_id s \<noteq> 1)) (overdue_statements gregorian 10000 None None issued_db)"
    using reported_payment_is_recorded [OF env inv run(1), THEN conjunct2, THEN conjunct2, THEN conjunct2]
    by (simp only: portal.simps)
  also have "\<dots> = Inr []"
    by (simp add: overdue_statements_def db_result_def statements_where_def issued_statements draft_row_def
        row_to_statement_def statement.defs)
  finally show ?thesis using run by blast
qed

section \<open>Opening an account\<close>

text \<open>
  The account and its prices are two transactions: where the second fails, the answer is that failure and
  the account stays, so that the same request is refused from then on as one that exists.
\<close>

lemma failed_opening_leaves_account:
  assumes env: "undisturbed env" and req: "parse_mode L (cp_billing_mode req) = Inr mode"
      "parse_models L (cp_models req) = Inr ms" "ms \<noteq> []"
    and new: "new = \<lparr>np_consumer_id = cp_consumer_id req, np_name = cp_name req,
                np_billing_email = cp_billing_email req, np_billing_mode = mode,
                np_payment_terms = (case cp_payment_terms req of
                   None \<Rightarrow> DEFAULT_PAYMENT_TERMS_MINUTES | Some t \<Rightarrow> t)\<rparr>"
    and opened: "create_partner (pl_time L) (ad_clock env 0) (ad_fault env 0) (ad_reread env 0) new (po_db st) = (Inr p, s')"
    and failed: "replace_models (pl_time L) (ad_clock env 1) (ad_fault env 1) (p_consumer_id p) ms s' = (Inl e, s'')"
  shows "admin_create_partner L env req st = (Inl (admin_error_of (pl_debug L) e), st\<lparr>po_db := s'\<rparr>)"
    and "has_partner (p_consumer_id p) s'"
proof -
  have same: "ad_others env k s = s" for k s using env by (simp add: undisturbed_def)
  have "s'' = s'" using replace_models_exact [OF failed] by simp
  then show "admin_create_partner L env req st = (Inl (admin_error_of (pl_debug L) e), st\<lparr>po_db := s'\<rparr>)"
    using opened failed req(3)
    by (simp add: admin_create_partner_def req(1,2) new open_account_def and_then_def write_call_def same)
  obtain i where "require_partner (ad_reread env 0) i s' = Inr p"
    using opened by (auto simp: create_partner_def split: sum.splits prod.splits if_splits)
  then obtain row where "find_partner i s' = Some row" "p = row_to_partner row"
    by (cases "ad_reread env 0") (auto simp: require_partner_def get_partner_def db_result_def split: option.splits)
  then show "has_partner (p_consumer_id p) s'"
    by (auto simp: find_partner_def has_partner_def row_to_partner_def dest: find_SomeD)
qed

end
