(* ===== verification/Keygen.thy ===== *)
theory Keygen
  imports Admin_Api Config Migration
begin

text \<open>
  \<^verbatim>\<open>keygen.rs\<close> and its caller in \<^verbatim>\<open>main.rs\<close>: the provisioning command, from the argument vector to the
  two texts it prints and its exit status. The configuration loader, the environment variables, standard
  input and the file system enter as what they answer.
\<close>

section \<open>Requests\<close>

definition COMMAND :: string where "COMMAND = ''keygen''"
definition EXIT_USAGE :: int where "EXIT_USAGE = 2"
definition CONFIG_ENV :: string where "CONFIG_ENV = ''PARTNER_PORTAL_CONFIG''"
definition SECRET_ENV :: string where "SECRET_ENV = ''PARTNER_PORTAL_API_KEY_SECRET''"

datatype plaintext = Generated | Supplied string | FromStdin

record keygen_request =
  kg_name :: string
  kg_consumer_id :: string
  kg_partner :: new_partner
  kg_models :: "model_price list"
  kg_plaintext :: plaintext
  kg_database :: "string option"

datatype usage_error =
    UnknownArgument string
  | MissingValue string
  | Missing string
  | Blank string
  | BadModel string string
  | BadBillingMode string
  | BadPaymentTerms string
  | DuplicateModel string

fun usage_error_text :: "(string \<Rightarrow> string) \<Rightarrow> usage_error \<Rightarrow> string" where
  "usage_error_text dbg (UnknownArgument arg) = ''unrecognised argument `'' @ arg @ ''`''"
| "usage_error_text dbg (MissingValue flag) = ''`'' @ flag @ ''` needs a value''"
| "usage_error_text dbg (Missing flag) = ''`'' @ flag @ ''` is required''"
| "usage_error_text dbg (Blank flag) = ''`'' @ flag @ ''` must not be blank''"
| "usage_error_text dbg (BadModel value reason) = ''--model '' @ dbg value @ '': '' @ reason"
| "usage_error_text dbg (BadBillingMode mode) =
     ''--billing-mode '' @ dbg mode @ '' is not a mode; expected `invoice` or `reconciliation`''"
| "usage_error_text dbg (BadPaymentTerms value) =
     ''--payment-terms '' @ dbg value @ '' is not a whole number of minutes''"
| "usage_error_text dbg (DuplicateModel model) = ''--model '' @ dbg model @ '' was given more than once''"

fun requested :: "string list \<Rightarrow> bool" where
  "requested (_ # word # _) \<longleftrightarrow> word = COMMAND"
| "requested _ \<longleftrightarrow> False"

section \<open>The command line\<close>

text \<open>\<open>str::split(c)\<close>.\<close>

fun split_on :: "char \<Rightarrow> string \<Rightarrow> string list" where
  "split_on c [] = [[]]"
| "split_on c (x # xs) =
     (if x = c then [] # split_on c xs
      else case split_on c xs of [] \<Rightarrow> [[x]] | part # parts \<Rightarrow> (x # part) # parts)"

definition model_argument :: "(string \<Rightarrow> string) \<Rightarrow> string \<Rightarrow> usage_error + model_price" where
  "model_argument dbg value =
     (case split_on CHR '':'' value of
        [model, input, cached, output] \<Rightarrow>
          if trim model = [] then Inl (BadModel value ''the model name is blank'')
          else
            (let price = (\<lambda>txt which. case price_parse (trim txt) of
                   Inl e \<Rightarrow> Inl (BadModel value (which @ '' price: '' @ price_error_text dbg e))
                 | Inr p \<Rightarrow> Inr p)
             in res_bind (price input ''input'') (\<lambda>input.
                res_bind (price cached ''cached input'') (\<lambda>cached.
                res_bind (price output ''output'') (\<lambda>output.
                  Inr \<lparr>mp_model = trim model,
                       mp_prices = \<lparr>ps_input = input, ps_cached_input = cached, ps_output = output\<rparr>\<rparr>))))
      | _ \<Rightarrow> Inl (BadModel value ''expected NAME:INPUT:CACHED:OUTPUT, with the prices in dollars per million tokens''))"

text \<open>What the flags have set so far.\<close>

record keygen_flags =
  fl_name :: "string option"
  fl_consumer_id :: "string option"
  fl_models :: "model_price list"
  fl_billing_mode :: billing_mode
  fl_billing_email :: string
  fl_payment_terms :: i64
  fl_plaintext :: plaintext
  fl_database :: "string option"

definition no_flags :: keygen_flags where
  "no_flags =
     \<lparr>fl_name = None, fl_consumer_id = None, fl_models = [], fl_billing_mode = Invoice, fl_billing_email = [],
      fl_payment_terms = DEFAULT_PAYMENT_TERMS_MINUTES, fl_plaintext = Generated, fl_database = None\<rparr>"

definition FLAGS :: "string list" where
  "FLAGS = [''--name'', ''--consumer-id'', ''--model'', ''--billing-mode'', ''--billing-email'',
            ''--payment-terms'', ''--database'', ''--plaintext'']"

definition set_flag :: "(string \<Rightarrow> string) \<Rightarrow> string \<Rightarrow> string \<Rightarrow> keygen_flags \<Rightarrow> usage_error + keygen_flags" where
  "set_flag dbg flag value f =
     (if flag = ''--name'' then
        if trim value = [] then Inl (Blank flag) else Inr (f\<lparr>fl_name := Some value\<rparr>)
      else if flag = ''--consumer-id'' then
        if trim value = [] then Inl (Blank flag) else Inr (f\<lparr>fl_consumer_id := Some value\<rparr>)
      else if flag = ''--model'' then
        res_bind (model_argument dbg value) (\<lambda>entry.
          if mp_model entry \<in> mp_model ` set (fl_models f) then Inl (DuplicateModel (mp_model entry))
          else Inr (f\<lparr>fl_models := fl_models f @ [entry]\<rparr>))
      else if flag = ''--billing-mode'' then
        (case mode_parse (trim value) of
           None \<Rightarrow> Inl (BadBillingMode value) | Some m \<Rightarrow> Inr (f\<lparr>fl_billing_mode := m\<rparr>))
      else if flag = ''--billing-email'' then Inr (f\<lparr>fl_billing_email := value\<rparr>)
      else if flag = ''--payment-terms'' then
        (case parse_i64 (trim value) of
           None \<Rightarrow> Inl (BadPaymentTerms value)
         | Some n \<Rightarrow> if 0 \<le> n then Inr (f\<lparr>fl_payment_terms := n\<rparr>) else Inl (BadPaymentTerms value))
      else if flag = ''--database'' then
        if trim value = [] then Inl (Blank flag) else Inr (f\<lparr>fl_database := Some value\<rparr>)
      else if flag = ''--plaintext'' then
        if value = ''-'' then Inr (f\<lparr>fl_plaintext := FromStdin\<rparr>)
        else if trim value = [] then Inl (Blank flag) else Inr (f\<lparr>fl_plaintext := Supplied value\<rparr>)
      else Inl (UnknownArgument flag))"

fun parse_flags :: "(string \<Rightarrow> string) \<Rightarrow> string list \<Rightarrow> keygen_flags \<Rightarrow> usage_error + keygen_flags" where
  "parse_flags dbg [] f = Inr f"
| "parse_flags dbg [flag] f = (if flag \<in> set FLAGS then Inl (MissingValue flag) else Inl (UnknownArgument flag))"
| "parse_flags dbg (flag # value # rest) f = res_bind (set_flag dbg flag value f) (parse_flags dbg rest)"

definition finish_flags :: "keygen_flags \<Rightarrow> usage_error + keygen_request" where
  "finish_flags f =
     (if fl_models f = [] then Inl (Missing ''--model'')
      else
        (let name = (case fl_name f of None \<Rightarrow> ''unnamed'' | Some n \<Rightarrow> n)
         in case fl_consumer_id f of
              None \<Rightarrow> Inl (Missing ''--consumer-id'')
            | Some consumer \<Rightarrow>
                Inr \<lparr>kg_name = name, kg_consumer_id = consumer,
                     kg_partner = \<lparr>np_consumer_id = consumer, np_name = name,
                       np_billing_email = trim (fl_billing_email f), np_billing_mode = fl_billing_mode f,
                       np_payment_terms = fl_payment_terms f\<rparr>,
                     kg_models = fl_models f, kg_plaintext = fl_plaintext f, kg_database = fl_database f\<rparr>))"

definition parse_arguments :: "(string \<Rightarrow> string) \<Rightarrow> string list \<Rightarrow> usage_error + keygen_request" where
  "parse_arguments dbg args = res_bind (parse_flags dbg (drop 2 args) no_flags) finish_flags"

definition em_dash :: string where
  "em_dash = [CHR 0xE2, CHR 0x80, CHR 0x94]"

definition usage_text :: string where
  "usage_text = concat (map (\<lambda>line. line @ [lf])
     [''usage: partner-portal '' @ COMMAND @ '' [OPTIONS]'',
      [],
      ''Issue one partner API key into the ledger database and print it once.'',
      [],
      ''Options:'',
      ''  --name <NAME>              a label for the key, shown in the listing'',
      ''  --consumer-id <ID>         the consumer_id this key identifies as'',
      ''  --model <NAME:IN:CACHED:OUT>'',
      ''                             a model the partner may call and its price in'',
      ''                             dollars per million tokens: input, cached'',
      ''                             input, output. Repeatable, and at least one'',
      ''                             is required '' @ em_dash @ '' a model with no price is a'',
      ''                             model the partner cannot call'',
      ''  --billing-mode <MODE>      `invoice` (default) or `reconciliation`. An'',
      ''                             invoice partner owes money and is suspended'',
      ''                             when a complete statement passes its due'',
      ''                             date; a reconciliation partner is statemented'',
      ''                             for the settlement record and owes nothing'',
      ''  --billing-email <ADDRESS>  where statements are sent. Optional: without'',
      ''                             it statements are still issued and simply not'',
      ''                             emailed'',
      ''  --payment-terms <MINUTES>  how long after a period closes payment is due.'',
      ''                             Default '' @ dec_int DEFAULT_PAYMENT_TERMS_MINUTES @ '' (twelve hours)'',
      ''  --plaintext <VALUE|->      register this plaintext instead of'',
      ''                             generating one; `-` reads a line from stdin.'',
      ''                             For migrating and for fixtures'',
      ''  --database <PATH>          the ledger file. Without it the database comes'',
      ''                             from the configuration file (`'' @ CONFIG_ENV @ ''`,'',
      ''                             else config.yaml) '' @ em_dash @ '' the same one the server'',
      ''                             reads. With it, no configuration file is read'',
      ''  -h, --help                 print this text'',
      [],
      ''The hashing secret comes from PARTNER_PORTAL_API_KEY_SECRET and must be the'',
      ''secret the server runs with, or the key issued here authenticates nowhere.'',
      [],
      ''There is no `--all-models`: which models a partner may call and what each'',
      ''costs are one list (ADR 0012 as amended by 0015), and a generator that'',
      ''invented one would be granting access nobody asked for.'',
      [],
      ''The partner record is written here too, and writing it is what tells the'',
      ''worker who to bill. A second run for a consumer that already exists is'',
      ''refused rather than reconfiguring their models and prices from a command'',
      ''line; use the admin API to change an existing partner.'',
      [],
      ''`--plaintext` exists for two jobs, and neither of them is issuing a key to a'',
      ''partner. It registers a plaintext you already have '' @ em_dash @ '' so a deployment moving'',
      ''off the config file can keep its partners'' @ [CHR 0x27] @ '' existing keys working instead of'',
      ''rotating every one of them '' @ em_dash @ '' and it is what scripts/dev-seed-keys.sh uses to'',
      ''write the dev loop'' @ [CHR 0x27] @ ''s memorable keys. A supplied plaintext is as strong as you'',
      ''made it, so for a real deployment prefer generating: a generated key carries'',
      ''256 bits and cannot be chosen badly.''])"

section \<open>Failures\<close>

datatype keygen_error =
    KgConfig string string
  | KgDatabase string schema_error
  | KgStore api_key_error
  | KgBilling billing_error
  | KgStdin string
  | EmptyStdin

text \<open>\<open>sql\<close> is how the database library words its own errors.\<close>

fun schema_error_text :: "(rusqlite_error \<Rightarrow> string) \<Rightarrow> (string \<Rightarrow> string) \<Rightarrow> schema_error \<Rightarrow> string" where
  "schema_error_text sql dbg (SchemaSqlite e) = sql e"
| "schema_error_text sql dbg (UnsupportedVersion found supported) =
     ''ledger schema version '' @ dec found @ '' was written by a newer build; this binary supports up to ''
     @ dec supported @ ''. Refusing to open it: downgrading would relabel data this build cannot read''"
| "schema_error_text sql dbg (MigrationIncomplete column) =
     ''ledger migration did not produce the column '' @ dbg column
     @ ''; the database is neither the old nor the new schema''"

fun api_key_error_text :: "(rusqlite_error \<Rightarrow> string) \<Rightarrow> (string \<Rightarrow> string) \<Rightarrow> api_key_error \<Rightarrow> string" where
  "api_key_error_text sql dbg (KeyDatabase e) = ''api key database error: '' @ sql e"
| "api_key_error_text sql dbg (KeyNotFound i) = ''no api key with id '' @ dec_int i"
| "api_key_error_text sql dbg (KeyNotActive i) = ''api key '' @ dec_int i @ '' is revoked and cannot be changed''"
| "api_key_error_text sql dbg (AlreadyActive c) =
     ''consumer '' @ dbg c @ '' already has an active api key; rotate it instead of creating a second one''"
| "api_key_error_text sql dbg (KeyInvalid msg) = ''invalid api key: '' @ msg"

fun billing_error_text :: "(rusqlite_error \<Rightarrow> string) \<Rightarrow> (string \<Rightarrow> string) \<Rightarrow> billing_error \<Rightarrow> string" where
  "billing_error_text sql dbg (Database e) = ''billing database error: '' @ sql e"
| "billing_error_text sql dbg (PartnerNotFound c) = ''no partner with consumer_id '' @ c"
| "billing_error_text sql dbg (PartnerExists c) = ''partner '' @ c @ '' already exists''"
| "billing_error_text sql dbg (StatementNotPayable i mode) = not_payable_text i mode"
| "billing_error_text sql dbg (Invalid r) = ''invalid billing configuration: '' @ invalid_text dbg r"

fun secret_error_text :: "secret_error \<Rightarrow> string" where
  "secret_error_text SecretMissing =
     SECRET_ENV @ '' is not set. It keys the hash of every partner API key and must be supplied by the deployment; ''
     @ ''without it no key can be issued or verified''"
| "secret_error_text (SecretTooShort n) =
     SECRET_ENV @ '' is '' @ dec n @ '' bytes; at least '' @ dec MIN_SECRET_LEN @ '' are required''"

fun keygen_error_text :: "(rusqlite_error \<Rightarrow> string) \<Rightarrow> (string \<Rightarrow> string) \<Rightarrow> keygen_error \<Rightarrow> string" where
  "keygen_error_text sql dbg (KgConfig path e) = ''could not read '' @ path @ '': '' @ e"
| "keygen_error_text sql dbg (KgDatabase path e) = ''could not open '' @ path @ '': '' @ schema_error_text sql dbg e"
| "keygen_error_text sql dbg (KgStore e) = ''could not issue the key: '' @ api_key_error_text sql dbg e"
| "keygen_error_text sql dbg (KgBilling e) = ''could not record the partner: '' @ billing_error_text sql dbg e"
| "keygen_error_text sql dbg (KgStdin e) = ''--plaintext -: could not read stdin: '' @ e"
| "keygen_error_text sql dbg EmptyStdin =
     ''--plaintext -: stdin was empty. Pipe the key in with `printf %s \"$KEY\" |` or a here-string; ''
     @ ''a trailing newline is stripped, nothing else''"

section \<open>Issuing\<close>

text \<open>\<open>stdin\<close> is what reading a line answers: the line with its terminator, empty at the end of the input.\<close>

fun resolve_plaintext :: "string + string \<Rightarrow> plaintext \<Rightarrow> keygen_error + string option" where
  "resolve_plaintext stdin Generated = Inr None"
| "resolve_plaintext stdin (Supplied value) = Inr (Some value)"
| "resolve_plaintext stdin FromStdin =
     (case stdin of
        Inl e \<Rightarrow> Inl (KgStdin e)
      | Inr line \<Rightarrow>
          if line = [] then Inl EmptyStdin
          else Inr (Some (if last line = lf then butlast line else line)))"

text \<open>\<open>format!("{s:<w$}")\<close>, which counts characters.\<close>

definition char_count :: "string \<Rightarrow> nat" where
  "char_count s = length (filter (\<lambda>c. \<not> is_continuation c) s)"

definition pad_right :: "nat \<Rightarrow> string \<Rightarrow> string" where
  "pad_right w s = s @ replicate (w - char_count s) CHR '' ''"

definition model_line :: "model_price \<Rightarrow> string" where
  "model_line m =
     (case as_tuple (mp_prices m) of (input, cached, output) \<Rightarrow>
        ''    '' @ pad_right 28 (mp_model m)
        @ '' in '' @ pad_right 10 (to_decimal_string (PricePerMillion input))
        @ '' cached '' @ pad_right 10 (to_decimal_string (PricePerMillion cached))
        @ '' out '' @ to_decimal_string (PricePerMillion output))"

definition supplied_warning :: "api_key_row \<Rightarrow> string list" where
  "supplied_warning row =
     [[], ''This key'' @ [CHR 0x27] @ ''s plaintext was supplied, not generated: it is exactly as strong as the value you gave it.'']
     @ (if length (ak_key_prefix row) < KEY_PREFIX_LEN
        then [''It is shorter than '' @ dec KEY_PREFIX_LEN
                @ '' characters, so the whole of it is stored in `key_prefix` and appears in every listing.'']
        else [])"

definition keygen_report :: "string \<Rightarrow> api_key_row \<Rightarrow> partner \<Rightarrow> model_price list \<Rightarrow> bool \<Rightarrow> string" where
  "keygen_report path row p models supplied =
     concat (map (\<lambda>line. line @ [lf])
       ([''issued key #'' @ dec_int (ak_id row),
         ''  name:        '' @ ak_name row,
         ''  consumer_id: '' @ ak_consumer_id row,
         ''  key_prefix:  '' @ ak_key_prefix row,
         ''  billing:     '' @ mode_as_str (p_billing_mode p),
         (if p_billing_email p = [] then ''  billing_email: (none '' @ em_dash @ '' statements are issued and not emailed)''
          else ''  billing_email: '' @ p_billing_email p),
         (if owes_payment (p_billing_mode p)
          then ''  payment due: '' @ dec_int (p_payment_terms p) @ '' minutes after each day closes''
          else ''  payment due: n/a (reconciliation '' @ em_dash @ '' no deadline, never suspended)''),
         ''  models:'']
        @ map model_line models
        @ [''  database:    '' @ path]
        @ (if supplied then supplied_warning row else [])
        @ [[], ''This is the only time the key is shown. Store it in the partner'' @ [CHR 0x27]
               @ ''s secret manager now; it cannot be read back from the database or from any endpoint.'']))"

definition partner_call ::
  "admin_env \<Rightarrow> nat \<Rightarrow> (instant \<Rightarrow> fault \<Rightarrow> fault \<Rightarrow> db \<Rightarrow> (billing_error + 'a) \<times> db) \<Rightarrow> portal \<Rightarrow>
   (keygen_error + 'a) \<times> portal" where
  "partner_call env i f st =
     (case f (ad_clock env i) (ad_fault env i) (ad_reread env i) (ad_others env i (po_db st)) of
        (r, s) \<Rightarrow> (map_sum KgBilling id r, st\<lparr>po_db := s\<rparr>))"

definition store_call ::
  "(key_store \<Rightarrow> (api_key_error + 'a) \<times> key_store) \<Rightarrow> portal \<Rightarrow> (keygen_error + 'a) \<times> portal" where
  "store_call f st = (case f (po_keys st) of (r, ks) \<Rightarrow> (map_sum KgStore id r, st\<lparr>po_keys := ks\<rparr>))"

definition issue_key ::
  "portal_libs \<Rightarrow> admin_env \<Rightarrow> string \<Rightarrow> keygen_request \<Rightarrow> string option \<Rightarrow> key_store \<Rightarrow>
   (api_key_error + (api_key_row \<times> string)) \<times> key_store" where
  "issue_key L env secret req supplied ks =
     (case supplied of
        Some plaintext \<Rightarrow>
          (case create_with_plaintext (pl_crypto L) (pl_time L) secret (ad_keys env) (kg_name req)
                  (kg_consumer_id req) None plaintext ks of
             (r, ks') \<Rightarrow> (map_sum id (\<lambda>row. (row, plaintext)) r, ks'))
      | None \<Rightarrow>
          create_key (pl_crypto L) (pl_time L) secret (ad_entropy env) (ad_keys env) (kg_name req)
            (kg_consumer_id req) None ks)"

text \<open>The answer is the report for the terminal and the plaintext for the output.\<close>

definition keygen_run ::
  "portal_libs \<Rightarrow> admin_env \<Rightarrow> schema_error option \<Rightarrow> string + string \<Rightarrow> string \<Rightarrow> string \<Rightarrow> keygen_request \<Rightarrow>
   portal \<Rightarrow> (keygen_error + (string \<times> string)) \<times> portal" where
  "keygen_run L env opening stdin path secret req st =
     (case opening of
        Some e \<Rightarrow> (Inl (KgDatabase path e), st)
      | None \<Rightarrow>
          and_then (partner_call env 0
              (\<lambda>now wflt rflt. create_partner (pl_time L) now wflt rflt (kg_partner req)) st) (\<lambda>p st.
          and_then (partner_call env 1
              (\<lambda>now wflt _. replace_models (pl_time L) now wflt (p_consumer_id p) (kg_models req)) st) (\<lambda>_ st.
          case resolve_plaintext stdin (kg_plaintext req) of
            Inl e \<Rightarrow> (Inl e, st)
          | Inr supplied \<Rightarrow>
              and_then (store_call (issue_key L env secret req supplied) st) (\<lambda>(row, plaintext) st.
                (Inr (keygen_report path row p (kg_models req) (supplied \<noteq> None), plaintext), st)))))"

definition database_path :: "(string \<Rightarrow> string + config) \<Rightarrow> string \<Rightarrow> keygen_error + string" where
  "database_path load path =
     (case load path of Inl e \<Rightarrow> Inl (KgConfig path e) | Inr c \<Rightarrow> Inr (dc_path (cf_database c)))"

definition load_hashing_secret :: "string option \<Rightarrow> string + string" where
  "load_hashing_secret var =
     (case load_secret var of
        Inl e \<Rightarrow> Inl (secret_error_text e @ ''. The key issued here is hashed with that secret, so it must be ''
                      @ ''the one the server runs with'')
      | Inr secret \<Rightarrow> Inr secret)"

section \<open>The process\<close>

definition config_path :: "string option \<Rightarrow> string" where
  "config_path var = (case var of None \<Rightarrow> ''config.yaml'' | Some path \<Rightarrow> path)"

text \<open>
  The two outputs of the process and how it ends: normally, with an exit status of its own, with the
  error \<^verbatim>\<open>main\<close> returns, or in the panic of a \<open>print!\<close> whose stream refuses the text. The room of a
  stream is the number of bytes it takes before it fails (a full device, a closed pipe), if it does.
\<close>

datatype process_end = Finished | ExitStatus int | MainError string | Panicked

definition print_to :: "nat option \<Rightarrow> string \<Rightarrow> string \<times> bool" where
  "print_to room text =
     (case room of
        None \<Rightarrow> (text, True)
      | Some n \<Rightarrow> (take n text, length text \<le> n))"

record process_result =
  pr_stdout :: string
  pr_stderr :: string
  pr_end :: process_end

record shell =
  sh_config_env :: "string option"
  sh_secret_env :: "string option"
  sh_load :: "string \<Rightarrow> string + config"
  sh_open :: "string \<Rightarrow> schema_error option"
  sh_stdin :: "string + string"
  sh_sql_text :: "rusqlite_error \<Rightarrow> string"
  sh_stdout_room :: "nat option"
  sh_stderr_room :: "nat option"

definition main_error :: "string \<Rightarrow> process_result" where
  "main_error msg = \<lparr>pr_stdout = [], pr_stderr = [], pr_end = MainError msg\<rparr>"

definition run_keygen ::
  "portal_libs \<Rightarrow> admin_env \<Rightarrow> shell \<Rightarrow> string list \<Rightarrow> portal \<Rightarrow> process_result \<times> portal" where
  "run_keygen L env sh argv st =
     (if \<exists>a \<in> set (drop 1 argv). a = ''-h'' \<or> a = ''--help''
      then (case print_to (sh_stdout_room sh) usage_text of
              (out, ok) \<Rightarrow>
                (\<lparr>pr_stdout = out, pr_stderr = [], pr_end = (if ok then Finished else Panicked)\<rparr>, st))
      else case parse_arguments (pl_debug L) argv of
        Inl e \<Rightarrow>
          (case print_to (sh_stderr_room sh)
                  (''partner-portal keygen: '' @ usage_error_text (pl_debug L) e @ [lf, lf] @ usage_text) of
             (err, ok) \<Rightarrow>
               (\<lparr>pr_stdout = [], pr_stderr = err,
                 pr_end = (if ok then ExitStatus EXIT_USAGE else Panicked)\<rparr>, st))
      | Inr req \<Rightarrow>
          (case (case kg_database req of
                   Some path \<Rightarrow> Inr path
                 | None \<Rightarrow> map_sum (keygen_error_text (sh_sql_text sh) (pl_debug L)) id
                             (database_path (sh_load sh) (config_path (sh_config_env sh)))) of
             Inl msg \<Rightarrow> (main_error msg, st)
           | Inr path \<Rightarrow>
               (case load_hashing_secret (sh_secret_env sh) of
                  Inl msg \<Rightarrow> (main_error msg, st)
                | Inr secret \<Rightarrow>
                    (case keygen_run L env (sh_open sh path) (sh_stdin sh) path secret req st of
                       (Inl e, st') \<Rightarrow> (main_error (keygen_error_text (sh_sql_text sh) (pl_debug L) e), st')
                     | (Inr (report, plaintext), st') \<Rightarrow>
                         (case print_to (sh_stderr_room sh) report of
                            (err, False) \<Rightarrow> (\<lparr>pr_stdout = [], pr_stderr = err, pr_end = Panicked\<rparr>, st')
                          | (err, True) \<Rightarrow>
                              (case print_to (sh_stdout_room sh) (plaintext @ [lf]) of
                                 (out, ok) \<Rightarrow>
                                   (\<lparr>pr_stdout = out, pr_stderr = err,
                                     pr_end = (if ok then Finished else Panicked)\<rparr>, st')))))))"

end
