(* ===== verification/Keygen_Properties.thy ===== *)
theory Keygen_Properties
  imports Keygen Api_Properties Cursor_Properties
begin

text \<open>
  What the provisioning command promises: its command line says exactly what is provisioned, a key is
  printed exactly when it exists, and it exists only with its partner and prices.
\<close>

section \<open>The command line\<close>

lemma split_on_none: "c \<notin> set a \<Longrightarrow> split_on c a = [a]"
  by (induction a) auto

lemma split_on_Cons: "c \<notin> set a \<Longrightarrow> split_on c (a @ c # b) = a # split_on c b"
  by (induction a) auto

lemma split_on_parts: "part \<in> set (split_on c s) \<Longrightarrow> c \<notin> set part"
  by (induction s arbitrary: part) (auto split: if_splits list.splits)

lemma trim_subset: "set (trim s) \<subseteq> set s"
proof -
  have step: "set (trim_start_of ws t) \<subseteq> set t" for ws t
    using trim_start_drop [of ws t] set_drop_subset by metis
  show ?thesis using step [of "map rev white_space" "rev (trim_start_of white_space s)"] step [of white_space s]
    by (auto simp: trim_def)
qed

lemma price_chars:
  assumes "0 \<le> v" shows "CHR '':'' \<notin> set (to_decimal_string (PricePerMillion v))"
proof -
  obtain w f where shape: "to_decimal_string (PricePerMillion v) = price_text w f" "price_shape w f"
    using to_decimal_string_text(1,2) [OF assms] by blast
  have "\<not> is_ascii_digit CHR '':''" by (simp add: is_ascii_digit_def)
  then show ?thesis
    using shape by (auto simp: price_text_def price_shape_def all_digits_def list_all_iff)
qed

definition price_flag :: "model_price \<Rightarrow> string" where
  "price_flag m =
     mp_model m @ CHR '':'' # to_decimal_string (ps_input (mp_prices m))
     @ CHR '':'' # to_decimal_string (ps_cached_input (mp_prices m))
     @ CHR '':'' # to_decimal_string (ps_output (mp_prices m))"

definition entry_ok :: "model_price \<Rightarrow> bool" where
  "entry_ok m \<longleftrightarrow> mp_model m \<noteq> [] \<and> trim (mp_model m) = mp_model m \<and> CHR '':'' \<notin> set (mp_model m)
     \<and> stored_price (ps_input (mp_prices m)) \<and> stored_price (ps_cached_input (mp_prices m))
     \<and> stored_price (ps_output (mp_prices m))"

lemma stored_price_text:
  assumes "stored_price p"
  shows "trim (to_decimal_string p) = to_decimal_string p" "price_parse (to_decimal_string p) = Inr p"
    "CHR '':'' \<notin> set (to_decimal_string p)"
  using assms trim_price_text price_round_trip price_chars by (cases p; simp add: stored_price_def)+

lemma model_argument_of_flag: "entry_ok m \<Longrightarrow> model_argument dbg (price_flag m) = Inr m"
  by (simp add: model_argument_def price_flag_def entry_ok_def split_on_Cons split_on_none stored_price_text)

lemma model_argument_ok:
  assumes "model_argument dbg value = Inr m" shows "entry_ok m"
proof -
  obtain model pin pca pou where parts: "split_on CHR '':'' value = [model, pin, pca, pou]"
    using assms by (auto simp: model_argument_def split: list.splits)
  have "CHR '':'' \<notin> set (trim model)"
    using split_on_parts [of model "CHR '':''" "value"] trim_subset [of model] by (auto simp: parts)
  then show ?thesis
    using assms by (auto simp: model_argument_def parts entry_ok_def stored_price_def res_bind_Inr_iff Let_def
        dest: price_parse_range split: if_splits sum.splits)
qed

definition plaintext_flags :: "plaintext \<Rightarrow> string list" where
  "plaintext_flags p =
     (case p of Generated \<Rightarrow> [] | Supplied v \<Rightarrow> [''--plaintext'', v] | FromStdin \<Rightarrow> [''--plaintext'', ''-''])"

definition command_line :: "keygen_request \<Rightarrow> string list" where
  "command_line r =
     [''partner-portal'', COMMAND, ''--name'', kg_name r, ''--consumer-id'', kg_consumer_id r]
     @ concat (map (\<lambda>m. [''--model'', price_flag m]) (kg_models r))
     @ [''--billing-mode'', mode_as_str (np_billing_mode (kg_partner r)),
        ''--billing-email'', np_billing_email (kg_partner r),
        ''--payment-terms'', dec_int (np_payment_terms (kg_partner r))]
     @ plaintext_flags (kg_plaintext r)
     @ (case kg_database r of None \<Rightarrow> [] | Some path \<Rightarrow> [''--database'', path])"

fun plaintext_ok :: "plaintext \<Rightarrow> bool" where
  "plaintext_ok (Supplied v) \<longleftrightarrow> v \<noteq> ''-'' \<and> trim v \<noteq> []"
| "plaintext_ok _ \<longleftrightarrow> True"

definition request_ok :: "keygen_request \<Rightarrow> bool" where
  "request_ok r \<longleftrightarrow>
     trim (kg_name r) \<noteq> [] \<and> trim (kg_consumer_id r) \<noteq> []
     \<and> np_consumer_id (kg_partner r) = kg_consumer_id r \<and> np_name (kg_partner r) = kg_name r
     \<and> trim (np_billing_email (kg_partner r)) = np_billing_email (kg_partner r)
     \<and> 0 \<le> np_payment_terms (kg_partner r) \<and> in_i64 (np_payment_terms (kg_partner r))
     \<and> kg_models r \<noteq> [] \<and> distinct (map mp_model (kg_models r)) \<and> list_all entry_ok (kg_models r)
     \<and> plaintext_ok (kg_plaintext r) \<and> pred_option (\<lambda>path. trim path \<noteq> []) (kg_database r)"

lemma parse_model_flags:
  "list_all entry_ok ms \<Longrightarrow> distinct (map mp_model (fl_models f @ ms)) \<Longrightarrow>
   parse_flags dbg (concat (map (\<lambda>m. [''--model'', price_flag m]) ms) @ rest) f
     = parse_flags dbg rest (f\<lparr>fl_models := fl_models f @ ms\<rparr>)"
proof (induction ms arbitrary: f)
  case (Cons m ms)
  have "set_flag dbg ''--model'' (price_flag m) f = Inr (f\<lparr>fl_models := fl_models f @ [m]\<rparr>)"
    using Cons.prems by (simp add: set_flag_def model_argument_of_flag)
  with Cons show ?case by simp
qed simp

lemma visible_dec_int: "trim (dec_int i) = dec_int i"
proof (rule trim_visible)
  have digits: "is_ascii_digit ch" if "ch \<in> set (dec n)" for ch n
    using dec_digits [of n] that by (auto simp: all_digits_def list_all_iff)
  show "dec_int i \<noteq> []" using dec_nonempty by (auto simp: dec_int_def)
  show "visible (hd (dec_int i))" "visible (last (dec_int i))"
    using digits [of "hd (dec (nat \<bar>i\<bar>))" "nat \<bar>i\<bar>"] digits [of "last (dec (nat \<bar>i\<bar>))" "nat \<bar>i\<bar>"]
      visible_digit visible_def [of "CHR ''-''"]
    by (auto simp: dec_int_def hd_append last_append)
qed

lemma parse_tail:
  assumes ok: "request_ok r"
  shows "parse_flags dbg
     ([''--billing-mode'', mode_as_str (np_billing_mode (kg_partner r)),
       ''--billing-email'', np_billing_email (kg_partner r),
       ''--payment-terms'', dec_int (np_payment_terms (kg_partner r))]
      @ plaintext_flags (kg_plaintext r) @ (case kg_database r of None \<Rightarrow> [] | Some path \<Rightarrow> [''--database'', path])) f
    = Inr (f\<lparr>fl_billing_mode := np_billing_mode (kg_partner r), fl_billing_email := np_billing_email (kg_partner r),
        fl_payment_terms := np_payment_terms (kg_partner r),
        fl_plaintext := (if kg_plaintext r = Generated then fl_plaintext f else kg_plaintext r),
        fl_database := (if kg_database r = None then fl_database f else kg_database r)\<rparr>)"
proof -
  have mode: "trim (mode_as_str m) = mode_as_str m" for m
    by (cases m) (subst trim_visible; simp add: visible_def)+
  have flags: "set_flag dbg ''--billing-mode'' (mode_as_str m) f = Inr (f\<lparr>fl_billing_mode := m\<rparr>)"
    "set_flag dbg ''--billing-email'' e f = Inr (f\<lparr>fl_billing_email := e\<rparr>)"
    "0 \<le> n \<Longrightarrow> in_i64 n \<Longrightarrow> set_flag dbg ''--payment-terms'' (dec_int n) f = Inr (f\<lparr>fl_payment_terms := n\<rparr>)"
    "trim path \<noteq> [] \<Longrightarrow> set_flag dbg ''--database'' path f = Inr (f\<lparr>fl_database := Some path\<rparr>)"
    "trim v \<noteq> [] \<Longrightarrow> v \<noteq> ''-'' \<Longrightarrow> set_flag dbg ''--plaintext'' v f = Inr (f\<lparr>fl_plaintext := Supplied v\<rparr>)"
    "set_flag dbg ''--plaintext'' ''-'' f = Inr (f\<lparr>fl_plaintext := FromStdin\<rparr>)"
    for m e n path v f
    by (simp_all add: set_flag_def mode visible_dec_int)
  show ?thesis
    using ok by (cases "kg_plaintext r"; cases "kg_database r")
      (simp_all add: request_ok_def plaintext_flags_def flags)
qed

lemma parse_command_line:
  assumes ok: "request_ok r"
  shows "parse_arguments dbg (command_line r) = Inr r"
proof -
  let ?f = "no_flags\<lparr>fl_name := Some (kg_name r), fl_consumer_id := Some (kg_consumer_id r)\<rparr>"
  have head: "set_flag dbg ''--name'' (kg_name r) no_flags = Inr (no_flags\<lparr>fl_name := Some (kg_name r)\<rparr>)"
    "set_flag dbg ''--consumer-id'' (kg_consumer_id r) f = Inr (f\<lparr>fl_consumer_id := Some (kg_consumer_id r)\<rparr>)" for f
    using ok by (simp_all add: set_flag_def request_ok_def)
  have "list_all entry_ok (kg_models r)" "distinct (map mp_model (fl_models ?f @ kg_models r))"
    using ok by (simp_all add: request_ok_def no_flags_def)
  note models = parse_model_flags [OF this, of dbg]
  let ?tail = "[''--billing-mode'', mode_as_str (np_billing_mode (kg_partner r)),
        ''--billing-email'', np_billing_email (kg_partner r),
        ''--payment-terms'', dec_int (np_payment_terms (kg_partner r))]
     @ plaintext_flags (kg_plaintext r) @ (case kg_database r of None \<Rightarrow> [] | Some path \<Rightarrow> [''--database'', path])"
  have "drop 2 (command_line r) = ''--name'' # kg_name r # ''--consumer-id'' # kg_consumer_id r
     # (concat (map (\<lambda>m. [''--model'', price_flag m]) (kg_models r)) @ ?tail)"
    by (simp add: command_line_def)
  then have "parse_flags dbg (drop 2 (command_line r)) no_flags
      = parse_flags dbg ?tail (?f\<lparr>fl_models := fl_models ?f @ kg_models r\<rparr>)"
    by (simp only: parse_flags.simps(3) head res_bind_simps models)
  note this [unfolded parse_tail [OF ok]]
  then have "parse_arguments dbg (command_line r) =
      finish_flags (?f\<lparr>fl_models := kg_models r, fl_billing_mode := np_billing_mode (kg_partner r),
        fl_billing_email := np_billing_email (kg_partner r), fl_payment_terms := np_payment_terms (kg_partner r),
        fl_plaintext := kg_plaintext r, fl_database := kg_database r\<rparr>)"
    by (simp add: parse_arguments_def no_flags_def)
  then show ?thesis
    using ok by (cases r, cases "kg_partner r") (simp add: finish_flags_def request_ok_def Let_def)
qed

text \<open>What every flag keeps, and so what a command line that is accepted says.\<close>

definition flags_ok :: "keygen_flags \<Rightarrow> bool" where
  "flags_ok f \<longleftrightarrow>
     pred_option (\<lambda>n. trim n \<noteq> []) (fl_name f) \<and> pred_option (\<lambda>c. trim c \<noteq> []) (fl_consumer_id f)
     \<and> distinct (map mp_model (fl_models f)) \<and> list_all entry_ok (fl_models f)
     \<and> 0 \<le> fl_payment_terms f \<and> in_i64 (fl_payment_terms f)
     \<and> plaintext_ok (fl_plaintext f) \<and> pred_option (\<lambda>path. trim path \<noteq> []) (fl_database f)"

lemma parse_i64_range: "parse_i64 s = Some i \<Longrightarrow> in_i64 i"
  by (auto simp: parse_i64_def Let_def split: if_splits)

lemma set_flag_keeps: "set_flag dbg flag value f = Inr f' \<Longrightarrow> flags_ok f \<Longrightarrow> flags_ok f'"
  by (simp add: set_flag_def flags_ok_def res_bind_Inr_iff split: if_split_asm option.split_asm)
    (auto dest: model_argument_ok parse_i64_range)

lemma parse_flags_keeps: "parse_flags dbg args f = Inr f' \<Longrightarrow> flags_ok f \<Longrightarrow> flags_ok f'"
proof (induction dbg args f rule: parse_flags.induct)
  case (3 dbg flag arg rest f)
  then show ?case by (auto simp: res_bind_Inr_iff dest: set_flag_keeps)
qed (auto split: if_splits)

lemma parsed_request_ok:
  assumes "parse_arguments dbg args = Inr r" shows "request_ok r"
proof -
  have "flags_ok no_flags"
    by (simp add: flags_ok_def no_flags_def DEFAULT_PAYMENT_TERMS_MINUTES_def in_i64_def)
  moreover obtain f where f: "parse_flags dbg (drop 2 args) no_flags = Inr f" "finish_flags f = Inr r"
    using assms by (auto simp: parse_arguments_def res_bind_Inr_iff)
  ultimately have ok: "flags_ok f" using parse_flags_keeps by blast
  have "trim ''unnamed'' \<noteq> []" by (subst trim_visible) (simp_all add: visible_def)
  then show ?thesis
    using f(2) ok by (auto simp: finish_flags_def request_ok_def flags_ok_def Let_def split: if_splits option.splits)
qed

text \<open>
  C30: the command line says exactly what is provisioned. A request that is read from any command line is
  well formed: no blank name, consumer or path, at least one model, each with three prices and each once,
  a payment term that is a count of minutes, one consumer and one name for the key and its partner; and
  every well-formed request, and nothing else, is read back from the command line that spells it out.
\<close>

theorem provisioning_command_round_trip:
  "(\<forall>args. parse_arguments dbg args = Inr r \<longrightarrow> request_ok r)
   \<and> (parse_arguments dbg (command_line r) = Inr r \<longleftrightarrow> request_ok r)"
  using parse_command_line parsed_request_ok by blast

section \<open>Issuing a key\<close>

lemma create_with_plaintext_adds:
  assumes "create_with_plaintext K T secret env name consumer expires plaintext ks = (res, ks')" "alone env"
  shows "(\<exists>e. res = Inl e) \<and> ks' = ks
    \<or> (\<exists>row k. res = Inr row \<and> ks_keys ks' = ks_keys ks @ [k] \<and> live k \<and> ak_consumer_id k = trim consumer
        \<and> ak_key_hash k = derive_key_hash K secret plaintext)"
proof -
  have tx: "(\<exists>e. res' = Inl e) \<and> st' = ks
      \<or> (\<exists>r. res' = Inr (OutDone r)) \<and> (\<exists>i. ks_keys st' = ks_keys ks @ [new_row k i])"
    if "mutate_domain T env (create_tx k) ks = (res', st')" for k res' st'
    using that unfolding mutate_domain_alone [OF assms(2)]
    by (auto split: option.splits sum.splits mutation.splits prod.splits
        elim!: create_tx_Inr insert_key_cases)
  show ?thesis
    using assms(1)
    by (auto simp: create_with_plaintext_def require_text_def Let_def done_or_missing_def new_row_def live_def
        split: sum.splits if_splits prod.splits dest!: tx)
qed

lemma issue_key_cases:
  assumes "issue_key L env secret req supplied ks = (res, ks')" "alone (ad_keys env)"
  shows "(\<exists>e. res = Inl e) \<and> ks' = ks
    \<or> (\<exists>row plaintext k. res = Inr (row, plaintext) \<and> ks_keys ks' = ks_keys ks @ [k] \<and> live k
        \<and> ak_consumer_id k = trim (kg_consumer_id req)
        \<and> ak_key_hash k = derive_key_hash (pl_crypto L) secret plaintext)"
  using assms(1)
  by (auto simp: issue_key_def create_key_def split: option.splits prod.splits sum.splits
      dest!: create_with_plaintext_adds [OF _ assms(2)])

lemma create_partner_adds:
  assumes "create_partner T now wflt rflt n s = (Inr p, s')"
  shows "p_consumer_id p = trim (np_consumer_id n)" "has_partner (p_consumer_id p) s'"
    "\<not> has_partner (p_consumer_id p) s"
proof -
  define row where "row = \<lparr>pr_consumer_id = trim (np_consumer_id n), pr_name = trim (np_name n),
     pr_billing_email = trim (np_billing_email n), pr_billing_mode = mode_as_str (np_billing_mode n),
     pr_payment_terms = np_payment_terms n, pr_created_at = format_ts T now, pr_updated_at = format_ts T now\<rparr>"
  have row: "pr_consumer_id row = trim (np_consumer_id n)" "find_partner (pr_consumer_id row) s = None"
      "s' = s\<lparr>partners := partners s @ [row]\<rparr>" "require_partner rflt (trim (np_consumer_id n)) s' = Inr p"
    using assms
    by (auto simp: create_partner_def validated_def Let_def pool_write_def insert_partner_def row_def
        split: sum.splits prod.splits if_splits option.splits)
  obtain found where "find_partner (trim (np_consumer_id n)) s' = Some found" "p = row_to_partner found"
    using row(4) by (cases rflt) (auto simp: require_partner_def get_partner_def db_result_def split: option.splits)
  then show p: "p_consumer_id p = trim (np_consumer_id n)"
    by (auto simp: find_partner_def row_to_partner_def dest: find_SomeD)
  show "has_partner (p_consumer_id p) s'" using row(1,3) p by (simp add: has_partner_def)
  show "\<not> has_partner (p_consumer_id p) s" using row(1,2) p by simp
qed

lemma create_partner_models:
  assumes "create_partner T now wflt rflt n s = (r, s')"
  shows "partner_models s' = partner_models s"
  using assms
  by (auto simp: create_partner_def pool_write_def insert_partner_def
      split: sum.splits prod.splits if_splits option.splits)

lemma replace_models_partners:
  "replace_models T now wflt i ms s = (r, s') \<Longrightarrow> has_partner j s' \<longleftrightarrow> has_partner j s"
proof -
  have ins: "insert_models rows s = Inr s' \<Longrightarrow> partners s' = partners s" for rows s s'
    by (induction rows arbitrary: s) (auto simp: res_bind_Inr_iff insert_model_def split: if_splits)
  have ids: "map (pr_consumer_id \<circ> (\<lambda>r. if pr_consumer_id r = i then r\<lparr>pr_updated_at := at\<rparr> else r)) rs
      = map pr_consumer_id rs" for at rs
    by (induction rs) auto
  show "replace_models T now wflt i ms s = (r, s') \<Longrightarrow> has_partner j s' \<longleftrightarrow> has_partner j s"
    by (auto simp: replace_models_def pool_write_def replace_models_tx_def res_bind_Inr_iff has_partner_def
        ids dest!: ins split: sum.splits prod.splits if_splits option.splits simp del: set_map)
qed

text \<open>What a run that prints a plaintext leaves behind.\<close>

definition provisioned :: "portal_libs \<Rightarrow> string \<Rightarrow> keygen_request \<Rightarrow> string \<Rightarrow> portal \<Rightarrow> portal \<Rightarrow> bool" where
  "provisioned L secret req plaintext st st' \<longleftrightarrow>
     (\<exists>k. ks_keys (po_keys st') = ks_keys (po_keys st) @ [k] \<and> live k
        \<and> ak_consumer_id k = trim (kg_consumer_id req)
        \<and> ak_key_hash k = derive_key_hash (pl_crypto L) secret plaintext)
     \<and> has_partner (trim (kg_consumer_id req)) (po_db st') \<and> \<not> has_partner (trim (kg_consumer_id req)) (po_db st)
     \<and> store_models None (trim (kg_consumer_id req)) (po_db st') = Inr (sort_key mp_model (kg_models req))"

lemma keygen_run_cases:
  assumes env: "undisturbed env" and req: "np_consumer_id (kg_partner req) = kg_consumer_id req"
    and run: "keygen_run L env opening stdin path secret req st = (res, st')"
  shows "(\<exists>e. res = Inl e) \<and> po_keys st' = po_keys st
    \<or> (\<exists>report plaintext. res = Inr (report, plaintext) \<and> provisioned L secret req plaintext st st')"
proof -
  have same: "ad_others env k s = s" for k s using env by (simp add: undisturbed_def)
  obtain r1 s1 where w1: "create_partner (pl_time L) (ad_clock env 0) (ad_fault env 0) (ad_reread env 0)
      (kg_partner req) (po_db st) = (r1, s1)" by fastforce
  show ?thesis
  proof (cases "opening = None \<and> (\<exists>p. r1 = Inr p)")
    case False
    then show ?thesis
      using run w1 by (cases r1) (auto simp: keygen_run_def and_then_def partner_call_def same split: option.splits)
  next
    case True
    then obtain p where p: "opening = None" "r1 = Inr p" by blast
    note created = create_partner_adds [OF w1 [unfolded p(2)]]
    obtain r2 s2 where w2: "replace_models (pl_time L) (ad_clock env 1) (ad_fault env 1) (p_consumer_id p)
        (kg_models req) s1 = (r2, s2)" by fastforce
    show ?thesis
    proof (cases "r2 = Inr () \<and> (\<exists>x. resolve_plaintext stdin (kg_plaintext req) = Inr x)")
      case False
      then show ?thesis
        using run w1 w2 p
        by (cases r2; cases "resolve_plaintext stdin (kg_plaintext req)")
          (auto simp: keygen_run_def and_then_def partner_call_def same)
    next
      case True
      then obtain supplied where r2: "r2 = Inr ()" "resolve_plaintext stdin (kg_plaintext req) = Inr supplied" by blast
      have models: "store_models None (p_consumer_id p) s2 = Inr (sort_key mp_model (kg_models req))"
        using replace_models_exact [OF w2] r2 by simp
      have partner: "has_partner (p_consumer_id p) s2"
        using replace_models_partners [OF w2] created(2) by simp
      show ?thesis
      proof -
        let ?st = "st\<lparr>po_db := s2\<rparr>"
        obtain r3 ks where w3: "issue_key L env secret req supplied (po_keys st) = (r3, ks)" by fastforce
        have c: "p_consumer_id p = trim (kg_consumer_id req)" using created(1) req by simp
        have "(res, st') = (map_sum KgStore (\<lambda>(row, plaintext).
            (keygen_report path row p (kg_models req) (supplied \<noteq> None), plaintext)) r3, ?st\<lparr>po_keys := ks\<rparr>)"
          using run w1 w2 w3 p r2
          by (cases r3) (auto simp: keygen_run_def and_then_def partner_call_def store_call_def same)
        then have final: "st' = ?st\<lparr>po_keys := ks\<rparr>" "res = map_sum KgStore (\<lambda>(row, plaintext).
            (keygen_report path row p (kg_models req) (supplied \<noteq> None), plaintext)) r3" by simp_all
        show ?thesis
          using issue_key_cases [OF w3] env models partner created(3)
          by (auto simp: final provisioned_def c undisturbed_def)
      qed
    qed
  qed
qed

lemma print_to_None [simp]: "print_to None text = (text, True)"
  by (simp add: print_to_def)

lemma print_to_whole: "print_to room text = (out, True) \<Longrightarrow> out = text"
  by (auto simp: print_to_def split: option.splits)

lemma print_to_prefix: "prefix (fst (print_to room text)) text"
  by (simp add: print_to_def take_is_prefix split: option.split)

lemma print_to_cut: "print_to room text = (out, False) \<Longrightarrow> room \<noteq> None \<and> strict_prefix out text"
  by (auto simp: print_to_def strict_prefix_def take_is_prefix split: option.splits)


definition sample_request :: keygen_request where
  "sample_request =
     \<lparr>kg_name = ''main'', kg_consumer_id = ''acme'',
      kg_partner = \<lparr>np_consumer_id = ''acme'', np_name = ''main'', np_billing_email = [],
        np_billing_mode = Invoice, np_payment_terms = 720\<rparr>,
      kg_models = sample_models, kg_plaintext = Supplied ''dev-key'', kg_database = Some ''ledger.db''\<rparr>"

definition sample_shell :: shell where
  "sample_shell =
     \<lparr>sh_config_env = None, sh_secret_env = Some (replicate 32 CHR ''s''), sh_load = (\<lambda>_. Inl ''no file''),
      sh_open = (\<lambda>_. None), sh_stdin = Inr [], sh_sql_text = (\<lambda>_. ''sql''), sh_stdout_room = None,
      sh_stderr_room = None\<rparr>"

definition empty_portal :: portal where
  "empty_portal = \<lparr>po_db = empty_db, po_keys = \<lparr>ks_keys = [], ks_snapshot = (\<lambda>_. None)\<rparr>\<rparr>"

lemma sample_words:
  "trim ''a'' = ''a''" "trim ''b'' = ''b''" "trim ''main'' = ''main''" "trim ''acme'' = ''acme''"
  "trim ''dev-key'' = ''dev-key''" "trim ''ledger.db'' = ''ledger.db''"
  by (subst trim_visible; simp add: visible_def)+

lemma sample_request_ok: "request_ok sample_request"
  by (simp add: request_ok_def sample_request_def sample_models_def sample_prices_def sample_words entry_ok_def
      stored_price_def in_i64_def)

theorem provisioning_command_round_trip_witness:
  "request_ok sample_request \<and> parse_arguments id (command_line sample_request) = Inr sample_request"
  using provisioning_command_round_trip [of id sample_request] sample_request_ok by blast

lemma calm_env_keys [simp]:
  "ke_now (calm_env s) = 0" "ke_begin_fault (calm_env s) = None" "ke_commit_fault (calm_env s) = None"
  by (simp_all add: calm_env_def)

text \<open>The sample command with any two output streams.\<close>

lemma sample_process:
  obtains report st' where
    "\<And>ro re. run_keygen sample_libs (quiet_env (\<lambda>_. 3))
         (sample_shell\<lparr>sh_stdout_room := ro, sh_stderr_room := re\<rparr>) (command_line sample_request) empty_portal
       = (case print_to re report of
            (err, False) \<Rightarrow> (\<lparr>pr_stdout = [], pr_stderr = err, pr_end = Panicked\<rparr>, st')
          | (err, True) \<Rightarrow>
              (case print_to ro (''dev-key'' @ [lf]) of
                 (out, ok) \<Rightarrow>
                   (\<lparr>pr_stdout = out, pr_stderr = err, pr_end = (if ok then Finished else Panicked)\<rparr>, st')))"
    "provisioned sample_libs (replicate 32 CHR ''s'') sample_request ''dev-key'' empty_portal st'"
proof -
  let ?secret = "replicate 32 CHR ''s''" and ?env = "quiet_env (\<lambda>_. 3)"
  have parsed: "parse_arguments (pl_debug sample_libs) (command_line sample_request) = Inr sample_request"
    by (rule parse_command_line [OF sample_request_ok])
  have no_help: "\<not> (\<exists>a \<in> set (drop 1 (command_line sample_request)). a = ''-h'' \<or> a = ''--help'')"
    by (simp add: command_line_def sample_request_def sample_models_def price_flag_def plaintext_flags_def COMMAND_def
        dec_int_def dec.simps digit_char_def)
  have secret: "load_secret (sh_secret_env (sample_shell\<lparr>sh_stdout_room := ro, sh_stderr_room := re\<rparr>)) = Inr ?secret" for ro re
    by (simp add: load_secret_def sample_shell_def MIN_SECRET_LEN_def)
  obtain p s1 where partner: "create_partner gregorian 3 None None (kg_partner sample_request) empty_db = (Inr p, s1)"
      "p_consumer_id p = ''acme''" "\<exists>x. pr_consumer_id x = ''acme'' \<and> s1 = empty_db\<lparr>partners := [x]\<rparr>"
    by (simp add: create_partner_def validated_def sample_request_def sample_words pool_write_def insert_partner_def
        partner_row_check_def sql_trim_def empty_db_def find_partner_def require_partner_def get_partner_def db_result_def
        row_to_partner_def Let_def has_partner_def)
  then obtain x where x: "pr_consumer_id x = ''acme''" "s1 = empty_db\<lparr>partners := [x]\<rparr>" by blast
  obtain s2 where prices: "replace_models gregorian 3 None ''acme'' sample_models s1 = (Inr (), s2)"
    by (simp add: x replace_models_def empty_db_def sample_models_def sample_words pool_write_def replace_models_tx_def
        insert_model_def model_to_row_def as_tuple_def sample_prices_def model_row_check_def sql_trim_def has_partner_def)
  obtain row ks where key: "issue_key sample_libs ?env ?secret sample_request (Some ''dev-key'') (po_keys empty_portal)
      = (Inr (row, ''dev-key''), ks)"
    by (simp add: issue_key_def create_with_plaintext_def sample_request_def require_text_def sample_words
        mutate_domain_alone calm_env_keys quiet_env_def empty_portal_def create_tx_def insert_key_def active_key_exists_def
        fetch_written_row_def fetch_row_def new_row_def done_or_missing_def Let_def)
  have parts: "kg_models sample_request = sample_models" "kg_plaintext sample_request = Supplied ''dev-key''"
      "kg_database sample_request = Some ''ledger.db''"
    by (simp_all add: sample_request_def)
  obtain report where run: "keygen_run sample_libs ?env None (Inr []) ''ledger.db'' ?secret sample_request empty_portal
      = (Inr (report, ''dev-key''), \<lparr>po_db = s2, po_keys = ks\<rparr>)"
    using partner(1,2) prices key
    by (simp add: keygen_run_def and_then_def partner_call_def store_call_def empty_portal_def parts)
  have shell: "sh_open (sample_shell\<lparr>sh_stdout_room := ro, sh_stderr_room := re\<rparr>) path = None" "sh_stdin (sample_shell\<lparr>sh_stdout_room := ro, sh_stderr_room := re\<rparr>) = Inr []" "sh_stdout_room (sample_shell\<lparr>sh_stdout_room := ro, sh_stderr_room := re\<rparr>) = ro" "sh_stderr_room (sample_shell\<lparr>sh_stdout_room := ro, sh_stderr_room := re\<rparr>) = re" for path ro re
    by (simp_all add: sample_shell_def)
  have "run_keygen sample_libs ?env (sample_shell\<lparr>sh_stdout_room := ro, sh_stderr_room := re\<rparr>)
      (command_line sample_request) empty_portal
    = (case print_to re report of
         (err, False) \<Rightarrow> (\<lparr>pr_stdout = [], pr_stderr = err, pr_end = Panicked\<rparr>, \<lparr>po_db = s2, po_keys = ks\<rparr>)
       | (err, True) \<Rightarrow>
           (case print_to ro (''dev-key'' @ [lf]) of
              (out, ok) \<Rightarrow>
                (\<lparr>pr_stdout = out, pr_stderr = err, pr_end = (if ok then Finished else Panicked)\<rparr>,
                 \<lparr>po_db = s2, po_keys = ks\<rparr>)))" for ro re
    unfolding run_keygen_def no_help [THEN eq_False [THEN iffD2]] if_False parsed sum.case parts option.case
      load_hashing_secret_def secret shell run prod.case
    by (rule refl)
  moreover have "np_consumer_id (kg_partner sample_request) = kg_consumer_id sample_request"
    by (simp add: sample_request_def)
  from keygen_run_cases [OF quiet_env_undisturbed this run]
  have "provisioned sample_libs ?secret sample_request ''dev-key'' empty_portal \<lparr>po_db = s2, po_keys = ks\<rparr>"
    by auto
  ultimately show thesis using that by blast
qed


section \<open>A key that is not printed\<close>

text \<open>
  The key is committed before the report and the plaintext are written: with an output that takes nothing
  the process panics, and the key it has issued is live and known to nobody.
\<close>

lemma unprinted_key_exists:
  "\<exists>res st'. run_keygen sample_libs (quiet_env (\<lambda>_. 3)) (sample_shell\<lparr>sh_stdout_room := Some 0\<rparr>)
       (command_line sample_request) empty_portal = (res, st')
     \<and> pr_stdout res = [] \<and> pr_end res = Panicked
     \<and> provisioned sample_libs (replicate 32 CHR ''s'') sample_request ''dev-key'' empty_portal st'"
proof -
  obtain report st' where run: "\<And>ro re. run_keygen sample_libs (quiet_env (\<lambda>_. 3))
         (sample_shell\<lparr>sh_stdout_room := ro, sh_stderr_room := re\<rparr>) (command_line sample_request) empty_portal
       = (case print_to re report of
            (err, False) \<Rightarrow> (\<lparr>pr_stdout = [], pr_stderr = err, pr_end = Panicked\<rparr>, st')
          | (err, True) \<Rightarrow>
              (case print_to ro (''dev-key'' @ [lf]) of
                 (out, ok) \<Rightarrow>
                   (\<lparr>pr_stdout = out, pr_stderr = err, pr_end = (if ok then Finished else Panicked)\<rparr>, st')))"
      "provisioned sample_libs (replicate 32 CHR ''s'') sample_request ''dev-key'' empty_portal st'"
    by (rule sample_process, rule that, assumption+)
  have "sample_shell\<lparr>sh_stdout_room := Some 0, sh_stderr_room := None\<rparr> = sample_shell\<lparr>sh_stdout_room := Some 0\<rparr>"
    by (simp add: sample_shell_def)
  with run(1) [where ro = "Some 0" and re = None] run(2) show ?thesis by (simp add: print_to_def)
qed

section \<open>A run that stops half-way\<close>

text \<open>
  The partner and its prices are written before standard input is read: a run whose input is empty issues no
  key and leaves them, and every later run for that consumer is refused.
\<close>

lemma empty_input_strands_partner:
  assumes env: "undisturbed env" and source: "kg_plaintext req = FromStdin"
    and partner: "create_partner (pl_time L) (ad_clock env 0) (ad_fault env 0) (ad_reread env 0) (kg_partner req) (po_db st)
      = (Inr p, s1)"
    and prices: "replace_models (pl_time L) (ad_clock env 1) (ad_fault env 1) (p_consumer_id p) (kg_models req) s1
      = (Inr (), s2)"
  shows "keygen_run L env None (Inr []) path secret req st = (Inl EmptyStdin, st\<lparr>po_db := s2\<rparr>)"
    and "has_partner (p_consumer_id p) s2"
proof -
  have same: "ad_others env k s = s" for k s using env by (simp add: undisturbed_def)
  show "keygen_run L env None (Inr []) path secret req st = (Inl EmptyStdin, st\<lparr>po_db := s2\<rparr>)"
    using source partner prices by (simp add: keygen_run_def and_then_def partner_call_def same)
  show "has_partner (p_consumer_id p) s2"
    using replace_models_partners [OF prices] create_partner_adds(2) [OF partner] by simp
qed

text \<open>The prefix is twelve characters and the warning counts bytes: six accented letters are stored whole, unsaid.\<close>

lemma whole_plaintext_stored_unsaid:
  "key_prefix_of (concat (replicate 6 [CHR 0xC3, CHR 0xA9])) = concat (replicate 6 [CHR 0xC3, CHR 0xA9])"
  "\<not> length (key_prefix_of (concat (replicate 6 [CHR 0xC3, CHR 0xA9]))) < KEY_PREFIX_LEN"
  by code_simp+

end
