(* ===== verification/Events.thy ===== *)
theory Events
  imports Portal_Prelude
begin

text \<open>
  \<^verbatim>\<open>dashboard/sse.rs\<close>: the poller that watches the version of the database and the stream that tells a
  dashboard to read again. What the pragma answers at each poll, and what a stream is woken by (the
  broadcast channel, the shutdown signal), are the inputs.
\<close>

section \<open>The poller\<close>

definition SSE_BUFFER :: nat where "SSE_BUFFER = 128"
definition KEEPALIVE_INTERVAL_SECS :: nat where "KEEPALIVE_INTERVAL_SECS = 15"
definition RETRY_HINT_MS :: nat where "RETRY_HINT_MS = 3000"

definition poll_interval :: "nat \<Rightarrow> nat" where
  "poll_interval ms = max ms 1"

definition get_data_version :: "'e + i64 \<Rightarrow> i64" where
  "get_data_version answer = (case answer of Inl e \<Rightarrow> - 1 | Inr v \<Rightarrow> v)"

text \<open>One turn of the loop: the version it remembers from then on, and whether it notifies.\<close>

definition poll_step :: "i64 \<Rightarrow> i64 \<Rightarrow> i64 \<times> bool" where
  "poll_step last_version current =
     (if current \<noteq> last_version then (current, True) else (last_version, False))"

fun poll_from :: "i64 \<Rightarrow> ('e + i64) list \<Rightarrow> bool list" where
  "poll_from last_version [] = []"
| "poll_from last_version (answer # answers) =
     (case poll_step last_version (get_data_version answer) of
        (last', notify) \<Rightarrow> notify # poll_from last' answers)"

text \<open>The task: the first reading is the baseline, every later one a turn.\<close>

fun poller :: "('e + i64) list \<Rightarrow> bool list" where
  "poller [] = []"
| "poller (first # answers) = poll_from (get_data_version first) answers"

section \<open>A stream\<close>

datatype wakeup = ShutdownChanged | Received | Lagged nat | ChannelClosed

record event =
  ev_event :: "string option"
  ev_retry :: "nat option"
  ev_data :: string

definition connected_event :: event where
  "connected_event =
     \<lparr>ev_event = Some ''connected'', ev_retry = Some RETRY_HINT_MS, ev_data = ''{\"type\":\"connected\"}''\<rparr>"

definition shutdown_event :: event where
  "shutdown_event =
     \<lparr>ev_event = Some ''server_shutdown'', ev_retry = Some RETRY_HINT_MS,
      ev_data = ''{\"type\":\"server_shutdown\"}''\<rparr>"

definition change_event :: event where
  "change_event = \<lparr>ev_event = None, ev_retry = None, ev_data = ''{\"type\":\"data_changed\"}''\<rparr>"

text \<open>The events after the first, and whether the body has ended.\<close>

fun stream_events :: "wakeup list \<Rightarrow> event list \<times> bool" where
  "stream_events [] = ([], False)"
| "stream_events (ShutdownChanged # _) = ([shutdown_event], True)"
| "stream_events (Received # rest) = (case stream_events rest of (es, ended) \<Rightarrow> (change_event # es, ended))"
| "stream_events (Lagged n # rest) = (case stream_events rest of (es, ended) \<Rightarrow> (change_event # es, ended))"
| "stream_events (ChannelClosed # _) = ([], True)"

definition sse_response :: "wakeup list \<Rightarrow> event list \<times> bool" where
  "sse_response ws = (case stream_events ws of (es, ended) \<Rightarrow> (connected_event # es, ended))"

section \<open>Facts\<close>

lemma length_poll_from [simp]: "length (poll_from v answers) = length answers"
  by (induction answers arbitrary: v) (simp_all add: poll_step_def)

text \<open>A turn notifies exactly when its reading is not the one before it.\<close>

lemma poll_from_nth:
  "k < length answers \<Longrightarrow>
   poll_from v answers ! k \<longleftrightarrow>
     get_data_version (answers ! k) \<noteq> (if k = 0 then v else get_data_version (answers ! (k - 1)))"
proof (induction answers arbitrary: v k)
  case (Cons a as)
  then show ?case by (cases k) (auto simp: poll_step_def nth_Cons')
qed simp

lemma change_between:
  fixes f :: "nat \<Rightarrow> 'a"
  shows "i < j \<Longrightarrow> f i \<noteq> f j \<Longrightarrow> \<exists>k. i < k \<and> k \<le> j \<and> f k \<noteq> f (k - 1)"
proof (induction j)
  case (Suc j)
  show ?case
  proof (cases "f (Suc j) = f j")
    case True
    with Suc.prems have "f i \<noteq> f j" by simp
    moreover from this have "i < j" using Suc.prems(1) less_Suc_eq by auto
    ultimately show ?thesis using Suc.IH le_Suc_eq by blast
  next
    case False
    then show ?thesis using Suc.prems(1) by (intro exI [of _ "Suc j"]) simp
  qed
qed simp

lemma stream_events_open:
  "list_all (\<lambda>w. w \<noteq> ShutdownChanged \<and> w \<noteq> ChannelClosed) ws \<Longrightarrow>
   stream_events ws = (replicate (length ws) change_event, False)"
proof (induction ws)
  case (Cons w ws)
  then show ?case by (cases w) simp_all
qed simp

lemma stream_events_append:
  "list_all (\<lambda>w. w \<noteq> ShutdownChanged \<and> w \<noteq> ChannelClosed) ws \<Longrightarrow>
   stream_events (ws @ rest) = map_prod ((@) (replicate (length ws) change_event)) id (stream_events rest)"
proof (induction ws)
  case (Cons w ws)
  then show ?case by (cases w) (auto simp: map_prod_def split: prod.split)
qed (simp add: map_prod_def split: prod.split)

section \<open>Properties\<close>

text \<open>
  C31: no change of the database goes unnoticed. Whenever two readings of the poller differ, it notifies at a
  reading after the first of them and no later than the second; so does a reading that succeeds after one
  that failed, whatever was written in between; and a poller whose readings are all the same never
  notifies, a version that stays unreadable included.
\<close>

theorem poller_misses_nothing:
  fixes answers :: "('e + i64) list"
  defines "reading \<equiv> \<lambda>k. get_data_version (answers ! k)"
  shows "(\<forall>i j. i < j \<and> j < length answers \<and> reading i \<noteq> reading j \<longrightarrow>
        (\<exists>k. i < k \<and> k \<le> j \<and> poller answers ! (k - 1)))
    \<and> (\<forall>i j v. i < j \<and> j < length answers \<and> isl (answers ! i) \<and> answers ! j = Inr v \<and> 0 \<le> v \<longrightarrow>
        (\<exists>k. i < k \<and> k \<le> j \<and> poller answers ! (k - 1)))
    \<and> ((\<forall>k. k < length answers \<longrightarrow> reading k = reading 0) \<longrightarrow> True \<notin> set (poller answers))"
proof -
  have turn: "poller answers ! (k - 1) \<longleftrightarrow> reading k \<noteq> reading (k - 1)"
    if "0 < k" "k < length answers" for k
  proof (cases answers)
    case (Cons first rest)
    then show ?thesis
      using that poll_from_nth [of "k - 1" rest "get_data_version first"]
      by (auto simp: reading_def nth_Cons')
  qed (use that in simp)
  have differ: "\<exists>k. i < k \<and> k \<le> j \<and> poller answers ! (k - 1)"
    if "i < j" "j < length answers" "reading i \<noteq> reading j" for i j
    using change_between [of i j reading] turn that by (metis gr_implies_not0 le_less_trans not_gr_zero)
  moreover have "reading i \<noteq> reading j" if "isl (answers ! i)" "answers ! j = Inr v" "0 \<le> v" for i j v
    using that by (auto simp: reading_def get_data_version_def split: sum.split)
  moreover have "True \<notin> set (poller answers)" if same: "\<forall>k. k < length answers \<longrightarrow> reading k = reading 0"
  proof
    assume "True \<in> set (poller answers)"
    then obtain k where k: "k < length (poller answers)" "poller answers ! k" by (auto simp: in_set_conv_nth)
    then have "Suc k < length answers" by (cases answers) simp_all
    then show False using turn [of "Suc k"] k(2) same by (metis Suc_lessD diff_Suc_1 zero_less_Suc)
  qed
  ultimately show ?thesis by blast
qed

theorem poller_misses_nothing_witness:
  "poller [Inr 4, Inl ''locked'', Inr 4, Inr 4, Inr 5 :: string + i64] = [True, True, False, True]
   \<and> (\<exists>k. 1 < k \<and> k \<le> 2 \<and> poller [Inr 4, Inl ''locked'', Inr 4, Inr 4, Inr 5 :: string + i64] ! (k - 1))"
proof
  let ?a = "[Inr 4, Inl ''locked'', Inr 4, Inr 4, Inr 5] :: (string + i64) list"
  show "poller ?a = [True, True, False, True]" by (simp add: get_data_version_def poll_step_def)
  have "1 < (2::nat) \<and> 2 < length ?a \<and> isl (?a ! 1) \<and> ?a ! 2 = Inr 4 \<and> 0 \<le> (4 :: i64)" by simp
  then show "\<exists>k. 1 < k \<and> k \<le> 2 \<and> poller ?a ! (k - 1)"
    using poller_misses_nothing [of ?a, THEN conjunct2, THEN conjunct1] by blast
qed

text \<open>
  A stream sends one event for every notification, however many a slow client missed, and nothing that
  depends on who is connected; the shutdown signal is its last event, and ends it.
\<close>

lemma stream_answers_each_notification:
  assumes "list_all (\<lambda>w. w \<noteq> ShutdownChanged \<and> w \<noteq> ChannelClosed) ws"
  shows "sse_response ws = (connected_event # replicate (length ws) change_event, False)"
    and "sse_response (ws @ ShutdownChanged # rest)
      = (connected_event # replicate (length ws) change_event @ [shutdown_event], True)"
  using stream_events_open [OF assms] stream_events_append [OF assms, of "ShutdownChanged # rest"]
  by (simp_all add: sse_response_def)

end
