(* ===== verification/Lifecycle.thy ===== *)
theory Lifecycle
  imports Portal_Prelude
begin

text \<open>
  The decisions \<^verbatim>\<open>main.rs\<close> takes itself around the server: which browser origins are allowed, and how long
  a server that was asked to stop may take. Times are seconds; when the signal arrives and when the server
  would stop by itself are inputs.
\<close>

section \<open>Browser origins\<close>

text \<open>\<open>valid\<close> is \<^verbatim>\<open>HeaderValue::from_str(..).is_ok()\<close>; the answer is the list the layer allows.\<close>

definition cors_layer :: "(string \<Rightarrow> bool) \<Rightarrow> string list \<Rightarrow> string list option" where
  "cors_layer valid origins =
     (if origins = [] then None
      else (let allowed = filter valid origins in if allowed = [] then None else Some allowed))"

section \<open>Draining\<close>

definition MIN_DRAIN_BOUND :: nat where "MIN_DRAIN_BOUND = 30"

definition grace_of :: "bool \<Rightarrow> nat \<Rightarrow> nat" where
  "grace_of graceful_shutdown shutdown_grace_secs = (if graceful_shutdown then shutdown_grace_secs else 0)"

definition drain_bound :: "nat \<Rightarrow> nat" where
  "drain_bound grace = max grace MIN_DRAIN_BOUND"

datatype serve_end = ServerStopped nat | DrainExpired nat | StillServing

text \<open>
  The shutdown future resolves when the grace period after the signal is over, and arms the bound; the
  server is polled first, so it wins a tie.
\<close>

definition serve :: "nat \<Rightarrow> nat option \<Rightarrow> nat option \<Rightarrow> serve_end" where
  "serve grace signal stop =
     (case (signal, stop) of
        (None, None) \<Rightarrow> StillServing
      | (None, Some t) \<Rightarrow> ServerStopped t
      | (Some s, None) \<Rightarrow> DrainExpired (s + grace + drain_bound grace)
      | (Some s, Some t) \<Rightarrow>
          if t \<le> s + grace + drain_bound grace then ServerStopped t
          else DrainExpired (s + grace + drain_bound grace))"

section \<open>Facts\<close>

text \<open>
  Nothing is abandoned without a signal, and then not before the grace period and half a minute more; a
  server that was asked to stop always ends.
\<close>

lemma drain_only_after_signal:
  "serve grace signal stop = DrainExpired t \<Longrightarrow>
   \<exists>s. signal = Some s \<and> s + grace + MIN_DRAIN_BOUND \<le> t \<and> (\<forall>u. stop = Some u \<longrightarrow> t < u)"
  by (auto simp: serve_def drain_bound_def split: option.splits if_splits)

lemma signalled_server_ends:
  "serve grace (Some s) stop \<noteq> StillServing"
  by (auto simp: serve_def split: option.splits)

text \<open>An origin that is no header value is dropped, and a list of only such origins allows none.\<close>

lemma invalid_origins_dropped:
  "cors_layer valid origins = Some allowed \<Longrightarrow> allowed = filter valid origins \<and> allowed \<noteq> []"
  "\<forall>o1 \<in> set origins. \<not> valid o1 \<Longrightarrow> cors_layer valid origins = None"
  by (auto simp: cors_layer_def Let_def filter_empty_conv split: if_splits)

end
