(* ===== verification/Spec2Isabelle.thy ===== *)
theory Spec2Isabelle
  imports Store_Properties Writer Statement_Properties Calendar_Properties Smtp_Properties Worker_Emails
    Config_Properties Handler_Properties Proxy_Properties Key_Properties
    Recovery_Properties Retention_Properties Dashboard_Properties Migration_Properties Api_Properties Keygen_Properties
    Events Lifecycle
begin

text \<open>
  A model of the partner portal: a reverse proxy in front of an inference API that meters every
  request into SQLite and bills partners once a day, after the fact. The source is the Rust crate
  under \<^verbatim>\<open>src/src\<close>; the theories below translate its logic and prove what makes it correct.

  \<^bold>\<open>How the parts interact.\<close> A request arrives with a bearer token. The middleware resolves it
  against a snapshot of the partner keys (\<open>apikeys\<close>), which carries the partner's price list and
  whether it is suspended. The handler asks the ledger to accept the request, sends it upstream, relays
  the answer and hands the ledger one terminal record with the token counts it could read. The ledger
  writer stores records in batches and keeps an hourly rollup in step with them. The billing worker
  closes a day after its end: it prices the usage of each partner, writes one statement, and emails it;
  an unpaid invoice past its deadline suspends the partner at the next reload of the snapshot.

  \<^bold>\<open>Theories.\<close>

  \<^item> \<open>Portal_Prelude\<close>, \<open>Utf8\<close>: Rust integers (an \<^typ>\<open>int\<close> with its range, checked and wrapping
    operations written out), panics (\<open>run\<close>), results (sums, \<^const>\<open>Inl\<close> the error), byte strings.
  \<^item> \<open>Pricing\<close> (\<^verbatim>\<open>billing/pricing.rs\<close>): amounts, the price parser, the cost of a line. The cost
    is the exact rational rounded half up, and the parser is exact on every accepted text.
  \<^item> \<open>Timefmt\<close>, \<open>Period\<close>, \<open>Gregorian\<close>, \<open>Calendar_Properties\<close> (\<^verbatim>\<open>ledger/timefmt.rs\<close>,
    \<^verbatim>\<open>billing/period.rs\<close>): timestamp texts whose byte order is the order of time, billing days and
    their half-open windows. The calendar of the \<^verbatim>\<open>time\<close> crate is the parameter \<open>T\<close>; its documented
    laws are the locale \<open>time_laws\<close>, interpreted on the Gregorian calendar written out in \<open>Gregorian\<close>.
  \<^item> \<open>Status\<close>, \<open>Partner\<close>, \<open>Scope\<close> (\<^verbatim>\<open>billing/status.rs\<close>, \<^verbatim>\<open>billing/partner.rs\<close>,
    \<^verbatim>\<open>auth/context.rs\<close>, \<^verbatim>\<open>auth/scope.rs\<close>): the service status, what a request knows of its
    partner, and which consumers a query may read.
  \<^item> \<open>Schema\<close>, \<open>Ledger_Types\<close>, \<open>Rollup\<close>, \<open>Ledger_Rows\<close>, \<open>Writer\<close> (\<^verbatim>\<open>ledger/schema.sql\<close>,
    \<^verbatim>\<open>types.rs\<close>, \<^verbatim>\<open>rollup.rs\<close>, \<^verbatim>\<open>writer.rs\<close>): the tables as lists of rows with their
    constraints, the row writes, batches, retries, the bounded queue and the writer task as a step
    relation. The rollup is the sum of the terminal rows after every write; a batch is written whole or
    not at all; an acknowledged record is durable; the queue loses nothing.
  \<^item> \<open>Recovery\<close>, \<open>Retention\<close> and their properties (\<^verbatim>\<open>ledger/recovery.rs\<close>,
    \<^verbatim>\<open>ledger/instance.rs\<close>, \<^verbatim>\<open>ledger/retention.rs\<close>): what a start-up does to requests of a process
    that is gone, and what a retention sweep removes.
  \<^item> \<open>Store\<close>, \<open>Statement_Store\<close>, \<open>Billing_Invariants\<close>, \<open>Issue_Once\<close>, \<open>Store_Properties\<close>
    (\<^verbatim>\<open>billing/store.rs\<close>): partners, prices, statements, payments and email leases. The integrity of
    the tables and the immutability of what was issued hold over runs of all operations.
  \<^item> \<open>Statements\<close>, \<open>Statement_Facts\<close>, \<open>Statement_Properties\<close> (\<^verbatim>\<open>billing/statements.rs\<close>): the
    usage of a day becomes a statement: every request counted once, every token charged exactly.
  \<^item> \<open>Email\<close>, \<open>Smtp\<close>, \<open>Smtp_Properties\<close> (\<^verbatim>\<open>billing/email.rs\<close>, \<^verbatim>\<open>config/smtp.rs\<close>): the
    message and the SMTP conversation against the script of what the relay sends.
  \<^item> \<open>Worker\<close>, \<open>Worker_Properties\<close>, \<open>Worker_Emails\<close> (\<^verbatim>\<open>billing/worker.rs\<close>): one tick and the
    scheduler as a sequence of ticks.
  \<^item> \<open>Config\<close>, \<open>Config_Properties\<close> (\<^verbatim>\<open>config/*.rs\<close>): validation, redaction, reloads.
  \<^item> \<open>Usage\<close>, \<open>Sse_Scan\<close>, \<open>Scan_Properties\<close> (\<^verbatim>\<open>proxy/usage.rs\<close>, \<^verbatim>\<open>proxy/sse_scan.rs\<close>): the
    token counts in bodies and events; the incremental scanner refines a reading of the whole stream.
  \<^item> \<open>Proxy_Client\<close>, \<open>Proxy_Responses\<close>, \<open>Handler\<close>, \<open>Stream_Properties\<close>,
    \<open>Handler_Properties\<close>, \<open>Proxy_Properties\<close> (\<^verbatim>\<open>proxy/client.rs\<close>, \<^verbatim>\<open>proxy/handler.rs\<close>, the route
    of \<^verbatim>\<open>main.rs\<close>): one request as the list of its effects and its answer.
  \<^item> \<open>Crypto\<close>, \<open>Crypto_Properties\<close>, \<open>Api_Keys\<close>, \<open>Key_Table\<close>, \<open>Auth\<close>, \<open>Key_Properties\<close>
    (\<^verbatim>\<open>crypto.rs\<close>, \<^verbatim>\<open>apikeys/*.rs\<close>, \<^verbatim>\<open>auth/middleware.rs\<close>): the key table and its
    operations, the snapshot, the identity of a request, and who is served.
  \<^item> \<open>Cursor\<close>, \<open>Dashboard\<close> and their properties (\<^verbatim>\<open>dashboard/api.rs\<close>): windows and filters, the
    summary, the time series, the request list with its signed cursor. A partner reads its own rows alone,
    the pages cover them exactly, and the aggregates agree with them.
  \<^item> \<open>Events\<close> (\<^verbatim>\<open>dashboard/sse.rs\<close>): the poller and the stream that tells a dashboard to read again.
  \<^item> \<open>Migration\<close>, \<open>Migration_Properties\<close> (\<^verbatim>\<open>ledger/mod.rs\<close>, \<^verbatim>\<open>ledger/schema.sql\<close>): opening a
    ledger file, one step per statement; an upgrade that is interrupted anywhere is completed by the next.
  \<^item> \<open>Billing_Api\<close>, \<open>Admin_Api\<close>, \<open>Api_Properties\<close> (\<^verbatim>\<open>billing/api.rs\<close>, \<^verbatim>\<open>admin/*.rs\<close>): the HTTP
    surfaces over the store. A handler is the sequence of its store calls, each over the tables it finds; its
    answer is a record or an error with its status. Who may call, what a partner is shown, that the status
    page and the request path agree, that a payment which is reported is recorded.
  \<^item> \<open>Keygen\<close>, \<open>Keygen_Properties\<close> (\<^verbatim>\<open>keygen.rs\<close>, \<^verbatim>\<open>main.rs\<close>): the provisioning command, from the
    argument vector to what it prints and leaves in the tables.
  \<^item> \<open>Lifecycle\<close> (\<^verbatim>\<open>main.rs\<close>): allowed browser origins and the bound on draining.

  \<^bold>\<open>Conventions.\<close> A text is its UTF-8 bytes. Code that is not in the repository is a parameter with
  the laws a theorem needs as named hypotheses: the time crate \<open>T\<close>, the binding of unsigned counts
  \<open>B\<close>, the JSON library \<open>J\<close>, the \<^verbatim>\<open>http\<close> crate \<open>H\<close>, URL, YAML and socket address parsers, TLS
  and the relay, SHA-256 and hex \<open>K\<close>, the Debug form of a text. Every operation on the database takes the failures SQLite may
  report as arguments; time and what other instances do enter the same way. Loops over data are
  structural or end by a measure, so there is no fuel (a client that follows the pages of a list takes as
  many as it asks for, and one more than there are rows is enough); a body that never ends is the answer
  \<open>NoAnswer\<close>. The width of an integer is kept where it can overflow.

  \<^bold>\<open>Not modelled.\<close> Routing and the writing of answers as JSON (axum, serde); the SQL text itself and the
  pragmas of a connection; the file system side of the instance locks; log and metric output; the order in
  which \<^verbatim>\<open>main.rs\<close> starts and stops the components; embedded assets, the front end, benchmarks, and
  tests. Locks and connections appear as the atomic transactions they make possible.
\<close>

end
